(* ===== verification/Prelude.thy ===== *)
theory Prelude
  imports Main "HOL-Library.AList" "HOL-Library.Sublist"
begin

text \<open>
  Shared vocabulary of the development: instants and durations, Go maps, the string functions of
  Go's \<open>strings\<close> package that the sources use, and the collections of facts the component
  theories add to.

  A Go map that the code ranges over is an association list (\<open>gomap\<close>): the order of the list is
  the order in which the \<open>range\<close> loop happens to visit the keys, which Go leaves open, so a
  theorem about every association list holds for every visiting order. A Go map that is only
  looked up and updated is also an association list, read with \<open>map_of\<close>. A Go string is a byte
  string, which is what \<open>char list\<close> is.
\<close>

named_theorems go_strings \<open>equations of the Go string functions\<close>
named_theorems go_frame \<open>what an operation leaves unchanged\<close>

text \<open>
  An instant (\<open>time.Time\<close>) is counted in nanoseconds from Go's zero time, so \<open>IsZero\<close> is equality
  with 0 and \<open>Before\<close> is \<open><\<close>; a \<open>time.Duration\<close> is a number of nanoseconds.
\<close>

type_synonym time = int
type_synonym duration = int

definition second :: duration where
  "second = 1000000000"

definition minute :: duration where
  "minute = 60 * second"

section \<open>Go maps\<close>

type_synonym ('k, 'v) gomap = "('k \<times> 'v) list"

text \<open>\<open>m[k]\<close> on a map of strings: the zero value, the empty string, for an absent key.\<close>

definition str_at :: "(string, string) gomap \<Rightarrow> string \<Rightarrow> string" where
  "str_at m k = (case map_of m k of None \<Rightarrow> [] | Some v \<Rightarrow> v)"

text \<open>\<open>for k, v := range m { base[k] = v }\<close>, the loop that copies one map into another.\<close>

definition copy_into :: "('k, 'v) gomap \<Rightarrow> ('k, 'v) gomap \<Rightarrow> ('k, 'v) gomap" where
  "copy_into m base = fold (\<lambda>(k, v) acc. AList.update k v acc) m base"

lemma map_of_update [simp]: "map_of (AList.update k v m) = (map_of m)(k \<mapsto> v)"
  by (rule update_conv')

lemma map_of_delete [simp]: "map_of (AList.delete k m) = (map_of m)(k := None)"
  by (rule delete_conv')

lemma map_of_fold_update:
  "distinct (map fst m) \<Longrightarrow>
     map_of (fold (\<lambda>(k, v) acc. AList.update k v acc) m base) = map_of base ++ map_of m"
proof (induction m arbitrary: base)
  case Nil
  show ?case by simp
next
  case (Cons kv m)
  obtain k v where kv: "kv = (k, v)" by (cases kv)
  have "k \<notin> dom (map_of m)"
    using Cons.prems kv by (simp add: dom_map_of_conv_image_fst)
  then have "(map_of base)(k \<mapsto> v) ++ map_of m = map_of base ++ (map_of m)(k \<mapsto> v)"
    by (auto simp: map_add_def fun_eq_iff split: option.splits)
  moreover have "map_of (kv # m) = (map_of m)(k \<mapsto> v)" by (simp add: kv)
  moreover have "map_of (fold (\<lambda>(k, v) acc. AList.update k v acc) (kv # m) base)
      = (map_of base)(k \<mapsto> v) ++ map_of m"
    using Cons by (simp add: kv)
  ultimately show ?case by metis
qed

lemma map_of_copy_into:
  "distinct (map fst m) \<Longrightarrow> map_of (copy_into m base) = map_of base ++ map_of m"
  by (simp add: copy_into_def map_of_fold_update)

text \<open>Without distinct keys the last binding of a key counts.\<close>

lemma map_of_copy_rev: "map_of (copy_into m base) = map_of base ++ map_of (rev m)"
  unfolding copy_into_def
  by (induction m arbitrary: base rule: rev_induct) (auto simp: map_add_def fun_eq_iff)

lemma distinct_fold_update:
  "distinct (map fst base) \<Longrightarrow>
     distinct (map fst (fold (\<lambda>(k, v) acc. AList.update k v acc) m base))"
  by (induction m arbitrary: base) (auto simp: distinct_update split: prod.splits)

lemma distinct_copy_into: "distinct (map fst base) \<Longrightarrow> distinct (map fst (copy_into m base))"
  by (simp add: copy_into_def distinct_fold_update)

section \<open>Go strings\<close>

text \<open>\<open>strings.HasPrefix(s, p)\<close>.\<close>

definition has_prefix :: "string \<Rightarrow> string \<Rightarrow> bool" where
  "has_prefix s p \<longleftrightarrow> take (length p) s = p"

text \<open>\<open>strings.TrimPrefix(s, p)\<close>.\<close>

definition trim_prefix :: "string \<Rightarrow> string \<Rightarrow> string" where
  "trim_prefix s p = (if has_prefix s p then drop (length p) s else s)"

text \<open>\<open>strings.Contains(s, sub)\<close>.\<close>

fun str_contains :: "string \<Rightarrow> string \<Rightarrow> bool" where
  "str_contains [] sub \<longleftrightarrow> sub = []"
| "str_contains (c # s) sub \<longleftrightarrow> has_prefix (c # s) sub \<or> str_contains s sub"

text \<open>ASCII lower case, which is all \<open>strings.EqualFold\<close> needs on ASCII arguments.\<close>

definition lower_char :: "char \<Rightarrow> char" where
  "lower_char c =
     (let n = of_char c :: nat in if 65 \<le> n \<and> n \<le> 90 then char_of (n + 32) else c)"

definition equal_fold :: "string \<Rightarrow> string \<Rightarrow> bool" where
  "equal_fold s t \<longleftrightarrow> map lower_char s = map lower_char t"

lemma has_prefix_iff [go_strings]: "has_prefix s p \<longleftrightarrow> (\<exists>t. s = p @ t)"
proof
  assume "has_prefix s p"
  then have "s = p @ drop (length p) s"
    unfolding has_prefix_def by (metis append_take_drop_id)
  then show "\<exists>t. s = p @ t" ..
qed (auto simp: has_prefix_def)

lemma str_contains_iff [go_strings]: "str_contains s sub \<longleftrightarrow> (\<exists>a b. s = a @ sub @ b)"
proof (induction s)
  case Nil
  show ?case by auto
next
  case (Cons c s)
  have "(\<exists>a b. c # s = a @ sub @ b) \<longleftrightarrow>
        (\<exists>b. c # s = sub @ b) \<or> (\<exists>a b. s = a @ sub @ b)"
    by (metis Cons_eq_append_conv append_Cons append_Nil)
  with Cons show ?case by (simp add: has_prefix_iff)
qed

text \<open>\<open>strings.Split(s, sep)\<close> for a one-character separator: never the empty list.\<close>

fun split_on :: "char \<Rightarrow> string \<Rightarrow> string list" where
  "split_on sep [] = [[]]"
| "split_on sep (c # s) =
     (if c = sep then [] # split_on sep s
      else (case split_on sep s of [] \<Rightarrow> [[c]] | p # ps \<Rightarrow> (c # p) # ps))"

text \<open>\<open>strings.Join(parts, sep)\<close>.\<close>

fun join_with :: "string \<Rightarrow> string list \<Rightarrow> string" where
  "join_with sep [] = []"
| "join_with sep [p] = p"
| "join_with sep (p # q # ps) = p @ sep @ join_with sep (q # ps)"

lemma split_on_nonempty [simp]: "split_on sep s \<noteq> []"
  by (cases s) (auto split: list.splits)

lemma join_split: "join_with [sep] (split_on sep s) = s"
proof (induction s)
  case Nil
  show ?case by simp
next
  case (Cons c s)
  obtain p ps where "split_on sep s = p # ps"
    by (cases "split_on sep s") auto
  with Cons show ?case by (cases ps) auto
qed

lemma split_on_no_sep: "p \<in> set (split_on sep s) \<Longrightarrow> sep \<notin> set p"
  by (induction s arbitrary: p) (auto split: list.splits if_splits)

text \<open>\<open>fmt.Sprintf("%d", n)\<close> and \<open>strconv.Itoa\<close>: the decimal digits of an integer.\<close>

definition digit_char :: "nat \<Rightarrow> char" where
  "digit_char d = char_of (48 + d)"

fun nat_digits :: "nat \<Rightarrow> string" where
  "nat_digits n = (if n < 10 then [digit_char n] else nat_digits (n div 10) @ [digit_char (n mod 10)])"

declare nat_digits.simps [simp del]

definition itoa :: "int \<Rightarrow> string" where
  "itoa n = (if n < 0 then CHR ''-'' # nat_digits (nat (- n)) else nat_digits (nat n))"

section \<open>Lists\<close>

text \<open>\<open>xs[i], xs[j] = xs[j], xs[i]\<close>, for indices in range.\<close>

definition swap_at :: "nat \<Rightarrow> nat \<Rightarrow> 'a list \<Rightarrow> 'a list" where
  "swap_at i j xs = xs[i := xs ! j, j := xs ! i]"

lemma length_swap_at [simp]: "length (swap_at i j xs) = length xs"
  by (simp add: swap_at_def)

lemma swap_at_nth:
  "i < length xs \<Longrightarrow> j < length xs \<Longrightarrow> k < length xs \<Longrightarrow>
     swap_at i j xs ! k = (if k = j then xs ! i else if k = i then xs ! j else xs ! k)"
  by (simp add: swap_at_def nth_list_update)

lemma find_SomeD: "find P xs = Some x \<Longrightarrow> P x \<and> x \<in> set xs"
  by (auto simp: find_Some_iff)

lemma find_NoneD: "find P xs = None \<Longrightarrow> x \<in> set xs \<Longrightarrow> \<not> P x"
  by (auto simp: find_None_iff)

end
