(* ===== verification/Domain.thy ===== *)
theory Domain
  imports Prelude
begin

text \<open>
  The data of \<open>internal/domain\<close> and the error codes of \<open>pkg/apierr\<close>: projects and services as the
  compose parser builds them, operation requests and results, the application error, roles,
  access-control entries and audit entries.

  Go's named string types whose values also arrive from outside the program (roles, operation
  types, container states) stay strings, because the code compares them with constants and has
  default branches; \<open>OpStatus\<close>, whose values only the program makes, is a datatype.
\<close>

section \<open>Errors\<close>

text \<open>The error codes of \<open>pkg/apierr/codes.go\<close> the program raises.\<close>

definition ErrUnauthorized :: string where "ErrUnauthorized = ''ERR_UNAUTHORIZED''"
definition ErrForbidden :: string where "ErrForbidden = ''ERR_FORBIDDEN''"
definition ErrTokenInvalid :: string where "ErrTokenInvalid = ''ERR_TOKEN_INVALID''"
definition ErrValidation :: string where "ErrValidation = ''ERR_VALIDATION''"
definition ErrProjectNotFound :: string where "ErrProjectNotFound = ''ERR_PROJECT_NOT_FOUND''"
definition ErrServiceNotFound :: string where "ErrServiceNotFound = ''ERR_SERVICE_NOT_FOUND''"
definition ErrUserNotFound :: string where "ErrUserNotFound = ''ERR_USER_NOT_FOUND''"
definition ErrOperationNotFound :: string where "ErrOperationNotFound = ''ERR_OPERATION_NOT_FOUND''"
definition ErrPortConflict :: string where "ErrPortConflict = ''ERR_PORT_CONFLICT''"
definition ErrNetworkConflict :: string where "ErrNetworkConflict = ''ERR_NETWORK_CONFLICT''"
definition ErrVolumeConflict :: string where "ErrVolumeConflict = ''ERR_VOLUME_CONFLICT''"
definition ErrProjectLocked :: string where "ErrProjectLocked = ''ERR_PROJECT_LOCKED''"
definition ErrOperationInProgress :: string where
  "ErrOperationInProgress = ''ERR_OPERATION_IN_PROGRESS''"
definition ErrImagePullFailed :: string where "ErrImagePullFailed = ''ERR_IMAGE_PULL_FAILED''"
definition ErrContainerFailed :: string where "ErrContainerFailed = ''ERR_CONTAINER_FAILED''"
definition ErrDockerUnavailable :: string where "ErrDockerUnavailable = ''ERR_DOCKER_UNAVAILABLE''"
definition ErrInternal :: string where "ErrInternal = ''ERR_INTERNAL''"

text \<open>The codes no code raises, but clients may know.\<close>

definition ErrTokenExpired :: string where "ErrTokenExpired = ''ERR_TOKEN_EXPIRED''"
definition ErrInvalidProjectID :: string where "ErrInvalidProjectID = ''ERR_INVALID_PROJECT_ID''"
definition ErrInvalidService :: string where "ErrInvalidService = ''ERR_INVALID_SERVICE''"
definition ErrAlreadyRunning :: string where "ErrAlreadyRunning = ''ERR_ALREADY_RUNNING''"
definition ErrAlreadyStopped :: string where "ErrAlreadyStopped = ''ERR_ALREADY_STOPPED''"
definition ErrImageNotFound :: string where "ErrImageNotFound = ''ERR_IMAGE_NOT_FOUND''"
definition ErrDockerTimeout :: string where "ErrDockerTimeout = ''ERR_DOCKER_TIMEOUT''"
definition ErrOperationCancelled :: string where "ErrOperationCancelled = ''ERR_OPERATION_CANCELLED''"
definition ErrOperationTimeout :: string where "ErrOperationTimeout = ''ERR_OPERATION_TIMEOUT''"
definition ErrRollbackFailed :: string where "ErrRollbackFailed = ''ERR_ROLLBACK_FAILED''"
definition ErrPartialFailure :: string where "ErrPartialFailure = ''ERR_PARTIAL_FAILURE''"
definition ErrComposeParse :: string where "ErrComposeParse = ''ERR_COMPOSE_PARSE''"
definition ErrEnvResolution :: string where "ErrEnvResolution = ''ERR_ENV_RESOLUTION''"
definition ErrSymlinkLoop :: string where "ErrSymlinkLoop = ''ERR_SYMLINK_LOOP''"
definition ErrDatabaseUnavailable :: string where "ErrDatabaseUnavailable = ''ERR_DB_UNAVAILABLE''"

text \<open>\<open>apierr.PartialFailureDetails\<close>, which no code fills either.\<close>

record PartialFailureDetails =
  pf_succeeded :: "string list"
  pf_failed :: "string list"

text \<open>
  What the code puts into the \<open>Details\<close> field of an error: nothing, the holder of a project lock
  (\<open>map[string]string{"operation_id": holder}\<close>), or \<open>apierr.PortConflictDetails\<close> with its port,
  protocol and blocking container.
\<close>

datatype err_details =
    NilDetails
  | OperationIDDetails string
  | PortConflictDetails int string string

text \<open>
  The \<open>error\<close> interface: an \<open>*AppError\<close>, or any other error by its message. \<open>AppError.Err\<close> is the
  wrapped error, \<open>None\<close> for nil.
\<close>

datatype go_error =
    AppError (ae_code: string) (ae_message: string) (ae_details: err_details) (ae_status: int)
      (ae_err: "go_error option")
  | PlainError string

text \<open>\<open>Error()\<close>.\<close>

fun error_string :: "go_error \<Rightarrow> string" where
  "error_string (PlainError s) = s"
| "error_string (AppError c m d st None) = c @ '': '' @ m"
| "error_string (AppError c m d st (Some e)) = c @ '': '' @ m @ '': '' @ error_string e"

text \<open>\<open>NewAppError\<close>: no details, nothing wrapped.\<close>

definition NewAppError :: "string \<Rightarrow> string \<Rightarrow> int \<Rightarrow> go_error" where
  "NewAppError code message st = AppError code message NilDetails st None"

text \<open>\<open>WithDetails\<close> and \<open>WithErr\<close>, methods of \<open>*AppError\<close>.\<close>

fun with_details :: "err_details \<Rightarrow> go_error \<Rightarrow> go_error" where
  "with_details d (AppError c m d0 st e) = AppError c m d st e"
| "with_details d (PlainError s) = PlainError s"

fun with_err :: "go_error \<Rightarrow> go_error \<Rightarrow> go_error" where
  "with_err e (AppError c m d st e0) = AppError c m d st (Some e)"
| "with_err e (PlainError s) = PlainError s"

text \<open>The constructors of \<open>domain/errors.go\<close>, which share their names with the codes.\<close>

definition new_unauthorized :: "string \<Rightarrow> go_error" where
  "new_unauthorized msg = NewAppError ErrUnauthorized msg 401"

definition new_forbidden :: "string \<Rightarrow> go_error" where
  "new_forbidden msg = NewAppError ErrForbidden msg 403"

definition new_not_found :: "string \<Rightarrow> string \<Rightarrow> go_error" where
  "new_not_found code msg = NewAppError code msg 404"

definition new_conflict :: "string \<Rightarrow> string \<Rightarrow> go_error" where
  "new_conflict code msg = NewAppError code msg 409"

definition new_validation :: "string \<Rightarrow> go_error" where
  "new_validation msg = NewAppError ErrValidation msg 422"

definition new_internal :: "string \<Rightarrow> go_error option \<Rightarrow> go_error" where
  "new_internal msg err = AppError ErrInternal msg NilDetails 500 err"

text \<open>\<open>Unwrap\<close>.\<close>

fun unwrap :: "go_error \<Rightarrow> go_error option" where
  "unwrap (AppError c m d st e) = e"
| "unwrap (PlainError m) = None"

section \<open>Projects and services\<close>

type_synonym ProjectID = string

datatype ProjectStatus =
    ProjectStatusRunning | ProjectStatusPartial | ProjectStatusStopped | ProjectStatusUnknown

text \<open>\<open>string(status)\<close>.\<close>

fun project_status_string :: "ProjectStatus \<Rightarrow> string" where
  "project_status_string ProjectStatusRunning = ''running''"
| "project_status_string ProjectStatusPartial = ''partial''"
| "project_status_string ProjectStatusStopped = ''stopped''"
| "project_status_string ProjectStatusUnknown = ''unknown''"

definition StateCreated :: string where "StateCreated = ''created''"
definition StateRunning :: string where "StateRunning = ''running''"
definition StatePaused :: string where "StatePaused = ''paused''"
definition StateRestarting :: string where "StateRestarting = ''restarting''"
definition StateRemoving :: string where "StateRemoving = ''removing''"
definition StateExited :: string where "StateExited = ''exited''"
definition StateDead :: string where "StateDead = ''dead''"

definition HealthNone :: string where "HealthNone = ''none''"
definition HealthStarting :: string where "HealthStarting = ''starting''"
definition HealthHealthy :: string where "HealthHealthy = ''healthy''"
definition HealthUnhealthy :: string where "HealthUnhealthy = ''unhealthy''"

record BuildConfig =
  bc_context :: string
  bc_dockerfile :: string
  bc_args :: "(string, string) gomap"
  bc_target :: string

record PortMapping =
  pm_hostip :: string
  pm_hostport :: string
  pm_containerport :: string
  pm_protocol :: string

record VolumeMount =
  vm_source :: string
  vm_target :: string
  vm_type :: string
  vm_readonly :: bool

record Network =
  net_name :: string
  net_driver :: string
  net_external :: bool
  net_labels :: "(string, string) gomap"

record Volume =
  vol_name :: string
  vol_driver :: string
  vol_external :: bool
  vol_labels :: "(string, string) gomap"

text \<open>\<open>DependsOn\<close> maps a service name to its \<open>ServiceDependency\<close>, whose one field is a condition.\<close>

record Service =
  svc_name :: string
  svc_image :: string
  svc_build :: "BuildConfig option"
  svc_ports :: "PortMapping list"
  svc_environment :: "(string, string) gomap"
  svc_labels :: "(string, string) gomap"
  svc_depends :: "(string, string) gomap"
  svc_profiles :: "string list"
  svc_volumes :: "VolumeMount list"
  svc_networks :: "string list"
  svc_restart :: string
  svc_command :: "string list"
  svc_entrypoint :: "string list"
  svc_containerid :: string
  svc_state :: string
  svc_health :: string

section \<open>Operations\<close>

definition OpUp :: string where "OpUp = ''up''"
definition OpDown :: string where "OpDown = ''down''"
definition OpStart :: string where "OpStart = ''start''"
definition OpStop :: string where "OpStop = ''stop''"
definition OpRestart :: string where "OpRestart = ''restart''"

text \<open>An operation type the executor refuses.\<close>

definition OpPull :: string where "OpPull = ''pull''"

datatype OpStatus =
    OpStatusPending | OpStatusRunning | OpStatusSucceeded | OpStatusFailed | OpStatusCancelled
  | OpStatusRolledBack

text \<open>\<open>string(status)\<close>.\<close>

fun status_string :: "OpStatus \<Rightarrow> string" where
  "status_string OpStatusPending = ''pending''"
| "status_string OpStatusRunning = ''running''"
| "status_string OpStatusSucceeded = ''succeeded''"
| "status_string OpStatusFailed = ''failed''"
| "status_string OpStatusCancelled = ''cancelled''"
| "status_string OpStatusRolledBack = ''rolled_back''"

text \<open>\<open>Services\<close> is \<open>None\<close> for the nil slice, which \<open>run\<close> tells apart from an empty one.\<close>

record OperationScope =
  sc_project :: ProjectID
  sc_services :: "string list option"

record OperationRequest =
  req_id :: string
  req_type :: string
  req_scope :: OperationScope
  req_user :: string
  req_priority :: int
  req_timeout :: duration
  req_created :: time

record OpError =
  oe_code :: string
  oe_message :: string

record OpStep =
  st_service :: string
  st_action :: string
  st_status :: OpStatus
  st_error :: string
  st_duration :: duration

record OperationResult =
  res_request :: string
  res_status :: OpStatus
  res_started :: "time option"
  res_finished :: "time option"
  res_error :: "OpError option"
  res_steps :: "OpStep list"

record Project =
  pr_id :: ProjectID
  pr_name :: string
  pr_path :: string
  pr_composefiles :: "string list"
  pr_envfiles :: "string list"
  pr_services :: "Service list"
  pr_networks :: "(string, Network) gomap"
  pr_volumes :: "(string, Volume) gomap"
  pr_profiles :: "string list"
  pr_status :: ProjectStatus
  pr_lastop :: "OperationResult option"
  pr_discovered :: time
  pr_updated :: time

text \<open>A nil slice and an empty one have the same elements.\<close>

definition slice :: "'a list option \<Rightarrow> 'a list" where
  "slice xs = (case xs of None \<Rightarrow> [] | Some ys \<Rightarrow> ys)"

section \<open>Users, access control and audit\<close>

type_synonym Role = string

definition RoleAdmin :: Role where "RoleAdmin = ''admin''"
definition RoleOperator :: Role where "RoleOperator = ''operator''"
definition RoleViewer :: Role where "RoleViewer = ''viewer''"

record User =
  u_id :: string
  u_username :: string
  u_email :: string
  u_passwordhash :: string
  u_role :: Role
  u_created :: time
  u_updated :: time

record ProjectACL =
  acl_user :: string
  acl_project :: string
  acl_role :: Role
  acl_grantedby :: string
  acl_grantedat :: time

text \<open>\<open>Scope\<close> is \<open>None\<close> for a nil \<open>*OpScope\<close>; an \<open>OpScope\<close> is its list of services.\<close>

record AuditEntry =
  au_user :: string
  au_project :: string
  au_operation :: string
  au_scope :: "string list option"
  au_status :: string
  au_errorcode :: string
  au_errormsg :: string
  au_duration :: int
  au_created :: time

record PaginationOpts =
  po_offset :: int
  po_limit :: int

lemmas code_consts =
  ErrUnauthorized_def ErrForbidden_def ErrTokenInvalid_def ErrValidation_def
  ErrProjectNotFound_def ErrServiceNotFound_def ErrUserNotFound_def ErrOperationNotFound_def
  ErrPortConflict_def ErrNetworkConflict_def ErrVolumeConflict_def ErrProjectLocked_def
  ErrOperationInProgress_def ErrImagePullFailed_def ErrContainerFailed_def
  ErrDockerUnavailable_def ErrInternal_def

lemmas role_consts = RoleAdmin_def RoleOperator_def RoleViewer_def

lemmas op_consts = OpUp_def OpDown_def OpStart_def OpStop_def OpRestart_def

lemma roles_distinct [simp]:
  "RoleAdmin \<noteq> RoleOperator" "RoleOperator \<noteq> RoleAdmin" "RoleAdmin \<noteq> RoleViewer"
  "RoleViewer \<noteq> RoleAdmin" "RoleOperator \<noteq> RoleViewer" "RoleViewer \<noteq> RoleOperator"
  "RoleAdmin \<noteq> []" "RoleOperator \<noteq> []" "RoleViewer \<noteq> []"
  by (simp_all add: role_consts)

lemma ops_distinct [simp]:
  "OpUp \<noteq> OpDown" "OpUp \<noteq> OpStart" "OpUp \<noteq> OpStop" "OpUp \<noteq> OpRestart"
  "OpDown \<noteq> OpUp" "OpDown \<noteq> OpStart" "OpDown \<noteq> OpStop" "OpDown \<noteq> OpRestart"
  "OpStart \<noteq> OpUp" "OpStart \<noteq> OpDown" "OpStart \<noteq> OpStop" "OpStart \<noteq> OpRestart"
  "OpStop \<noteq> OpUp" "OpStop \<noteq> OpDown" "OpStop \<noteq> OpStart" "OpStop \<noteq> OpRestart"
  "OpRestart \<noteq> OpUp" "OpRestart \<noteq> OpDown" "OpRestart \<noteq> OpStart" "OpRestart \<noteq> OpStop"
  by (simp_all add: op_consts)

text \<open>
  The texts clients see tell the values apart: no two error codes, statuses, states, roles or types of
  operation share one.
\<close>

lemmas unused_codes =
  ErrTokenExpired_def ErrInvalidProjectID_def ErrInvalidService_def ErrAlreadyRunning_def ErrAlreadyStopped_def
  ErrImageNotFound_def ErrDockerTimeout_def ErrOperationCancelled_def ErrOperationTimeout_def ErrRollbackFailed_def
  ErrPartialFailure_def ErrComposeParse_def ErrEnvResolution_def ErrSymlinkLoop_def ErrDatabaseUnavailable_def

lemma codes_distinct:
  "distinct
     [ErrUnauthorized, ErrForbidden, ErrTokenExpired, ErrTokenInvalid, ErrValidation, ErrInvalidProjectID,
      ErrInvalidService, ErrProjectNotFound, ErrServiceNotFound, ErrUserNotFound, ErrOperationNotFound,
      ErrPortConflict, ErrNetworkConflict, ErrVolumeConflict, ErrProjectLocked, ErrOperationInProgress,
      ErrAlreadyRunning, ErrAlreadyStopped, ErrImageNotFound, ErrImagePullFailed, ErrContainerFailed,
      ErrDockerUnavailable, ErrDockerTimeout, ErrOperationCancelled, ErrOperationTimeout,
      ErrRollbackFailed, ErrPartialFailure, ErrComposeParse, ErrEnvResolution, ErrSymlinkLoop,
      ErrInternal, ErrDatabaseUnavailable]"
  by (simp add: code_consts unused_codes)

lemma status_string_inj: "status_string a = status_string b \<longleftrightarrow> a = b"
  by (cases a; cases b) simp_all

lemma project_status_string_inj: "project_status_string a = project_status_string b \<longleftrightarrow> a = b"
  by (cases a; cases b) simp_all

end
