(* ===== verification/GoPath.thy ===== *)
theory GoPath
  imports Prelude
begin

text \<open>
  The functions of Go's \<open>path/filepath\<close> (on Unix) that discovery and the Docker operations use:
  \<open>Clean\<close>, \<open>Join\<close> of two elements, \<open>Base\<close>, \<open>Dir\<close> and \<open>IsAbs\<close>. They are lexical: no file system is
  consulted.
\<close>

abbreviation slash :: char where
  "slash \<equiv> CHR ''/''"

definition path_is_abs :: "string \<Rightarrow> bool" where
  "path_is_abs p = has_prefix p ''/''"

text \<open>
  One path element pushed on the reversed list of the elements kept so far: empty elements and
  \<open>.\<close> vanish, \<open>..\<close> removes the element before it, or stays at the front of a relative path.
\<close>

definition clean_step :: "bool \<Rightarrow> string list \<Rightarrow> string \<Rightarrow> string list" where
  "clean_step rooted acc e =
     (if e = [] \<or> e = ''.'' then acc
      else if e = ''..'' then
        (case acc of
           [] \<Rightarrow> if rooted then [] else [''..'']
         | x # xs \<Rightarrow> if x = ''..'' then ''..'' # acc else xs)
      else e # acc)"

definition path_clean :: "string \<Rightarrow> string" where
  "path_clean p =
     (let rooted = path_is_abs p;
          es = rev (foldl (clean_step rooted) [] (split_on slash p));
          out = (if rooted then ''/'' else []) @ join_with ''/'' es
      in if out = [] then ''.'' else out)"

definition path_join :: "string \<Rightarrow> string \<Rightarrow> string" where
  "path_join a b =
     (if a \<noteq> [] then path_clean (a @ ''/'' @ b) else if b \<noteq> [] then path_clean b else [])"

definition path_base :: "string \<Rightarrow> string" where
  "path_base p =
     (if p = [] then ''.''
      else let q = rev (dropWhile (\<lambda>c. c = slash) (rev p));
               b = rev (takeWhile (\<lambda>c. c \<noteq> slash) (rev q))
           in if b = [] then ''/'' else b)"

definition path_dir :: "string \<Rightarrow> string" where
  "path_dir p = path_clean (rev (dropWhile (\<lambda>c. c \<noteq> slash) (rev p)))"

lemma path_base_no_slash:
  "path_base p \<noteq> ''/'' \<Longrightarrow> slash \<notin> set (path_base p)"
  by (auto simp: path_base_def Let_def split: if_splits dest: set_takeWhileD)

lemma path_join_abs: "path_is_abs a \<Longrightarrow> path_is_abs (path_join a b)"
  by (auto simp: path_join_def path_clean_def path_is_abs_def has_prefix_iff Let_def)

end
