(* ===== verification/GoStrings.thy ===== *)
theory GoStrings
  imports Prelude "HOL-Library.Char_ord" "HOL-Library.List_Lexorder"
begin

text \<open>
  The functions of Go's \<open>strings\<close>, \<open>strconv\<close>, \<open>bufio\<close> and \<open>fmt\<close> packages that discovery, the
  configuration, the store and the HTTP handlers use: cutting, splitting and trimming, the line
  scanner, quoting, and the decimal reader that inverts \<open>itoa\<close>.

  White space is the six ASCII space characters; the further spaces of Unicode, which Go's
  \<open>TrimSpace\<close> and \<open>Fields\<close> also know, are not modelled. Strings are ordered bytewise, as
  \<open>sort.Strings\<close> orders them, by the library's lexicographic order of lists of characters.
\<close>

section \<open>Trimming\<close>

definition is_space :: "char \<Rightarrow> bool" where
  "is_space c = ((of_char c :: nat) \<in> set [9, 10, 11, 12, 13, 32])"

definition trim_left :: "(char \<Rightarrow> bool) \<Rightarrow> string \<Rightarrow> string" where
  "trim_left P s = dropWhile P s"

definition trim_right :: "(char \<Rightarrow> bool) \<Rightarrow> string \<Rightarrow> string" where
  "trim_right P s = rev (dropWhile P (rev s))"

definition trim_where :: "(char \<Rightarrow> bool) \<Rightarrow> string \<Rightarrow> string" where
  "trim_where P s = trim_right P (trim_left P s)"

text \<open>\<open>strings.TrimSpace(s)\<close>.\<close>

definition trim_space :: "string \<Rightarrow> string" where
  "trim_space s = trim_where is_space s"

lemma dropWhile_none: "(\<And>c. c \<in> set s \<Longrightarrow> \<not> P c) \<Longrightarrow> dropWhile P s = s"
  by (cases s) auto

lemma trim_where_none [go_strings]: "(\<And>c. c \<in> set s \<Longrightarrow> \<not> P c) \<Longrightarrow> trim_where P s = s"
  using dropWhile_none [of s P] dropWhile_none [of "rev s" P]
  by (simp add: trim_where_def trim_left_def trim_right_def)

lemma trim_where_subset: "set (trim_where P s) \<subseteq> set s"
  by (auto simp: trim_where_def trim_left_def trim_right_def dest!: set_dropWhileD)

section \<open>Cutting and splitting\<close>

text \<open>
  \<open>strings.Cut(s, sub)\<close>: what stands before and after the first occurrence of \<open>sub\<close>, \<open>None\<close> for
  the \<open>false\<close> result. The code's \<open>strings.Index\<close> calls slice the string at the index in the same
  way.
\<close>

fun str_cut :: "string \<Rightarrow> string \<Rightarrow> (string \<times> string) option" where
  "str_cut [] sub = (if sub = [] then Some ([], []) else None)"
| "str_cut (c # s) sub =
     (if has_prefix (c # s) sub then Some ([], drop (length sub) (c # s))
      else (case str_cut s sub of None \<Rightarrow> None | Some (a, b) \<Rightarrow> Some (c # a, b)))"

lemma str_cut_SomeD: "str_cut s sub = Some (a, b) \<Longrightarrow> s = a @ sub @ b"
proof (induction s sub arbitrary: a rule: str_cut.induct)
  case (1 sub)
  then show ?case by (simp split: if_splits)
next
  case (2 c s sub)
  show ?case
  proof (cases "has_prefix (c # s) sub")
    case True
    then show ?thesis using "2.prems" by (auto simp: has_prefix_iff)
  next
    case False
    then show ?thesis using "2.prems" "2.IH" by (auto split: option.splits)
  qed
qed

lemma str_cut_None_iff [go_strings]: "str_cut s sub = None \<longleftrightarrow> \<not> str_contains s sub"
  by (induction s sub rule: str_cut.induct) (auto split: option.splits)

lemma str_cut_char: "c \<notin> set a \<Longrightarrow> str_cut (a @ c # b) [c] = Some (a, b)"
  by (induction a) (auto simp: has_prefix_def)

lemma str_cut_char_None [go_strings]: "str_cut s [c] = None \<longleftrightarrow> c \<notin> set s"
proof (induction s)
  case (Cons d s)
  then show ?case by (auto simp: has_prefix_def split: option.splits)
qed simp

lemma str_cut_char_no: "str_cut s [c] = Some (a, b) \<Longrightarrow> c \<notin> set a"
  by (induction s arbitrary: a) (auto simp: has_prefix_def split: option.splits if_splits)

text \<open>The two sides of the last occurrence of a character, by \<open>strings.LastIndex\<close>.\<close>

definition last_cut :: "char \<Rightarrow> string \<Rightarrow> (string \<times> string) option" where
  "last_cut c s =
     (if c \<in> set s
      then Some (rev (tl (dropWhile (\<lambda>x. x \<noteq> c) (rev s))), rev (takeWhile (\<lambda>x. x \<noteq> c) (rev s)))
      else None)"

lemma last_cut_last: "c \<notin> set b \<Longrightarrow> last_cut c (a @ c # b) = Some (a, b)"
proof -
  assume no: "c \<notin> set b"
  then have "takeWhile (\<lambda>x. x \<noteq> c) (rev b @ c # rev a) = rev b"
    by (subst takeWhile_append2) auto
  moreover have "dropWhile (\<lambda>x. x \<noteq> c) (rev b @ c # rev a) = c # rev a"
    using no by (subst dropWhile_append2) auto
  ultimately show ?thesis by (simp add: last_cut_def)
qed

text \<open>\<open>strings.SplitN(s, sep, n)\<close> for a one-character separator and a positive \<open>n\<close>.\<close>

fun split_n :: "nat \<Rightarrow> char \<Rightarrow> string \<Rightarrow> string list" where
  "split_n 0 c s = []"
| "split_n (Suc 0) c s = [s]"
| "split_n (Suc (Suc n)) c s =
     (case str_cut s [c] of None \<Rightarrow> [s] | Some (a, b) \<Rightarrow> a # split_n (Suc n) c b)"

lemma length_split_n: "length (split_n n c s) \<le> n"
  by (induction n c s rule: split_n.induct) (auto split: option.splits)

lemma split_on_append: "c \<notin> set a \<Longrightarrow> split_on c (a @ c # b) = a # split_on c b"
  by (induction a) auto

lemma split_on_single: "c \<notin> set a \<Longrightarrow> split_on c a = [a]"
  by (induction a) auto

text \<open>\<open>strings.Fields(s)\<close>: the maximal runs of non-space characters.\<close>

fun split_where :: "(char \<Rightarrow> bool) \<Rightarrow> string \<Rightarrow> string list" where
  "split_where P [] = [[]]"
| "split_where P (c # s) =
     (if P c then [] # split_where P s
      else (case split_where P s of [] \<Rightarrow> [[c]] | p # ps \<Rightarrow> (c # p) # ps))"

definition str_fields :: "string \<Rightarrow> string list" where
  "str_fields s = filter (\<lambda>w. w \<noteq> []) (split_where is_space s)"

lemma split_where_no: "w \<in> set (split_where P s) \<Longrightarrow> c \<in> set w \<Longrightarrow> \<not> P c"
proof (induction s arbitrary: w)
  case (Cons d s)
  then show ?case by (auto split: list.splits if_splits) blast
qed simp

lemma str_fields_words: "w \<in> set (str_fields s) \<Longrightarrow> w \<noteq> [] \<and> (\<forall>c \<in> set w. \<not> is_space c)"
  by (auto simp: str_fields_def dest: split_where_no)

section \<open>Lines\<close>

text \<open>
  \<open>bufio.Scanner\<close> with the default \<open>ScanLines\<close>: the lines without their end, without a carriage
  return before it, without an empty last line. A line that does not fit into the buffer of
  \<open>cap\<close> bytes stops the scanner.
\<close>

definition newline :: char where "newline = char_of (10 :: nat)"
definition carriage_return :: char where "carriage_return = char_of (13 :: nat)"

definition raw_lines :: "string \<Rightarrow> string list" where
  "raw_lines s = (let ls = split_on newline s in if last ls = [] then butlast ls else ls)"

definition drop_cr :: "string \<Rightarrow> string" where
  "drop_cr l = (if l \<noteq> [] \<and> last l = carriage_return then butlast l else l)"

definition scan_lines :: "nat \<Rightarrow> string \<Rightarrow> string list" where
  "scan_lines cap s = map drop_cr (takeWhile (\<lambda>l. length l < cap) (raw_lines s))"

section \<open>Numbers and quoting\<close>

definition is_digit :: "char \<Rightarrow> bool" where
  "is_digit c = (let n = of_char c :: nat in 48 \<le> n \<and> n \<le> 57)"

definition digit_val :: "char \<Rightarrow> nat" where
  "digit_val c = (of_char c :: nat) - 48"

definition read_nat :: "string \<Rightarrow> nat" where
  "read_nat s = foldl (\<lambda>n c. n * 10 + digit_val c) 0 s"

lemma digit_char_code: "d < 10 \<Longrightarrow> (of_char (digit_char d) :: nat) = 48 + d"
  by (simp add: digit_char_def of_char_of)

lemma is_digit_char [simp]: "d < 10 \<Longrightarrow> is_digit (digit_char d)"
  by (simp add: is_digit_def digit_char_code)

lemma digit_val_char [simp]: "d < 10 \<Longrightarrow> digit_val (digit_char d) = d"
  by (simp add: digit_val_def digit_char_code)

lemma nat_digits_digits: "c \<in> set (nat_digits n) \<Longrightarrow> is_digit c"
proof (induction n rule: nat_digits.induct)
  case (1 n)
  then show ?case by (subst (asm) nat_digits.simps) (auto split: if_splits)
qed

lemma nat_digits_nonempty [simp]: "nat_digits n \<noteq> []"
  by (subst nat_digits.simps) simp

lemma read_nat_digits: "read_nat (nat_digits n) = n"
proof (induction n rule: nat_digits.induct)
  case (1 n)
  show ?case
  proof (cases "n < 10")
    case True
    then show ?thesis by (subst nat_digits.simps) (simp add: read_nat_def)
  next
    case False
    then have "read_nat (nat_digits (n div 10)) = n div 10" by (rule 1)
    then show ?thesis using False
      by (subst nat_digits.simps) (simp add: read_nat_def)
  qed
qed

text \<open>
  \<open>%q\<close>: a double-quoted string with Go's escapes for quotes, backslashes and control characters.
  Characters above the ASCII range are left as they are.
\<close>

definition hex_digit :: "nat \<Rightarrow> char" where
  "hex_digit d = (if d < 10 then digit_char d else char_of (87 + d))"

definition hex_byte :: "nat \<Rightarrow> string" where
  "hex_byte n = [hex_digit (n div 16 mod 16), hex_digit (n mod 16)]"

definition backslash :: char where "backslash = char_of (92 :: nat)"
definition dquote :: char where "dquote = char_of (34 :: nat)"

definition quote_char :: "char \<Rightarrow> string" where
  "quote_char c =
     (let n = of_char c :: nat in
      if n = 34 \<or> n = 92 then [backslash, c]
      else if 7 \<le> n \<and> n \<le> 13 then [backslash, ''abtnvfr'' ! (n - 7)]
      else if n < 32 \<or> n = 127 then [backslash, CHR ''x''] @ hex_byte n
      else [c])"

definition go_quote :: "string \<Rightarrow> string" where
  "go_quote s = [dquote] @ concat (map quote_char s) @ [dquote]"

end
