(* ===== verification/Locker.thy ===== *)
theory Locker
  imports Domain
begin

text \<open>
  The per-project lock of \<open>internal/orchestrator/lock.go\<close>.

  The locker is a map from projects to lock entries, each with the operation that holds it and the
  channel its waiters block on. A channel is a number: \<open>make\<close> takes the next one and \<open>close\<close> adds
  it to the closed channels. Every method body that runs under \<open>l.mu\<close> is one definition; the loop
  of \<open>Acquire\<close>, which blocks between two such sections, is the program counter \<open>lpc\<close> of the
  goroutine that runs it, and \<open>lstep\<close> interleaves any number of goroutines in any order.
\<close>

section \<open>State and critical sections\<close>

record lockEntry =
  le_holder :: string
  le_ch :: nat

record inMemoryLocker =
  lk_locks :: "ProjectID \<rightharpoonup> lockEntry"
  lk_closed :: "nat list"
  lk_next :: nat

definition NewInMemoryLocker :: inMemoryLocker where
  "NewInMemoryLocker = \<lparr>lk_locks = Map.empty, lk_closed = [], lk_next = 0\<rparr>"

text \<open>The section of \<open>Acquire\<close> under the mutex: take a free lock, or read what to wait for.\<close>

datatype acquire_outcome = Acquired | WaitFor nat string

definition acquire_section ::
    "inMemoryLocker \<Rightarrow> ProjectID \<Rightarrow> string \<Rightarrow> acquire_outcome \<times> inMemoryLocker" where
  "acquire_section l p op =
     (case lk_locks l p of
        None \<Rightarrow> (Acquired,
          l\<lparr>lk_locks := (lk_locks l)(p \<mapsto> \<lparr>le_holder = op, le_ch = lk_next l\<rparr>),
            lk_next := Suc (lk_next l)\<rparr>)
      | Some e \<Rightarrow> (WaitFor (le_ch e) (le_holder e), l))"

text \<open>The error of \<open>Acquire\<close> when the context ends first; \<open>entry.holder\<close> was read before waiting.\<close>

definition lock_timeout_error :: "ProjectID \<Rightarrow> string \<Rightarrow> go_error" where
  "lock_timeout_error p holder =
     AppError ErrProjectLocked (''project '' @ p @ '' is locked by operation '' @ holder)
       NilDetails 409 None"

text \<open>\<open>TryAcquire\<close>: the boolean result, and the locker.\<close>

definition TryAcquire :: "inMemoryLocker \<Rightarrow> ProjectID \<Rightarrow> string \<Rightarrow> bool \<times> inMemoryLocker" where
  "TryAcquire l p op =
     (case lk_locks l p of
        Some e \<Rightarrow> (False, l)
      | None \<Rightarrow> (True,
          l\<lparr>lk_locks := (lk_locks l)(p \<mapsto> \<lparr>le_holder = op, le_ch = lk_next l\<rparr>),
            lk_next := Suc (lk_next l)\<rparr>))"

definition IsLocked :: "inMemoryLocker \<Rightarrow> ProjectID \<Rightarrow> bool \<times> string" where
  "IsLocked l p =
     (case lk_locks l p of Some e \<Rightarrow> (True, le_holder e) | None \<Rightarrow> (False, []))"

text \<open>
  The closure \<open>releaseFunc\<close> returns. \<open>None\<close> is the panic of closing a channel that is closed
  already.
\<close>

definition release :: "inMemoryLocker \<Rightarrow> ProjectID \<Rightarrow> inMemoryLocker option" where
  "release l p =
     (case lk_locks l p of
        None \<Rightarrow> Some l
      | Some e \<Rightarrow>
          if le_ch e \<in> set (lk_closed l) then None
          else Some (l\<lparr>lk_closed := le_ch e # lk_closed l,
                       lk_locks := (lk_locks l)(p := None)\<rparr>))"

section \<open>The interface of a project lock\<close>

text \<open>
  What the executor relies on when it holds a \<open>ProjectLocker\<close>: \<open>holder\<close> reads the lock of a
  project, \<open>acq\<close> is the attempt to take it and \<open>rel\<close> gives it back.
\<close>

locale project_lock =
  fixes holder :: "'l \<Rightarrow> 'p \<Rightarrow> 'o option"
    and acq :: "'l \<Rightarrow> 'p \<Rightarrow> 'o \<Rightarrow> 'l option"
    and rel :: "'l \<Rightarrow> 'p \<Rightarrow> 'l"
    and ok :: "'l \<Rightarrow> bool"
  assumes acq_free: "ok l \<Longrightarrow> acq l p op \<noteq> None \<longleftrightarrow> holder l p = None"
    and acq_holder: "ok l \<Longrightarrow> acq l p op = Some l' \<Longrightarrow> holder l' = (holder l)(p \<mapsto> op)"
    and acq_ok: "ok l \<Longrightarrow> acq l p op = Some l' \<Longrightarrow> ok l'"
    and rel_holder: "ok l \<Longrightarrow> holder (rel l p) = (holder l)(p := None)"
    and rel_ok: "ok l \<Longrightarrow> ok (rel l p)"
begin

lemma acq_excludes: "ok l \<Longrightarrow> acq l p op = Some l' \<Longrightarrow> acq l' p op' = None"
  by (metis acq_free acq_holder acq_ok fun_upd_same option.distinct(1))

lemma acq_other: "ok l \<Longrightarrow> acq l p op = Some l' \<Longrightarrow> q \<noteq> p \<Longrightarrow> holder l' q = holder l q"
  by (simp add: acq_holder)

lemma acq_after_rel: "ok l \<Longrightarrow> acq (rel l p) p op \<noteq> None"
  using acq_free [OF rel_ok, of l p p op] by (simp add: rel_holder)

lemma rel_acq: "ok l \<Longrightarrow> acq l p op = Some l' \<Longrightarrow> holder (rel l' p) = holder l"
  by (metis acq_free acq_holder acq_ok fun_upd_triv fun_upd_upd option.distinct(1) rel_holder)

end

section \<open>Well-formed lockers\<close>

text \<open>
  Every entry's channel has been made and is open, and no two projects share a channel. This is
  why \<open>close\<close> never panics.
\<close>

definition locker_wf :: "inMemoryLocker \<Rightarrow> bool" where
  "locker_wf l \<longleftrightarrow>
     (\<forall>p e. lk_locks l p = Some e \<longrightarrow> le_ch e < lk_next l \<and> le_ch e \<notin> set (lk_closed l)) \<and>
     (\<forall>p q e f. lk_locks l p = Some e \<longrightarrow> lk_locks l q = Some f \<longrightarrow> le_ch e = le_ch f \<longrightarrow> p = q) \<and>
     (\<forall>c \<in> set (lk_closed l). c < lk_next l)"

definition lock_holder :: "inMemoryLocker \<Rightarrow> ProjectID \<Rightarrow> string option" where
  "lock_holder l p = map_option le_holder (lk_locks l p)"

definition try_take :: "inMemoryLocker \<Rightarrow> ProjectID \<Rightarrow> string \<Rightarrow> inMemoryLocker option" where
  "try_take l p op = (case acquire_section l p op of (Acquired, l') \<Rightarrow> Some l' | _ \<Rightarrow> None)"

definition do_release :: "inMemoryLocker \<Rightarrow> ProjectID \<Rightarrow> inMemoryLocker" where
  "do_release l p = (case release l p of Some l' \<Rightarrow> l' | None \<Rightarrow> l)"

lemma locker_wf_new: "locker_wf NewInMemoryLocker"
  by (simp add: locker_wf_def NewInMemoryLocker_def)

lemma locker_wf_insert:
  assumes "locker_wf l"
  shows "locker_wf (l\<lparr>lk_locks := (lk_locks l)(p \<mapsto> \<lparr>le_holder = op, le_ch = lk_next l\<rparr>),
                      lk_next := Suc (lk_next l)\<rparr>)"
  using assms by (fastforce simp: locker_wf_def)

lemma locker_wf_acquire:
  "locker_wf l \<Longrightarrow> acquire_section l p op = (r, l') \<Longrightarrow> locker_wf l'"
  by (auto simp: acquire_section_def locker_wf_insert split: option.splits)

lemma locker_wf_try:
  "locker_wf l \<Longrightarrow> TryAcquire l p op = (r, l') \<Longrightarrow> locker_wf l'"
  by (auto simp: TryAcquire_def locker_wf_insert split: option.splits)

lemma release_total: "locker_wf l \<Longrightarrow> \<exists>l'. release l p = Some l'"
  by (auto simp: release_def locker_wf_def split: option.splits)

lemma locker_wf_release: "locker_wf l \<Longrightarrow> release l p = Some l' \<Longrightarrow> locker_wf l'"
  unfolding release_def locker_wf_def
  by (auto split: option.splits if_splits)

lemma release_holder:
  "release l p = Some l' \<Longrightarrow> lock_holder l' = (lock_holder l)(p := None)"
  by (auto simp: release_def lock_holder_def fun_eq_iff split: option.splits if_splits)

interpretation lk: project_lock lock_holder try_take do_release locker_wf
proof (unfold_locales, goal_cases)
  case (1 l p op)
  show ?case by (simp add: try_take_def acquire_section_def lock_holder_def split: option.splits)
next
  case (2 l p op l')
  then show ?case
    by (auto simp: try_take_def acquire_section_def lock_holder_def fun_eq_iff split: option.splits)
next
  case (3 l p op l')
  then show ?case
    by (auto simp: try_take_def split: prod.splits acquire_outcome.splits dest: locker_wf_acquire)
next
  case (4 l p)
  then show ?case
    using release_total [of l p] by (auto simp: do_release_def release_holder)
next
  case (5 l p)
  then show ?case
    using release_total [of l p] by (auto simp: do_release_def dest: locker_wf_release)
qed

section \<open>Goroutines that use the locker\<close>

text \<open>
  What one goroutine is doing: nothing, running \<open>Acquire\<close> (about to enter the section, or blocked
  in the \<open>select\<close> on a channel, with the holder it read), holding the lock, or returned with the
  error of \<open>Acquire\<close>.
\<close>

datatype lpc =
    LIdle
  | LTrying ProjectID string
  | LWaiting ProjectID string nat string
  | LHolding ProjectID string
  | LFailed go_error

record lsys =
  ls_lk :: inMemoryLocker
  ls_pc :: "nat \<Rightarrow> lpc"

definition lsys_init :: lsys where
  "lsys_init = \<lparr>ls_lk = NewInMemoryLocker, ls_pc = (\<lambda>_. LIdle)\<rparr>"

text \<open>
  One step of one goroutine \<open>t\<close>. \<open>wake\<close> is the \<open>select\<close> branch of a closed channel, after which
  the loop runs the section again; \<open>timeout\<close> is the branch of \<open>ctx.Done()\<close>, which may be ready at
  any time; \<open>give_up\<close> is the caller that got its error moving on. A holder's release runs once,
  deferred by \<open>run\<close>.
\<close>

inductive lstep :: "lsys \<Rightarrow> lsys \<Rightarrow> bool" where
  call: "ls_pc s t = LIdle \<Longrightarrow> lstep s (s\<lparr>ls_pc := (ls_pc s)(t := LTrying p op)\<rparr>)"
| take: "ls_pc s t = LTrying p op \<Longrightarrow> acquire_section (ls_lk s) p op = (Acquired, l') \<Longrightarrow>
     lstep s (s\<lparr>ls_lk := l', ls_pc := (ls_pc s)(t := LHolding p op)\<rparr>)"
| block: "ls_pc s t = LTrying p op \<Longrightarrow> acquire_section (ls_lk s) p op = (WaitFor c h, l') \<Longrightarrow>
     lstep s (s\<lparr>ls_lk := l', ls_pc := (ls_pc s)(t := LWaiting p op c h)\<rparr>)"
| wake: "ls_pc s t = LWaiting p op c h \<Longrightarrow> c \<in> set (lk_closed (ls_lk s)) \<Longrightarrow>
     lstep s (s\<lparr>ls_pc := (ls_pc s)(t := LTrying p op)\<rparr>)"
| timeout: "ls_pc s t = LWaiting p op c h \<Longrightarrow>
     lstep s (s\<lparr>ls_pc := (ls_pc s)(t := LFailed (lock_timeout_error p h))\<rparr>)"
| try_take: "ls_pc s t = LIdle \<Longrightarrow> TryAcquire (ls_lk s) p op = (True, l') \<Longrightarrow>
     lstep s (s\<lparr>ls_lk := l', ls_pc := (ls_pc s)(t := LHolding p op)\<rparr>)"
| unlock: "ls_pc s t = LHolding p op \<Longrightarrow> release (ls_lk s) p = Some l' \<Longrightarrow>
     lstep s (s\<lparr>ls_lk := l', ls_pc := (ls_pc s)(t := LIdle)\<rparr>)"
| give_up: "ls_pc s t = LFailed err \<Longrightarrow> lstep s (s\<lparr>ls_pc := (ls_pc s)(t := LIdle)\<rparr>)"

inductive lreach :: "lsys \<Rightarrow> bool" where
  lreach_init: "lreach lsys_init"
| lreach_step: "lreach s \<Longrightarrow> lstep s s' \<Longrightarrow> lreach s'"

text \<open>
  The invariant of the system: the entry of a project names exactly the goroutine that holds it, and
  a blocked goroutine waits on a channel that is closed already or is the one of the project's
  present entry, so that the next release wakes it.
\<close>

definition lsys_inv :: "lsys \<Rightarrow> bool" where
  "lsys_inv s \<longleftrightarrow>
     locker_wf (ls_lk s) \<and>
     (\<forall>t p op. ls_pc s t = LHolding p op \<longrightarrow> lock_holder (ls_lk s) p = Some op) \<and>
     (\<forall>t u p op op'. ls_pc s t = LHolding p op \<longrightarrow> ls_pc s u = LHolding p op' \<longrightarrow> t = u) \<and>
     (\<forall>p op. lock_holder (ls_lk s) p = Some op \<longrightarrow> (\<exists>t. ls_pc s t = LHolding p op)) \<and>
     (\<forall>t p op c h. ls_pc s t = LWaiting p op c h \<longrightarrow>
        c \<in> set (lk_closed (ls_lk s)) \<or>
        (\<exists>e. lk_locks (ls_lk s) p = Some e \<and> le_ch e = c))"

lemma lsys_invI:
  assumes "locker_wf (ls_lk s)"
    and "\<And>t p op. ls_pc s t = LHolding p op \<Longrightarrow> lock_holder (ls_lk s) p = Some op"
    and "\<And>t u p op op'. ls_pc s t = LHolding p op \<Longrightarrow> ls_pc s u = LHolding p op' \<Longrightarrow> t = u"
    and "\<And>p op. lock_holder (ls_lk s) p = Some op \<Longrightarrow> \<exists>t. ls_pc s t = LHolding p op"
    and "\<And>t p op c h. ls_pc s t = LWaiting p op c h \<Longrightarrow> c \<notin> set (lk_closed (ls_lk s)) \<Longrightarrow>
           \<exists>e. lk_locks (ls_lk s) p = Some e \<and> le_ch e = c"
  shows "lsys_inv s"
  unfolding lsys_inv_def using assms by blast

lemma lsys_invD:
  assumes "lsys_inv s"
  shows lsys_wf: "locker_wf (ls_lk s)"
    and lsys_held: "ls_pc s t = LHolding p op \<Longrightarrow> lock_holder (ls_lk s) p = Some op"
    and lsys_excl: "ls_pc s t = LHolding p op \<Longrightarrow> ls_pc s u = LHolding p op' \<Longrightarrow> t = u"
    and lsys_owned: "lock_holder (ls_lk s) p = Some op \<Longrightarrow> \<exists>t. ls_pc s t = LHolding p op"
    and lsys_waits: "ls_pc s t = LWaiting p op c h \<Longrightarrow> c \<notin> set (lk_closed (ls_lk s)) \<Longrightarrow>
           \<exists>e. lk_locks (ls_lk s) p = Some e \<and> le_ch e = c"
  using assms unfolding lsys_inv_def by blast+

lemma lsys_inv_init: "lsys_inv lsys_init"
  by (rule lsys_invI) (simp_all add: lsys_init_def locker_wf_new lock_holder_def,
    simp add: NewInMemoryLocker_def)

text \<open>
  A goroutine that does not hold a lock may change its program counter to anything but a holding
  one, as long as what it then waits for is the present entry.
\<close>

lemma lsys_inv_pc:
  assumes inv: "lsys_inv s" and was: "\<And>p op. ls_pc s t \<noteq> LHolding p op"
    and nh: "\<And>p op. pc \<noteq> LHolding p op"
    and wait: "\<And>p op c h. pc = LWaiting p op c h \<Longrightarrow>
      \<exists>e. lk_locks (ls_lk s) p = Some e \<and> le_ch e = c"
  shows "lsys_inv (s\<lparr>ls_pc := (ls_pc s)(t := pc)\<rparr>)"
proof (rule lsys_invI, goal_cases)
  case 1
  show ?case using lsys_wf [OF inv] by simp
next
  case (2 u p op)
  then show ?case using lsys_held [OF inv, of u p op] nh [of p op] by (auto split: if_splits)
next
  case (3 u v p op op')
  then show ?case
    using lsys_excl [OF inv, of u p op v op'] nh [of p op] nh [of p op'] by (auto split: if_splits)
next
  case (4 p op)
  then obtain u where "ls_pc s u = LHolding p op" using lsys_owned [OF inv] by auto
  moreover from this was have "u \<noteq> t" by auto
  ultimately show ?case by (intro exI [where x = u]) simp
next
  case (5 u p op c h)
  then show ?case using lsys_waits [OF inv] wait by (simp split: if_splits)
qed

lemma lsys_inv_take:
  assumes inv: "lsys_inv s" and was: "\<And>p op. ls_pc s t \<noteq> LHolding p op"
    and free: "lk_locks (ls_lk s) p = None"
    and l': "l' = (ls_lk s)\<lparr>lk_locks := (lk_locks (ls_lk s))(p \<mapsto> \<lparr>le_holder = op, le_ch = lk_next (ls_lk s)\<rparr>),
                            lk_next := Suc (lk_next (ls_lk s))\<rparr>"
  shows "lsys_inv (s\<lparr>ls_lk := l', ls_pc := (ls_pc s)(t := LHolding p op)\<rparr>)"
proof -
  have none: "ls_pc s u \<noteq> LHolding p op'" for u op'
    using lsys_held [OF inv, of u p op'] free by (auto simp: lock_holder_def)
  have h: "lock_holder l' = (lock_holder (ls_lk s))(p \<mapsto> op)"
    by (auto simp: l' lock_holder_def)
  show ?thesis
  proof (rule lsys_invI, goal_cases)
    case 1
    show ?case using lsys_wf [OF inv] by (simp add: l' locker_wf_insert)
  next
    case (2 u q op')
    then show ?case using lsys_held [OF inv, of u q op'] none by (auto simp: h split: if_splits)
  next
    case (3 u v q op1 op2)
    then show ?case using lsys_excl [OF inv, of u q op1 v op2] none by (auto split: if_splits)
  next
    case (4 q op')
    show ?case
    proof (cases "q = p")
      case True
      with 4 show ?thesis by (intro exI [where x = t]) (simp add: h)
    next
      case False
      with 4 obtain u where "ls_pc s u = LHolding q op'" using lsys_owned [OF inv] by (auto simp: h)
      moreover from this was have "u \<noteq> t" by auto
      ultimately show ?thesis by (intro exI [where x = u]) simp
    qed
  next
    case (5 u q op' c h')
    then show ?case using lsys_waits [OF inv, of u q op' c h'] free by (auto simp: l' split: if_splits)
  qed
qed

lemma lsys_inv_unlock:
  assumes inv: "lsys_inv s" and pc: "ls_pc s t = LHolding p op"
    and rel: "release (ls_lk s) p = Some l'"
  shows "lsys_inv (s\<lparr>ls_lk := l', ls_pc := (ls_pc s)(t := LIdle)\<rparr>)"
proof -
  have h: "lock_holder l' = (lock_holder (ls_lk s))(p := None)"
    using rel by (rule release_holder)
  have only: "ls_pc s u = LHolding p op' \<Longrightarrow> u = t" for u op'
    using lsys_excl [OF inv _ pc] by blast
  show ?thesis
  proof (rule lsys_invI, goal_cases)
    case 1
    show ?case using locker_wf_release [OF lsys_wf [OF inv] rel] by simp
  next
    case (2 u q op')
    then show ?case using lsys_held [OF inv, of u q op'] only by (auto simp: h split: if_splits)
  next
    case (3 u v q op1 op2)
    then show ?case using lsys_excl [OF inv, of u q op1 v op2] by (simp split: if_splits)
  next
    case (4 q op')
    then have q: "q \<noteq> p" and "lock_holder (ls_lk s) q = Some op'" by (auto simp: h split: if_splits)
    then obtain u where u: "ls_pc s u = LHolding q op'" using lsys_owned [OF inv] by blast
    with q pc have "u \<noteq> t" by auto
    with u show ?case by (intro exI [where x = u]) simp
  next
    case (5 u q op' c h')
    then have w: "ls_pc s u = LWaiting q op' c h'" and "c \<notin> set (lk_closed l')"
      by (auto split: if_splits)
    then show ?case
      using lsys_waits [OF inv w] rel by (auto simp: release_def split: option.splits if_splits)
  qed
qed

lemma lsys_inv_step: "lstep s s' \<Longrightarrow> lsys_inv s \<Longrightarrow> lsys_inv s'"
proof (induction rule: lstep.induct)
  case (call s t p op)
  then show ?case by (auto intro: lsys_inv_pc)
next
  case (take s t p op l')
  then show ?case
    by (auto simp: acquire_section_def split: option.splits intro!: lsys_inv_take)
next
  case (block s t p op c h l')
  then have "\<exists>e. lk_locks (ls_lk s) p = Some e \<and> le_ch e = c" and l': "l' = ls_lk s"
    by (auto simp: acquire_section_def split: option.splits)
  then have "lsys_inv (s\<lparr>ls_pc := (ls_pc s)(t := LWaiting p op c h)\<rparr>)"
    using block by (intro lsys_inv_pc) auto
  then show ?case by (simp add: l')
next
  case (wake s t p op c h)
  then show ?case by (auto intro: lsys_inv_pc)
next
  case (timeout s t p op c h)
  then show ?case by (auto intro: lsys_inv_pc)
next
  case (try_take s t p op l')
  then show ?case
    by (auto simp: TryAcquire_def split: option.splits intro!: lsys_inv_take)
next
  case (unlock s t p op l')
  then show ?case by (auto intro: lsys_inv_unlock)
next
  case (give_up s t err)
  then show ?case by (auto intro: lsys_inv_pc)
qed

lemma lreach_inv: "lreach s \<Longrightarrow> lsys_inv s"
  by (induction rule: lreach.induct) (auto intro: lsys_inv_init lsys_inv_step)

end
