(* ===== verification/Queue.thy ===== *)
theory Queue
  imports Domain "HOL-Library.Multiset"
begin

text \<open>
  The priority queue of \<open>internal/orchestrator/queue.go\<close>: the heap the methods of \<open>priorityHeap\<close>
  give to Go's \<open>container/heap\<close>, whose \<open>Push\<close>, \<open>Pop\<close>, \<open>Remove\<close>, \<open>up\<close> and \<open>down\<close> are translated
  here with it, and the locked operations of \<open>PriorityQueue\<close>.

  A heap slice is a list of items; an item carries its request and the index the heap maintains.
  \<open>Dequeue\<close> blocks on a condition variable, so its section under the mutex has the outcome
  \<open>DeqBlocked\<close> as well as an item or \<open>DeqClosed\<close>.
\<close>

section \<open>The heap methods\<close>

record queueItem =
  qi_request :: OperationRequest
  qi_index :: int

type_synonym priorityHeap = "queueItem list"

definition item_before :: "queueItem \<Rightarrow> queueItem \<Rightarrow> bool" where
  "item_before a b =
     (if req_priority (qi_request a) \<noteq> req_priority (qi_request b)
      then req_priority (qi_request a) > req_priority (qi_request b)
      else req_created (qi_request a) < req_created (qi_request b))"

definition heap_less :: "priorityHeap \<Rightarrow> nat \<Rightarrow> nat \<Rightarrow> bool" where
  "heap_less h i j = item_before (h ! i) (h ! j)"

definition heap_swap :: "priorityHeap \<Rightarrow> nat \<Rightarrow> nat \<Rightarrow> priorityHeap" where
  "heap_swap h i j =
     (let h1 = swap_at i j h;
          h2 = h1[i := (h1 ! i)\<lparr>qi_index := int i\<rparr>]
      in h2[j := (h2 ! j)\<lparr>qi_index := int j\<rparr>])"

text \<open>The methods \<open>Push\<close> and \<open>Pop\<close> of the slice, which grow and shrink it at its end.\<close>

definition slice_push :: "priorityHeap \<Rightarrow> queueItem \<Rightarrow> priorityHeap" where
  "slice_push h x = h @ [x\<lparr>qi_index := int (length h)\<rparr>]"

definition slice_pop :: "priorityHeap \<Rightarrow> queueItem \<times> priorityHeap" where
  "slice_pop h = ((last h)\<lparr>qi_index := -1\<rparr>, butlast h)"

section \<open>container/heap\<close>

text \<open>
  \<open>up\<close> and \<open>down\<close> of the standard library. Both are called with an index inside the slice, which
  is what makes \<open>h ! i\<close> the read the code does.
\<close>

function heap_up :: "priorityHeap \<Rightarrow> nat \<Rightarrow> priorityHeap" where
  "heap_up h j =
     (let i = (j - 1) div 2 in
      if i = j \<or> \<not> heap_less h j i then h else heap_up (heap_swap h i j) i)"
  by pat_completeness auto
termination
  by (relation "measure snd") auto

function heap_down :: "priorityHeap \<Rightarrow> nat \<Rightarrow> nat \<Rightarrow> priorityHeap \<times> nat" where
  "heap_down h i n =
     (let j1 = 2 * i + 1 in
      if j1 \<ge> n then (h, i)
      else
        let j2 = j1 + 1;
            j = (if j2 < n \<and> heap_less h j2 j1 then j2 else j1)
        in if \<not> heap_less h j i then (h, i) else heap_down (heap_swap h i j) j n)"
  by pat_completeness auto
termination
  by (relation "measure (\<lambda>(h, i, n). n - i)") (auto simp: Let_def)

declare heap_up.simps [simp del] heap_down.simps [simp del]

definition heap_push :: "priorityHeap \<Rightarrow> queueItem \<Rightarrow> priorityHeap" where
  "heap_push h x = (let h1 = slice_push h x in heap_up h1 (length h1 - 1))"

definition heap_pop :: "priorityHeap \<Rightarrow> queueItem \<times> priorityHeap" where
  "heap_pop h =
     (let n = length h - 1; h1 = heap_swap h 0 n in slice_pop (fst (heap_down h1 0 n)))"

definition heap_remove :: "priorityHeap \<Rightarrow> nat \<Rightarrow> queueItem \<times> priorityHeap" where
  "heap_remove h i =
     (let n = length h - 1 in
      if n \<noteq> i then
        (let h1 = heap_swap h i n; (h2, i') = heap_down h1 i n
         in slice_pop (if \<not> i' > i then heap_up h2 i else h2))
      else slice_pop h)"

section \<open>The locked queue\<close>

record PriorityQueue =
  pq_items :: priorityHeap
  pq_closed :: bool

definition NewPriorityQueue :: PriorityQueue where
  "NewPriorityQueue = \<lparr>pq_items = [], pq_closed = False\<rparr>"

text \<open>\<open>now\<close> is the instant \<open>time.Now()\<close> returns.\<close>

definition Enqueue :: "time \<Rightarrow> PriorityQueue \<Rightarrow> OperationRequest \<Rightarrow> PriorityQueue" where
  "Enqueue now q r =
     (let r' = (if req_created r = 0 then r\<lparr>req_created := now\<rparr> else r)
      in q\<lparr>pq_items := heap_push (pq_items q) \<lparr>qi_request = r', qi_index = 0\<rparr>\<rparr>)"

datatype dequeue_outcome = DeqBlocked | DeqClosed | DeqItem OperationRequest

definition Dequeue :: "PriorityQueue \<Rightarrow> dequeue_outcome \<times> PriorityQueue" where
  "Dequeue q =
     (if pq_items q = [] \<and> \<not> pq_closed q then (DeqBlocked, q)
      else if pq_closed q \<and> pq_items q = [] then (DeqClosed, q)
      else let (item, h) = heap_pop (pq_items q)
           in (DeqItem (qi_request item), q\<lparr>pq_items := h\<rparr>))"

definition TryDequeue :: "PriorityQueue \<Rightarrow> OperationRequest option \<times> PriorityQueue" where
  "TryDequeue q =
     (if pq_items q = [] then (None, q)
      else let (item, h) = heap_pop (pq_items q)
           in (Some (qi_request item), q\<lparr>pq_items := h\<rparr>))"

definition queue_len :: "PriorityQueue \<Rightarrow> nat" where
  "queue_len q = length (pq_items q)"

text \<open>The first index whose request has the given operation ID, as the \<open>range\<close> loops find it.\<close>

fun index_of :: "string \<Rightarrow> queueItem list \<Rightarrow> nat option" where
  "index_of op [] = None"
| "index_of op (x # xs) =
     (if req_id (qi_request x) = op then Some 0 else map_option Suc (index_of op xs))"

definition queue_remove :: "PriorityQueue \<Rightarrow> string \<Rightarrow> bool \<times> PriorityQueue" where
  "queue_remove q op =
     (case index_of op (pq_items q) of
        None \<Rightarrow> (False, q)
      | Some i \<Rightarrow> (True, q\<lparr>pq_items := snd (heap_remove (pq_items q) i)\<rparr>))"

text \<open>\<open>item\<close> is the pointer the loop read before \<open>heap.Remove\<close>.\<close>

definition RemoveAndReturn ::
    "PriorityQueue \<Rightarrow> string \<Rightarrow> OperationRequest option \<times> PriorityQueue" where
  "RemoveAndReturn q op =
     (case index_of op (pq_items q) of
        None \<Rightarrow> (None, q)
      | Some i \<Rightarrow> (Some (qi_request (pq_items q ! i)),
                   q\<lparr>pq_items := snd (heap_remove (pq_items q) i)\<rparr>))"

definition queue_close :: "PriorityQueue \<Rightarrow> PriorityQueue" where
  "queue_close q = q\<lparr>pq_closed := True\<rparr>"

section \<open>The order of the queue\<close>

text \<open>
  The key of a request. Smaller keys leave the queue first: a larger priority, then an earlier
  creation time. The key is a linear order, so the library's facts on \<open>sorted\<close> and \<open>min\<close> apply.
\<close>

datatype qkey = QKey (key_priority: int) (key_created: int)

instantiation qkey :: linorder
begin

definition less_qkey :: "qkey \<Rightarrow> qkey \<Rightarrow> bool" where
  "less_qkey a b \<longleftrightarrow> key_priority a > key_priority b \<or>
     (key_priority a = key_priority b \<and> key_created a < key_created b)"

definition less_eq_qkey :: "qkey \<Rightarrow> qkey \<Rightarrow> bool" where
  "less_eq_qkey a b \<longleftrightarrow> key_priority a > key_priority b \<or>
     (key_priority a = key_priority b \<and> key_created a \<le> key_created b)"

instance
  by standard (auto simp: less_qkey_def less_eq_qkey_def qkey.expand)

end

definition req_key :: "OperationRequest \<Rightarrow> qkey" where
  "req_key r = QKey (req_priority r) (req_created r)"

abbreviation item_key :: "queueItem \<Rightarrow> qkey" where
  "item_key x \<equiv> req_key (qi_request x)"

lemma item_before_key [simp]: "item_before a b \<longleftrightarrow> item_key a < item_key b"
  by (auto simp: item_before_def req_key_def less_qkey_def)

lemma heap_less_key [simp]: "heap_less h i j \<longleftrightarrow> item_key (h ! i) < item_key (h ! j)"
  by (simp add: heap_less_def)

section \<open>The heap invariant\<close>

definition par :: "nat \<Rightarrow> nat" where
  "par k = (k - 1) div 2"

lemma par_less: "0 < k \<Longrightarrow> par k < k"
  by (simp add: par_def)

lemma par_le: "par k \<le> k"
  by (simp add: par_def)

lemma par_lt: "k < n \<Longrightarrow> par k < n"
  using par_le [of k] by simp

lemma par_fix: "par k = k \<longleftrightarrow> k = 0"
  by (auto simp: par_def)

definition heap_upto :: "priorityHeap \<Rightarrow> nat \<Rightarrow> bool" where
  "heap_upto h n \<longleftrightarrow> (\<forall>k. 0 < k \<and> k < n \<longrightarrow> item_key (h ! par k) \<le> item_key (h ! k))"

text \<open>The \<open>index\<close> field of each item is its position.\<close>

definition indexed :: "priorityHeap \<Rightarrow> bool" where
  "indexed h \<longleftrightarrow> (\<forall>k < length h. qi_index (h ! k) = int k)"

definition heap_inv :: "priorityHeap \<Rightarrow> bool" where
  "heap_inv h \<longleftrightarrow> heap_upto h (length h) \<and> indexed h"

definition requests :: "priorityHeap \<Rightarrow> OperationRequest multiset" where
  "requests h = mset (map qi_request h)"

text \<open>
  The invariant weakened at one index: \<open>up_ok\<close> allows \<open>j\<close> to be smaller than its parent, \<open>down_ok\<close>
  allows \<open>i\<close> to be larger than its children (and, unless \<open>above\<close> holds, smaller than its parent).
\<close>

definition up_ok :: "priorityHeap \<Rightarrow> nat \<Rightarrow> nat \<Rightarrow> bool" where
  "up_ok h n j \<longleftrightarrow>
     (\<forall>k. 0 < k \<and> k < n \<and> k \<noteq> j \<longrightarrow> item_key (h ! par k) \<le> item_key (h ! k)) \<and>
     (\<forall>k. 0 < k \<and> k < n \<and> 0 < j \<and> par k = j \<longrightarrow> item_key (h ! par j) \<le> item_key (h ! k))"

definition down_ok :: "priorityHeap \<Rightarrow> nat \<Rightarrow> nat \<Rightarrow> bool" where
  "down_ok h n i \<longleftrightarrow>
     (\<forall>k. 0 < k \<and> k < n \<and> k \<noteq> i \<and> par k \<noteq> i \<longrightarrow> item_key (h ! par k) \<le> item_key (h ! k)) \<and>
     (\<forall>k. 0 < k \<and> k < n \<and> 0 < i \<and> par k = i \<longrightarrow> item_key (h ! par i) \<le> item_key (h ! k))"

definition above :: "priorityHeap \<Rightarrow> nat \<Rightarrow> bool" where
  "above h i \<longleftrightarrow> (0 < i \<longrightarrow> item_key (h ! par i) \<le> item_key (h ! i))"

lemma length_heap_swap [simp]: "length (heap_swap h i j) = length h"
  by (simp add: heap_swap_def Let_def)

lemma heap_swap_request:
  "i < length h \<Longrightarrow> j < length h \<Longrightarrow> k < length h \<Longrightarrow>
     qi_request (heap_swap h i j ! k) = qi_request (h ! (if k = j then i else if k = i then j else k))"
  by (auto simp: heap_swap_def Let_def nth_list_update swap_at_nth)

lemma heap_swap_indexed: "indexed h \<Longrightarrow> indexed (heap_swap h i j)"
  by (cases "i < length h"; cases "j < length h")
     (auto simp: indexed_def heap_swap_def Let_def nth_list_update swap_at_def)

lemma heap_swap_other: "k \<noteq> i \<Longrightarrow> k \<noteq> j \<Longrightarrow> heap_swap h i j ! k = h ! k"
  by (simp add: heap_swap_def Let_def swap_at_def)

lemma heap_swap_requests:
  assumes "i < length h" and "j < length h"
  shows "requests (heap_swap h i j) = requests h"
proof -
  have "map qi_request (heap_swap h i j) = swap_at i j (map qi_request h)"
    by (rule nth_equalityI) (use assms in \<open>simp_all add: heap_swap_request swap_at_nth\<close>)
  moreover have "mset (swap_at i j xs) = mset xs" if "i < length xs" and "j < length xs" for xs :: "OperationRequest list"
    using that by (simp add: swap_at_def mset_swap)
  ultimately show ?thesis using assms by (simp add: requests_def)
qed

subsection \<open>up\<close>

lemma heap_up_unfold:
  "heap_up h j = (if par j = j \<or> \<not> heap_less h j (par j) then h
                  else heap_up (heap_swap h (par j) j) (par j))"
  by (simp add: heap_up.simps [of h j] Let_def par_def)

lemma up_ok_swap:
  assumes ok: "up_ok h n j" and jn: "j < n" "n \<le> length h" and j0: "0 < j"
    and less: "item_key (h ! j) < item_key (h ! par j)"
  shows "up_ok (heap_swap h (par j) j) n (par j)"
proof -
  let ?i = "par j"
  have ij: "?i < j" using j0 by (rule par_less)
  have val: "item_key (heap_swap h ?i j ! k) = item_key (h ! (if k = j then ?i else if k = ?i then j else k))"
    if "k < n" for k
    using that ij jn by (simp add: heap_swap_request)
  have old: "item_key (h ! par k) \<le> item_key (h ! k)" if "0 < k" "k < n" "k \<noteq> j" for k
    using ok that by (auto simp: up_ok_def)
  have grand: "item_key (h ! ?i) \<le> item_key (h ! k)" if "0 < k" "k < n" "par k = j" for k
    using ok that j0 by (auto simp: up_ok_def)
  show ?thesis
    unfolding up_ok_def
  proof (intro conjI allI impI; elim conjE)
    fix k assume k: "0 < k" "k < n" "k \<noteq> ?i"
    have pk: "par k < n" using k by (simp add: par_lt)
    show "item_key (heap_swap h ?i j ! par k) \<le> item_key (heap_swap h ?i j ! k)"
    proof (cases "k = j")
      case True
      then show ?thesis using less ij jn pk k by (simp add: val)
    next
      case kj: False
      consider "par k = j" | "par k = ?i" "par k \<noteq> j" | "par k \<noteq> ?i" "par k \<noteq> j" by blast
      then show ?thesis
      proof cases
        case 1
        then show ?thesis using grand k kj jn by (simp add: val pk)
      next
        case 2
        have "item_key (h ! j) \<le> item_key (h ! k)" using old [OF k(1,2) kj] 2 less by simp
        then show ?thesis using 2 k kj jn ij by (simp add: val pk)
      next
        case 3
        then show ?thesis using old k kj by (simp add: val pk)
      qed
    qed
  next
    fix k assume k: "0 < k" "k < n" and i0: "0 < ?i" and pk: "par k = ?i"
    have gi: "item_key (h ! par ?i) \<le> item_key (h ! ?i)" using old [OF i0] ij jn by simp
    have ne: "par ?i \<noteq> j" "par ?i \<noteq> ?i" using par_less [OF i0] ij by auto
    have pn: "par ?i < n" using ij jn by (simp add: par_lt)
    have ki: "k \<noteq> ?i" using pk par_less [OF k(1)] by auto
    show "item_key (heap_swap h ?i j ! par ?i) \<le> item_key (heap_swap h ?i j ! k)"
    proof (cases "k = j")
      case True
      then show ?thesis using gi ne pn k by (simp add: val)
    next
      case False
      have "item_key (h ! ?i) \<le> item_key (h ! k)" using old [OF k False] pk by simp
      then show ?thesis using gi ne pn k False ki by (simp add: val)
    qed
  qed
qed

lemma heap_up_heap:
  "up_ok h n j \<Longrightarrow> j < n \<Longrightarrow> n \<le> length h \<Longrightarrow> heap_upto (heap_up h j) n"
proof (induction h j rule: heap_up.induct)
  case (1 h j)
  show ?case
  proof (cases "par j = j \<or> \<not> heap_less h j (par j)")
    case True
    have "heap_upto h n"
      unfolding heap_upto_def
    proof (intro allI impI; elim conjE)
      fix k assume k: "0 < k" "k < n"
      show "item_key (h ! par k) \<le> item_key (h ! k)"
        using True k "1.prems" by (cases "k = j") (auto simp: up_ok_def)
    qed
    with True show ?thesis by (simp add: heap_up_unfold [of h j])
  next
    case False
    then have j0: "0 < j" by (simp add: par_fix)
    have "up_ok (heap_swap h (par j) j) n (par j)"
      using up_ok_swap "1.prems" False j0 by auto
    with "1.IH" [OF par_def False] "1.prems" False show ?thesis
      by (simp add: heap_up_unfold [of h j] par_lt)
  qed
qed

lemma heap_up_frame:
  "j < length h \<Longrightarrow> length (heap_up h j) = length h \<and> requests (heap_up h j) = requests h \<and>
     (indexed h \<longrightarrow> indexed (heap_up h j)) \<and> (\<forall>k > j. heap_up h j ! k = h ! k)"
proof (induction h j rule: heap_up.induct)
  case (1 h j)
  show ?case
  proof (cases "par j = j \<or> \<not> heap_less h j (par j)")
    case True
    then show ?thesis by (simp add: heap_up_unfold [of h j])
  next
    case False
    with "1.prems" have pj: "par j < length h" "par j \<le> j" by (simp_all add: par_lt par_le)
    have eq: "heap_up h j = heap_up (heap_swap h (par j) j) (par j)"
      using False by (simp add: heap_up_unfold [of h j])
    show ?thesis
      unfolding eq using "1.IH" [OF par_def False] pj "1.prems"
      by (auto simp: heap_swap_requests heap_swap_indexed heap_swap_other)
  qed
qed

subsection \<open>down\<close>

text \<open>The child \<open>down\<close> compares with: the smaller one, the left one when they are equal.\<close>

definition min_child :: "priorityHeap \<Rightarrow> nat \<Rightarrow> nat \<Rightarrow> nat" where
  "min_child h i n =
     (if 2 * i + 2 < n \<and> heap_less h (2 * i + 2) (2 * i + 1) then 2 * i + 2 else 2 * i + 1)"

lemma heap_down_unfold:
  "heap_down h i n =
     (if n \<le> 2 * i + 1 \<or> \<not> heap_less h (min_child h i n) i then (h, i)
      else heap_down (heap_swap h i (min_child h i n)) (min_child h i n) n)"
  by (subst heap_down.simps) (simp add: Let_def min_child_def)

lemma heap_down_induct [case_names step]:
  assumes step: "\<And>h i n. (2 * i + 1 < n \<Longrightarrow> heap_less h (min_child h i n) i \<Longrightarrow>
      P (heap_swap h i (min_child h i n)) (min_child h i n) n) \<Longrightarrow> P h i n"
  shows "P h i (n::nat)"
proof (induction "n - i" arbitrary: h i rule: less_induct)
  case less
  have "n - min_child h i n < n - i" if "2 * i + 1 < n"
    using that by (auto simp: min_child_def)
  then show ?case
    by - (rule step, rule less, simp)
qed

lemma par_child: "par k = i \<longleftrightarrow> (k = 0 \<and> i = 0) \<or> k = 2 * i + 1 \<or> k = 2 * i + 2"
  unfolding par_def by (cases k) auto

lemma min_child_bounds:
  "2 * i + 1 < n \<Longrightarrow> i < min_child h i n \<and> min_child h i n < n \<and> par (min_child h i n) = i"
  by (simp add: min_child_def par_child)

lemma min_child_le:
  "0 < k \<Longrightarrow> k < n \<Longrightarrow> par k = i \<Longrightarrow> item_key (h ! min_child h i n) \<le> item_key (h ! k)"
  by (auto simp: min_child_def par_child)

lemma down_ok_swap:
  assumes ok: "down_ok h n i" and n: "n \<le> length h" and ch: "2 * i + 1 < n"
    and less: "item_key (h ! min_child h i n) < item_key (h ! i)"
  shows "down_ok (heap_swap h i (min_child h i n)) n (min_child h i n)"
    and "above (heap_swap h i (min_child h i n)) (min_child h i n)"
proof -
  obtain j where j: "j = min_child h i n" by simp
  have jb: "i < j" "j < n" "par j = i" using min_child_bounds [OF ch] by (simp_all add: j)
  have val: "item_key (heap_swap h i j ! k) = item_key (h ! (if k = j then i else if k = i then j else k))"
    if "k < n" for k
    using that jb n by (simp add: heap_swap_request)
  have old: "item_key (h ! par k) \<le> item_key (h ! k)"
    if "0 < k" "k < n" "k \<noteq> i" "par k \<noteq> i" for k
    using ok that by (auto simp: down_ok_def)
  have grand: "item_key (h ! par i) \<le> item_key (h ! k)" if "0 < k" "k < n" "0 < i" "par k = i" for k
    using ok that by (auto simp: down_ok_def)
  have small: "item_key (h ! j) \<le> item_key (h ! k)" if "0 < k" "k < n" "par k = i" for k
    using min_child_le [OF that] by (simp add: j)
  show "down_ok (heap_swap h i (min_child h i n)) n (min_child h i n)"
    unfolding down_ok_def j [symmetric]
  proof (intro conjI allI impI; elim conjE)
    fix k assume k: "0 < k" "k < n" "k \<noteq> j" "par k \<noteq> j"
    have pk: "par k < n" using k by (simp add: par_lt)
    consider "k = i" | "k \<noteq> i" "par k = i" | "k \<noteq> i" "par k \<noteq> i" by blast
    then show "item_key (heap_swap h i j ! par k) \<le> item_key (heap_swap h i j ! k)"
    proof cases
      case 1
      then have "par k \<noteq> i" using par_less [OF k(1)] by simp
      with 1 k show ?thesis using grand [of j] jb pk by (simp add: val)
    next
      case 2
      then show ?thesis using small k pk jb by (simp add: val)
    next
      case 3
      then show ?thesis using old k pk by (simp add: val)
    qed
  next
    fix k assume k: "0 < k" "k < n" and j0: "0 < j" and pk: "par k = j"
    have kn: "k \<noteq> j" "k \<noteq> i" using pk par_less [OF k(1)] jb by auto
    have "item_key (h ! j) \<le> item_key (h ! k)" using old [OF k] kn jb pk by simp
    then show "item_key (heap_swap h i j ! par j) \<le> item_key (heap_swap h i j ! k)"
      using jb k kn by (simp add: val)
  qed
  show "above (heap_swap h i (min_child h i n)) (min_child h i n)"
    unfolding above_def j [symmetric] using less jb by (simp add: val j [symmetric])
qed

lemma down_ok_stop:
  assumes "down_ok h n i" and "above h i"
    and "n \<le> 2 * i + 1 \<or> item_key (h ! i) \<le> item_key (h ! min_child h i n)"
  shows "heap_upto h n"
  unfolding heap_upto_def
proof (intro allI impI; elim conjE)
  fix k assume k: "0 < k" "k < n"
  consider "k = i" | "k \<noteq> i" "par k = i" | "k \<noteq> i" "par k \<noteq> i" by blast
  then show "item_key (h ! par k) \<le> item_key (h ! k)"
  proof cases
    case 1
    with assms k show ?thesis by (simp add: above_def)
  next
    case 2
    then have "2 * i + 1 < n" using k by (auto simp: par_child)
    with assms(3) have "item_key (h ! i) \<le> item_key (h ! min_child h i n)" by simp
    also have "\<dots> \<le> item_key (h ! k)" using min_child_le k 2 by blast
    finally show ?thesis using 2 by simp
  next
    case 3
    with assms k show ?thesis by (auto simp: down_ok_def)
  qed
qed

lemma down_ok_above_iff:
  assumes "down_ok h n i" and "n \<le> 2 * i + 1 \<or> item_key (h ! i) \<le> item_key (h ! min_child h i n)"
  shows "up_ok h n i"
  unfolding up_ok_def
proof (intro conjI allI impI; elim conjE)
  fix k assume k: "0 < k" "k < n" "k \<noteq> i"
  show "item_key (h ! par k) \<le> item_key (h ! k)"
  proof (cases "par k = i")
    case True
    then have "2 * i + 1 < n" using k by (auto simp: par_child)
    with assms(2) have "item_key (h ! i) \<le> item_key (h ! min_child h i n)" by simp
    also have "\<dots> \<le> item_key (h ! k)" using min_child_le k True by blast
    finally show ?thesis using True by simp
  next
    case False
    with assms k show ?thesis by (auto simp: down_ok_def)
  qed
next
  fix k assume "0 < k" "k < n" "0 < i" "par k = i"
  with assms show "item_key (h ! par i) \<le> item_key (h ! k)" by (auto simp: down_ok_def)
qed

text \<open>
  \<open>down\<close> ends with a heap when nothing is above \<open>i\<close> or the item went down; when it did not move,
  only the parent of \<open>i\<close> may be wrong, which is what \<open>Remove\<close> then repairs with \<open>up\<close>.
\<close>

lemma heap_down_heap:
  "down_ok h n i \<Longrightarrow> n \<le> length h \<Longrightarrow> heap_down h i n = (h', i') \<Longrightarrow>
     i \<le> i' \<and> (above h i \<or> i < i' \<longrightarrow> heap_upto h' n) \<and> (i' = i \<longrightarrow> h' = h \<and> up_ok h n i)"
proof (induction h i n arbitrary: h' i' rule: heap_down_induct)
  case (step h i n)
  show ?case
  proof (cases "n \<le> 2 * i + 1 \<or> \<not> heap_less h (min_child h i n) i")
    case True
    then have eq: "h' = h" "i' = i" using step.prems by (simp_all add: heap_down_unfold [of h i n])
    have "n \<le> 2 * i + 1 \<or> item_key (h ! i) \<le> item_key (h ! min_child h i n)"
      using True by (auto simp: not_less)
    then show ?thesis
      using eq step.prems(1) down_ok_stop [of h n i] down_ok_above_iff [of h n i] by auto
  next
    case False
    let ?j = "min_child h i n"
    from False have ch: "2 * i + 1 < n" and less: "item_key (h ! ?j) < item_key (h ! i)" by auto
    note sw = down_ok_swap [OF step.prems(1,2) ch less]
    have "heap_down (heap_swap h i ?j) ?j n = (h', i')"
      using step.prems(3) False by (simp add: heap_down_unfold [of h i n])
    then have "?j \<le> i' \<and> heap_upto h' n"
      using step.IH [OF ch _ sw(1)] sw(2) less step.prems(2) by simp
    then show ?thesis using min_child_bounds [OF ch, of h] by auto
  qed
qed

lemma heap_down_frame:
  "heap_down h i n = (h', i') \<Longrightarrow> n \<le> length h \<Longrightarrow>
     length h' = length h \<and> requests h' = requests h \<and> (indexed h \<longrightarrow> indexed h') \<and>
     (\<forall>k \<ge> n. h' ! k = h ! k \<or> k \<le> i)"
proof (induction h i n arbitrary: h' i' rule: heap_down_induct)
  case (step h i n)
  show ?case
  proof (cases "n \<le> 2 * i + 1 \<or> \<not> heap_less h (min_child h i n) i")
    case True
    with step.prems show ?thesis by (auto simp: heap_down_unfold [of h i n])
  next
    case False
    let ?j = "min_child h i n"
    from False have ch: "2 * i + 1 < n" and less: "heap_less h ?j i" by auto
    note mb = min_child_bounds [OF ch, of h]
    have eq: "heap_down (heap_swap h i ?j) ?j n = (h', i')"
      using step.prems(1) False by (simp add: heap_down_unfold [of h i n])
    show ?thesis
      using step.IH [OF ch less eq] step.prems(2) mb
      by (auto simp: heap_swap_requests heap_swap_indexed heap_swap_other)
  qed
qed

subsection \<open>Push, Pop and Remove\<close>

lemma heap_root_least: "heap_upto h n \<Longrightarrow> k < n \<Longrightarrow> item_key (h ! 0) \<le> item_key (h ! k)"
proof (induction k rule: less_induct)
  case (less k)
  show ?case
  proof (cases "k = 0")
    case False
    then have "par k < k" by (simp add: par_less)
    then have "item_key (h ! 0) \<le> item_key (h ! par k)" using less by simp
    also have "\<dots> \<le> item_key (h ! k)" using less.prems False by (simp add: heap_upto_def)
    finally show ?thesis .
  qed simp
qed

lemma requests_snoc: "requests (h @ [x]) = add_mset (qi_request x) (requests h)"
  by (simp add: requests_def)

lemma heap_push_correct:
  assumes "heap_inv h"
  shows "heap_inv (heap_push h x)"
    and "requests (heap_push h x) = add_mset (qi_request x) (requests h)"
proof -
  let ?h = "slice_push h x" and ?n = "length h"
  have len: "length ?h = Suc ?n" by (simp add: slice_push_def)
  have idx: "indexed ?h"
    using assms by (auto simp: heap_inv_def indexed_def slice_push_def nth_append less_Suc_eq)
  have "up_ok ?h (Suc ?n) ?n"
    unfolding up_ok_def
  proof (intro conjI allI impI; elim conjE)
    fix k assume k: "0 < k" "k < Suc ?n" "k \<noteq> ?n"
    then show "item_key (?h ! par k) \<le> item_key (?h ! k)"
      using assms par_lt [of k ?n] by (simp add: heap_inv_def heap_upto_def slice_push_def nth_append)
  next
    fix k assume "0 < k" "k < Suc ?n" "par k = ?n"
    then show "item_key (?h ! par ?n) \<le> item_key (?h ! k)" using par_less [of k] by simp
  qed
  then have "heap_upto (heap_up ?h ?n) (Suc ?n)"
    by (rule heap_up_heap) (simp_all add: len)
  moreover have fr: "length (heap_up ?h ?n) = Suc ?n \<and> requests (heap_up ?h ?n) = requests ?h \<and>
      indexed (heap_up ?h ?n)"
    using heap_up_frame [of ?n ?h] idx len by simp
  ultimately show "heap_inv (heap_push h x)"
    by (simp add: heap_inv_def heap_push_def Let_def len)
  show "requests (heap_push h x) = add_mset (qi_request x) (requests h)"
    using fr by (simp add: heap_push_def Let_def len slice_push_def requests_snoc)
qed

text \<open>What both \<open>Pop\<close> and \<open>Remove\<close> do first: swap the item out to the end, then repair.\<close>

lemma swap_out_down_ok:
  assumes heap: "heap_upto h (Suc n)" and len: "length h = Suc n" and i: "i < n"
  shows "down_ok (heap_swap h i n) n i"
proof -
  have val: "item_key (heap_swap h i n ! k) = item_key (h ! (if k = i then n else k))" if "k < n" for k
    using that i len by (simp add: heap_swap_request)
  have old: "item_key (h ! par k) \<le> item_key (h ! k)" if "0 < k" "k \<le> n" for k
    using heap that by (simp add: heap_upto_def)
  show ?thesis
    unfolding down_ok_def
  proof (intro conjI allI impI; elim conjE)
    fix k assume k: "0 < k" "k < n" "k \<noteq> i" "par k \<noteq> i"
    then show "item_key (heap_swap h i n ! par k) \<le> item_key (heap_swap h i n ! k)"
      using old [of k] by (simp add: val par_lt)
  next
    fix k assume k: "0 < k" "k < n" and i0: "0 < i" and pk: "par k = i"
    have "item_key (h ! par i) \<le> item_key (h ! i)" using old i0 i by simp
    also have "\<dots> \<le> item_key (h ! k)" using old [of k] k pk by simp
    finally show "item_key (heap_swap h i n ! par i) \<le> item_key (heap_swap h i n ! k)"
      using k i par_less [OF i0] par_less [OF k(1)] pk by (simp add: val)
  qed
qed

lemma slice_pop_inv:
  assumes "heap_upto h n" and "indexed h" and len: "length h = Suc n" and pop: "slice_pop h = (x, h')"
  shows "heap_inv h'" and "length h' = n"
    and "requests h = add_mset (qi_request x) (requests h')" and "qi_request x = qi_request (h ! n)"
proof -
  obtain y where h: "h = h' @ [y]" and x: "qi_request x = qi_request y"
    using len pop by (cases h rule: rev_cases) (auto simp: slice_pop_def)
  show len': "length h' = n" using len h by simp
  have "qi_index (h' ! k) = int k" if "k < n" for k
    using assms(2) that len' by (auto simp: indexed_def h nth_append dest: spec [of _ k])
  then show "heap_inv h'"
    using assms(1) h len' by (auto simp: heap_inv_def heap_upto_def indexed_def nth_append par_lt)
  show "requests h = add_mset (qi_request x) (requests h')" by (simp add: h x requests_snoc)
  show "qi_request x = qi_request (h ! n)" using len' by (simp add: h x nth_append)
qed

lemma heap_remove_correct:
  assumes inv: "heap_inv h" and i: "i < length h" and rm: "heap_remove h i = (x, h')"
  shows "heap_inv h' \<and> requests h = add_mset (qi_request x) (requests h') \<and>
    qi_request x = qi_request (h ! i)"
proof -
  obtain n where len: "length h = Suc n" using i by (cases "length h") auto
  have up: "heap_upto h (Suc n)" and idx: "indexed h" using inv len by (simp_all add: heap_inv_def)
  show ?thesis
  proof (cases "i = n")
    case True
    have "heap_upto h n" using up by (simp add: heap_upto_def)
    moreover have "slice_pop h = (x, h')" using rm True len by (simp add: heap_remove_def)
    ultimately show ?thesis using slice_pop_inv [OF _ idx len] True by blast
  next
    case False
    then have i: "i < n" using i len by simp
    let ?h1 = "heap_swap h i n"
    obtain h2 i' where dn: "heap_down ?h1 i n = (h2, i')" by (cases "heap_down ?h1 i n") auto
    let ?h3 = "if \<not> i' > i then heap_up h2 i else h2"
    have ok: "down_ok ?h1 n i" by (rule swap_out_down_ok [OF up len i])
    have l1: "n \<le> length ?h1" by (simp add: len)
    note dh = heap_down_heap [OF ok l1 dn] and df = heap_down_frame [OF dn l1]
    have l2: "length h2 = Suc n" and idx2: "indexed h2"
      using df len heap_swap_indexed [OF idx] by auto
    note uf = heap_up_frame [of i h2]
    have "heap_upto ?h3 n"
      using dh heap_up_heap [of h2 n i] i l2 by auto
    moreover have "indexed ?h3" and l3: "length ?h3 = Suc n" using uf idx2 l2 i by auto
    moreover have pop: "slice_pop ?h3 = (x, h')"
      using rm False len dn by (simp add: heap_remove_def Let_def)
    moreover have req: "requests ?h3 = requests h"
      using uf df l2 i len by (auto simp: heap_swap_requests)
    moreover have "qi_request (?h3 ! n) = qi_request (h ! i)"
      using uf df l2 i len by (auto simp: heap_swap_request)
    ultimately show ?thesis using slice_pop_inv [of ?h3 n x h'] by metis
  qed
qed

lemma heap_pop_correct:
  assumes inv: "heap_inv h" and ne: "h \<noteq> []" and pop: "heap_pop h = (x, h')"
  shows "heap_inv h' \<and> requests h = add_mset (qi_request x) (requests h') \<and>
    qi_request x = qi_request (h ! 0)"
proof (cases "length h = 1")
  case True
  then obtain y where h: "h = [y]" by (auto simp: length_Suc_conv)
  have "heap_down (heap_swap h 0 0) 0 0 = (heap_swap h 0 0, 0)" by (simp add: heap_down_unfold)
  with pop h show ?thesis
    by (auto simp: heap_pop_def Let_def slice_pop_def heap_swap_def swap_at_def heap_inv_def
        heap_upto_def indexed_def requests_def)
next
  case False
  then obtain n where len: "length h = Suc n" and n: "0 < n"
    using ne by (cases "length h") auto
  have up: "heap_upto h (Suc n)" and idx: "indexed h" using inv len by (simp_all add: heap_inv_def)
  let ?h1 = "heap_swap h 0 n"
  obtain h2 i' where dn: "heap_down ?h1 0 n = (h2, i')" by (cases "heap_down ?h1 0 n") auto
  have ok: "down_ok ?h1 n 0" by (rule swap_out_down_ok [OF up len n])
  have l1: "n \<le> length ?h1" by (simp add: len)
  note dh = heap_down_heap [OF ok l1 dn] and df = heap_down_frame [OF dn l1]
  have "heap_upto h2 n" using dh by (auto simp: above_def)
  moreover have "indexed h2" "length h2 = Suc n" using df len heap_swap_indexed [OF idx] by auto
  moreover have "slice_pop h2 = (x, h')" using pop len dn by (simp add: heap_pop_def)
  moreover have "requests h2 = requests h" using df n len by (simp add: heap_swap_requests)
  moreover have "qi_request (h2 ! n) = qi_request (h ! 0)"
    using df n len by (auto simp: heap_swap_request)
  ultimately show ?thesis using slice_pop_inv [of h2 n x h'] by metis
qed

lemma requests_member: "r \<in># requests h \<longleftrightarrow> (\<exists>k < length h. r = qi_request (h ! k))"
  by (force simp: requests_def in_set_conv_nth)

lemma heap_pop_least:
  assumes "heap_inv h" and "h \<noteq> []" and "heap_pop h = (x, h')" and "r \<in># requests h"
  shows "item_key x \<le> req_key r"
proof -
  obtain k where "k < length h" and "r = qi_request (h ! k)"
    using assms(4) by (auto simp: requests_member)
  then have "item_key (h ! 0) \<le> req_key r"
    using heap_root_least [of h "length h"] assms(1) by (simp add: heap_inv_def)
  then show ?thesis using heap_pop_correct [OF assms(1-3)] by simp
qed

section \<open>The interface of a priority queue\<close>

text \<open>
  What the executor expects of its queue, against the multiset of the queued requests: \<open>deq\<close> takes
  out a request of least key. \<open>drain\<close> is the sequence of requests a single worker receives.
\<close>

fun drain :: "('q \<Rightarrow> ('r \<times> 'q) option) \<Rightarrow> nat \<Rightarrow> 'q \<Rightarrow> 'r list" where
  "drain deq 0 q = []"
| "drain deq (Suc n) q = (case deq q of None \<Rightarrow> [] | Some (r, q') \<Rightarrow> r # drain deq n q')"

locale priority_queue =
  fixes enq :: "'q \<Rightarrow> 'r \<Rightarrow> 'q"
    and stamp :: "'r \<Rightarrow> 'r"
    and deq :: "'q \<Rightarrow> ('r \<times> 'q) option"
    and bag :: "'q \<Rightarrow> 'r multiset"
    and key :: "'r \<Rightarrow> 'k::linorder"
    and inv :: "'q \<Rightarrow> bool"
  assumes enq_inv: "inv q \<Longrightarrow> inv (enq q r)"
    and enq_bag: "inv q \<Longrightarrow> bag (enq q r) = add_mset (stamp r) (bag q)"
    and deq_None: "inv q \<Longrightarrow> deq q = None \<longleftrightarrow> bag q = {#}"
    and deq_inv: "inv q \<Longrightarrow> deq q = Some (r, q') \<Longrightarrow> inv q'"
    and deq_bag: "inv q \<Longrightarrow> deq q = Some (r, q') \<Longrightarrow> bag q = add_mset r (bag q')"
    and deq_least: "inv q \<Longrightarrow> deq q = Some (r, q') \<Longrightarrow> x \<in># bag q' \<Longrightarrow> key r \<le> key x"
begin

lemma drain_all: "inv q \<Longrightarrow> size (bag q) \<le> n \<Longrightarrow> mset (drain deq n q) = bag q"
proof (induction n arbitrary: q)
  case 0
  then show ?case by simp
next
  case (Suc n)
  show ?case
  proof (cases "deq q")
    case None
    with deq_None [OF Suc.prems(1)] show ?thesis by simp
  next
    case (Some rq)
    obtain r q' where rq: "rq = (r, q')" by (cases rq)
    note b = deq_bag [OF Suc.prems(1) Some [unfolded rq]]
    have "mset (drain deq n q') = bag q'"
      using Suc.IH [of q'] deq_inv [OF Suc.prems(1) Some [unfolded rq]] Suc.prems(2) b by simp
    then show ?thesis using Some rq b by simp
  qed
qed

lemma drain_subset: "inv q \<Longrightarrow> set (drain deq n q) \<subseteq> set_mset (bag q)"
proof (induction n arbitrary: q)
  case 0
  then show ?case by simp
next
  case (Suc n)
  show ?case
  proof (cases "deq q")
    case (Some rq)
    obtain r q' where rq: "rq = (r, q')" by (cases rq)
    note b = deq_bag [OF Suc.prems Some [unfolded rq]]
    have "set (drain deq n q') \<subseteq> set_mset (bag q')"
      using Suc.IH deq_inv [OF Suc.prems Some [unfolded rq]] .
    then show ?thesis using Some rq b by auto
  qed simp
qed

lemma drain_sorted: "inv q \<Longrightarrow> sorted (map key (drain deq n q))"
proof (induction n arbitrary: q)
  case 0
  then show ?case by simp
next
  case (Suc n)
  show ?case
  proof (cases "deq q")
    case (Some rq)
    obtain r q' where rq: "rq = (r, q')" by (cases rq)
    note inv' = deq_inv [OF Suc.prems Some [unfolded rq]]
    have "\<forall>x \<in> set (drain deq n q'). key r \<le> key x"
      using drain_subset [OF inv'] deq_least [OF Suc.prems Some [unfolded rq]] by blast
    then show ?thesis using Some rq Suc.IH [OF inv'] by simp
  qed simp
qed

lemma enq_all:
  "inv q \<Longrightarrow> inv (foldl enq q rs) \<and> bag (foldl enq q rs) = bag q + mset (map stamp rs)"
  by (induction rs arbitrary: q) (simp_all add: enq_inv enq_bag)

text \<open>
  With pairwise different keys, the queue hands the requests out in the one order that sorts them.
\<close>

lemma drain_sort:
  assumes "inv q" and "bag q = {#}" and dist: "distinct (map (key \<circ> stamp) rs)"
  shows "drain deq (length rs) (foldl enq q rs) = sort_key key (map stamp rs)"
proof -
  let ?q = "foldl enq q rs" and ?xs = "map stamp rs"
  let ?ys = "drain deq (length rs) ?q"
  have q: "inv ?q" "bag ?q = mset ?xs" using enq_all [OF assms(1)] assms(2) by simp_all
  have m: "mset ?ys = mset ?xs" using drain_all [OF q(1)] q(2) by simp
  have "mset (map key ?ys) = mset (map key ?xs)" using m by (metis mset_map)
  moreover have "mset (map key (sort_key key ?xs)) = mset (map key ?xs)"
    by (metis mset_map mset_sort)
  ultimately have "map key ?ys = map key (sort_key key ?xs)"
    using drain_sorted [OF q(1), of "length rs"]
    by (metis properties_for_sort sorted_sort_key)
  moreover have "inj_on key (set ?ys \<union> set (sort_key key ?xs))"
    using dist mset_eq_setD [OF m] by (simp add: distinct_map comp_inj_on_iff inj_on_imageI)
  ultimately show ?thesis by (simp add: inj_on_map_eq_map)
qed

end

definition queue_inv :: "PriorityQueue \<Rightarrow> bool" where
  "queue_inv q \<longleftrightarrow> heap_inv (pq_items q)"

definition queue_bag :: "PriorityQueue \<Rightarrow> OperationRequest multiset" where
  "queue_bag q = requests (pq_items q)"

text \<open>\<open>TryDequeue\<close> as the partial operation of the interface.\<close>

definition try_deq :: "PriorityQueue \<Rightarrow> (OperationRequest \<times> PriorityQueue) option" where
  "try_deq q = (case TryDequeue q of (Some r, q') \<Rightarrow> Some (r, q') | (None, q') \<Rightarrow> None)"

definition stamped :: "time \<Rightarrow> OperationRequest \<Rightarrow> OperationRequest" where
  "stamped now r = (if req_created r = 0 then r\<lparr>req_created := now\<rparr> else r)"

lemma queue_inv_new: "queue_inv NewPriorityQueue"
  by (simp add: queue_inv_def NewPriorityQueue_def heap_inv_def heap_upto_def indexed_def)

lemma queue_bag_new: "queue_bag NewPriorityQueue = {#}"
  by (simp add: queue_bag_def NewPriorityQueue_def requests_def)

lemma Enqueue_inv: "queue_inv q \<Longrightarrow> queue_inv (Enqueue now q r)"
  by (simp add: queue_inv_def Enqueue_def Let_def heap_push_correct)

lemma Enqueue_bag: "queue_inv q \<Longrightarrow> queue_bag (Enqueue now q r) = add_mset (stamped now r) (queue_bag q)"
  by (simp add: queue_inv_def queue_bag_def Enqueue_def Let_def heap_push_correct stamped_def)

lemma requests_empty [simp]: "requests h = {#} \<longleftrightarrow> h = []"
  by (simp add: requests_def)

lemma try_deq_None: "try_deq q = None \<longleftrightarrow> queue_bag q = {#}"
  by (simp add: try_deq_def TryDequeue_def queue_bag_def split: prod.splits)

lemma try_deq_SomeD:
  assumes "try_deq q = Some (r, q')" and "queue_inv q"
  shows "queue_inv q' \<and> queue_bag q = add_mset r (queue_bag q') \<and>
    (\<forall>x \<in># queue_bag q. req_key r \<le> req_key x)"
proof -
  obtain x h' where ne: "pq_items q \<noteq> []" and pop: "heap_pop (pq_items q) = (x, h')"
    and r: "r = qi_request x" and q': "q' = q\<lparr>pq_items := h'\<rparr>"
    using assms(1) by (auto simp: try_deq_def TryDequeue_def split: prod.splits if_splits)
  have inv: "heap_inv (pq_items q)" using assms(2) by (simp add: queue_inv_def)
  show ?thesis
    using heap_pop_correct [OF inv ne pop] heap_pop_least [OF inv ne pop]
    by (simp add: queue_inv_def queue_bag_def r q')
qed

interpretation pq: priority_queue "Enqueue now" "stamped now" try_deq queue_bag req_key queue_inv
  for now
  by unfold_locales (auto simp: Enqueue_inv Enqueue_bag try_deq_None dest: try_deq_SomeD)

lemmas queue_facts = Enqueue_inv Enqueue_bag try_deq_None queue_inv_new queue_bag_new

subsection \<open>Removal and blocking\<close>

lemma index_of_Some:
  "index_of op xs = Some i \<Longrightarrow> i < length xs \<and> req_id (qi_request (xs ! i)) = op \<and>
     (\<forall>j < i. req_id (qi_request (xs ! j)) \<noteq> op)"
proof (induction xs arbitrary: i)
  case (Cons x xs)
  then show ?case by (auto split: if_splits simp: nth_Cons split: nat.splits)
qed simp

lemma index_of_None: "index_of op xs = None \<longleftrightarrow> (\<forall>x \<in> set xs. req_id (qi_request x) \<noteq> op)"
  by (induction xs) auto

lemma RemoveAndReturn_correct:
  assumes "queue_inv q" and "RemoveAndReturn q op = (res, q')"
  shows "queue_inv q' \<and> pq_closed q' = pq_closed q \<and>
    (case res of
       None \<Rightarrow> q' = q \<and> (\<forall>r \<in># queue_bag q. req_id r \<noteq> op)
     | Some r \<Rightarrow> req_id r = op \<and> queue_bag q = add_mset r (queue_bag q'))"
proof (cases "index_of op (pq_items q)")
  case None
  then have eq: "res = None" "q' = q" using assms(2) by (simp_all add: RemoveAndReturn_def)
  have "\<forall>x \<in> set (pq_items q). req_id (qi_request x) \<noteq> op"
    using None by (simp add: index_of_None)
  then show ?thesis using assms(1) eq by (auto simp: queue_bag_def requests_def)
next
  case (Some i)
  obtain x h' where rm: "heap_remove (pq_items q) i = (x, h')"
    by (cases "heap_remove (pq_items q) i")
  note idx = index_of_Some [OF Some]
  have "heap_inv (pq_items q)" using assms(1) by (simp add: queue_inv_def)
  note rc = heap_remove_correct [OF this conjunct1 [OF idx] rm]
  have "res = Some (qi_request (pq_items q ! i))" "q' = q\<lparr>pq_items := h'\<rparr>"
    using assms(2) Some rm by (simp_all add: RemoveAndReturn_def)
  then show ?thesis using rc idx by (simp add: queue_inv_def queue_bag_def)
qed

lemma queue_remove_eq:
  "queue_remove q op = (fst (RemoveAndReturn q op) \<noteq> None, snd (RemoveAndReturn q op))"
  by (simp add: queue_remove_def RemoveAndReturn_def split: option.splits)

lemma Dequeue_cases:
  "Dequeue q =
     (if queue_bag q = {#} then (if pq_closed q then DeqClosed else DeqBlocked, q)
      else case try_deq q of Some (r, q') \<Rightarrow> (DeqItem r, q') | None \<Rightarrow> (DeqBlocked, q))"
  by (auto simp: Dequeue_def try_deq_def TryDequeue_def queue_bag_def split: prod.splits)

lemma Dequeue_correct:
  assumes "queue_inv q" and "Dequeue q = (out, q')"
  shows "queue_inv q' \<and> pq_closed q' = pq_closed q \<and>
    (case out of
       DeqBlocked \<Rightarrow> q' = q \<and> queue_bag q = {#} \<and> \<not> pq_closed q
     | DeqClosed \<Rightarrow> q' = q \<and> queue_bag q = {#} \<and> pq_closed q
     | DeqItem r \<Rightarrow> queue_bag q = add_mset r (queue_bag q') \<and>
         (\<forall>x \<in># queue_bag q. req_key r \<le> req_key x))"
proof (cases "try_deq q")
  case None
  then show ?thesis using assms by (auto simp: Dequeue_cases try_deq_None split: if_splits)
next
  case (Some rq)
  obtain r q1 where rq: "rq = (r, q1)" by (cases rq)
  have c: "pq_closed q1 = pq_closed q"
    using Some rq by (auto simp: try_deq_def TryDequeue_def split: prod.splits if_splits)
  have ne: "queue_bag q \<noteq> {#}" using Some by (auto simp flip: try_deq_None)
  have "out = DeqItem r" "q' = q1" using assms(2) ne Some rq by (simp_all add: Dequeue_cases)
  then show ?thesis
    using try_deq_SomeD [OF Some [unfolded rq] assms(1)] c by simp
qed

lemma length_queue_bag: "queue_len q = size (queue_bag q)"
  by (simp add: queue_len_def queue_bag_def requests_def)

end
