(* ===== verification/DockerClient.thy ===== *)
theory DockerClient
  imports Domain
begin

text \<open>
  The client interface of \<open>internal/docker/client.go\<close>.

  The Docker daemon is outside the program. The record \<open>env\<close> holds what the operations call: the
  methods of the \<open>Client\<close> interface, the clock, the operation's context, \<open>net.Listen\<close> and the order
  in which a \<open>range\<close> loop visits the keys of a map the code builds itself. Each is a function of
  the outside world \<open>'w\<close>, arbitrary in every theorem. The state the operations thread is the world
  and the trace of the calls they made, each with its context, its arguments and the answer, so
  that a theorem can say what an operation did to the daemon whatever the daemon answered.
\<close>

section \<open>The data of the interface\<close>

record PortBinding =
  pb_hostip :: string
  pb_hostport :: string
  pb_containerport :: string
  pb_protocol :: string

record MountConfig =
  mc_type :: string
  mc_source :: string
  mc_target :: string
  mc_readonly :: bool

record ContainerCreateConfig =
  cc_name :: string
  cc_image :: string
  cc_labels :: "(string, string) gomap"
  cc_env :: "string list"
  cc_cmd :: "string list"
  cc_entrypoint :: "string list"
  cc_ports :: "PortBinding list"
  cc_volumes :: "MountConfig list"
  cc_networks :: "string list"
  cc_restart :: string

record ContainerInfo =
  ci_id :: string
  ci_name :: string
  ci_image :: string
  ci_state :: string
  ci_status :: string
  ci_labels :: "(string, string) gomap"
  ci_ports :: "PortBinding list"
  ci_created :: time

record NetworkInfo =
  ni_id :: string
  ni_name :: string
  ni_driver :: string
  ni_labels :: "(string, string) gomap"

record NetworkCreateOpts =
  nco_driver :: string
  nco_labels :: "(string, string) gomap"
  nco_options :: "(string, string) gomap"

record VolumeInfo =
  vi_name :: string
  vi_driver :: string
  vi_labels :: "(string, string) gomap"

record VolumeCreateOpts =
  vco_driver :: string
  vco_labels :: "(string, string) gomap"
  vco_options :: "(string, string) gomap"

record ImageBuildOpts =
  ib_context :: string
  ib_dockerfile :: string
  ib_tags :: "string list"
  ib_args :: "(string, string) gomap"
  ib_target :: string

type_synonym docker_filters = "(string \<times> string list) list"

text \<open>The context a call is given: the operation's own, or \<open>context.Background()\<close>.\<close>

datatype go_ctx = OpCtx | Background

section \<open>The interface and the calls it records\<close>

record 'w env =
  cl_ContainerCreate :: "go_ctx \<Rightarrow> ContainerCreateConfig \<Rightarrow> 'w \<Rightarrow> (go_error + string) \<times> 'w"
  cl_ContainerStart :: "go_ctx \<Rightarrow> string \<Rightarrow> 'w \<Rightarrow> go_error option \<times> 'w"
  cl_ContainerStop :: "go_ctx \<Rightarrow> string \<Rightarrow> duration \<Rightarrow> 'w \<Rightarrow> go_error option \<times> 'w"
  cl_ContainerRemove :: "go_ctx \<Rightarrow> string \<Rightarrow> bool \<Rightarrow> 'w \<Rightarrow> go_error option \<times> 'w"
  cl_ContainerList :: "go_ctx \<Rightarrow> docker_filters \<Rightarrow> 'w \<Rightarrow> (go_error + ContainerInfo list) \<times> 'w"
  cl_NetworkCreate :: "go_ctx \<Rightarrow> string \<Rightarrow> NetworkCreateOpts \<Rightarrow> 'w \<Rightarrow> (go_error + string) \<times> 'w"
  cl_NetworkRemove :: "go_ctx \<Rightarrow> string \<Rightarrow> 'w \<Rightarrow> go_error option \<times> 'w"
  cl_NetworkList :: "go_ctx \<Rightarrow> 'w \<Rightarrow> (go_error + NetworkInfo list) \<times> 'w"
  cl_VolumeCreate :: "go_ctx \<Rightarrow> string \<Rightarrow> VolumeCreateOpts \<Rightarrow> 'w \<Rightarrow> go_error option \<times> 'w"
  cl_VolumeRemove :: "go_ctx \<Rightarrow> string \<Rightarrow> bool \<Rightarrow> 'w \<Rightarrow> go_error option \<times> 'w"
  cl_VolumeList :: "go_ctx \<Rightarrow> 'w \<Rightarrow> (go_error + VolumeInfo list) \<times> 'w"
  cl_ImagePull :: "go_ctx \<Rightarrow> string \<Rightarrow> 'w \<Rightarrow> go_error option \<times> 'w"
  cl_ImageBuild :: "go_ctx \<Rightarrow> ImageBuildOpts \<Rightarrow> 'w \<Rightarrow> go_error option \<times> 'w"
  cl_ImageExists :: "go_ctx \<Rightarrow> string \<Rightarrow> 'w \<Rightarrow> (go_error + bool) \<times> 'w"
  net_Listen :: "string \<Rightarrow> 'w \<Rightarrow> go_error option \<times> 'w"
  env_now :: "'w \<Rightarrow> time \<times> 'w"
  ctx_err :: "'w \<Rightarrow> bool"
  range_order :: "string list \<Rightarrow> string list"

datatype docker_call =
    CallContainerCreate ContainerCreateConfig "go_error + string"
  | CallContainerStart string "go_error option"
  | CallContainerStop string duration "go_error option"
  | CallContainerRemove string bool "go_error option"
  | CallContainerList docker_filters "go_error + ContainerInfo list"
  | CallNetworkCreate string NetworkCreateOpts "go_error + string"
  | CallNetworkRemove string "go_error option"
  | CallNetworkList "go_error + NetworkInfo list"
  | CallVolumeCreate string VolumeCreateOpts "go_error option"
  | CallVolumeRemove string bool "go_error option"
  | CallVolumeList "go_error + VolumeInfo list"
  | CallImagePull string "go_error option"
  | CallImageBuild ImageBuildOpts "go_error option"
  | CallImageExists string "go_error + bool"
  | CallListen string "go_error option"

type_synonym call_event = "go_ctx \<times> docker_call"

record 'w dstate =
  ds_world :: 'w
  ds_trace :: "call_event list"

text \<open>Make a call: run it on the world and append it with its answer to the trace.\<close>

definition traced :: "('w \<Rightarrow> 'r \<times> 'w) \<Rightarrow> ('r \<Rightarrow> call_event) \<Rightarrow> 'w dstate \<Rightarrow> 'r \<times> 'w dstate" where
  "traced f ev s =
     (let (r, w) = f (ds_world s) in (r, \<lparr>ds_world = w, ds_trace = ds_trace s @ [ev r]\<rparr>))"

definition ContainerCreate where
  "ContainerCreate e c cfg = traced (cl_ContainerCreate e c cfg) (\<lambda>r. (c, CallContainerCreate cfg r))"

definition ContainerStart where
  "ContainerStart e c i = traced (cl_ContainerStart e c i) (\<lambda>r. (c, CallContainerStart i r))"

definition ContainerStop where
  "ContainerStop e c i tmo = traced (cl_ContainerStop e c i tmo) (\<lambda>r. (c, CallContainerStop i tmo r))"

definition ContainerRemove where
  "ContainerRemove e c i force =
     traced (cl_ContainerRemove e c i force) (\<lambda>r. (c, CallContainerRemove i force r))"

definition ContainerList where
  "ContainerList e c fs = traced (cl_ContainerList e c fs) (\<lambda>r. (c, CallContainerList fs r))"

definition NetworkCreate where
  "NetworkCreate e c n opts = traced (cl_NetworkCreate e c n opts) (\<lambda>r. (c, CallNetworkCreate n opts r))"

definition NetworkRemove where
  "NetworkRemove e c i = traced (cl_NetworkRemove e c i) (\<lambda>r. (c, CallNetworkRemove i r))"

definition NetworkList where
  "NetworkList e c = traced (cl_NetworkList e c) (\<lambda>r. (c, CallNetworkList r))"

definition VolumeCreate where
  "VolumeCreate e c n opts = traced (cl_VolumeCreate e c n opts) (\<lambda>r. (c, CallVolumeCreate n opts r))"

definition VolumeRemove where
  "VolumeRemove e c n force = traced (cl_VolumeRemove e c n force) (\<lambda>r. (c, CallVolumeRemove n force r))"

definition VolumeList where
  "VolumeList e c = traced (cl_VolumeList e c) (\<lambda>r. (c, CallVolumeList r))"

definition ImagePull where
  "ImagePull e c ref = traced (cl_ImagePull e c ref) (\<lambda>r. (c, CallImagePull ref r))"

definition ImageBuild where
  "ImageBuild e c opts = traced (cl_ImageBuild e c opts) (\<lambda>r. (c, CallImageBuild opts r))"

definition ImageExists where
  "ImageExists e c ref = traced (cl_ImageExists e c ref) (\<lambda>r. (c, CallImageExists ref r))"

definition Listen where
  "Listen e addr = traced (net_Listen e addr) (\<lambda>r. (Background, CallListen addr r))"

text \<open>\<open>time.Now()\<close>, which is not a call of the trace.\<close>

definition time_now :: "'w env \<Rightarrow> 'w dstate \<Rightarrow> time \<times> 'w dstate" where
  "time_now e s = (let (t, w) = env_now e (ds_world s) in (t, s\<lparr>ds_world := w\<rparr>))"

definition ctx_done :: "'w env \<Rightarrow> 'w dstate \<Rightarrow> bool" where
  "ctx_done e s = ctx_err e (ds_world s)"

lemmas call_defs =
  ContainerCreate_def ContainerStart_def ContainerStop_def ContainerRemove_def ContainerList_def
  NetworkCreate_def NetworkRemove_def NetworkList_def VolumeCreate_def VolumeRemove_def
  VolumeList_def ImagePull_def ImageBuild_def ImageExists_def Listen_def

section \<open>What a call adds to the trace\<close>

text \<open>
  \<open>trace_since s s'\<close> is the trace between two states of one run. Every call extends the trace by
  its own event; these rules let the automation compute the events of a whole operation.
\<close>

definition extends :: "'w dstate \<Rightarrow> 'w dstate \<Rightarrow> call_event list \<Rightarrow> bool" where
  "extends s s' tr \<longleftrightarrow> ds_trace s' = ds_trace s @ tr"

lemma extends_refl: "extends s s []"
  by (simp add: extends_def)

lemma extends_trans: "extends s s' a \<Longrightarrow> extends s' s'' b \<Longrightarrow> extends s s'' (a @ b)"
  by (simp add: extends_def)

lemma extends_unique: "extends s s' a \<Longrightarrow> extends s s' b \<Longrightarrow> a = b"
  by (simp add: extends_def)

lemma traced_extends: "traced f ev s = (r, s') \<Longrightarrow> extends s s' [ev r]"
  by (auto simp: traced_def extends_def split: prod.splits)

lemma time_now_extends: "time_now e s = (t, s') \<Longrightarrow> extends s s' []"
  by (auto simp: time_now_def extends_def split: prod.splits)

lemma time_now_trace [simp]: "time_now e s = (t, s') \<Longrightarrow> ds_trace s' = ds_trace s"
  by (auto simp: time_now_def split: prod.splits)

end
