(* ===== verification/Topo.thy ===== *)
theory Topo
  imports Domain "HOL-Library.Multiset"
begin

text \<open>
  The dependency order of \<open>topologicalSort\<close> in \<open>internal/docker/operations.go\<close>.

  The code visits the names depth first with a shared \<open>visited\<close> map and appends a service after
  its dependencies. The visits of a list of names are \<open>topo_visit\<close>, which threads the visited names
  and the order built so far; the names \<open>range graph\<close> gives are the argument \<open>names\<close>, in any order.
\<close>

section \<open>The sort\<close>

text \<open>
  The two maps the code builds: \<open>graph[name]\<close> is reset to nil for each service and then collects
  the dependencies of that service, and \<open>svcMap\<close> keeps the last service of each name.
\<close>

definition topo_graph :: "Service list \<Rightarrow> (string, string list) gomap" where
  "topo_graph svcs = foldl (\<lambda>g s. AList.update (svc_name s) (map fst (svc_depends s)) g) [] svcs"

definition topo_svcMap :: "Service list \<Rightarrow> (string, Service) gomap" where
  "topo_svcMap svcs = foldl (\<lambda>m s. AList.update (svc_name s) s m) [] svcs"

definition graph_deps :: "(string, string list) gomap \<Rightarrow> string \<Rightarrow> string list" where
  "graph_deps g n = (case map_of g n of None \<Rightarrow> [] | Some ds \<Rightarrow> ds)"

text \<open>Every name a visit can reach: the bound on the recursion.\<close>

definition graph_nodes :: "(string, string list) gomap \<Rightarrow> string set" where
  "graph_nodes g = fst ` set g \<union> \<Union> (set ` snd ` set g)"

lemma finite_graph_nodes [simp]: "finite (graph_nodes g)"
  by (simp add: graph_nodes_def)

lemma graph_deps_nodes: "d \<in> set (graph_deps g n) \<Longrightarrow> n \<in> graph_nodes g \<and> d \<in> graph_nodes g"
proof -
  assume d: "d \<in> set (graph_deps g n)"
  then obtain ds where "map_of g n = Some ds" and ds: "d \<in> set ds"
    by (cases "map_of g n") (auto simp: graph_deps_def)
  then have "(n, ds) \<in> set g" by (simp add: map_of_SomeD)
  with ds show ?thesis by (force simp: graph_nodes_def)
qed

text \<open>\<open>graph_deps\<close> is empty for a name that is not a node, so its visit goes no deeper.\<close>

function topo_visit ::
    "(string, string list) gomap \<Rightarrow> (string, Service) gomap \<Rightarrow> string list \<Rightarrow>
     string list \<times> Service list \<Rightarrow> string list \<times> Service list" where
  "topo_visit g m [] st = st"
| "topo_visit g m (n # ns) (visited, order) =
     (if n \<in> set visited then topo_visit g m ns (visited, order)
      else
        let (visited', order') = topo_visit g m (graph_deps g n) (n # visited, order)
        in topo_visit g m ns
             (visited', (case map_of m n of Some s \<Rightarrow> order' @ [s] | None \<Rightarrow> order')))"
  by pat_completeness auto

termination
proof -
  have grows: "topo_visit_dom (g, m, ns, st) \<Longrightarrow> set (fst st) \<subseteq> set (fst (topo_visit g m ns st))"
    for g m ns st
  proof (induction g m ns st rule: topo_visit.pinduct)
    case (2 g m n ns visited order)
    then show ?case by (fastforce simp: topo_visit.psimps Let_def split: prod.splits)
  qed (simp add: topo_visit.psimps)
  show ?thesis
  proof (relation "inv_image (finite_psubset <*lex*> less_than)
      (\<lambda>(g, m, ns, st). (graph_nodes g - set (fst st), length ns))", goal_cases)
    case 1
    show ?case by auto
  next
    case (2 g m n ns visited order)
    then show ?case by simp
  next
    case (3 g m n ns visited order)
    show ?case
    proof (cases "n \<in> graph_nodes g")
      case True
      with 3 show ?thesis by (auto simp: finite_psubset_def)
    next
      case False
      then have "graph_deps g n = []" using graph_deps_nodes by (metis list.set_intros(1) neq_Nil_conv)
      moreover have "graph_nodes g - set (n # visited) = graph_nodes g - set visited" using False by auto
      ultimately show ?thesis by simp
    qed
  next
    case (4 g m n ns visited order x visited' order')
    then have "set (n # visited) \<subseteq> set visited'" using grows by (metis fst_conv)
    then have "graph_nodes g - set visited' \<subseteq> graph_nodes g - set visited" by auto
    then show ?case by (auto simp: finite_psubset_def)
  qed
qed

definition topologicalSort :: "(string list \<Rightarrow> string list) \<Rightarrow> Service list \<Rightarrow> Service list" where
  "topologicalSort order svcs =
     (let g = topo_graph svcs; m = topo_svcMap svcs
      in snd (topo_visit g m (order (map fst g)) ([], [])))"

section \<open>Every reachable service once\<close>

text \<open>
  The map of services gives each name a service of that name; this is all the visit needs to know
  about it.
\<close>

definition named_map :: "(string, Service) gomap \<Rightarrow> bool" where
  "named_map m \<longleftrightarrow> (\<forall>n s. map_of m n = Some s \<longrightarrow> svc_name s = n)"

text \<open>
  Whatever the graph, a visit marks all its names and emits, exactly once, the service of each name
  it newly marked.
\<close>

lemma topo_visit_emits:
  "topo_visit g m ns (visited, order) = (visited', order') \<Longrightarrow> named_map m \<Longrightarrow>
     set visited \<union> set ns \<subseteq> set visited' \<and>
     (\<exists>new. order' = order @ new \<and> set new \<subseteq> ran (map_of m) \<and> distinct (map svc_name new) \<and>
        svc_name ` set new = {x \<in> set visited' - set visited. map_of m x \<noteq> None})"
proof (induction g m ns "(visited, order)" arbitrary: visited order visited' order' rule: topo_visit.induct)
  case (1 g m)
  then show ?case by simp
next
  case (2 g m n ns visited order)
  show ?case
  proof (cases "n \<in> set visited")
    case True
    with 2 show ?thesis by auto
  next
    case False
    obtain v1 o1 where inner: "topo_visit g m (graph_deps g n) (n # visited, order) = (v1, o1)"
      by fastforce
    obtain new1 where n1: "set (n # visited) \<union> set (graph_deps g n) \<subseteq> set v1"
      "o1 = order @ new1" "set new1 \<subseteq> ran (map_of m)" "distinct (map svc_name new1)"
      "svc_name ` set new1 = {x \<in> set v1 - set (n # visited). map_of m x \<noteq> None}"
      using "2.hyps"(2) [OF False inner "2.prems"(2)] by auto
    obtain o2 em where o2: "o2 = (case map_of m n of Some s \<Rightarrow> o1 @ [s] | None \<Rightarrow> o1)"
      and em: "em = (case map_of m n of Some s \<Rightarrow> [s] | None \<Rightarrow> [])" by simp
    have outer: "topo_visit g m ns (v1, o2) = (visited', order')"
      using "2.prems"(1) False inner by (simp add: o2)
    obtain new2 where n2: "set v1 \<union> set ns \<subseteq> set visited'"
      "order' = o2 @ new2" "set new2 \<subseteq> ran (map_of m)" "distinct (map svc_name new2)"
      "svc_name ` set new2 = {x \<in> set visited' - set v1. map_of m x \<noteq> None}"
      using "2.hyps"(3) [OF False inner [symmetric] refl] outer "2.prems"(2) by (auto simp: o2)
    have emn: "set em \<subseteq> ran (map_of m)" "svc_name ` set em = {x. x = n \<and> map_of m x \<noteq> None}"
      "distinct (map svc_name em)" "o2 = o1 @ em"
      using "2.prems"(2) by (cases "map_of m n"; force simp: em o2 named_map_def ran_def)+
    let ?new = "new1 @ em @ new2"
    have "order' = order @ ?new" using n1(2) n2(2) emn(4) by simp
    moreover have "set ?new \<subseteq> ran (map_of m)" using n1(3) n2(3) emn(1) by auto
    moreover have "svc_name ` set ?new = {x \<in> set visited' - set visited. map_of m x \<noteq> None}"
      using n1(1,5) n2(1,5) emn(2) False by (auto simp: image_Un)
    moreover have "distinct (map svc_name ?new)"
      using n1(1,4,5) n2(4,5) emn(2,3) by auto
    moreover have "set visited \<union> set (n # ns) \<subseteq> set visited'" using n1(1) n2(1) by auto
    ultimately show ?thesis by blast
  qed
qed

section \<open>Dependencies first\<close>

definition dep_edges :: "(string, string list) gomap \<Rightarrow> (string \<times> string) set" where
  "dep_edges g = {(n, d). d \<in> set (graph_deps g n)}"

definition deps_first :: "(string, string list) gomap \<Rightarrow> (string, Service) gomap \<Rightarrow> Service list \<Rightarrow> bool" where
  "deps_first g m ord \<longleftrightarrow>
     (\<forall>xs s ys. ord = xs @ s # ys \<longrightarrow>
        (\<forall>d \<in> set (graph_deps g (svc_name s)). map_of m d \<noteq> None \<longrightarrow> d \<in> svc_name ` set xs))"

lemma deps_first_snoc:
  "deps_first g m (ord @ [s]) \<longleftrightarrow> deps_first g m ord \<and>
     (\<forall>d \<in> set (graph_deps g (svc_name s)). map_of m d \<noteq> None \<longrightarrow> d \<in> svc_name ` set ord)"
proof (intro iffI conjI)
  assume L: "deps_first g m (ord @ [s])"
  show "deps_first g m ord"
    unfolding deps_first_def
  proof (intro allI impI)
    fix xs t ys assume "ord = xs @ t # ys"
    then have "ord @ [s] = xs @ t # (ys @ [s])" by simp
    with L show "\<forall>d \<in> set (graph_deps g (svc_name t)). map_of m d \<noteq> None \<longrightarrow> d \<in> svc_name ` set xs"
      unfolding deps_first_def by blast
  qed
  show "\<forall>d \<in> set (graph_deps g (svc_name s)). map_of m d \<noteq> None \<longrightarrow> d \<in> svc_name ` set ord"
    using L unfolding deps_first_def by blast
next
  assume R: "deps_first g m ord \<and>
    (\<forall>d \<in> set (graph_deps g (svc_name s)). map_of m d \<noteq> None \<longrightarrow> d \<in> svc_name ` set ord)"
  show "deps_first g m (ord @ [s])"
    unfolding deps_first_def
  proof (intro allI impI)
    fix xs t ys assume eq: "ord @ [s] = xs @ t # ys"
    show "\<forall>d \<in> set (graph_deps g (svc_name t)). map_of m d \<noteq> None \<longrightarrow> d \<in> svc_name ` set xs"
    proof (cases ys rule: rev_cases)
      case Nil
      with eq R show ?thesis by simp
    next
      case (snoc zs z)
      with eq have "ord = xs @ t # zs" by simp
      with R show ?thesis unfolding deps_first_def by blast
    qed
  qed
qed

text \<open>
  \<open>gray\<close> are the names whose visit has begun and not ended: they all reach the names still to be
  visited, so in an acyclic graph none of those is gray, and every dependency of a service has been
  emitted when the service is.
\<close>

lemma topo_visit_deps_first:
  "topo_visit g m ns (visited, order) = (visited', order') \<Longrightarrow> named_map m \<Longrightarrow>
     acyclic (dep_edges g) \<Longrightarrow>
     (\<forall>x \<in> gray. \<forall>n \<in> set ns. (x, n) \<in> (dep_edges g)\<^sup>+) \<Longrightarrow>
     (\<forall>x \<in> set visited - gray. map_of m x \<noteq> None \<longrightarrow> x \<in> svc_name ` set order) \<Longrightarrow>
     deps_first g m order \<Longrightarrow>
     deps_first g m order' \<and>
     (\<forall>x \<in> set visited' - gray. map_of m x \<noteq> None \<longrightarrow> x \<in> svc_name ` set order')"
proof (induction g m ns "(visited, order)" arbitrary: visited order visited' order' gray rule: topo_visit.induct)
  case (1 g m)
  then show ?case by simp
next
  case (2 g m n ns visited order)
  show ?case
  proof (cases "n \<in> set visited")
    case True
    then have "topo_visit g m ns (visited, order) = (visited', order')"
      using "2.prems"(1) by simp
    then show ?thesis
      using "2.hyps"(1) [OF True _ "2.prems"(2,3) _ "2.prems"(5,6)] "2.prems"(4) by simp
  next
    case False
    obtain v1 o1 where inner: "topo_visit g m (graph_deps g n) (n # visited, order) = (v1, o1)"
      by fastforce
    have gray': "\<forall>x \<in> insert n gray. \<forall>d \<in> set (graph_deps g n). (x, d) \<in> (dep_edges g)\<^sup>+"
      using "2.prems"(4) by (auto simp: dep_edges_def intro: trancl_into_trancl)
    have "deps_first g m o1 \<and>
        (\<forall>x \<in> set v1 - insert n gray. map_of m x \<noteq> None \<longrightarrow> x \<in> svc_name ` set o1)"
      using "2.hyps"(2) [OF False inner "2.prems"(2,3) gray' _ "2.prems"(6)] "2.prems"(5) by auto
    then have i1: "deps_first g m o1"
      and i2: "\<And>x. x \<in> set v1 \<Longrightarrow> x \<notin> insert n gray \<Longrightarrow> map_of m x \<noteq> None \<Longrightarrow> x \<in> svc_name ` set o1"
      by blast+
    have dv: "set (graph_deps g n) \<subseteq> set v1"
      using topo_visit_emits [OF inner "2.prems"(2)] by simp
    have notgray: "d \<notin> insert n gray" if "d \<in> set (graph_deps g n)" for d
      using gray' that "2.prems"(3) by (auto simp: acyclic_def)
    obtain o2 where o2: "o2 = (case map_of m n of Some s \<Rightarrow> o1 @ [s] | None \<Rightarrow> o1)" by simp
    have d2: "deps_first g m o2"
    proof (cases "map_of m n")
      case None
      with i1 show ?thesis by (simp add: o2)
    next
      case (Some s)
      then have "svc_name s = n" using "2.prems"(2) by (simp add: named_map_def)
      with i1 i2 dv notgray show ?thesis by (auto simp: o2 Some deps_first_snoc)
    qed
    have e2: "\<forall>x \<in> set v1 - gray. map_of m x \<noteq> None \<longrightarrow> x \<in> svc_name ` set o2"
    proof (intro ballI impI)
      fix x assume x: "x \<in> set v1 - gray" "map_of m x \<noteq> None"
      show "x \<in> svc_name ` set o2"
      proof (cases "x = n")
        case True
        then show ?thesis using x "2.prems"(2) by (auto simp: o2 named_map_def)
      next
        case False
        then have "x \<in> svc_name ` set o1" using i2 x by auto
        then show ?thesis by (auto simp: o2 split: option.splits)
      qed
    qed
    have outer: "topo_visit g m ns (v1, o2) = (visited', order')"
      using "2.prems"(1) False inner by (simp add: o2)
    have g2: "\<forall>x \<in> gray. \<forall>n \<in> set ns. (x, n) \<in> (dep_edges g)\<^sup>+" using "2.prems"(4) by simp
    show ?thesis
      by (rule "2.hyps"(3) [OF False inner [symmetric] refl outer [unfolded o2] "2.prems"(2,3) g2
            e2 [unfolded o2] d2 [unfolded o2]])
  qed
qed

section \<open>The sort of a project's services\<close>

text \<open>
  A service's dependency edges among names, read off the services themselves; the specification of
  the sort speaks of these and not of the maps the code builds.
\<close>

definition depends_on :: "Service list \<Rightarrow> (string \<times> string) set" where
  "depends_on svcs = {(a, d). \<exists>s \<in> set svcs. svc_name s = a \<and> d \<in> fst ` set (svc_depends s)}"

lemma update_new: "k \<notin> set (map fst m) \<Longrightarrow> AList.update k v m = m @ [(k, v)]"
  by (induction m) auto

lemma foldl_update_distinct:
  "distinct (map f xs) \<Longrightarrow> set (map f xs) \<inter> set (map fst acc) = {} \<Longrightarrow>
     foldl (\<lambda>m x. AList.update (f x) (h x) m) acc xs = acc @ map (\<lambda>x. (f x, h x)) xs"
  by (induction xs arbitrary: acc) (auto simp: update_new)

lemma topo_graph_eq:
  "distinct (map svc_name svcs) \<Longrightarrow>
     topo_graph svcs = map (\<lambda>s. (svc_name s, map fst (svc_depends s))) svcs"
  using foldl_update_distinct [of svc_name svcs "[]"] by (simp add: topo_graph_def)

lemma topo_svcMap_eq:
  "distinct (map svc_name svcs) \<Longrightarrow> topo_svcMap svcs = map (\<lambda>s. (svc_name s, s)) svcs"
  using foldl_update_distinct [of svc_name svcs "[]" "\<lambda>s. s"] by (simp add: topo_svcMap_def)

lemma map_of_names:
  "distinct (map svc_name svcs) \<Longrightarrow>
     map_of (map (\<lambda>s. (svc_name s, h s)) svcs) n = Some v \<longleftrightarrow> (\<exists>s \<in> set svcs. svc_name s = n \<and> h s = v)"
proof (induction svcs)
  case (Cons a svcs)
  show ?case
  proof (cases "svc_name a = n")
    case True
    then have "svc_name s \<noteq> n" if "s \<in> set svcs" for s
      using Cons.prems that by (metis distinct.simps(2) image_eqI list.set_map list.simps(9))
    with True show ?thesis by auto
  next
    case False
    with Cons show ?thesis by auto
  qed
qed simp

lemma map_of_names_None:
  "map_of (map (\<lambda>s. (svc_name s, h s)) svcs) n \<noteq> None \<longleftrightarrow> n \<in> svc_name ` set svcs"
  by (force simp: map_of_eq_None_iff)

lemma dep_edges_eq:
  "distinct (map svc_name svcs) \<Longrightarrow> dep_edges (topo_graph svcs) = depends_on svcs"
proof -
  assume dist: "distinct (map svc_name svcs)"
  have "d \<in> set (graph_deps (topo_graph svcs) n) \<longleftrightarrow>
      (\<exists>ds. map_of (topo_graph svcs) n = Some ds \<and> d \<in> set ds)" for n d
    by (cases "map_of (topo_graph svcs) n") (simp_all add: graph_deps_def)
  then have "d \<in> set (graph_deps (topo_graph svcs) n) \<longleftrightarrow>
      (\<exists>s \<in> set svcs. svc_name s = n \<and> d \<in> set (map fst (svc_depends s)))" for n d
    unfolding topo_graph_eq [OF dist] map_of_names [OF dist] by blast
  then show ?thesis by (simp add: dep_edges_def depends_on_def)
qed

lemma named_map_svcMap: "distinct (map svc_name svcs) \<Longrightarrow> named_map (topo_svcMap svcs)"
  by (auto simp: named_map_def topo_svcMap_eq map_of_names)

lemma eq_by_names:
  "distinct (map svc_name xs) \<Longrightarrow> distinct (map svc_name ys) \<Longrightarrow> set xs \<subseteq> set ys \<Longrightarrow>
     svc_name ` set xs = svc_name ` set ys \<Longrightarrow> mset xs = mset ys"
proof -
  assume d: "distinct (map svc_name xs)" "distinct (map svc_name ys)"
    and sub: "set xs \<subseteq> set ys" and img: "svc_name ` set xs = svc_name ` set ys"
  have "inj_on svc_name (set ys)" using d(2) by (simp add: distinct_map)
  then have "set xs = set ys" using sub img by (metis inj_on_image_eq_iff order_refl)
  moreover have "distinct xs" "distinct ys" using d by (simp_all add: distinct_map)
  ultimately show "mset xs = mset ys" by (simp add: set_eq_iff_mset_eq_distinct)
qed

lemma topologicalSort_mset:
  assumes "distinct (map svc_name svcs)" and "\<And>ks. set (order ks) = set ks"
  shows "mset (topologicalSort order svcs) = mset svcs"
proof -
  let ?g = "topo_graph svcs" and ?m = "topo_svcMap svcs"
  obtain v ord where run: "topo_visit ?g ?m (order (map fst ?g)) ([], []) = (v, ord)" by fastforce
  have keys: "set (order (map fst ?g)) = svc_name ` set svcs"
    using assms by (auto simp: topo_graph_eq)
  have dom: "map_of ?m x \<noteq> None \<longleftrightarrow> x \<in> svc_name ` set svcs" for x
    unfolding topo_svcMap_eq [OF assms(1)] by (rule map_of_names_None)
  have e: "svc_name ` set svcs \<subseteq> set v" "set ord \<subseteq> ran (map_of ?m)" "distinct (map svc_name ord)"
    "svc_name ` set ord = {x \<in> set v. x \<in> svc_name ` set svcs}"
    using topo_visit_emits [OF run named_map_svcMap [OF assms(1)]] keys dom by auto
  have "ran (map_of ?m) \<subseteq> set svcs"
    using assms(1) by (auto simp: ran_def topo_svcMap_eq map_of_names)
  then have "mset ord = mset svcs"
    using e assms(1) by (intro eq_by_names) auto
  then show ?thesis using run by (simp add: topologicalSort_def)
qed

lemma topologicalSort_deps_first:
  assumes "distinct (map svc_name svcs)" and "acyclic (depends_on svcs)"
    and "topologicalSort order svcs = xs @ s # ys" and "s \<in> set svcs"
    and "d \<in> fst ` set (svc_depends s)" and "d \<in> svc_name ` set svcs"
  shows "d \<in> svc_name ` set xs"
proof -
  let ?g = "topo_graph svcs" and ?m = "topo_svcMap svcs"
  obtain v ord where run: "topo_visit ?g ?m (order (map fst ?g)) ([], []) = (v, ord)" by fastforce
  have "deps_first ?g ?m []" by (simp add: deps_first_def)
  then have "deps_first ?g ?m ord"
    using topo_visit_deps_first [OF run named_map_svcMap [OF assms(1)], of "{}"] assms(1,2)
    by (simp add: dep_edges_eq)
  moreover have "ord = xs @ s # ys" using run assms(3) by (simp add: topologicalSort_def)
  moreover have "map_of ?m d \<noteq> None"
    unfolding topo_svcMap_eq [OF assms(1)] map_of_names_None by (rule assms(6))
  moreover have "(svc_name s, d) \<in> dep_edges ?g"
    unfolding dep_edges_eq [OF assms(1)] depends_on_def using assms(4,5) by blast
  then have "d \<in> set (graph_deps ?g (svc_name s))" by (simp add: dep_edges_def)
  ultimately show ?thesis unfolding deps_first_def by blast
qed

text \<open>With repeated names the last service of a name counts; the sort never invents a service.\<close>

lemma topo_svcMap_member: "map_of (topo_svcMap svcs) n = Some s \<Longrightarrow> s \<in> set svcs \<and> svc_name s = n"
  unfolding topo_svcMap_def by (induction svcs rule: rev_induct) (auto split: if_splits)

lemma topologicalSort_subset: "set (topologicalSort order svcs) \<subseteq> set svcs"
proof -
  let ?g = "topo_graph svcs" and ?m = "topo_svcMap svcs"
  obtain v ord where run: "topo_visit ?g ?m (order (map fst ?g)) ([], []) = (v, ord)" by fastforce
  have "named_map ?m" using topo_svcMap_member by (auto simp: named_map_def)
  from topo_visit_emits [OF run this] have "set ord \<subseteq> ran (map_of ?m)" by auto
  then have "set ord \<subseteq> set svcs" using topo_svcMap_member by (fastforce simp: ran_def)
  then show ?thesis using run by (simp add: topologicalSort_def)
qed

lemma topologicalSort_distinct: "distinct (map svc_name (topologicalSort order svcs))"
proof -
  let ?g = "topo_graph svcs" and ?m = "topo_svcMap svcs"
  obtain v ord where run: "topo_visit ?g ?m (order (map fst ?g)) ([], []) = (v, ord)" by fastforce
  have "named_map ?m" using topo_svcMap_member by (auto simp: named_map_def)
  from topo_visit_emits [OF run this] show ?thesis using run by (auto simp: topologicalSort_def)
qed

end
