(* ===== verification/Operations.thy ===== *)
theory Operations
  imports DockerClient Topo GoPath GoStrings
begin

text \<open>
  The compose operations of \<open>internal/docker/operations.go\<close>: \<open>Up\<close>, \<open>Down\<close>, \<open>Stop\<close>, \<open>Start\<close>,
  \<open>Restart\<close> and \<open>GetProjectStatus\<close>, with the conflict checks, the rollback and the name resolution
  they use.

  Every operation takes the environment \<open>e\<close> and threads the traced state; \<open>Inl\<close> is a Go error
  returned, \<open>Inr\<close> a result. \<open>Up\<close> returns early from inside its loops, so each of its phases is a
  function whose outcome is \<open>Inl\<close> the final result or \<open>Inr\<close> what the next phase continues with.
\<close>

section \<open>Labels, names and small helpers\<close>

definition label_project :: string where "label_project = ''com.composecockpit.project''"
definition label_service :: string where "label_service = ''com.composecockpit.service''"
definition label_network :: string where "label_network = ''com.composecockpit.network''"
definition label_volume :: string where "label_volume = ''com.composecockpit.volume''"
definition label_name :: string where "label_name = ''com.composecockpit.name''"

definition containsService :: "string list \<Rightarrow> string \<Rightarrow> bool" where
  "containsService services name \<longleftrightarrow> list_ex (\<lambda>s. s = name) services"

definition filterServices :: "Project \<Rightarrow> string list \<Rightarrow> Service list" where
  "filterServices p services =
     (if services = [] then pr_services p
      else filter (\<lambda>svc. list_ex (\<lambda>name. svc_name svc = name) services) (pr_services p))"

definition envMapToSlice :: "(string, string) gomap \<Rightarrow> string list" where
  "envMapToSlice m = map (\<lambda>(k, v). k @ ''='' @ v) m"

definition convertPorts :: "PortMapping list \<Rightarrow> PortBinding list" where
  "convertPorts ps =
     map (\<lambda>p. \<lparr>pb_hostip = pm_hostip p, pb_hostport = pm_hostport p,
               pb_containerport = pm_containerport p, pb_protocol = pm_protocol p\<rparr>) ps"

definition resolve_mount :: "Project \<Rightarrow> VolumeMount \<Rightarrow> MountConfig" where
  "resolve_mount p m =
     (let src = (if vm_type m = ''volume'' \<and> vm_source m \<noteq> [] \<and> \<not> has_prefix (vm_source m) ''/''
                 then (case map_of (pr_volumes p) (vm_source m) of
                         None \<Rightarrow> vm_source m
                       | Some v \<Rightarrow> if vol_name v \<noteq> [] then vol_name v
                                  else pr_name p @ ''_'' @ vm_source m)
                 else vm_source m)
      in \<lparr>mc_type = vm_type m, mc_source = src, mc_target = vm_target m, mc_readonly = vm_readonly m\<rparr>)"

definition resolveVolumeMounts :: "Project \<Rightarrow> VolumeMount list \<Rightarrow> MountConfig list" where
  "resolveVolumeMounts p ms = map (resolve_mount p) ms"

definition resolve_network :: "Project \<Rightarrow> string \<Rightarrow> string" where
  "resolve_network p n =
     (case map_of (pr_networks p) n of
        Some d \<Rightarrow> if net_name d \<noteq> [] then net_name d
                  else if net_external d then n else pr_name p @ ''_'' @ n
      | None \<Rightarrow> pr_name p @ ''_'' @ n)"

definition resolveNetworks :: "Project \<Rightarrow> string list \<Rightarrow> string list" where
  "resolveNetworks p ns =
     (if ns = [] then [pr_name p @ ''_default''] else map (resolve_network p) ns)"

definition project_filter :: "Project \<Rightarrow> docker_filters" where
  "project_filter p = [(''label'', [''com.composecockpit.project='' @ pr_id p])]"

definition getProjectContainers ::
    "'w env \<Rightarrow> Project \<Rightarrow> 'w dstate \<Rightarrow> (go_error + ContainerInfo list) \<times> 'w dstate" where
  "getProjectContainers e p = ContainerList e OpCtx (project_filter p)"

section \<open>Rollback\<close>

text \<open>Containers in reverse order, each stopped and removed; networks and volumes in order.\<close>

fun rollback_each :: "'w env \<Rightarrow> go_ctx \<Rightarrow> string list \<Rightarrow> 'w dstate \<Rightarrow> 'w dstate" where
  "rollback_each e c [] s = s"
| "rollback_each e c (i # is) s =
     (let (_, s) = ContainerStop e c i (5 * second) s; (_, s) = ContainerRemove e c i True s
      in rollback_each e c is s)"

definition rollbackContainers :: "'w env \<Rightarrow> go_ctx \<Rightarrow> string list \<Rightarrow> 'w dstate \<Rightarrow> 'w dstate" where
  "rollbackContainers e c ids s = rollback_each e c (rev ids) s"

fun rollbackNetworks :: "'w env \<Rightarrow> go_ctx \<Rightarrow> string list \<Rightarrow> 'w dstate \<Rightarrow> 'w dstate" where
  "rollbackNetworks e c [] s = s"
| "rollbackNetworks e c (i # is) s =
     (let (_, s) = NetworkRemove e c i s in rollbackNetworks e c is s)"

fun rollbackVolumes :: "'w env \<Rightarrow> go_ctx \<Rightarrow> string list \<Rightarrow> 'w dstate \<Rightarrow> 'w dstate" where
  "rollbackVolumes e c [] s = s"
| "rollbackVolumes e c (n # ns) s =
     (let (_, s) = VolumeRemove e c n True s in rollbackVolumes e c ns s)"

section \<open>Conflict detection\<close>

text \<open>The keys \<open>proto:hostport\<close> of the ports the services want to bind.\<close>

definition wanted_ports :: "Service list \<Rightarrow> (string, string) gomap" where
  "wanted_ports svcs =
     foldl (\<lambda>m (k, n). AList.update k n m) []
       (concat (map (\<lambda>svc.
          map (\<lambda>p. (pm_protocol p @ '':'' @ pm_hostport p, svc_name svc))
            (filter (\<lambda>p. pm_hostport p \<noteq> []) (svc_ports svc))) svcs))"

text \<open>
  \<open>strconv.Atoi\<close> with its error dropped: 0 for a string that is not a number, and the bound of the
  64-bit range for a number outside it.
\<close>

definition digits_value :: "string \<Rightarrow> int" where
  "digits_value s = foldl (\<lambda>n c. 10 * n + (int (of_char c) - 48)) 0 s"

definition max_int64 :: int where "max_int64 = 2 ^ 63 - 1"

definition atoi_value :: "string \<Rightarrow> int" where
  "atoi_value s =
     (let neg = (s \<noteq> [] \<and> hd s = CHR ''-'');
          ds = (if s \<noteq> [] \<and> (hd s = CHR ''-'' \<or> hd s = CHR ''+'') then tl s else s)
      in if ds = [] \<or> \<not> list_all is_digit ds then 0
         else if neg then max (- max_int64 - 1) (- digits_value ds)
         else min max_int64 (digits_value ds))"

definition container_conflict :: "(string, string) gomap \<Rightarrow> ContainerInfo list \<Rightarrow> go_error option" where
  "container_conflict wanted ctrs =
     (case find (\<lambda>(c, p). map_of wanted (pb_protocol p @ '':'' @ pb_hostport p) \<noteq> None)
             (concat (map (\<lambda>c. map (\<lambda>p. (c, p)) (ci_ports c)) ctrs)) of
        None \<Rightarrow> None
      | Some (c, p) \<Rightarrow> Some (AppError ErrPortConflict
          (''port '' @ pb_hostport p @ ''/'' @ pb_protocol p @ '' already in use by container '' @ ci_name c)
          (PortConflictDetails (atoi_value (pb_hostport p)) (pb_protocol p) (ci_name c)) 409 None))"

text \<open>\<open>net.JoinHostPort\<close>: brackets around a host with a colon or a percent sign.\<close>

definition join_host_port :: "string \<Rightarrow> string \<Rightarrow> string" where
  "join_host_port h p =
     (if CHR '':'' \<in> set h \<or> CHR ''%'' \<in> set h then ''['' @ h @ '']:'' @ p else h @ '':'' @ p)"

fun host_ports_free :: "'w env \<Rightarrow> PortMapping list \<Rightarrow> 'w dstate \<Rightarrow> go_error option \<times> 'w dstate" where
  "host_ports_free e [] s = (None, s)"
| "host_ports_free e (p # ps) s =
     (if pm_hostport p = [] then host_ports_free e ps s
      else
        let host = (if pm_hostip p = [] then ''0.0.0.0'' else pm_hostip p);
            (r, s) = Listen e (join_host_port host (pm_hostport p)) s
        in case r of
             Some err \<Rightarrow> (Some (AppError ErrPortConflict
               (''port '' @ pm_hostport p @ ''/'' @ pm_protocol p @ '' is occupied on host'')
               (PortConflictDetails (atoi_value (pm_hostport p)) (pm_protocol p) []) 409 None), s)
           | None \<Rightarrow> host_ports_free e ps s)"

definition checkPortConflicts ::
    "'w env \<Rightarrow> Service list \<Rightarrow> 'w dstate \<Rightarrow> go_error option \<times> 'w dstate" where
  "checkPortConflicts e svcs s =
     (if wanted_ports svcs = [] then (None, s)
      else
        let (r, s) = ContainerList e OpCtx [(''status'', [''running''])] s
        in case r of
             Inl err \<Rightarrow> (None, s)
           | Inr ctrs \<Rightarrow>
               (case container_conflict (wanted_ports svcs) ctrs of
                  Some err \<Rightarrow> (Some err, s)
                | None \<Rightarrow> host_ports_free e (concat (map svc_ports svcs)) s))"

definition checkNetworkConflict :: "'w env \<Rightarrow> string \<Rightarrow> 'w dstate \<Rightarrow> go_error option \<times> 'w dstate" where
  "checkNetworkConflict e name s =
     (let (r, s) = NetworkList e OpCtx s
      in case r of
           Inl err \<Rightarrow> (None, s)
         | Inr nets \<Rightarrow>
             (case find (\<lambda>n. ni_name n = name) nets of
                None \<Rightarrow> (None, s)
              | Some n \<Rightarrow>
                  (if str_at (ni_labels n) label_project \<noteq> [] then None
                   else Some (PlainError (''network '' @ go_quote name @
                     '' already exists and is not managed by ComposeCockpit'')), s)))"

definition checkVolumeConflict ::
    "'w env \<Rightarrow> string \<Rightarrow> ProjectID \<Rightarrow> 'w dstate \<Rightarrow> go_error option \<times> 'w dstate" where
  "checkVolumeConflict e name pid s =
     (let (r, s) = VolumeList e OpCtx s
      in case r of
           Inl err \<Rightarrow> (None, s)
         | Inr vols \<Rightarrow>
             (case find (\<lambda>v. vi_name v = name) vols of
                None \<Rightarrow> (None, s)
              | Some v \<Rightarrow>
                  (if str_at (vi_labels v) label_project = pid then None
                   else if str_at (vi_labels v) label_project \<noteq> [] then
                     Some (PlainError (''volume '' @ go_quote name @ '' belongs to another project''))
                   else None, s)))"

section \<open>Up\<close>

definition add_step :: "OpStep \<Rightarrow> OperationResult \<Rightarrow> OperationResult" where
  "add_step st r = r\<lparr>res_steps := res_steps r @ [st]\<rparr>"

definition mk_step :: "string \<Rightarrow> string \<Rightarrow> OpStatus \<Rightarrow> string \<Rightarrow> duration \<Rightarrow> OpStep" where
  "mk_step svc act st err dur =
     \<lparr>st_service = svc, st_action = act, st_status = st, st_error = err, st_duration = dur\<rparr>"

text \<open>\<open>step.Status = Succeeded; step.Duration = time.Since(start)\<close> and the append.\<close>

definition step_done ::
    "'w env \<Rightarrow> string \<Rightarrow> string \<Rightarrow> time \<Rightarrow> OperationResult \<Rightarrow> 'w dstate \<Rightarrow> OperationResult \<times> 'w dstate" where
  "step_done e svc act t0 r s =
     (let (t, s) = time_now e s in (add_step (mk_step svc act OpStatusSucceeded [] (t - t0)) r, s))"

text \<open>\<open>fin := time.Now(); result.FinishedAt = &fin; return result\<close> with the given status.\<close>

definition finish ::
    "'w env \<Rightarrow> OpStatus \<Rightarrow> OperationResult \<Rightarrow> 'w dstate \<Rightarrow> OperationResult \<times> 'w dstate" where
  "finish e st r s =
     (let (t, s) = time_now e s in (r\<lparr>res_status := st, res_finished := Some t\<rparr>, s))"

text \<open>What to roll back so far: started containers, created volumes, created networks.\<close>

record created =
  cr_containers :: "string list"
  cr_volumes :: "string list"
  cr_networks :: "string list"

text \<open>A failed step of a phase: its service, action, start time and error, and the result's error.\<close>

record failure =
  fl_service :: string
  fl_action :: string
  fl_start :: time
  fl_error :: string
  fl_code :: string
  fl_message :: string

text \<open>
  The tail every failing branch of \<open>Up\<close> repeats: append the failed step, roll back with a background
  context, and return the result as rolled back. A phase that has created no containers (or no
  volumes) yet has none to roll back.
\<close>

definition up_abort ::
    "'w env \<Rightarrow> created \<Rightarrow> failure \<Rightarrow> OperationResult \<Rightarrow> 'w dstate \<Rightarrow> OperationResult \<times> 'w dstate" where
  "up_abort e cr f r s =
     (let (t, s) = time_now e s;
          r = add_step (mk_step (fl_service f) (fl_action f) OpStatusFailed (fl_error f) (t - fl_start f)) r;
          s = rollbackContainers e Background (cr_containers cr) s;
          s = rollbackVolumes e Background (cr_volumes cr) s;
          s = rollbackNetworks e Background (cr_networks cr) s
      in finish e OpStatusRolledBack
           (r\<lparr>res_error := Some \<lparr>oe_code = fl_code f, oe_message = fl_message f\<rparr>\<rparr>) s)"

definition conflict_failure :: "string \<Rightarrow> time \<Rightarrow> string \<Rightarrow> go_error \<Rightarrow> failure" where
  "conflict_failure act t0 code err =
     \<lparr>fl_service = [], fl_action = act, fl_start = t0, fl_error = error_string err,
      fl_code = code, fl_message = error_string err\<rparr>"

definition already_exists :: "go_error \<Rightarrow> bool" where
  "already_exists err = str_contains (error_string err) ''already exists''"

text \<open>Phase 2: one network that is not external.\<close>

definition network_actual :: "Project \<Rightarrow> string \<Rightarrow> Network \<Rightarrow> string" where
  "network_actual p n d = (if net_name d = [] then pr_name p @ ''_'' @ n else net_name d)"

definition network_opts :: "Project \<Rightarrow> string \<Rightarrow> Network \<Rightarrow> NetworkCreateOpts" where
  "network_opts p n d =
     \<lparr>nco_driver = (if net_driver d = [] then ''bridge'' else net_driver d),
      nco_labels = [(label_project, pr_id p), (label_network, n)], nco_options = []\<rparr>"

definition up_network ::
    "'w env \<Rightarrow> Project \<Rightarrow> string \<Rightarrow> Network \<Rightarrow> created \<Rightarrow> OperationResult \<Rightarrow> 'w dstate \<Rightarrow>
     (OperationResult + created \<times> OperationResult) \<times> 'w dstate" where
  "up_network e p n d cr r s =
     (let act = ''create_network:'' @ n;
          (t0, s) = time_now e s;
          (conflict, s) = checkNetworkConflict e (network_actual p n d) s
      in case conflict of
           Some err \<Rightarrow>
             (let (r, s) = up_abort e cr (conflict_failure act t0 ErrNetworkConflict err) r s in (Inl r, s))
         | None \<Rightarrow>
             (let (made, s) = NetworkCreate e OpCtx (network_actual p n d) (network_opts p n d) s
              in case made of
                   Inl err \<Rightarrow>
                     if \<not> already_exists err then
                       (let (r, s) = up_abort e cr (conflict_failure act t0 ErrNetworkConflict err) r s
                        in (Inl r, s))
                     else (let (r, s) = step_done e [] act t0 r s in (Inr (cr, r), s))
                 | Inr i \<Rightarrow>
                     (let (r, s) = step_done e [] act t0 r s
                      in (Inr (cr\<lparr>cr_networks := cr_networks cr @ [i]\<rparr>, r), s))))"

fun up_networks ::
    "'w env \<Rightarrow> Project \<Rightarrow> (string, Network) gomap \<Rightarrow> created \<Rightarrow> OperationResult \<Rightarrow> 'w dstate \<Rightarrow>
     (OperationResult + created \<times> OperationResult) \<times> 'w dstate" where
  "up_networks e p [] cr r s = (Inr (cr, r), s)"
| "up_networks e p ((n, d) # rest) cr r s =
     (if net_external d then up_networks e p rest cr r s
      else (case up_network e p n d cr r s of
              (Inl r, s) \<Rightarrow> (Inl r, s)
            | (Inr (cr, r), s) \<Rightarrow> up_networks e p rest cr r s))"

text \<open>Phase 3: one volume that is not external.\<close>

definition volume_actual :: "Project \<Rightarrow> string \<Rightarrow> Volume \<Rightarrow> string" where
  "volume_actual p n d = (if vol_name d = [] then pr_name p @ ''_'' @ n else vol_name d)"

definition volume_opts :: "Project \<Rightarrow> string \<Rightarrow> Volume \<Rightarrow> VolumeCreateOpts" where
  "volume_opts p n d =
     \<lparr>vco_driver = vol_driver d,
      vco_labels = [(label_project, pr_id p), (label_volume, n)], vco_options = []\<rparr>"

definition up_volume ::
    "'w env \<Rightarrow> Project \<Rightarrow> string \<Rightarrow> Volume \<Rightarrow> created \<Rightarrow> OperationResult \<Rightarrow> 'w dstate \<Rightarrow>
     (OperationResult + created \<times> OperationResult) \<times> 'w dstate" where
  "up_volume e p n d cr r s =
     (let act = ''create_volume:'' @ n;
          (t0, s) = time_now e s;
          (conflict, s) = checkVolumeConflict e (volume_actual p n d) (pr_id p) s
      in case conflict of
           Some err \<Rightarrow>
             (let (r, s) = up_abort e cr (conflict_failure act t0 ErrVolumeConflict err) r s in (Inl r, s))
         | None \<Rightarrow>
             (let (made, s) = VolumeCreate e OpCtx (volume_actual p n d) (volume_opts p n d) s
              in if (case made of None \<Rightarrow> False | Some err \<Rightarrow> \<not> already_exists err) then
                   (let (r, s) = up_abort e cr (conflict_failure act t0 ErrVolumeConflict (the made)) r s
                    in (Inl r, s))
                 else
                   (let (r, s) = step_done e [] act t0 r s
                    in (Inr (cr\<lparr>cr_volumes := cr_volumes cr @ [volume_actual p n d]\<rparr>, r), s))))"

fun up_volumes ::
    "'w env \<Rightarrow> Project \<Rightarrow> (string, Volume) gomap \<Rightarrow> created \<Rightarrow> OperationResult \<Rightarrow> 'w dstate \<Rightarrow>
     (OperationResult + created \<times> OperationResult) \<times> 'w dstate" where
  "up_volumes e p [] cr r s = (Inr (cr, r), s)"
| "up_volumes e p ((n, d) # rest) cr r s =
     (if vol_external d then up_volumes e p rest cr r s
      else (case up_volume e p n d cr r s of
              (Inl r, s) \<Rightarrow> (Inl r, s)
            | (Inr (cr, r), s) \<Rightarrow> up_volumes e p rest cr r s))"

text \<open>Phase 4: the image of a service, built or pulled.\<close>

definition image_name :: "Project \<Rightarrow> Service \<Rightarrow> string" where
  "image_name p svc =
     (if svc_image svc = [] \<and> svc_build svc \<noteq> None
      then pr_name p @ ''-'' @ svc_name svc @ '':latest'' else svc_image svc)"

definition build_opts :: "Project \<Rightarrow> BuildConfig \<Rightarrow> string \<Rightarrow> ImageBuildOpts" where
  "build_opts p b img =
     \<lparr>ib_context = (if path_is_abs (bc_context b) then bc_context b
                    else path_join (pr_path p) (bc_context b)),
      ib_dockerfile = bc_dockerfile b, ib_tags = [img], ib_args = bc_args b, ib_target = bc_target b\<rparr>"

definition service_failure :: "Service \<Rightarrow> string \<Rightarrow> time \<Rightarrow> go_error \<Rightarrow> string \<Rightarrow> string \<Rightarrow> failure" where
  "service_failure svc act t0 err code msg =
     \<lparr>fl_service = svc_name svc, fl_action = act, fl_start = t0, fl_error = error_string err,
      fl_code = code, fl_message = msg\<rparr>"

definition up_image ::
    "'w env \<Rightarrow> Project \<Rightarrow> Service \<Rightarrow> OperationResult \<Rightarrow> 'w dstate \<Rightarrow>
     (failure + OperationResult) \<times> 'w dstate" where
  "up_image e p svc r s =
     (let img = image_name p svc; (t0, s) = time_now e s in
      case svc_build svc of
        Some b \<Rightarrow>
          (let (res, s) = ImageBuild e OpCtx (build_opts p b img) s
           in case res of
                Some err \<Rightarrow> (Inl (service_failure svc ''build'' t0 err ErrInternal
                  (''failed to build '' @ svc_name svc @ '': '' @ error_string err)), s)
              | None \<Rightarrow> (let (r, s) = step_done e (svc_name svc) ''build'' t0 r s in (Inr r, s)))
      | None \<Rightarrow>
          (let (res, s) = ImageExists e OpCtx img s
           in case res of
                Inl err \<Rightarrow> (Inl (service_failure svc ''pull'' t0 err ErrDockerUnavailable
                  (error_string err)), s)
              | Inr exists \<Rightarrow>
                  (let (pulled, s) = (if exists then (None, s) else ImagePull e OpCtx img s)
                   in case pulled of
                        Some err \<Rightarrow> (Inl (service_failure svc ''pull'' t0 err ErrImagePullFailed
                          (''failed to pull '' @ img @ '': '' @ error_string err)), s)
                      | None \<Rightarrow> (let (r, s) = step_done e (svc_name svc) ''pull'' t0 r s in (Inr r, s)))))"

definition project_labels :: "Project \<Rightarrow> (string, string) gomap" where
  "project_labels p = [(label_project, pr_id p), (label_name, pr_name p)]"

definition container_labels :: "Project \<Rightarrow> Service \<Rightarrow> (string, string) gomap" where
  "container_labels p svc =
     copy_into (svc_labels svc)
       (AList.update label_service (svc_name svc) (copy_into (project_labels p) []))"

definition container_config :: "Project \<Rightarrow> Service \<Rightarrow> ContainerCreateConfig" where
  "container_config p svc =
     \<lparr>cc_name = pr_name p @ ''-'' @ svc_name svc @ ''-1'',
      cc_image = image_name p svc,
      cc_labels = container_labels p svc,
      cc_env = envMapToSlice (svc_environment svc),
      cc_cmd = svc_command svc,
      cc_entrypoint = svc_entrypoint svc,
      cc_ports = convertPorts (svc_ports svc),
      cc_volumes = resolveVolumeMounts p (svc_volumes svc),
      cc_networks = resolveNetworks p (svc_networks svc),
      cc_restart = svc_restart svc\<rparr>"

text \<open>
  Create and start the container of a service. A container that was created and does not start is
  removed at once, before the rollback.
\<close>

definition up_container ::
    "'w env \<Rightarrow> Project \<Rightarrow> Service \<Rightarrow> created \<Rightarrow> OperationResult \<Rightarrow> 'w dstate \<Rightarrow>
     (OperationResult + created \<times> OperationResult) \<times> 'w dstate" where
  "up_container e p svc cr r s =
     (let (t0, s) = time_now e s;
          (made, s) = ContainerCreate e OpCtx (container_config p svc) s
      in case made of
           Inl err \<Rightarrow>
             (let (r, s) = up_abort e cr
                (service_failure svc ''create'' t0 err ErrContainerFailed (error_string err)) r s
              in (Inl r, s))
         | Inr cid \<Rightarrow>
             (let (r, s) = step_done e (svc_name svc) ''create'' t0 r s;
                  (t1, s) = time_now e s;
                  (started, s) = ContainerStart e OpCtx cid s
              in case started of
                   Some err \<Rightarrow>
                     (let (t2, s) = time_now e s;
                          r = add_step (mk_step (svc_name svc) ''start'' OpStatusFailed
                                (error_string err) (t2 - t1)) r;
                          (_, s) = ContainerRemove e Background cid True s;
                          s = rollbackContainers e Background (cr_containers cr) s;
                          s = rollbackVolumes e Background (cr_volumes cr) s;
                          s = rollbackNetworks e Background (cr_networks cr) s;
                          (r, s) = finish e OpStatusRolledBack
                            (r\<lparr>res_error := Some \<lparr>oe_code = ErrContainerFailed,
                                                     oe_message = error_string err\<rparr>\<rparr>) s
                      in (Inl r, s))
                 | None \<Rightarrow>
                     (let (r, s) = step_done e (svc_name svc) ''start'' t1 r s
                      in (Inr (cr\<lparr>cr_containers := cr_containers cr @ [cid]\<rparr>, r), s))))"

text \<open>One service: cancelled, skipped without an image, or image and container.\<close>

definition up_service ::
    "'w env \<Rightarrow> Project \<Rightarrow> Service \<Rightarrow> created \<Rightarrow> OperationResult \<Rightarrow> 'w dstate \<Rightarrow>
     (OperationResult + created \<times> OperationResult) \<times> 'w dstate" where
  "up_service e p svc cr r s =
     (if ctx_done e s then
        (let s = rollbackContainers e Background (cr_containers cr) s;
             (r, s) = finish e OpStatusCancelled r s
         in (Inl r, s))
      else if image_name p svc = [] then
        (Inr (cr, add_step (mk_step (svc_name svc) ''skip_no_image'' OpStatusSucceeded
                             ''no image or build defined'' 0) r), s)
      else
        (case up_image e p svc r s of
           (Inl f, s) \<Rightarrow> (let (r, s) = up_abort e cr f r s in (Inl r, s))
         | (Inr r, s) \<Rightarrow> up_container e p svc cr r s))"

fun up_services ::
    "'w env \<Rightarrow> Project \<Rightarrow> Service list \<Rightarrow> created \<Rightarrow> OperationResult \<Rightarrow> 'w dstate \<Rightarrow>
     (OperationResult + created \<times> OperationResult) \<times> 'w dstate" where
  "up_services e p [] cr r s = (Inr (cr, r), s)"
| "up_services e p (svc # rest) cr r s =
     (case up_service e p svc cr r s of
        (Inl r, s) \<Rightarrow> (Inl r, s)
      | (Inr (cr, r), s) \<Rightarrow> up_services e p rest cr r s)"

definition start_result :: "'w env \<Rightarrow> 'w dstate \<Rightarrow> OperationResult \<times> 'w dstate" where
  "start_result e s =
     (let (t, s) = time_now e s
      in (\<lparr>res_request = [], res_status = OpStatusRunning, res_started = Some t, res_finished = None,
           res_error = None, res_steps = []\<rparr>, s))"

definition Up ::
    "'w env \<Rightarrow> Project \<Rightarrow> string list \<Rightarrow> 'w dstate \<Rightarrow> (go_error + OperationResult) \<times> 'w dstate" where
  "Up e p services s =
     (let target = filterServices p services;
          (r, s) = start_result e s;
          (conflict, s) = checkPortConflicts e target s
      in case conflict of
           Some err \<Rightarrow> (Inl err, s)
         | None \<Rightarrow>
             (case up_networks e p (pr_networks p)
                     \<lparr>cr_containers = [], cr_volumes = [], cr_networks = []\<rparr> r s of
                (Inl r, s) \<Rightarrow> (Inr r, s)
              | (Inr (cr, r), s) \<Rightarrow>
                  (case up_volumes e p (pr_volumes p) cr r s of
                     (Inl r, s) \<Rightarrow> (Inr r, s)
                   | (Inr (cr, r), s) \<Rightarrow>
                       (case up_services e p (topologicalSort (range_order e) target) cr r s of
                          (Inl r, s) \<Rightarrow> (Inr r, s)
                        | (Inr (cr, r), s) \<Rightarrow>
                            (let (r, s) = finish e OpStatusSucceeded r s in (Inr r, s))))))"

section \<open>Down, Stop, Start and Restart\<close>

definition ctr_service :: "ContainerInfo \<Rightarrow> string" where
  "ctr_service c = str_at (ci_labels c) label_service"

text \<open>\<open>len(services) > 0 && !containsService(services, \<dots>)\<close>, under which the loops skip a container.\<close>

definition skipped :: "string list \<Rightarrow> ContainerInfo \<Rightarrow> bool" where
  "skipped services c \<longleftrightarrow> services \<noteq> [] \<and> \<not> containsService services (ctr_service c)"

text \<open>A step whose status is that of a call: failed with its error, or succeeded.\<close>

definition step_of ::
    "'w env \<Rightarrow> string \<Rightarrow> string \<Rightarrow> time \<Rightarrow> go_error option \<Rightarrow> OperationResult \<Rightarrow> 'w dstate \<Rightarrow>
     OperationResult \<times> 'w dstate" where
  "step_of e svc act t0 res r s =
     (let (t, s) = time_now e s
      in (add_step (case res of
            Some err \<Rightarrow> mk_step svc act OpStatusFailed (error_string err) (t - t0)
          | None \<Rightarrow> mk_step svc act OpStatusSucceeded [] (t - t0)) r, s))"

text \<open>Stop with the error ignored, as \<open>Down\<close> and \<open>Restart\<close> do.\<close>

definition stop_ignored ::
    "'w env \<Rightarrow> ContainerInfo \<Rightarrow> OperationResult \<Rightarrow> 'w dstate \<Rightarrow> OperationResult \<times> 'w dstate" where
  "stop_ignored e c r s =
     (let (t0, s) = time_now e s;
          (_, s) = ContainerStop e OpCtx (ci_id c) (10 * second) s
      in step_done e (ctr_service c) ''stop'' t0 r s)"

fun down_containers ::
    "'w env \<Rightarrow> string list \<Rightarrow> ContainerInfo list \<Rightarrow> OperationResult \<Rightarrow> 'w dstate \<Rightarrow>
     (OperationResult + OperationResult) \<times> 'w dstate" where
  "down_containers e services [] r s = (Inr r, s)"
| "down_containers e services (c # cs) r s =
     (if skipped services c then down_containers e services cs r s
      else if ctx_done e s then (let (r, s) = finish e OpStatusCancelled r s in (Inl r, s))
      else
        (let (r, s) = stop_ignored e c r s;
             (t0, s) = time_now e s;
             (res, s) = ContainerRemove e OpCtx (ci_id c) True s;
             (r, s) = step_of e (ctr_service c) ''remove'' t0 res r s
         in down_containers e services cs r s))"

fun down_networks ::
    "'w env \<Rightarrow> Project \<Rightarrow> NetworkInfo list \<Rightarrow> OperationResult \<Rightarrow> 'w dstate \<Rightarrow>
     OperationResult \<times> 'w dstate" where
  "down_networks e p [] r s = (r, s)"
| "down_networks e p (n # ns) r s =
     (if str_at (ni_labels n) label_project = pr_id p then
        (let (_, s) = NetworkRemove e OpCtx (ni_id n) s;
             r = add_step (mk_step [] (''remove_network:'' @ ni_name n) OpStatusSucceeded [] 0) r
         in down_networks e p ns r s)
      else down_networks e p ns r s)"

definition Down ::
    "'w env \<Rightarrow> Project \<Rightarrow> string list \<Rightarrow> 'w dstate \<Rightarrow> (go_error + OperationResult) \<times> 'w dstate" where
  "Down e p services s =
     (let (r, s) = start_result e s; (got, s) = getProjectContainers e p s
      in case got of
           Inl err \<Rightarrow> (Inl err, s)
         | Inr ctrs \<Rightarrow>
             (case down_containers e services ctrs r s of
                (Inl r, s) \<Rightarrow> (Inr r, s)
              | (Inr r, s) \<Rightarrow>
                  (let (r, s) =
                     (if services = [] then
                        (let (nets, s) = NetworkList e OpCtx s
                         in down_networks e p (case nets of Inl _ \<Rightarrow> [] | Inr ns \<Rightarrow> ns) r s)
                      else (r, s));
                       (r, s) = finish e OpStatusSucceeded r s
                   in (Inr r, s))))"

fun stop_containers ::
    "'w env \<Rightarrow> string list \<Rightarrow> ContainerInfo list \<Rightarrow> OperationResult \<Rightarrow> 'w dstate \<Rightarrow>
     OperationResult \<times> 'w dstate" where
  "stop_containers e services [] r s = (r, s)"
| "stop_containers e services (c # cs) r s =
     (if skipped services c \<or> ci_state c \<noteq> ''running'' then stop_containers e services cs r s
      else
        (let (t0, s) = time_now e s;
             (res, s) = ContainerStop e OpCtx (ci_id c) (10 * second) s;
             (r, s) = step_of e (ctr_service c) ''stop'' t0 res r s
         in stop_containers e services cs r s))"

fun start_containers ::
    "'w env \<Rightarrow> string list \<Rightarrow> ContainerInfo list \<Rightarrow> OperationResult \<Rightarrow> 'w dstate \<Rightarrow>
     OperationResult \<times> 'w dstate" where
  "start_containers e services [] r s = (r, s)"
| "start_containers e services (c # cs) r s =
     (if skipped services c \<or> ci_state c = ''running'' then start_containers e services cs r s
      else
        (let (t0, s) = time_now e s;
             (res, s) = ContainerStart e OpCtx (ci_id c) s;
             (r, s) = step_of e (ctr_service c) ''start'' t0 res r s
         in start_containers e services cs r s))"

fun restart_containers ::
    "'w env \<Rightarrow> string list \<Rightarrow> ContainerInfo list \<Rightarrow> OperationResult \<Rightarrow> 'w dstate \<Rightarrow>
     OperationResult \<times> 'w dstate" where
  "restart_containers e services [] r s = (r, s)"
| "restart_containers e services (c # cs) r s =
     (if skipped services c then restart_containers e services cs r s
      else
        (let (r, s) = stop_ignored e c r s;
             (t0, s) = time_now e s;
             (res, s) = ContainerStart e OpCtx (ci_id c) s;
             (r, s) = step_of e (ctr_service c) ''start'' t0 res r s
         in restart_containers e services cs r s))"

text \<open>The common frame of the three: list the project's containers, run the loop, succeed.\<close>

definition over_containers ::
    "'w env \<Rightarrow> Project \<Rightarrow> (ContainerInfo list \<Rightarrow> OperationResult \<Rightarrow> 'w dstate \<Rightarrow> OperationResult \<times> 'w dstate) \<Rightarrow>
     'w dstate \<Rightarrow> (go_error + OperationResult) \<times> 'w dstate" where
  "over_containers e p body s =
     (let (r, s) = start_result e s; (got, s) = getProjectContainers e p s
      in case got of
           Inl err \<Rightarrow> (Inl err, s)
         | Inr ctrs \<Rightarrow>
             (let (r, s) = body ctrs r s; (r, s) = finish e OpStatusSucceeded r s in (Inr r, s)))"

definition Stop ::
    "'w env \<Rightarrow> Project \<Rightarrow> string list \<Rightarrow> 'w dstate \<Rightarrow> (go_error + OperationResult) \<times> 'w dstate" where
  "Stop e p services = over_containers e p (stop_containers e services)"

definition Start ::
    "'w env \<Rightarrow> Project \<Rightarrow> string list \<Rightarrow> 'w dstate \<Rightarrow> (go_error + OperationResult) \<times> 'w dstate" where
  "Start e p services = over_containers e p (start_containers e services)"

definition Restart ::
    "'w env \<Rightarrow> Project \<Rightarrow> string list \<Rightarrow> 'w dstate \<Rightarrow> (go_error + OperationResult) \<times> 'w dstate" where
  "Restart e p services = over_containers e p (restart_containers e services)"

section \<open>The status of a project\<close>

definition is_running :: "ContainerInfo \<Rightarrow> bool" where
  "is_running c \<longleftrightarrow> ci_state c = ''running''"

text \<open>The status and the containers by service; a nil map is an empty one.\<close>

definition status_of :: "ContainerInfo list \<Rightarrow> ProjectStatus \<times> (string, ContainerInfo) gomap" where
  "status_of ctrs =
     (if ctrs = [] then (ProjectStatusStopped, [])
      else
        let m = foldl (\<lambda>m c. AList.update (ctr_service c) c m) [] ctrs;
            n = length (filter is_running ctrs)
        in if n = length ctrs then (ProjectStatusRunning, m)
           else if n = 0 then (ProjectStatusStopped, m)
           else (ProjectStatusPartial, m))"

definition GetProjectStatus ::
    "'w env \<Rightarrow> Project \<Rightarrow> 'w dstate \<Rightarrow>
     (ProjectStatus \<times> (string, ContainerInfo) gomap \<times> go_error option) \<times> 'w dstate" where
  "GetProjectStatus e p s =
     (let (got, s) = getProjectContainers e p s
      in case got of
           Inl err \<Rightarrow> ((ProjectStatusUnknown, [], Some err), s)
         | Inr ctrs \<Rightarrow> (let (st, m) = status_of ctrs in ((st, m, None), s)))"

end
