(* ===== verification/OpsFacts.thy ===== *)
theory OpsFacts
  imports Operations
begin

text \<open>
  What the compose operations do to the daemon, read off the trace of their calls.

  For each kind of resource (containers, networks, volumes) there are three ledgers of a trace: what
  was created and not removed since, a removal being a call the daemon answered with success; what the
  daemon refused to remove, and still holds; and, for the proofs, what was created and no later call
  even tried to remove. The three kinds share the locale \<open>resource\<close>.
\<close>

section \<open>Ledgers of created resources\<close>

fun outstanding ::
    "(call_event \<Rightarrow> 'i option) \<Rightarrow> (call_event \<Rightarrow> 'i option) \<Rightarrow> 'i set \<Rightarrow> call_event list \<Rightarrow> 'i set" where
  "outstanding made gone L [] = L"
| "outstanding made gone L (ev # evs) =
     outstanding made gone
       (case gone ev of
          Some i \<Rightarrow> L - {i}
        | None \<Rightarrow> (case made ev of Some i \<Rightarrow> insert i L | None \<Rightarrow> L)) evs"

locale resource =
  fixes made :: "call_event \<Rightarrow> string option" and gone :: "call_event \<Rightarrow> string option"
    and refused :: "call_event \<Rightarrow> string option"
  assumes apart: "made ev \<noteq> None \<Longrightarrow> gone ev = None" "made ev \<noteq> None \<Longrightarrow> refused ev = None"
    and answer: "gone ev \<noteq> None \<Longrightarrow> refused ev = None"
begin

text \<open>A call that asks for a removal, and a call after which a refusal no longer counts.\<close>

definition asked :: "call_event \<Rightarrow> string option" where
  "asked ev = (case gone ev of Some i \<Rightarrow> Some i | None \<Rightarrow> refused ev)"

definition settled :: "call_event \<Rightarrow> string option" where
  "settled ev = (case gone ev of Some i \<Rightarrow> Some i | None \<Rightarrow> made ev)"

lemma append: "outstanding made g L (a @ b) = outstanding made g (outstanding made g L a) b"
  by (induction a arbitrary: L) auto

lemma snoc:
  "outstanding made g L (a @ [ev]) =
     (case g ev of
        Some i \<Rightarrow> outstanding made g L a - {i}
      | None \<Rightarrow> (case made ev of
          Some i \<Rightarrow> insert i (outstanding made g L a) | None \<Rightarrow> outstanding made g L a))"
  by (simp add: append)

text \<open>What was there and is not touched stays; nothing else is added by having been there.\<close>

lemma base: "L \<subseteq> A \<union> X \<Longrightarrow> outstanding made g L evs \<subseteq> outstanding made g A evs \<union> X"
proof (induction evs arbitrary: L A)
  case (Cons ev evs)
  show ?case unfolding outstanding.simps
    using Cons.prems by (intro Cons.IH) (auto split: option.split)
qed simp

text \<open>A resource that is still there had no removal asked for, or the last one was refused.\<close>

lemma left:
  "L \<subseteq> A \<union> R \<Longrightarrow> outstanding made gone L evs \<subseteq> outstanding made asked A evs \<union> outstanding refused settled R evs"
proof (induction evs arbitrary: L A R)
  case (Cons ev evs)
  show ?case unfolding outstanding.simps
    using Cons.prems apart [of ev] answer [of ev]
    by (intro Cons.IH) (auto simp: asked_def settled_def split: option.split)
qed simp

text \<open>So a run that leaves no resource it made untried leaves only what the daemon refused to remove.\<close>

lemma accounted:
  assumes "outstanding made asked {} (a @ b) \<subseteq> outstanding made asked {} a"
  shows "outstanding made gone {} (a @ b) \<subseteq> outstanding made gone {} a \<union> outstanding refused settled {} b"
proof -
  let ?A = "outstanding made asked {} a" and ?G = "outstanding made gone {} a"
  have "?A \<subseteq> ?G"
  proof -
    have "L \<subseteq> M \<Longrightarrow> outstanding made asked L evs \<subseteq> outstanding made gone M evs" for L M evs
    proof (induction evs arbitrary: L M)
      case (Cons ev evs)
      show ?case unfolding outstanding.simps
        using Cons.prems apart [of ev] answer [of ev]
        by (intro Cons.IH) (auto simp: asked_def split: option.split)
    qed simp
    then show ?thesis by simp
  qed
  moreover have "outstanding made asked ?G b \<subseteq> outstanding made asked ?A b \<union> ?G" by (rule base) simp
  moreover have "outstanding made asked ?A b \<subseteq> ?A" using assms by (simp add: append)
  moreover have "outstanding made gone ?G b \<subseteq> outstanding made asked ?G b \<union> outstanding refused settled {} b"
    by (rule left) simp
  ultimately show ?thesis unfolding append by blast
qed

end

fun container_made :: "call_event \<Rightarrow> string option" where
  "container_made (c, CallContainerCreate cfg (Inr i)) = Some i"
| "container_made _ = None"

fun container_gone :: "call_event \<Rightarrow> string option" where
  "container_gone (c, CallContainerRemove i f None) = Some i"
| "container_gone _ = None"

fun container_refused :: "call_event \<Rightarrow> string option" where
  "container_refused (c, CallContainerRemove i f (Some err)) = Some i"
| "container_refused _ = None"

fun network_made :: "call_event \<Rightarrow> string option" where
  "network_made (c, CallNetworkCreate n opts (Inr i)) = Some i"
| "network_made _ = None"

fun network_gone :: "call_event \<Rightarrow> string option" where
  "network_gone (c, CallNetworkRemove i None) = Some i"
| "network_gone _ = None"

fun network_refused :: "call_event \<Rightarrow> string option" where
  "network_refused (c, CallNetworkRemove i (Some err)) = Some i"
| "network_refused _ = None"

fun volume_made :: "call_event \<Rightarrow> string option" where
  "volume_made (c, CallVolumeCreate n opts None) = Some n"
| "volume_made _ = None"

fun volume_gone :: "call_event \<Rightarrow> string option" where
  "volume_gone (c, CallVolumeRemove n f None) = Some n"
| "volume_gone _ = None"

fun volume_refused :: "call_event \<Rightarrow> string option" where
  "volume_refused (c, CallVolumeRemove n f (Some err)) = Some n"
| "volume_refused _ = None"

interpretation ctr: resource container_made container_gone container_refused
proof
  fix ev
  show "container_made ev \<noteq> None \<Longrightarrow> container_gone ev = None"
    by (cases ev rule: container_made.cases) auto
  show "container_made ev \<noteq> None \<Longrightarrow> container_refused ev = None"
    by (cases ev rule: container_made.cases) auto
  show "container_gone ev \<noteq> None \<Longrightarrow> container_refused ev = None"
    by (cases ev rule: container_gone.cases) auto
qed

interpretation nw: resource network_made network_gone network_refused
proof
  fix ev
  show "network_made ev \<noteq> None \<Longrightarrow> network_gone ev = None"
    by (cases ev rule: network_made.cases) auto
  show "network_made ev \<noteq> None \<Longrightarrow> network_refused ev = None"
    by (cases ev rule: network_made.cases) auto
  show "network_gone ev \<noteq> None \<Longrightarrow> network_refused ev = None"
    by (cases ev rule: network_gone.cases) auto
qed

interpretation vol: resource volume_made volume_gone volume_refused
proof
  fix ev
  show "volume_made ev \<noteq> None \<Longrightarrow> volume_gone ev = None"
    by (cases ev rule: volume_made.cases) auto
  show "volume_made ev \<noteq> None \<Longrightarrow> volume_refused ev = None"
    by (cases ev rule: volume_made.cases) auto
  show "volume_gone ev \<noteq> None \<Longrightarrow> volume_refused ev = None"
    by (cases ev rule: volume_gone.cases) auto
qed

text \<open>Which call asks for a removal, whatever the answer.\<close>

lemma asked_simps [simp]:
  "ctr.asked (c, CallContainerRemove i f r) = Some i"
  "nw.asked (c, CallNetworkRemove i r) = Some i"
  "vol.asked (c, CallVolumeRemove n f r) = Some n"
  by (cases r; simp add: ctr.asked_def nw.asked_def vol.asked_def)+

lemma not_asked [simp]:
  "\<forall>i f r. snd ev \<noteq> CallContainerRemove i f r \<Longrightarrow> ctr.asked ev = None"
  "\<forall>i r. snd ev \<noteq> CallNetworkRemove i r \<Longrightarrow> nw.asked ev = None"
  "\<forall>n f r. snd ev \<noteq> CallVolumeRemove n f r \<Longrightarrow> vol.asked ev = None"
proof -
  assume "\<forall>i f r. snd ev \<noteq> CallContainerRemove i f r"
  then show "ctr.asked ev = None"
    by (cases ev rule: container_gone.cases; cases ev rule: container_refused.cases) (auto simp: ctr.asked_def)
next
  assume "\<forall>i r. snd ev \<noteq> CallNetworkRemove i r"
  then show "nw.asked ev = None"
    by (cases ev rule: network_gone.cases; cases ev rule: network_refused.cases) (auto simp: nw.asked_def)
next
  assume "\<forall>n f r. snd ev \<noteq> CallVolumeRemove n f r"
  then show "vol.asked ev = None"
    by (cases ev rule: volume_gone.cases; cases ev rule: volume_refused.cases) (auto simp: vol.asked_def)
qed

text \<open>What the daemon holds of what was created, and what of it a stretch of calls asked to remove in vain.\<close>

definition held_containers :: "'w dstate \<Rightarrow> string set" where
  "held_containers s = outstanding container_made container_gone {} (ds_trace s)"

definition held_networks :: "'w dstate \<Rightarrow> string set" where
  "held_networks s = outstanding network_made network_gone {} (ds_trace s)"

definition held_volumes :: "'w dstate \<Rightarrow> string set" where
  "held_volumes s = outstanding volume_made volume_gone {} (ds_trace s)"

definition refused_containers :: "call_event list \<Rightarrow> string set" where
  "refused_containers evs = outstanding container_refused ctr.settled {} evs"

definition refused_networks :: "call_event list \<Rightarrow> string set" where
  "refused_networks evs = outstanding network_refused nw.settled {} evs"

definition refused_volumes :: "call_event list \<Rightarrow> string set" where
  "refused_volumes evs = outstanding volume_refused vol.settled {} evs"

definition untried_containers :: "'w dstate \<Rightarrow> string set" where
  "untried_containers s = outstanding container_made ctr.asked {} (ds_trace s)"

definition untried_networks :: "'w dstate \<Rightarrow> string set" where
  "untried_networks s = outstanding network_made nw.asked {} (ds_trace s)"

definition untried_volumes :: "'w dstate \<Rightarrow> string set" where
  "untried_volumes s = outstanding volume_made vol.asked {} (ds_trace s)"

text \<open>The ledgers of what no call tried to remove, and what each call does to them.\<close>

definition untried :: "'w dstate \<Rightarrow> string set \<times> string set \<times> string set" where
  "untried s = (untried_containers s, untried_networks s, untried_volumes s)"

lemmas untried_defs = untried_def untried_containers_def untried_networks_def untried_volumes_def
lemmas ledger_snoc = ctr.snoc nw.snoc vol.snoc

lemma traced_trace: "traced f ev s = (r, s') \<Longrightarrow> ds_trace s' = ds_trace s @ [ev r]"
  by (auto simp: traced_def split: prod.splits)

lemma live_time: "time_now e s = (t, s') \<Longrightarrow> untried s' = untried s"
  by (simp add: untried_defs)

lemma live_calls:
  "ContainerCreate e c cfg s = (made, s') \<Longrightarrow> untried s' =
     (case made of Inr i \<Rightarrow> (insert i (untried_containers s), untried_networks s, untried_volumes s) | Inl _ \<Rightarrow> untried s)"
  "ContainerStart e c i s = (res, s') \<Longrightarrow> untried s' = untried s"
  "ContainerStop e c i tmo s = (res, s') \<Longrightarrow> untried s' = untried s"
  "ContainerRemove e c i f s = (res, s') \<Longrightarrow>
     untried s' = (untried_containers s - {i}, untried_networks s, untried_volumes s)"
  "ContainerList e c fs s = (ctrs, s') \<Longrightarrow> untried s' = untried s"
  "NetworkCreate e c n nopts s = (made, s') \<Longrightarrow> untried s' =
     (case made of Inr i \<Rightarrow> (untried_containers s, insert i (untried_networks s), untried_volumes s) | Inl _ \<Rightarrow> untried s)"
  "NetworkRemove e c i s = (res, s') \<Longrightarrow>
     untried s' = (untried_containers s, untried_networks s - {i}, untried_volumes s)"
  "NetworkList e c s = (nets, s') \<Longrightarrow> untried s' = untried s"
  "VolumeCreate e c n vopts s = (res, s') \<Longrightarrow> untried s' =
     (case res of None \<Rightarrow> (untried_containers s, untried_networks s, insert n (untried_volumes s)) | Some _ \<Rightarrow> untried s)"
  "VolumeRemove e c n f s = (res, s') \<Longrightarrow>
     untried s' = (untried_containers s, untried_networks s, untried_volumes s - {n})"
  "VolumeList e c s = (vols, s') \<Longrightarrow> untried s' = untried s"
  "ImagePull e c ref s = (res, s') \<Longrightarrow> untried s' = untried s"
  "ImageBuild e c bopts s = (res, s') \<Longrightarrow> untried s' = untried s"
  "ImageExists e c ref s = (ex, s') \<Longrightarrow> untried s' = untried s"
  "Listen e addr s = (res, s') \<Longrightarrow> untried s' = untried s"
  unfolding call_defs
  by (auto dest!: traced_trace simp: untried_defs ledger_snoc split: sum.splits option.splits)

section \<open>The ledgers across the phases\<close>

lemma live_step:
  "step_done e svc act t0 r s = (r', s') \<Longrightarrow> untried s' = untried s"
  "finish e st r s = (r', s') \<Longrightarrow> untried s' = untried s"
  "step_of e svc act t0 res r s = (r', s') \<Longrightarrow> untried s' = untried s"
  "start_result e s = (r', s') \<Longrightarrow> untried s' = untried s"
  by (auto simp: step_done_def finish_def step_of_def start_result_def split: prod.splits
      dest: live_time)

lemma finish_fields:
  assumes "finish e st r s = (r', s')"
  shows "res_status r' = st" "res_error r' = res_error r" "res_steps r' = res_steps r"
    "res_finished r' \<noteq> None" "res_started r' = res_started r" "res_request r' = res_request r"
  using assms by (auto simp: finish_def split: prod.splits)

lemma live_host_ports: "host_ports_free e ps s = (r, s') \<Longrightarrow> untried s' = untried s"
proof (induction e ps s rule: host_ports_free.induct)
  case (2 e p ps s)
  then show ?case
    by (auto simp: Let_def split: prod.splits if_splits option.splits dest!: live_calls(15))
qed simp

lemma live_checks:
  "checkPortConflicts e svcs s = (r, s') \<Longrightarrow> untried s' = untried s"
  "checkNetworkConflict e n s = (r, s') \<Longrightarrow> untried s' = untried s"
  "checkVolumeConflict e n pid s = (r, s') \<Longrightarrow> untried s' = untried s"
  by (auto simp: checkPortConflicts_def checkNetworkConflict_def checkVolumeConflict_def
      split: prod.splits if_splits sum.splits option.splits dest!: live_calls live_host_ports)

lemma live_image: "up_image e p svc r s = (res, s') \<Longrightarrow> untried s' = untried s"
  by (auto simp: up_image_def Let_def
      split: prod.splits if_splits sum.splits option.splits dest!: live_calls live_time live_step)

lemma live_rollback:
  "untried (rollback_each e c is s) = (untried_containers s - set is, untried_networks s, untried_volumes s)"
proof (induction e c "is" s rule: rollback_each.induct)
  case (2 e c i "is" s)
  then show ?case
    by (auto simp: untried_def split: prod.splits dest!: live_calls)
qed (simp add: untried_def)

lemma live_rollback_networks:
  "untried (rollbackNetworks e c is s) = (untried_containers s, untried_networks s - set is, untried_volumes s)"
proof (induction e c "is" s rule: rollbackNetworks.induct)
  case (2 e c i "is" s)
  then show ?case
    by (auto simp: untried_def split: prod.splits dest!: live_calls)
qed (simp add: untried_def)

lemma live_rollback_volumes:
  "untried (rollbackVolumes e c ns s) = (untried_containers s, untried_networks s, untried_volumes s - set ns)"
proof (induction e c ns s rule: rollbackVolumes.induct)
  case (2 e c n ns s)
  then show ?case
    by (auto simp: untried_def split: prod.splits dest!: live_calls)
qed (simp add: untried_def)

lemma live_abort:
  assumes "up_abort e cr f r s = (r', s')"
  shows "untried s' = (untried_containers s - set (cr_containers cr),
    untried_networks s - set (cr_networks cr), untried_volumes s - set (cr_volumes cr))"
  using assms live_rollback [of e Background "rev (cr_containers cr)"]
    live_rollback_networks [of e Background "cr_networks cr"]
    live_rollback_volumes [of e Background "cr_volumes cr"]
  by (auto simp: up_abort_def rollbackContainers_def untried_def Let_def
      split: prod.splits dest!: live_time live_step(2))

section \<open>Up keeps account of what it creates\<close>

text \<open>
  Relative to the state \<open>s0\<close> in which \<open>Up\<close> was called: every resource outstanding now was
  outstanding then, or is in the lists of what to roll back.
\<close>

definition covered :: "'w dstate \<Rightarrow> created \<Rightarrow> 'w dstate \<Rightarrow> bool" where
  "covered s0 cr s \<longleftrightarrow>
     untried_containers s \<subseteq> untried_containers s0 \<union> set (cr_containers cr) \<and>
     untried_networks s \<subseteq> untried_networks s0 \<union> set (cr_networks cr) \<and>
     untried_volumes s \<subseteq> untried_volumes s0 \<union> set (cr_volumes cr)"

definition steps_succeeded :: "OperationResult \<Rightarrow> bool" where
  "steps_succeeded r \<longleftrightarrow> list_all (\<lambda>st. st_status st = OpStatusSucceeded) (res_steps r)"

text \<open>The result of an \<open>Up\<close> that is still going.\<close>

definition in_progress :: "OperationResult \<Rightarrow> bool" where
  "in_progress r \<longleftrightarrow>
     res_status r = OpStatusRunning \<and> res_error r = None \<and> res_finished r = None \<and> steps_succeeded r"

text \<open>The two ways a phase of \<open>Up\<close> ends early.\<close>

definition failed_result :: "OperationResult \<Rightarrow> bool" where
  "failed_result r \<longleftrightarrow>
     res_status r = OpStatusRolledBack \<and> res_error r \<noteq> None \<and> res_finished r \<noteq> None \<and>
     (\<exists>ok st. res_steps r = ok @ [st] \<and> list_all (\<lambda>st. st_status st = OpStatusSucceeded) ok \<and>
        st_status st = OpStatusFailed)"

definition cancelled_result :: "OperationResult \<Rightarrow> bool" where
  "cancelled_result r \<longleftrightarrow>
     res_status r = OpStatusCancelled \<and> res_error r = None \<and> res_finished r \<noteq> None \<and> steps_succeeded r"

definition rolled_back :: "'w dstate \<Rightarrow> OperationResult \<Rightarrow> 'w dstate \<Rightarrow> bool" where
  "rolled_back s0 r s \<longleftrightarrow>
     failed_result r \<and>
     untried_containers s \<subseteq> untried_containers s0 \<and> untried_networks s \<subseteq> untried_networks s0 \<and>
     untried_volumes s \<subseteq> untried_volumes s0"

definition cancelled :: "'w dstate \<Rightarrow> OperationResult \<Rightarrow> 'w dstate \<Rightarrow> bool" where
  "cancelled s0 r s \<longleftrightarrow> cancelled_result r \<and> untried_containers s \<subseteq> untried_containers s0"

text \<open>What every phase of \<open>Up\<close> guarantees, whatever the daemon answers.\<close>

fun phase_ok ::
    "'w dstate \<Rightarrow> (OperationResult + created \<times> OperationResult) \<times> 'w dstate \<Rightarrow> bool" where
  "phase_ok s0 (Inl r, s) \<longleftrightarrow> rolled_back s0 r s \<or> cancelled s0 r s"
| "phase_ok s0 (Inr (cr, r), s) \<longleftrightarrow> covered s0 cr s \<and> in_progress r"

lemma covered_live: "covered s0 cr s \<Longrightarrow> untried s' = untried s \<Longrightarrow> covered s0 cr s'"
  by (simp add: covered_def untried_def)

lemma in_progress_step:
  "step_done e svc act t0 r s = (r', s') \<Longrightarrow> in_progress r \<Longrightarrow> in_progress r'"
  by (auto simp: step_done_def in_progress_def steps_succeeded_def add_step_def mk_step_def
      split: prod.splits)

lemma abort_rolled_back:
  assumes "up_abort e cr f r s = (r', s')" "covered s0 cr s" "in_progress r"
  shows "rolled_back s0 r' s'"
proof -
  have "res_status r' = OpStatusRolledBack \<and> res_error r' \<noteq> None \<and> res_finished r' \<noteq> None \<and>
      (\<exists>st. res_steps r' = res_steps r @ [st] \<and> st_status st = OpStatusFailed)"
    using assms(1) by (auto simp: up_abort_def finish_def add_step_def mk_step_def Let_def
        split: prod.splits)
  then show ?thesis
    using live_abort [OF assms(1)] assms(2,3)
    by (auto simp: rolled_back_def failed_result_def covered_def in_progress_def steps_succeeded_def untried_def)
qed

lemma abort_phase:
  "up_abort e cr f r s = (r', s') \<Longrightarrow> covered s0 cr s \<Longrightarrow> in_progress r \<Longrightarrow> phase_ok s0 (Inl r', s')"
  by (simp add: abort_rolled_back)

lemma abort_phase_ok:
  assumes "covered s0 cr s" "in_progress r"
  shows "phase_ok s0 (case up_abort e cr f r s of (r', s') \<Rightarrow> (Inl r', s'))"
  using abort_rolled_back [OF _ assms] by (cases "up_abort e cr f r s") simp

lemma done_phase_ok:
  assumes "covered s0 cr s" "in_progress r"
  shows "phase_ok s0 (case step_done e svc act t0 r s of (r', s') \<Rightarrow> (Inr (cr, r'), s'))"
  using assms in_progress_step [of e svc act t0 r s] live_step(1) [of e svc act t0 r s]
  by (cases "step_done e svc act t0 r s") (simp add: covered_live [OF assms(1)])

lemmas phase_oks = abort_phase_ok done_phase_ok

lemma up_network_ok:
  assumes "covered s0 cr s" "in_progress r"
  shows "phase_ok s0 (up_network e p n d cr r s)"
proof -
  obtain t0 s1 where 1: "time_now e s = (t0, s1)" by fastforce
  obtain cf s2 where 2: "checkNetworkConflict e (network_actual p n d) s1 = (cf, s2)" by fastforce
  obtain made s3 where
    3: "NetworkCreate e OpCtx (network_actual p n d) (network_opts p n d) s2 = (made, s3)" by fastforce
  have l2: "covered s0 cr s2"
    using live_time [OF 1] live_checks(2) [OF 2] by (simp add: covered_live [OF assms(1)])
  note eqs = up_network_def Let_def 1 2 3
  show ?thesis
  proof (cases cf)
    case (Some err)
    then show ?thesis using phase_oks [OF l2 assms(2)] by (simp add: eqs)
  next
    case None
    note c = this
    show ?thesis
    proof (cases made)
      case (Inl err)
      then have l3: "covered s0 cr s3" using live_calls(6) [OF 3] by (simp add: covered_live [OF l2])
      show ?thesis using phase_oks [OF l3 assms(2)] by (simp add: eqs c Inl)
    next
      case (Inr i)
      then have l3: "covered s0 (cr\<lparr>cr_networks := cr_networks cr @ [i]\<rparr>) s3"
        using live_calls(6) [OF 3] l2 by (auto simp: covered_def untried_def)
      show ?thesis using phase_oks [OF l3 assms(2)] by (simp add: eqs c Inr)
    qed
  qed
qed

lemma up_networks_ok:
  "covered s0 cr s \<Longrightarrow> in_progress r \<Longrightarrow> phase_ok s0 (up_networks e p ns cr r s)"
proof (induction e p ns cr r s rule: up_networks.induct)
  case (2 e p n d rest cr r s)
  show ?case
  proof (cases "net_external d")
    case True
    then show ?thesis using 2 by simp
  next
    case False
    then show ?thesis
      using up_network_ok [OF 2(3,4), of e p n d] 2(2) by (auto split: prod.split sum.split)
  qed
qed simp

lemma up_volume_ok:
  assumes "covered s0 cr s" "in_progress r"
  shows "phase_ok s0 (up_volume e p n d cr r s)"
proof -
  obtain t0 s1 where 1: "time_now e s = (t0, s1)" by fastforce
  obtain cf s2 where
    2: "checkVolumeConflict e (volume_actual p n d) (pr_id p) s1 = (cf, s2)" by fastforce
  obtain made s3 where
    3: "VolumeCreate e OpCtx (volume_actual p n d) (volume_opts p n d) s2 = (made, s3)" by fastforce
  have l2: "covered s0 cr s2"
    using live_time [OF 1] live_checks(3) [OF 2] by (simp add: covered_live [OF assms(1)])
  have l3: "covered s0 (cr\<lparr>cr_volumes := cr_volumes cr @ [volume_actual p n d]\<rparr>) s3"
    using live_calls(9) [OF 3] l2 by (auto simp: covered_def untried_def split: option.splits)
  have l4: "covered s0 cr s3" if "made = Some err" for err
    using live_calls(9) [OF 3] that by (simp add: covered_live [OF l2])
  note eqs = up_volume_def Let_def 1 2 3
  show ?thesis
  proof (cases cf)
    case (Some err)
    then show ?thesis using phase_oks [OF l2 assms(2)] by (simp add: eqs)
  next
    case None
    note c = this
    show ?thesis
    proof (cases "\<exists>err. made = Some err \<and> \<not> already_exists err")
      case True
      then obtain err where m: "made = Some err" "\<not> already_exists err" by blast
      show ?thesis using phase_oks [OF l4 [OF m(1)] assms(2)] m by (simp add: eqs c)
    next
      case False
      then show ?thesis using phase_oks [OF l3 assms(2)] by (auto simp: eqs c split: option.splits)
    qed
  qed
qed

lemma up_volumes_ok:
  "covered s0 cr s \<Longrightarrow> in_progress r \<Longrightarrow> phase_ok s0 (up_volumes e p vs cr r s)"
proof (induction e p vs cr r s rule: up_volumes.induct)
  case (2 e p n d rest cr r s)
  show ?case
  proof (cases "vol_external d")
    case True
    then show ?thesis using 2 by simp
  next
    case False
    then show ?thesis
      using up_volume_ok [OF 2(3,4), of e p n d] 2(2) by (auto split: prod.split sum.split)
  qed
qed simp

lemma up_image_progress:
  "up_image e p svc r s = (Inr r', s') \<Longrightarrow> in_progress r \<Longrightarrow> in_progress r'"
  by (auto simp: up_image_def Let_def
      split: prod.splits option.splits sum.splits if_splits dest: in_progress_step)

text \<open>A container that was created but did not start is removed before the rollback.\<close>

lemma up_container_ok:
  assumes "covered s0 cr s" "in_progress r"
  shows "phase_ok s0 (up_container e p svc cr r s)"
proof -
  obtain t0 s1 where 1: "time_now e s = (t0, s1)" by fastforce
  obtain made s2 where
    2: "ContainerCreate e OpCtx (container_config p svc) s1 = (made, s2)" by fastforce
  have l1: "covered s0 cr s1" using live_time [OF 1] by (simp add: covered_live [OF assms(1)])
  note eqs = up_container_def Let_def 1 2
  show ?thesis
  proof (cases made)
    case (Inl err)
    then have l2: "covered s0 cr s2" using live_calls(1) [OF 2] by (simp add: covered_live [OF l1])
    show ?thesis using phase_oks [OF l2 assms(2)] by (simp add: eqs Inl)
  next
    case (Inr cid)
    obtain r3 s3 where 3: "step_done e (svc_name svc) ''create'' t0 r s2 = (r3, s3)" by fastforce
    obtain t1 s4 where 4: "time_now e s3 = (t1, s4)" by fastforce
    obtain started s5 where 5: "ContainerStart e OpCtx cid s4 = (started, s5)" by fastforce
    have r3: "in_progress r3" using in_progress_step [OF 3 assms(2)] .
    have l5: "covered s0 (cr\<lparr>cr_containers := cr_containers cr @ [cid]\<rparr>) s5"
      using live_calls(1) [OF 2] live_step(1) [OF 3] live_time [OF 4] live_calls(2) [OF 5] l1 Inr
      by (auto simp: covered_def untried_def)
    show ?thesis
    proof (cases started)
      case None
      then show ?thesis using phase_oks [OF l5 r3] by (simp add: eqs Inr 3 4 5)
    next
      case (Some err)
      obtain t2 s6 where 6: "time_now e s5 = (t2, s6)" by fastforce
      obtain rm s7 where 7: "ContainerRemove e Background cid True s6 = (rm, s7)" by fastforce
      let ?s8 = "rollbackNetworks e Background (cr_networks cr) (rollbackVolumes e Background
        (cr_volumes cr) (rollbackContainers e Background (cr_containers cr) s7))"
      let ?r8 = "add_step (mk_step (svc_name svc) ''start'' OpStatusFailed (error_string err) (t2 - t1)) r3
        \<lparr>res_error := Some \<lparr>oe_code = ErrContainerFailed, oe_message = error_string err\<rparr>\<rparr>"
      obtain r9 s9 where 9: "finish e OpStatusRolledBack ?r8 ?s8 = (r9, s9)" by fastforce
      have "untried ?s8 = (untried_containers s7 - set (cr_containers cr),
          untried_networks s7 - set (cr_networks cr), untried_volumes s7 - set (cr_volumes cr))"
        using live_rollback [of e Background "rev (cr_containers cr)" s7]
          live_rollback_networks [of e Background "cr_networks cr"]
          live_rollback_volumes [of e Background "cr_volumes cr"]
        by (simp add: untried_def rollbackContainers_def)
      then have e9: "untried_containers s9 = untried_containers s5 - {cid} - set (cr_containers cr)"
        "untried_networks s9 = untried_networks s5 - set (cr_networks cr)"
        "untried_volumes s9 = untried_volumes s5 - set (cr_volumes cr)"
        using live_step(2) [OF 9] live_calls(4) [OF 7] live_time [OF 6] by (simp_all add: untried_def)
      have l9: "untried_containers s9 \<subseteq> untried_containers s0" "untried_networks s9 \<subseteq> untried_networks s0"
        "untried_volumes s9 \<subseteq> untried_volumes s0"
        using l5 unfolding e9 covered_def by auto
      have "rolled_back s0 r9 s9"
        using l9 r3 finish_fields [OF 9]
        by (simp add: rolled_back_def failed_result_def add_step_def mk_step_def in_progress_def steps_succeeded_def)
      then show ?thesis using 9 Some by (simp add: eqs Inr 3 4 5 6 7)
    qed
  qed
qed

lemma up_service_ok:
  assumes "covered s0 cr s" "in_progress r"
  shows "phase_ok s0 (up_service e p svc cr r s)"
proof (cases "ctx_done e s")
  case True
  obtain r' s' where
    f: "finish e OpStatusCancelled r (rollbackContainers e Background (cr_containers cr) s) = (r', s')"
    by fastforce
  have "cancelled s0 r' s'"
    using finish_fields [OF f] live_step(2) [OF f] assms
      live_rollback [of e Background "rev (cr_containers cr)" s]
    by (auto simp: cancelled_def cancelled_result_def covered_def in_progress_def steps_succeeded_def untried_def
        rollbackContainers_def)
  then show ?thesis using True f by (simp add: up_service_def Let_def)
next
  case False
  note c = this
  show ?thesis
  proof (cases "image_name p svc = []")
    case True
    then show ?thesis using c assms
      by (simp add: up_service_def in_progress_def steps_succeeded_def add_step_def mk_step_def)
  next
    case False
    obtain res s1 where 1: "up_image e p svc r s = (res, s1)" by fastforce
    have l1: "covered s0 cr s1" using live_image [OF 1] by (simp add: covered_live [OF assms(1)])
    note eqs = up_service_def c False 1
    show ?thesis
    proof (cases res)
      case (Inl f)
      then show ?thesis using phase_oks [OF l1 assms(2)] by (simp add: eqs)
    next
      case (Inr r1)
      then have "in_progress r1" using up_image_progress 1 assms(2) by blast
      then show ?thesis using up_container_ok [OF l1] Inr by (simp add: eqs)
    qed
  qed
qed

lemma up_services_ok:
  "covered s0 cr s \<Longrightarrow> in_progress r \<Longrightarrow> phase_ok s0 (up_services e p svcs cr r s)"
proof (induction e p svcs cr r s rule: up_services.induct)
  case (2 e p svc rest cr r s)
  show ?case
    using up_service_ok [OF 2(2,3), of e p svc] 2(1) by (auto split: prod.split sum.split)
qed simp

text \<open>
  The outcome of \<open>Up\<close>: an error only from the port check, otherwise a finished result, and on every
  branch what it left without asking for its removal.
\<close>

definition succeeded_result :: "OperationResult \<Rightarrow> bool" where
  "succeeded_result r \<longleftrightarrow>
     res_status r = OpStatusSucceeded \<and> res_error r = None \<and> res_finished r \<noteq> None \<and> steps_succeeded r"

fun up_tried :: "'w dstate \<Rightarrow> (go_error + OperationResult) \<times> 'w dstate \<Rightarrow> bool" where
  "up_tried s0 (Inl err, s) \<longleftrightarrow> untried s = untried s0"
| "up_tried s0 (Inr r, s) \<longleftrightarrow> rolled_back s0 r s \<or> cancelled s0 r s \<or> succeeded_result r"

lemma start_result_progress: "start_result e s = (r, s') \<Longrightarrow> in_progress r"
  by (auto simp: start_result_def in_progress_def steps_succeeded_def split: prod.splits)

lemma Up_tried: "up_tried s (Up e p services s)"
proof -
  let ?cr = "\<lparr>cr_containers = [], cr_volumes = [], cr_networks = []\<rparr>"
  obtain r1 s1 where 1: "start_result e s = (r1, s1)" by fastforce
  obtain cf s2 where 2: "checkPortConflicts e (filterServices p services) s1 = (cf, s2)" by fastforce
  have l2: "untried s2 = untried s" using live_step(4) [OF 1] live_checks(1) [OF 2] by simp
  have c2: "covered s ?cr s2" using l2 by (simp add: covered_def untried_def)
  have p1: "in_progress r1" using 1 by (rule start_result_progress)
  note eqs = Up_def Let_def 1 2
  show ?thesis
  proof (cases cf)
    case (Some err)
    then show ?thesis using l2 by (simp add: eqs)
  next
    case None
    note c = this
    obtain o3 s3 where 3: "up_networks e p (pr_networks p) ?cr r1 s2 = (o3, s3)" by fastforce
    note ok3 = up_networks_ok [OF c2 p1, of e p "pr_networks p", unfolded 3]
    show ?thesis
    proof (cases o3)
      case (Inl r)
      then show ?thesis using ok3 by (auto simp: eqs c 3)
    next
      case (Inr x)
      then obtain cr3 r3 where x: "o3 = Inr (cr3, r3)" by (cases x) simp
      with ok3 have c3: "covered s cr3 s3" "in_progress r3" by simp_all
      obtain o4 s4 where 4: "up_volumes e p (pr_volumes p) cr3 r3 s3 = (o4, s4)" by fastforce
      note ok4 = up_volumes_ok [OF c3, of e p "pr_volumes p", unfolded 4]
      show ?thesis
      proof (cases o4)
        case (Inl r)
        then show ?thesis using ok4 by (auto simp: eqs c 3 x 4)
      next
        case (Inr y)
        then obtain cr4 r4 where y: "o4 = Inr (cr4, r4)" by (cases y) simp
        with ok4 have c4: "covered s cr4 s4" "in_progress r4" by simp_all
        let ?svcs = "topologicalSort (range_order e) (filterServices p services)"
        obtain o5 s5 where 5: "up_services e p ?svcs cr4 r4 s4 = (o5, s5)" by fastforce
        note ok5 = up_services_ok [OF c4, of e p ?svcs, unfolded 5]
        show ?thesis
        proof (cases o5)
          case (Inl r)
          then show ?thesis using ok5 by (auto simp: eqs c 3 x 4 y 5)
        next
          case (Inr z)
          then obtain cr5 r5 where z: "o5 = Inr (cr5, r5)" by (cases z) simp
          with ok5 have c5: "covered s cr5 s5" "in_progress r5" by simp_all
          obtain r6 s6 where 6: "finish e OpStatusSucceeded r5 s5 = (r6, s6)" by fastforce
          show ?thesis using finish_fields [OF 6] c5
            by (simp add: eqs c 3 x 4 y 5 z 6 succeeded_result_def in_progress_def steps_succeeded_def)
        qed
      qed
    qed
  qed
qed

section \<open>What the daemon still holds\<close>

text \<open>
  The calls between two states of a run, and what became of the resources: every one the daemon still
  holds after them it held before, or it refused to remove it when it was asked to, after it was made.
\<close>

definition calls_between :: "'w dstate \<Rightarrow> 'w dstate \<Rightarrow> call_event list" where
  "calls_between s0 s = drop (length (ds_trace s0)) (ds_trace s)"

definition no_container_left :: "'w dstate \<Rightarrow> 'w dstate \<Rightarrow> bool" where
  "no_container_left s0 s \<longleftrightarrow>
     held_containers s \<subseteq> held_containers s0 \<union> refused_containers (calls_between s0 s)"

definition nothing_left :: "'w dstate \<Rightarrow> 'w dstate \<Rightarrow> bool" where
  "nothing_left s0 s \<longleftrightarrow>
     no_container_left s0 s \<and>
     held_networks s \<subseteq> held_networks s0 \<union> refused_networks (calls_between s0 s) \<and>
     held_volumes s \<subseteq> held_volumes s0 \<union> refused_volumes (calls_between s0 s)"

lemma tried_left:
  assumes "ds_trace s = ds_trace s0 @ tr"
  shows "untried_containers s \<subseteq> untried_containers s0 \<Longrightarrow> no_container_left s0 s"
    "untried_networks s \<subseteq> untried_networks s0 \<Longrightarrow>
       held_networks s \<subseteq> held_networks s0 \<union> refused_networks (calls_between s0 s)"
    "untried_volumes s \<subseteq> untried_volumes s0 \<Longrightarrow>
       held_volumes s \<subseteq> held_volumes s0 \<union> refused_volumes (calls_between s0 s)"
  using ctr.accounted [of "ds_trace s0" tr] nw.accounted [of "ds_trace s0" tr] vol.accounted [of "ds_trace s0" tr]
  by (simp_all add: assms calls_between_def no_container_left_def untried_containers_def untried_networks_def
      untried_volumes_def held_containers_def held_networks_def held_volumes_def
      refused_containers_def refused_networks_def refused_volumes_def)

lemma rolled_back_left:
  "rolled_back s0 r s \<Longrightarrow> ds_trace s = ds_trace s0 @ tr \<Longrightarrow> failed_result r \<and> nothing_left s0 s"
  using tried_left [of s s0 tr] by (simp add: rolled_back_def nothing_left_def)

lemma cancelled_left:
  "cancelled s0 r s \<Longrightarrow> ds_trace s = ds_trace s0 @ tr \<Longrightarrow> cancelled_result r \<and> no_container_left s0 s"
  using tried_left(1) [of s s0 tr] by (simp add: cancelled_def)

end
