(* ===== verification/OpsTrace.thy ===== *)
theory OpsTrace
  imports OpsFacts
begin

text \<open>
  Which calls the compose operations make, and in which order: the events of the trace of \<open>Up\<close>,
  \<open>Down\<close>, \<open>Stop\<close>, \<open>Start\<close> and \<open>Restart\<close>, and the order in which \<open>Up\<close> starts the services.
\<close>

section \<open>Traces whose new events satisfy a predicate\<close>

definition only :: "(call_event \<Rightarrow> bool) \<Rightarrow> 'w dstate \<Rightarrow> 'w dstate \<Rightarrow> bool" where
  "only P s s' \<longleftrightarrow> (\<exists>tr. ds_trace s' = ds_trace s @ tr \<and> list_all P tr)"

lemma only_refl [simp, intro]: "only P s s"
  by (simp add: only_def)

lemma only_trans [trans]: "only P s s' \<Longrightarrow> only P s' s'' \<Longrightarrow> only P s s''"
  by (fastforce simp: only_def)

lemma only_same: "ds_trace s' = ds_trace s \<Longrightarrow> only P s s'"
  by (simp add: only_def)

lemma only_traced: "traced f ev s = (r, s') \<Longrightarrow> P (ev r) \<Longrightarrow> only P s s'"
  by (auto simp: only_def dest: traced_trace)

lemma only_time: "time_now e s = (t, s') \<Longrightarrow> only P s s'"
  by (simp add: only_same)

lemma only_step:
  "step_done e svc act t0 r s = (r', s') \<Longrightarrow> only P s s'"
  "finish e st r s = (r', s') \<Longrightarrow> only P s s'"
  "step_of e svc act t0 res r s = (r', s') \<Longrightarrow> only P s s'"
  "start_result e s = (r', s') \<Longrightarrow> only P s s'"
  by (auto simp: step_done_def finish_def step_of_def start_result_def split: prod.splits
      dest: only_time)

text \<open>One rule per call: it adds its own event.\<close>

lemma only_calls:
  "ContainerCreate e c cfg s = (made, s') \<Longrightarrow> P (c, CallContainerCreate cfg made) \<Longrightarrow> only P s s'"
  "ContainerStart e c i s = (res, s') \<Longrightarrow> P (c, CallContainerStart i res) \<Longrightarrow> only P s s'"
  "ContainerStop e c i tmo s = (res, s') \<Longrightarrow> P (c, CallContainerStop i tmo res) \<Longrightarrow> only P s s'"
  "ContainerRemove e c i f s = (res, s') \<Longrightarrow> P (c, CallContainerRemove i f res) \<Longrightarrow> only P s s'"
  "ContainerList e c fs s = (ctrs, s') \<Longrightarrow> P (c, CallContainerList fs ctrs) \<Longrightarrow> only P s s'"
  "NetworkCreate e c n nopts s = (nmade, s') \<Longrightarrow> P (c, CallNetworkCreate n nopts nmade) \<Longrightarrow> only P s s'"
  "NetworkRemove e c i s = (res, s') \<Longrightarrow> P (c, CallNetworkRemove i res) \<Longrightarrow> only P s s'"
  "NetworkList e c s = (nets, s') \<Longrightarrow> P (c, CallNetworkList nets) \<Longrightarrow> only P s s'"
  "VolumeCreate e c n vopts s = (res, s') \<Longrightarrow> P (c, CallVolumeCreate n vopts res) \<Longrightarrow> only P s s'"
  "VolumeRemove e c n f s = (res, s') \<Longrightarrow> P (c, CallVolumeRemove n f res) \<Longrightarrow> only P s s'"
  "VolumeList e c s = (vols, s') \<Longrightarrow> P (c, CallVolumeList vols) \<Longrightarrow> only P s s'"
  "ImagePull e c ref s = (res, s') \<Longrightarrow> P (c, CallImagePull ref res) \<Longrightarrow> only P s s'"
  "ImageBuild e c bopts s = (res, s') \<Longrightarrow> P (c, CallImageBuild bopts res) \<Longrightarrow> only P s s'"
  "ImageExists e c ref s = (ex, s') \<Longrightarrow> P (c, CallImageExists ref ex) \<Longrightarrow> only P s s'"
  "Listen e addr s = (res, s') \<Longrightarrow> P (Background, CallListen addr res) \<Longrightarrow> only P s s'"
  unfolding call_defs by (erule only_traced, assumption)+

section \<open>The calls of Up\<close>

text \<open>
  A call that changes nothing; and the calls \<open>Up\<close> may make for a set of target services: it creates
  and starts with the operation's context, it removes only with the background context, and every
  container it creates has the configuration of one of the services.
\<close>

fun reads :: "call_event \<Rightarrow> bool" where
  "reads (c, CallContainerList fs r) = True"
| "reads (c, CallNetworkList r) = True"
| "reads (c, CallVolumeList r) = True"
| "reads (c, CallImageExists ref r) = True"
| "reads (c, CallListen addr r) = True"
| "reads _ = False"

fun up_event :: "Project \<Rightarrow> Service set \<Rightarrow> call_event \<Rightarrow> bool" where
  "up_event p T (c, CallContainerCreate cfg r) \<longleftrightarrow>
     c = OpCtx \<and> (\<exists>svc \<in> T. image_name p svc \<noteq> [] \<and> cfg = container_config p svc)"
| "up_event p T (c, CallContainerStart i r) \<longleftrightarrow> c = OpCtx"
| "up_event p T (c, CallContainerStop i tmo r) \<longleftrightarrow> c = Background \<and> tmo = 5 * second"
| "up_event p T (c, CallContainerRemove i f r) \<longleftrightarrow> c = Background \<and> f"
| "up_event p T (c, CallNetworkCreate n opts r) \<longleftrightarrow>
     c = OpCtx \<and> (\<exists>k d. (k, d) \<in> set (pr_networks p) \<and> \<not> net_external d \<and>
       n = network_actual p k d \<and> opts = network_opts p k d)"
| "up_event p T (c, CallNetworkRemove i r) \<longleftrightarrow> c = Background"
| "up_event p T (c, CallVolumeCreate n opts r) \<longleftrightarrow>
     c = OpCtx \<and> (\<exists>k d. (k, d) \<in> set (pr_volumes p) \<and> \<not> vol_external d \<and>
       n = volume_actual p k d \<and> opts = volume_opts p k d)"
| "up_event p T (c, CallVolumeRemove n f r) \<longleftrightarrow> c = Background \<and> f"
| "up_event p T (c, CallImagePull ref r) \<longleftrightarrow> c = OpCtx \<and> (\<exists>svc \<in> T. ref = image_name p svc)"
| "up_event p T (c, CallImageBuild opts r) \<longleftrightarrow> c = OpCtx"
| "up_event p T (c, CallContainerList fs r) \<longleftrightarrow> c = OpCtx"
| "up_event p T (c, CallNetworkList r) \<longleftrightarrow> c = OpCtx"
| "up_event p T (c, CallVolumeList r) \<longleftrightarrow> c = OpCtx"
| "up_event p T (c, CallImageExists ref r) \<longleftrightarrow> c = OpCtx"
| "up_event p T (c, CallListen addr r) \<longleftrightarrow> True"

lemma only_host_ports:
  "host_ports_free e ps s = (r, s') \<Longrightarrow> (\<And>a x. P (Background, CallListen a x)) \<Longrightarrow> only P s s'"
proof (induction e ps s rule: host_ports_free.induct)
  case (2 e p ps s)
  show ?case
  proof (cases "pm_hostport p = []")
    case True
    then have "host_ports_free e ps s = (r, s')" using 2(3) by simp
    then show ?thesis by (rule 2(1) [OF True _ 2(4)])
  next
    case False
    let ?addr = "join_host_port (if pm_hostip p = [] then ''0.0.0.0'' else pm_hostip p) (pm_hostport p)"
    obtain x s1 where 1: "Listen e ?addr s = (x, s1)" by fastforce
    have o1: "only P s s1" using only_calls(15) [OF 1] 2(4) by blast
    show ?thesis
    proof (cases x)
      case None
      then have "host_ports_free e ps s1 = (r, s')" using 2(3) False 1 by (simp add: Let_def)
      then have "only P s1 s'" using 2(2) [OF False refl 1 [symmetric] refl] None 2(4) by blast
      with o1 show ?thesis by (rule only_trans)
    next
      case (Some err)
      then show ?thesis using 2(3) False 1 o1 by (simp add: Let_def)
    qed
  qed
qed simp

lemma call_trace:
  "ContainerCreate e c cfg s = (made, s') \<Longrightarrow> ds_trace s' = ds_trace s @ [(c, CallContainerCreate cfg made)]"
  "ContainerStart e c i s = (res, s') \<Longrightarrow> ds_trace s' = ds_trace s @ [(c, CallContainerStart i res)]"
  "ContainerStop e c i tmo s = (res, s') \<Longrightarrow> ds_trace s' = ds_trace s @ [(c, CallContainerStop i tmo res)]"
  "ContainerRemove e c i f s = (res, s') \<Longrightarrow> ds_trace s' = ds_trace s @ [(c, CallContainerRemove i f res)]"
  "ContainerList e c fs s = (ctrs, s') \<Longrightarrow> ds_trace s' = ds_trace s @ [(c, CallContainerList fs ctrs)]"
  "NetworkCreate e c n nopts s = (nmade, s') \<Longrightarrow> ds_trace s' = ds_trace s @ [(c, CallNetworkCreate n nopts nmade)]"
  "NetworkRemove e c i s = (res, s') \<Longrightarrow> ds_trace s' = ds_trace s @ [(c, CallNetworkRemove i res)]"
  "NetworkList e c s = (nets, s') \<Longrightarrow> ds_trace s' = ds_trace s @ [(c, CallNetworkList nets)]"
  "VolumeCreate e c n vopts s = (res, s') \<Longrightarrow> ds_trace s' = ds_trace s @ [(c, CallVolumeCreate n vopts res)]"
  "VolumeRemove e c n f s = (res, s') \<Longrightarrow> ds_trace s' = ds_trace s @ [(c, CallVolumeRemove n f res)]"
  "VolumeList e c s = (vols, s') \<Longrightarrow> ds_trace s' = ds_trace s @ [(c, CallVolumeList vols)]"
  "ImagePull e c ref s = (res, s') \<Longrightarrow> ds_trace s' = ds_trace s @ [(c, CallImagePull ref res)]"
  "ImageBuild e c bopts s = (res, s') \<Longrightarrow> ds_trace s' = ds_trace s @ [(c, CallImageBuild bopts res)]"
  "ImageExists e c ref s = (ex, s') \<Longrightarrow> ds_trace s' = ds_trace s @ [(c, CallImageExists ref ex)]"
  "Listen e addr s = (res, s') \<Longrightarrow> ds_trace s' = ds_trace s @ [(Background, CallListen addr res)]"
  unfolding call_defs by (drule traced_trace, simp)+

lemma step_trace:
  "step_done e svc act t0 r s = (r', s') \<Longrightarrow> ds_trace s' = ds_trace s"
  "finish e st r s = (r', s') \<Longrightarrow> ds_trace s' = ds_trace s"
  "step_of e svc act t0 res r s = (r', s') \<Longrightarrow> ds_trace s' = ds_trace s"
  "start_result e s = (r', s') \<Longrightarrow> ds_trace s' = ds_trace s"
  by (auto simp: step_done_def finish_def step_of_def start_result_def split: prod.splits)

lemmas traces = call_trace step_trace time_now_trace

lemma only_checks:
  assumes "\<And>ev. reads ev \<Longrightarrow> fst ev = OpCtx \<or> (\<exists>a x. ev = (Background, CallListen a x)) \<Longrightarrow> P ev"
  shows "checkPortConflicts e svcs s = (r, s') \<Longrightarrow> only P s s'"
    and "checkNetworkConflict e n s = (r, s') \<Longrightarrow> only P s s'"
    and "checkVolumeConflict e n pid s = (r, s') \<Longrightarrow> only P s s'"
proof -
  assume c: "checkPortConflicts e svcs s = (r, s')"
  obtain x s1 where 1: "ContainerList e OpCtx [(''status'', [''running''])] s = (x, s1)" by fastforce
  have o1: "only P s s1" using only_calls(5) [OF 1] assms by simp
  have o2: "only P s1 s'" if "host_ports_free e (concat (map svc_ports svcs)) s1 = (r, s')"
    using only_host_ports [OF that] assms by simp
  show "only P s s'"
    using c 1 o1 only_trans [OF o1 o2]
    by (auto simp: checkPortConflicts_def split: if_splits sum.splits option.splits)
next
  assume "checkNetworkConflict e n s = (r, s')"
  then show "only P s s'"
    using assms by (auto simp: checkNetworkConflict_def only_def split: prod.splits sum.splits option.splits
        dest!: traces)
next
  assume "checkVolumeConflict e n pid s = (r, s')"
  then show "only P s s'"
    using assms by (auto simp: checkVolumeConflict_def only_def split: prod.splits sum.splits option.splits
        dest!: traces)
qed

lemma up_event_reads:
  "reads ev \<Longrightarrow> fst ev = OpCtx \<or> (\<exists>a x. ev = (Background, CallListen a x)) \<Longrightarrow> up_event p T ev"
  by (cases ev rule: reads.cases) auto

lemma up_checks:
  "checkPortConflicts e svcs s = (r, s') \<Longrightarrow> only (up_event p T) s s'"
  "checkNetworkConflict e n s = (r, s') \<Longrightarrow> only (up_event p T) s s'"
  "checkVolumeConflict e n pid s = (r, s') \<Longrightarrow> only (up_event p T) s s'"
  using only_checks [of "up_event p T"] up_event_reads [of _ p T] by blast+

lemma only_rollback_each: "only (up_event p T) s (rollback_each e Background is s)"
proof (induction "is" arbitrary: s)
  case (Cons i "is")
  obtain x s1 where 1: "ContainerStop e Background i (5 * second) s = (x, s1)" by fastforce
  obtain y s2 where 2: "ContainerRemove e Background i True s1 = (y, s2)" by fastforce
  have "only (up_event p T) s s1" by (rule only_calls(3) [OF 1]) simp
  also have "only (up_event p T) s1 s2" by (rule only_calls(4) [OF 2]) simp
  also have "only (up_event p T) s2 (rollback_each e Background is s2)" by (rule Cons)
  finally show ?case using 1 2 by simp
qed simp

lemma only_rollback_networks: "only (up_event p T) s (rollbackNetworks e Background is s)"
proof (induction "is" arbitrary: s)
  case (Cons i "is")
  obtain x s1 where 1: "NetworkRemove e Background i s = (x, s1)" by fastforce
  have "only (up_event p T) s s1" by (rule only_calls(7) [OF 1]) simp
  also have "only (up_event p T) s1 (rollbackNetworks e Background is s1)" by (rule Cons)
  finally show ?case using 1 by simp
qed simp

lemma only_rollback_volumes: "only (up_event p T) s (rollbackVolumes e Background ns s)"
proof (induction ns arbitrary: s)
  case (Cons n ns)
  obtain x s1 where 1: "VolumeRemove e Background n True s = (x, s1)" by fastforce
  have "only (up_event p T) s s1" by (rule only_calls(10) [OF 1]) simp
  also have "only (up_event p T) s1 (rollbackVolumes e Background ns s1)" by (rule Cons)
  finally show ?case using 1 by simp
qed simp

lemmas only_rollback = only_rollback_each only_rollback_networks only_rollback_volumes

lemma only_abort:
  assumes "up_abort e cr f r s = (r', s')"
  shows "only (up_event p T) s s'"
proof -
  obtain t s1 where 1: "time_now e s = (t, s1)" by fastforce
  let ?s2 = "rollbackContainers e Background (cr_containers cr) s1"
  let ?s3 = "rollbackVolumes e Background (cr_volumes cr) ?s2"
  let ?s4 = "rollbackNetworks e Background (cr_networks cr) ?s3"
  have "only (up_event p T) s s1" using 1 by (rule only_time)
  also have "only (up_event p T) s1 ?s2" by (simp add: rollbackContainers_def only_rollback)
  also have "only (up_event p T) ?s2 ?s3" by (simp add: only_rollback)
  also have "only (up_event p T) ?s3 ?s4" by (simp add: only_rollback)
  also have "only (up_event p T) ?s4 s'"
    using assms 1 by (auto simp: up_abort_def Let_def intro: only_step(2))
  finally show ?thesis .
qed

lemma only_up_network:
  assumes "(n, d) \<in> set (pr_networks p)" "\<not> net_external d"
    and "up_network e p n d cr r s = (res, s')"
  shows "only (up_event p T) s s'"
proof -
  obtain t0 s1 where 1: "time_now e s = (t0, s1)" by fastforce
  obtain cf s2 where 2: "checkNetworkConflict e (network_actual p n d) s1 = (cf, s2)" by fastforce
  obtain made s3 where
    3: "NetworkCreate e OpCtx (network_actual p n d) (network_opts p n d) s2 = (made, s3)" by fastforce
  have "only (up_event p T) s s1" using 1 by (rule only_time)
  also have "only (up_event p T) s1 s2" using 2 by (rule up_checks(2))
  finally have o2: "only (up_event p T) s s2" .
  have "only (up_event p T) s2 s3" using assms(1,2) by (intro only_calls(6) [OF 3]) auto
  with o2 have o3: "only (up_event p T) s s3" by (rule only_trans)
  show ?thesis
    using assms(3) o2 o3
    by (auto simp: up_network_def 1 2 3 Let_def split: option.splits sum.splits if_splits prod.splits
        dest!: only_abort [where p = p and T = T] only_step(1) [where P = "up_event p T"]
        elim: only_trans)
qed

lemma only_up_networks:
  "up_networks e p ns cr r s = (res, s') \<Longrightarrow> set ns \<subseteq> set (pr_networks p) \<Longrightarrow> only (up_event p T) s s'"
proof (induction e p ns cr r s rule: up_networks.induct)
  case (2 e p n d rest cr r s)
  show ?case
  proof (cases "net_external d")
    case True
    then show ?thesis using 2(1) [OF True] 2(3,4) by simp
  next
    case False
    obtain x s1 where 1: "up_network e p n d cr r s = (x, s1)" by fastforce
    have o1: "only (up_event p T) s s1" using only_up_network [OF _ False 1] 2(4) by simp
    show ?thesis
      using 2(2) [OF False 1 [symmetric]] 2(3,4) False o1
      by (auto simp: 1 split: sum.splits intro: only_trans)
  qed
qed simp

lemma only_up_volume:
  assumes "(n, d) \<in> set (pr_volumes p)" "\<not> vol_external d"
    and "up_volume e p n d cr r s = (res, s')"
  shows "only (up_event p T) s s'"
proof -
  obtain t0 s1 where 1: "time_now e s = (t0, s1)" by fastforce
  obtain cf s2 where
    2: "checkVolumeConflict e (volume_actual p n d) (pr_id p) s1 = (cf, s2)" by fastforce
  obtain made s3 where
    3: "VolumeCreate e OpCtx (volume_actual p n d) (volume_opts p n d) s2 = (made, s3)" by fastforce
  have "only (up_event p T) s s1" using 1 by (rule only_time)
  also have "only (up_event p T) s1 s2" using 2 by (rule up_checks(3))
  finally have o2: "only (up_event p T) s s2" .
  have "only (up_event p T) s2 s3" using assms(1,2) by (intro only_calls(9) [OF 3]) auto
  with o2 have o3: "only (up_event p T) s s3" by (rule only_trans)
  show ?thesis
    using assms(3) o2 o3
    by (auto simp: up_volume_def 1 2 3 Let_def split: option.splits if_splits prod.splits
        dest!: only_abort [where p = p and T = T] only_step(1) [where P = "up_event p T"]
        elim: only_trans)
qed

lemma only_up_volumes:
  "up_volumes e p vs cr r s = (res, s') \<Longrightarrow> set vs \<subseteq> set (pr_volumes p) \<Longrightarrow> only (up_event p T) s s'"
proof (induction e p vs cr r s rule: up_volumes.induct)
  case (2 e p n d rest cr r s)
  show ?case
  proof (cases "vol_external d")
    case True
    then show ?thesis using 2(1) [OF True] 2(3,4) by simp
  next
    case False
    obtain x s1 where 1: "up_volume e p n d cr r s = (x, s1)" by fastforce
    have o1: "only (up_event p T) s s1" using only_up_volume [OF _ False 1] 2(4) by simp
    show ?thesis
      using 2(2) [OF False 1 [symmetric]] 2(3,4) False o1
      by (auto simp: 1 split: sum.splits intro: only_trans)
  qed
qed simp

lemma only_up_image:
  assumes "svc \<in> T" "up_image e p svc r s = (res, s')"
  shows "only (up_event p T) s s'"
proof -
  obtain t0 s1 where 1: "time_now e s = (t0, s1)" by fastforce
  have o1: "only (up_event p T) s s1" using 1 by (rule only_time)
  show ?thesis
  proof (cases "svc_build svc")
    case (Some b)
    obtain x s2 where 2: "ImageBuild e OpCtx (build_opts p b (image_name p svc)) s1 = (x, s2)"
      by fastforce
    have "only (up_event p T) s1 s2" by (rule only_calls(13) [OF 2]) simp
    with o1 have "only (up_event p T) s s2" by (rule only_trans)
    then show ?thesis
      using assms(2) 1 2 Some
      by (auto simp: up_image_def Let_def split: option.splits prod.splits
          dest!: only_step(1) [where P = "up_event p T"] elim: only_trans)
  next
    case None
    obtain x s2 where 2: "ImageExists e OpCtx (image_name p svc) s1 = (x, s2)" by fastforce
    have "only (up_event p T) s1 s2" by (rule only_calls(14) [OF 2]) simp
    with o1 have o2: "only (up_event p T) s s2" by (rule only_trans)
    obtain y s3 where 3: "ImagePull e OpCtx (image_name p svc) s2 = (y, s3)" by fastforce
    have "only (up_event p T) s2 s3" using assms(1) by (intro only_calls(12) [OF 3]) auto
    with o2 have "only (up_event p T) s s3" by (rule only_trans)
    then show ?thesis
      using assms(2) 1 2 3 None o2
      by (auto simp: up_image_def Let_def split: option.splits prod.splits sum.splits if_splits
          dest!: only_step(1) [where P = "up_event p T"] elim: only_trans)
  qed
qed

lemma only_up_container:
  assumes "svc \<in> T" "image_name p svc \<noteq> []" "up_container e p svc cr r s = (res, s')"
  shows "only (up_event p T) s s'"
proof -
  obtain t0 s1 where 1: "time_now e s = (t0, s1)" by fastforce
  obtain made s2 where
    2: "ContainerCreate e OpCtx (container_config p svc) s1 = (made, s2)" by fastforce
  have "only (up_event p T) s s1" using 1 by (rule only_time)
  also have "only (up_event p T) s1 s2" using assms(1,2) by (intro only_calls(1) [OF 2]) auto
  finally have o2: "only (up_event p T) s s2" .
  note eqs = up_container_def Let_def 1 2
  show ?thesis
  proof (cases made)
    case (Inl err)
    then show ?thesis
      using assms(3) o2
      by (auto simp: eqs split: prod.splits dest!: only_abort [where p = p and T = T] elim: only_trans)
  next
    case (Inr cid)
    obtain r3 s3 where 3: "step_done e (svc_name svc) ''create'' t0 r s2 = (r3, s3)" by fastforce
    obtain t1 s4 where 4: "time_now e s3 = (t1, s4)" by fastforce
    obtain started s5 where 5: "ContainerStart e OpCtx cid s4 = (started, s5)" by fastforce
    have "only (up_event p T) s2 s3" using 3 by (rule only_step(1))
    with o2 have "only (up_event p T) s s3" by (rule only_trans)
    also have "only (up_event p T) s3 s4" using 4 by (rule only_time)
    also have "only (up_event p T) s4 s5" by (rule only_calls(2) [OF 5]) simp
    finally have o5: "only (up_event p T) s s5" .
    show ?thesis
    proof (cases started)
      case None
      then show ?thesis
        using assms(3) o5
        by (auto simp: eqs Inr 3 4 5 split: prod.splits dest!: only_step(1) [where P = "up_event p T"]
            elim: only_trans)
    next
      case (Some err)
      obtain t2 s6 where 6: "time_now e s5 = (t2, s6)" by fastforce
      obtain rm s7 where 7: "ContainerRemove e Background cid True s6 = (rm, s7)" by fastforce
      have "only (up_event p T) s5 s6" using 6 by (rule only_time)
      with o5 have "only (up_event p T) s s6" by (rule only_trans)
      also have "only (up_event p T) s6 s7" by (rule only_calls(4) [OF 7]) simp
      also have "only (up_event p T) s7 (rollback_each e Background (rev (cr_containers cr)) s7)"
        (is "only _ _ ?s8") by (rule only_rollback)
      also have "only (up_event p T) ?s8 (rollbackVolumes e Background (cr_volumes cr) ?s8)"
        (is "only _ _ ?s9") by (rule only_rollback)
      also have "only (up_event p T) ?s9 (rollbackNetworks e Background (cr_networks cr) ?s9)"
        by (rule only_rollback)
      finally show ?thesis
        using assms(3) Some
        by (auto simp: eqs Inr 3 4 5 6 7 rollbackContainers_def split: prod.splits
            dest!: only_step(2) [where P = "up_event p T"] elim: only_trans)
    qed
  qed
qed

lemma only_up_service:
  assumes "svc \<in> T" "up_service e p svc cr r s = (res, s')"
  shows "only (up_event p T) s s'"
proof -
  consider "ctx_done e s" | "\<not> ctx_done e s" "image_name p svc = []"
    | "\<not> ctx_done e s" "image_name p svc \<noteq> []" by blast
  then show ?thesis
  proof cases
    case 1
    have "only (up_event p T) s (rollback_each e Background (rev (cr_containers cr)) s)"
      by (rule only_rollback)
    then show ?thesis
      using assms(2) 1
      by (auto simp: up_service_def rollbackContainers_def Let_def split: prod.splits
          dest!: only_step(2) [where P = "up_event p T"] elim: only_trans)
  next
    case 2
    then show ?thesis using assms(2) by (auto simp: up_service_def)
  next
    case 3
    obtain x s1 where 1: "up_image e p svc r s = (x, s1)" by fastforce
    have "only (up_event p T) s s1" using assms(1) 1 by (rule only_up_image)
    then show ?thesis
      using assms 3 1
      by (auto simp: up_service_def split: sum.splits prod.splits
          dest!: only_abort [where p = p and T = T] only_up_container [OF assms(1) 3(2)]
          elim: only_trans)
  qed
qed

lemma only_up_services:
  "up_services e p svcs cr r s = (res, s') \<Longrightarrow> set svcs \<subseteq> T \<Longrightarrow> only (up_event p T) s s'"
proof (induction e p svcs cr r s rule: up_services.induct)
  case (2 e p svc rest cr r s)
  obtain x s1 where 1: "up_service e p svc cr r s = (x, s1)" by fastforce
  have o1: "only (up_event p T) s s1" using only_up_service [OF _ 1] 2(3) by simp
  show ?case
    using 2(1) [OF 1 [symmetric]] 2(2,3) o1 by (auto simp: 1 split: sum.splits intro: only_trans)
qed simp

lemma Up_events:
  assumes "Up e p services s = (out, s')"
  shows "only (up_event p (set (filterServices p services))) s s'"
proof -
  let ?target = "filterServices p services"
  let ?P = "up_event p (set ?target)"
  let ?cr = "\<lparr>cr_containers = [], cr_volumes = [], cr_networks = []\<rparr>"
  obtain r1 s1 where 1: "start_result e s = (r1, s1)" by fastforce
  obtain cf s2 where 2: "checkPortConflicts e ?target s1 = (cf, s2)" by fastforce
  have "only ?P s s1" using 1 by (rule only_step)
  also have "only ?P s1 s2" using 2 by (rule up_checks)
  finally have o2: "only ?P s s2" .
  obtain o3 s3 where 3: "up_networks e p (pr_networks p) ?cr r1 s2 = (o3, s3)" by fastforce
  have "only ?P s2 s3" by (rule only_up_networks [OF 3]) simp
  with o2 have o3: "only ?P s s3" by (rule only_trans)
  have vols: "only ?P s s4" if "up_volumes e p (pr_volumes p) cr r s3 = (x, s4)" for cr r x s4
    using only_trans [OF o3 only_up_volumes [OF that]] by simp
  have svcs: "only ?P s4 s5"
    if "up_services e p (topologicalSort (range_order e) ?target) cr r s4 = (x, s5)" for cr r x s4 s5
    using only_up_services [OF that topologicalSort_subset] .
  show ?thesis
    using assms o2 o3
    by (auto simp: Up_def 1 2 3 Let_def split: option.splits sum.splits prod.splits
        dest!: vols svcs only_step(2) [where P = ?P] elim: only_trans)
qed

section \<open>The order in which Up starts the services\<close>

text \<open>The services of the start steps of a result, in order.\<close>

definition starts :: "OperationResult \<Rightarrow> string list" where
  "starts r = map st_service (filter (\<lambda>st. st_action st = ''start'' \<and> st_status st = OpStatusSucceeded) (res_steps r))"

definition with_image :: "Project \<Rightarrow> Service list \<Rightarrow> string list" where
  "with_image p svcs = map svc_name (filter (\<lambda>svc. image_name p svc \<noteq> []) svcs)"

lemma starts_add:
  "starts (add_step (mk_step svc act st err dur) r) =
     starts r @ (if act = ''start'' \<and> st = OpStatusSucceeded then [svc] else [])"
  by (simp add: starts_def add_step_def mk_step_def)

lemma starts_done:
  "step_done e svc act t0 r s = (r', s') \<Longrightarrow>
     starts r' = starts r @ (if act = ''start'' then [svc] else [])"
  by (auto simp: step_done_def starts_add split: prod.splits)

lemma starts_finish: "finish e st r s = (r', s') \<Longrightarrow> starts r' = starts r"
  using finish_fields(3) by (fastforce simp: starts_def)

lemma starts_error: "starts (r\<lparr>res_error := x\<rparr>) = starts r"
  by (simp add: starts_def)

lemma starts_abort:
  "up_abort e cr f r s = (r', s') \<Longrightarrow> starts r' = starts r"
  by (auto simp: up_abort_def Let_def starts_add starts_error split: prod.splits dest!: starts_finish)

lemma starts_networks:
  "up_networks e p ns cr r s = (res, s') \<Longrightarrow>
     (case res of Inl r' \<Rightarrow> starts r' = starts r | Inr (cr', r') \<Rightarrow> starts r' = starts r)"
proof (induction e p ns cr r s rule: up_networks.induct)
  case (2 e p n d rest cr r s)
  have one: "case x of Inl r' \<Rightarrow> starts r' = starts r | Inr (cr', r') \<Rightarrow> starts r' = starts r"
    if "up_network e p n d cr r s = (x, s1)" for x s1
    using that
    by (auto simp: up_network_def Let_def split: prod.splits option.splits sum.splits if_splits
        dest!: starts_abort starts_done)
  show ?case
  proof (cases "net_external d")
    case True
    then show ?thesis using 2(1) [OF True] 2(3) by simp
  next
    case False
    obtain x s1 where 1: "up_network e p n d cr r s = (x, s1)" by fastforce
    show ?thesis
      using 2(2) [OF False 1 [symmetric]] 2(3) False one [OF 1]
      by (auto simp: 1 split: sum.splits prod.splits)
  qed
qed auto

lemma starts_volumes:
  "up_volumes e p vs cr r s = (res, s') \<Longrightarrow>
     (case res of Inl r' \<Rightarrow> starts r' = starts r | Inr (cr', r') \<Rightarrow> starts r' = starts r)"
proof (induction e p vs cr r s rule: up_volumes.induct)
  case (2 e p n d rest cr r s)
  have one: "case x of Inl r' \<Rightarrow> starts r' = starts r | Inr (cr', r') \<Rightarrow> starts r' = starts r"
    if "up_volume e p n d cr r s = (x, s1)" for x s1
    using that
    by (auto simp: up_volume_def Let_def split: prod.splits option.splits sum.splits if_splits
        dest!: starts_abort starts_done)
  show ?case
  proof (cases "vol_external d")
    case True
    then show ?thesis using 2(1) [OF True] 2(3) by simp
  next
    case False
    obtain x s1 where 1: "up_volume e p n d cr r s = (x, s1)" by fastforce
    show ?thesis
      using 2(2) [OF False 1 [symmetric]] 2(3) False one [OF 1]
      by (auto simp: 1 split: sum.splits prod.splits)
  qed
qed auto

lemma starts_image: "up_image e p svc r s = (Inr r', s') \<Longrightarrow> starts r' = starts r"
  by (auto simp: up_image_def Let_def split: prod.splits option.splits sum.splits if_splits
      dest!: starts_done)

lemma starts_container:
  "up_container e p svc cr r s = (res, s') \<Longrightarrow>
     (case res of Inl r' \<Rightarrow> starts r' = starts r | Inr (cr', r') \<Rightarrow> starts r' = starts r @ [svc_name svc])"
  by (auto simp: up_container_def Let_def starts_add starts_error
      split: prod.splits option.splits sum.splits dest!: starts_abort starts_done starts_finish)

lemma starts_service:
  assumes "up_service e p svc cr r s = (res, s')"
  shows "case res of Inl r' \<Rightarrow> starts r' = starts r
    | Inr (cr', r') \<Rightarrow> starts r' = starts r @ with_image p [svc]"
proof -
  have 1: "starts r1 = starts r" if "up_image e p svc r s = (Inr r1, s1)" for r1 s1
    using that by (rule starts_image)
  show ?thesis
    using assms
    by (auto simp: up_service_def Let_def with_image_def starts_add
        split: if_splits prod.splits sum.splits
        dest!: starts_abort starts_finish 1 starts_container)
qed

text \<open>Started is a prefix of the plan; all of it when no service failed.\<close>

lemma starts_services:
  "up_services e p svcs cr r s = (res, s') \<Longrightarrow>
     (case res of
        Inl r' \<Rightarrow> \<exists>ys zs. svcs = ys @ zs \<and> zs \<noteq> [] \<and> starts r' = starts r @ with_image p ys
      | Inr (cr', r') \<Rightarrow> starts r' = starts r @ with_image p svcs)"
proof (induction e p svcs cr r s rule: up_services.induct)
  case (1 e p cr r s)
  then show ?case by (auto simp: with_image_def)
next
  case (2 e p svc rest cr r s)
  obtain x s1 where 1: "up_service e p svc cr r s = (x, s1)" by fastforce
  note one = starts_service [OF 1]
  show ?case
  proof (cases x)
    case (Inl r')
    then have "res = Inl r'" using 2(2) 1 by simp
    moreover have "\<exists>ys zs. svc # rest = ys @ zs \<and> zs \<noteq> [] \<and> starts r' = starts r @ with_image p ys"
      using one Inl by (intro exI [of _ "[]"] exI [of _ "svc # rest"]) (simp add: with_image_def)
    ultimately show ?thesis by simp
  next
    case (Inr y)
    obtain cr1 r1 where y: "y = (cr1, r1)" by fastforce
    have run: "up_services e p rest cr1 r1 s1 = (res, s')" using 2(2) 1 Inr y by simp
    have cons: "with_image p (svc # ys) = with_image p [svc] @ with_image p ys" for ys
      by (simp add: with_image_def)
    have r1: "starts r1 = starts r @ with_image p [svc]" using one Inr y by simp
    note ih = 2(1) [OF 1 [symmetric] Inr [unfolded y] refl run]
    show ?thesis
    proof (cases res)
      case (Inl r')
      then obtain ys zs where "rest = ys @ zs" "zs \<noteq> []" "starts r' = starts r1 @ with_image p ys"
        using ih by auto
      then have "\<exists>ys zs. svc # rest = ys @ zs \<and> zs \<noteq> [] \<and> starts r' = starts r @ with_image p ys"
        using r1 cons [of ys] by (intro exI [of _ "svc # ys"] exI [of _ zs]) simp
      then show ?thesis using Inl by simp
    next
      case (Inr z)
      then show ?thesis using ih r1 cons [of rest] by (auto split: prod.splits)
    qed
  qed
qed

lemma Up_starts:
  assumes "Up e p services s = (Inr r, s')"
  shows "\<exists>ys zs. topologicalSort (range_order e) (filterServices p services) = ys @ zs \<and>
    starts r = with_image p ys \<and> (res_status r = OpStatusSucceeded \<longrightarrow> zs = [])"
proof -
  let ?target = "filterServices p services"
  let ?plan = "topologicalSort (range_order e) ?target"
  let ?cr = "\<lparr>cr_containers = [], cr_volumes = [], cr_networks = []\<rparr>"
  have none: "\<exists>ys zs. ?plan = ys @ zs \<and> [] = with_image p ys \<and> (X \<longrightarrow> zs = [])" if "\<not> X" for X
    using that by (intro exI [of _ "[]"] exI [of _ ?plan]) (simp add: with_image_def)
  have st: "res_status r1 \<noteq> OpStatusSucceeded" if "phase_ok s0 (Inl r1, s1)"
    for s0 s1 :: "'a dstate" and r1
    using that by (auto simp: rolled_back_def failed_result_def cancelled_def cancelled_result_def)
  obtain r1 s1 where 1: "start_result e s = (r1, s1)" by fastforce
  have r1: "starts r1 = []" "in_progress r1"
    using start_result_progress [OF 1] 1 by (auto simp: start_result_def starts_def split: prod.splits)
  obtain cf s2 where 2: "checkPortConflicts e ?target s1 = (cf, s2)" by fastforce
  have c2: "covered s2 ?cr s2" by (simp add: covered_def)
  obtain o3 s3 where 3: "up_networks e p (pr_networks p) ?cr r1 s2 = (o3, s3)" by fastforce
  note n3 = starts_networks [OF 3] and ok3 = up_networks_ok [OF c2 r1(2), of e p "pr_networks p", unfolded 3]
  note eqs = Up_def Let_def 1 2 3
  have cf: "cf = None" using assms by (cases cf) (simp_all add: eqs)
  show ?thesis
  proof (cases o3)
    case (Inl r3)
    then have "r = r3" using assms by (simp add: eqs cf)
    then show ?thesis using n3 Inl r1 st [of s2 r3 s3] ok3 none by simp
  next
    case (Inr x)
    then obtain cr3 r3 where x: "o3 = Inr (cr3, r3)" by (cases x) simp
    with ok3 have c3: "covered s2 cr3 s3" "in_progress r3" by simp_all
    obtain o4 s4 where 4: "up_volumes e p (pr_volumes p) cr3 r3 s3 = (o4, s4)" by fastforce
    note n4 = starts_volumes [OF 4] and ok4 = up_volumes_ok [OF c3, of e p "pr_volumes p", unfolded 4]
    have s3: "starts r3 = []" using n3 x r1 by simp
    show ?thesis
    proof (cases o4)
      case (Inl r4)
      then have "r = r4" using assms by (simp add: eqs cf x 4)
      then show ?thesis using n4 Inl s3 st [of s2 r4 s4] ok4 none by simp
    next
      case (Inr y)
      then obtain cr4 r4 where y: "o4 = Inr (cr4, r4)" by (cases y) simp
      with ok4 have c4: "covered s2 cr4 s4" "in_progress r4" by simp_all
      obtain o5 s5 where 5: "up_services e p ?plan cr4 r4 s4 = (o5, s5)" by fastforce
      note n5 = starts_services [OF 5] and ok5 = up_services_ok [OF c4, of e p ?plan, unfolded 5]
      have s4: "starts r4 = []" using n4 y s3 by simp
      show ?thesis
      proof (cases o5)
        case (Inl r5)
        then have "r = r5" using assms by (simp add: eqs cf x 4 y 5)
        then show ?thesis using n5 Inl s4 st [of s2 r5 s5] ok5 by auto
      next
        case (Inr z)
        then obtain cr5 r5 where z: "o5 = Inr (cr5, r5)" by (cases z) simp
        obtain r6 s6 where 6: "finish e OpStatusSucceeded r5 s5 = (r6, s6)" by fastforce
        have "r = r6" using assms by (simp add: eqs cf x 4 y 5 z 6)
        then show ?thesis using n5 z s4 starts_finish [OF 6]
          by (intro exI [of _ ?plan] exI [of _ "[]"]) simp
      qed
    qed
  qed
qed

section \<open>The loops of Stop, Start, Restart and Down\<close>

text \<open>
  What a step of a result records of the container it is about; the durations are the clock's. A
  call's step is failed with the call's error, or succeeded.
\<close>

type_synonym step_view = "string \<times> string \<times> OpStatus \<times> string"

definition views :: "OperationResult \<Rightarrow> step_view list" where
  "views r = map (\<lambda>st. (st_service st, st_action st, st_status st, st_error st)) (res_steps r)"

definition call_view :: "string \<Rightarrow> ContainerInfo \<Rightarrow> go_error option \<Rightarrow> step_view" where
  "call_view act c res =
     (case res of
        None \<Rightarrow> (ctr_service c, act, OpStatusSucceeded, [])
      | Some err \<Rightarrow> (ctr_service c, act, OpStatusFailed, error_string err))"

definition ok_view :: "string \<Rightarrow> ContainerInfo \<Rightarrow> step_view" where
  "ok_view act c = (ctr_service c, act, OpStatusSucceeded, [])"

lemma views_step_of:
  "step_of e (ctr_service c) act t0 res r s = (r', s') \<Longrightarrow> views r' = views r @ [call_view act c res]"
  by (auto simp: step_of_def views_def call_view_def add_step_def mk_step_def
      split: prod.splits option.splits)

lemma views_done:
  "step_done e (ctr_service c) act t0 r s = (r', s') \<Longrightarrow> views r' = views r @ [ok_view act c]"
  by (auto simp: step_done_def views_def ok_view_def add_step_def mk_step_def split: prod.splits)

lemma views_finish: "finish e st r s = (r', s') \<Longrightarrow> views r' = views r"
  using finish_fields(3) by (fastforce simp: views_def)

lemma views_start: "start_result e s = (r, s') \<Longrightarrow> views r = []"
  by (auto simp: start_result_def views_def split: prod.splits)

text \<open>The containers the loops act on.\<close>

definition to_stop :: "string list \<Rightarrow> ContainerInfo list \<Rightarrow> ContainerInfo list" where
  "to_stop services cs = filter (\<lambda>c. \<not> skipped services c \<and> ci_state c = ''running'') cs"

definition to_start :: "string list \<Rightarrow> ContainerInfo list \<Rightarrow> ContainerInfo list" where
  "to_start services cs = filter (\<lambda>c. \<not> skipped services c \<and> ci_state c \<noteq> ''running'') cs"

definition selected :: "string list \<Rightarrow> ContainerInfo list \<Rightarrow> ContainerInfo list" where
  "selected services cs = filter (\<lambda>c. \<not> skipped services c) cs"

definition stop_call :: "ContainerInfo \<Rightarrow> go_error option \<Rightarrow> call_event" where
  "stop_call c res = (OpCtx, CallContainerStop (ci_id c) (10 * second) res)"

definition start_call :: "ContainerInfo \<Rightarrow> go_error option \<Rightarrow> call_event" where
  "start_call c res = (OpCtx, CallContainerStart (ci_id c) res)"

definition remove_call :: "ContainerInfo \<Rightarrow> go_error option \<Rightarrow> call_event" where
  "remove_call c res = (OpCtx, CallContainerRemove (ci_id c) True res)"

lemma stop_containers_run:
  "stop_containers e services cs r s = (r', s') \<Longrightarrow>
     \<exists>ress. length ress = length (to_stop services cs) \<and>
       ds_trace s' = ds_trace s @ map2 stop_call (to_stop services cs) ress \<and>
       views r' = views r @ map2 (call_view ''stop'') (to_stop services cs) ress"
proof (induction e services cs r s rule: stop_containers.induct)
  case (2 e services c cs r s)
  show ?case
  proof (cases "skipped services c \<or> ci_state c \<noteq> ''running''")
    case True
    then show ?thesis using 2(1) [OF True] 2(3) by (auto simp: to_stop_def)
  next
    case False
    obtain t0 s1 where 1: "time_now e s = (t0, s1)" by fastforce
    obtain x s2 where 2: "ContainerStop e OpCtx (ci_id c) (10 * second) s1 = (x, s2)" by fastforce
    obtain r3 s3 where 3: "step_of e (ctr_service c) ''stop'' t0 x r s2 = (r3, s3)" by fastforce
    have run: "stop_containers e services cs r3 s3 = (r', s')"
      using "2.prems" False 1 2 3 by (simp add: Let_def)
    obtain ress where ih: "length ress = length (to_stop services cs)"
      "ds_trace s' = ds_trace s3 @ map2 stop_call (to_stop services cs) ress"
      "views r' = views r3 @ map2 (call_view ''stop'') (to_stop services cs) ress"
      using "2.IH"(2) [OF False 1 [symmetric] refl 2 [symmetric] refl 3 [symmetric] refl run] by blast
    have "ds_trace s3 = ds_trace s @ [stop_call c x]"
      using 1 call_trace(3) [OF 2] step_trace(3) [OF 3] by (simp add: stop_call_def)
    then show ?thesis
      using ih views_step_of [OF 3] False
      by (intro exI [of _ "x # ress"]) (simp add: to_stop_def)
  qed
qed (simp add: to_stop_def)

lemma start_containers_run:
  "start_containers e services cs r s = (r', s') \<Longrightarrow>
     \<exists>ress. length ress = length (to_start services cs) \<and>
       ds_trace s' = ds_trace s @ map2 start_call (to_start services cs) ress \<and>
       views r' = views r @ map2 (call_view ''start'') (to_start services cs) ress"
proof (induction e services cs r s rule: start_containers.induct)
  case (2 e services c cs r s)
  show ?case
  proof (cases "skipped services c \<or> ci_state c = ''running''")
    case True
    then show ?thesis using 2(1) [OF True] 2(3) by (auto simp: to_start_def)
  next
    case False
    obtain t0 s1 where 1: "time_now e s = (t0, s1)" by fastforce
    obtain x s2 where 2: "ContainerStart e OpCtx (ci_id c) s1 = (x, s2)" by fastforce
    obtain r3 s3 where 3: "step_of e (ctr_service c) ''start'' t0 x r s2 = (r3, s3)" by fastforce
    have run: "start_containers e services cs r3 s3 = (r', s')"
      using "2.prems" False 1 2 3 by (simp add: Let_def)
    obtain ress where ih: "length ress = length (to_start services cs)"
      "ds_trace s' = ds_trace s3 @ map2 start_call (to_start services cs) ress"
      "views r' = views r3 @ map2 (call_view ''start'') (to_start services cs) ress"
      using "2.IH"(2) [OF False 1 [symmetric] refl 2 [symmetric] refl 3 [symmetric] refl run] by blast
    have "ds_trace s3 = ds_trace s @ [start_call c x]"
      using 1 call_trace(2) [OF 2] step_trace(3) [OF 3] by (simp add: start_call_def)
    then show ?thesis
      using ih views_step_of [OF 3] False
      by (intro exI [of _ "x # ress"]) (simp add: to_start_def)
  qed
qed (simp add: to_start_def)

lemma stop_ignored_run:
  "stop_ignored e c r s = (r', s') \<Longrightarrow>
     (\<exists>x. ds_trace s' = ds_trace s @ [stop_call c x]) \<and> views r' = views r @ [ok_view ''stop'' c]"
  using step_trace(1) views_done
  by (fastforce simp: stop_ignored_def stop_call_def split: prod.splits dest!: call_trace(3))

text \<open>\<open>Restart\<close> and \<open>Down\<close> make two calls per container and ignore the error of the stop.\<close>

definition restart_calls :: "ContainerInfo \<Rightarrow> go_error option \<times> go_error option \<Rightarrow> call_event list" where
  "restart_calls c xy = [stop_call c (fst xy), start_call c (snd xy)]"

definition down_calls :: "ContainerInfo \<Rightarrow> go_error option \<times> go_error option \<Rightarrow> call_event list" where
  "down_calls c xy = [stop_call c (fst xy), remove_call c (snd xy)]"

definition pair_views :: "string \<Rightarrow> ContainerInfo \<Rightarrow> go_error option \<times> go_error option \<Rightarrow> step_view list" where
  "pair_views act c xy = [ok_view ''stop'' c, call_view act c (snd xy)]"

lemma restart_containers_run:
  "restart_containers e services cs r s = (r', s') \<Longrightarrow>
     \<exists>ress. length ress = length (selected services cs) \<and>
       ds_trace s' = ds_trace s @ concat (map2 restart_calls (selected services cs) ress) \<and>
       views r' = views r @ concat (map2 (pair_views ''start'') (selected services cs) ress)"
proof (induction e services cs r s rule: restart_containers.induct)
  case (2 e services c cs r s)
  show ?case
  proof (cases "skipped services c")
    case True
    then show ?thesis using 2(1) [OF True] 2(3) by (auto simp: selected_def)
  next
    case False
    obtain r0 s0 where 0: "stop_ignored e c r s = (r0, s0)" by fastforce
    obtain x where x: "ds_trace s0 = ds_trace s @ [stop_call c x]"
      and v0: "views r0 = views r @ [ok_view ''stop'' c]"
      using stop_ignored_run [OF 0] by blast
    obtain t0 s1 where 1: "time_now e s0 = (t0, s1)" by fastforce
    obtain y s2 where 2: "ContainerStart e OpCtx (ci_id c) s1 = (y, s2)" by fastforce
    obtain r3 s3 where 3: "step_of e (ctr_service c) ''start'' t0 y r0 s2 = (r3, s3)" by fastforce
    have run: "restart_containers e services cs r3 s3 = (r', s')"
      using "2.prems" False 0 1 2 3 by (simp add: Let_def)
    obtain ress where ih: "length ress = length (selected services cs)"
      "ds_trace s' = ds_trace s3 @ concat (map2 restart_calls (selected services cs) ress)"
      "views r' = views r3 @ concat (map2 (pair_views ''start'') (selected services cs) ress)"
      using "2.IH"(2) [OF False 0 [symmetric] refl 1 [symmetric] refl 2 [symmetric] refl
          3 [symmetric] refl run] by blast
    have "ds_trace s3 = ds_trace s @ restart_calls c (x, y)"
      using x 1 call_trace(2) [OF 2] step_trace(3) [OF 3] by (simp add: start_call_def restart_calls_def)
    then show ?thesis
      using ih v0 views_step_of [OF 3] False
      by (intro exI [of _ "(x, y) # ress"]) (simp add: selected_def pair_views_def)
  qed
qed (simp add: selected_def)

text \<open>
  The state after one container is stopped and removed, and whether the context was not yet done when
  each of a list of containers came up.
\<close>

definition take_down :: "'w env \<Rightarrow> ContainerInfo \<Rightarrow> 'w dstate \<Rightarrow> 'w dstate" where
  "take_down e c s =
     (let (_, s) = time_now e s; (_, s) = ContainerStop e OpCtx (ci_id c) (10 * second) s; (_, s) = time_now e s;
          (_, s) = time_now e s; (_, s) = ContainerRemove e OpCtx (ci_id c) True s; (_, s) = time_now e s
      in s)"

fun uncancelled :: "'w env \<Rightarrow> ContainerInfo list \<Rightarrow> 'w dstate \<Rightarrow> bool" where
  "uncancelled e [] s \<longleftrightarrow> True"
| "uncancelled e (c # cs) s \<longleftrightarrow> \<not> ctx_done e s \<and> uncancelled e cs (take_down e c s)"

text \<open>\<open>Down\<close> checks its context before each container, and stops there once it is cancelled.\<close>

lemma down_containers_run:
  "down_containers e services cs r s = (out, s') \<Longrightarrow>
     \<exists>done rest ress. selected services cs = done @ rest \<and> length ress = length done \<and>
       ds_trace s' = ds_trace s @ concat (map2 down_calls done ress) \<and> uncancelled e done s \<and>
       (case out of
          Inl r' \<Rightarrow> ctx_done e (fold (take_down e) done s) \<and> rest \<noteq> [] \<and> res_status r' = OpStatusCancelled \<and>
            views r' = views r @ concat (map2 (pair_views ''remove'') done ress)
        | Inr r' \<Rightarrow> rest = [] \<and> views r' = views r @ concat (map2 (pair_views ''remove'') done ress))"
proof (induction e services cs r s rule: down_containers.induct)
  case (1 e services r s)
  then show ?case by (auto simp: selected_def)
next
  case (2 e services c cs r s)
  consider "skipped services c" | "\<not> skipped services c" "ctx_done e s"
    | "\<not> skipped services c" "\<not> ctx_done e s" by blast
  then show ?case
  proof cases
    case 1
    then show ?thesis using 2(1) [OF 1] 2(3) by (simp add: selected_def)
  next
    case A: 2
    obtain r1 s1 where 1: "finish e OpStatusCancelled r s = (r1, s1)" by fastforce
    have "out = Inl r1" "s' = s1" using "2.prems" A 1 by (simp_all add: Let_def)
    then show ?thesis
      using A finish_fields(1) [OF 1] views_finish [OF 1] step_trace(2) [OF 1]
      by (intro exI [of _ "[]"] exI [of _ "c # selected services cs"]) (simp add: selected_def)
  next
    case A: 3
    obtain r0 s0 where 0: "stop_ignored e c r s = (r0, s0)" by fastforce
    obtain x where x: "ds_trace s0 = ds_trace s @ [stop_call c x]"
      and v0: "views r0 = views r @ [ok_view ''stop'' c]"
      using stop_ignored_run [OF 0] by blast
    obtain t0 s1 where 1: "time_now e s0 = (t0, s1)" by fastforce
    obtain y s2 where 2: "ContainerRemove e OpCtx (ci_id c) True s1 = (y, s2)" by fastforce
    obtain r3 s3 where 3: "step_of e (ctr_service c) ''remove'' t0 y r0 s2 = (r3, s3)" by fastforce
    have run: "down_containers e services cs r3 s3 = (out, s')"
      using "2.prems" A 0 1 2 3 by (simp add: Let_def)
    have tr: "ds_trace s3 = ds_trace s @ down_calls c (x, y)"
      using x 1 call_trace(4) [OF 2] step_trace(3) [OF 3] by (simp add: remove_call_def down_calls_def)
    have vw: "views r3 = views r @ pair_views ''remove'' c (x, y)"
      using v0 views_step_of [OF 3] by (simp add: pair_views_def)
    obtain dn rest ress where ih: "selected services cs = dn @ rest" "length ress = length dn"
      "ds_trace s' = ds_trace s3 @ concat (map2 down_calls dn ress)" "uncancelled e dn s3"
      "case out of
          Inl r' \<Rightarrow> ctx_done e (fold (take_down e) dn s3) \<and> rest \<noteq> [] \<and> res_status r' = OpStatusCancelled \<and>
            views r' = views r3 @ concat (map2 (pair_views ''remove'') dn ress)
        | Inr r' \<Rightarrow> rest = [] \<and> views r' = views r3 @ concat (map2 (pair_views ''remove'') dn ress)"
      using "2.IH"(2) [OF A 0 [symmetric] refl 1 [symmetric] refl 2 [symmetric] refl
          3 [symmetric] refl run] by blast
    have "selected services (c # cs) = (c # dn) @ rest" using ih(1) A by (simp add: selected_def)
    moreover have "take_down e c s = s3"
      using 0 1 2 3 by (auto simp: take_down_def stop_ignored_def step_done_def step_of_def split: prod.splits)
    ultimately show ?thesis
      using ih(2-) tr vw A
      by (intro exI [of _ "c # dn"] exI [of _ rest] exI [of _ "(x, y) # ress"])
        (auto split: sum.splits)
  qed
qed

end
