(* ===== verification/Demo.thy ===== *)
theory Demo
  imports Operations
begin

text \<open>
  A small daemon and a small project, concrete inputs for the theorems about the operations.

  The world of the daemon is the number of calls it has answered. It creates what it is asked for,
  names a container or network after that number, refuses to start the containers of a given list,
  and reports the containers of another list.
\<close>

definition demo_env :: "string list \<Rightarrow> ContainerInfo list \<Rightarrow> nat env" where
  "demo_env bad ctrs =
     \<lparr>cl_ContainerCreate = (\<lambda>c cfg w. (Inr (CHR ''c'' # nat_digits w), Suc w)),
      cl_ContainerStart = (\<lambda>c i w. (if i \<in> set bad then Some (PlainError ''refused'') else None, Suc w)),
      cl_ContainerStop = (\<lambda>c i tmo w. (None, Suc w)),
      cl_ContainerRemove = (\<lambda>c i f w. (None, Suc w)),
      cl_ContainerList = (\<lambda>c fs w. (Inr ctrs, Suc w)),
      cl_NetworkCreate = (\<lambda>c n opts w. (Inr (CHR ''n'' # nat_digits w), Suc w)),
      cl_NetworkRemove = (\<lambda>c i w. (None, Suc w)),
      cl_NetworkList = (\<lambda>c w. (Inr [], Suc w)),
      cl_VolumeCreate = (\<lambda>c n opts w. (None, Suc w)),
      cl_VolumeRemove = (\<lambda>c n f w. (None, Suc w)),
      cl_VolumeList = (\<lambda>c w. (Inr [], Suc w)),
      cl_ImagePull = (\<lambda>c ref w. (None, Suc w)),
      cl_ImageBuild = (\<lambda>c opts w. (None, Suc w)),
      cl_ImageExists = (\<lambda>c ref w. (Inr True, Suc w)),
      net_Listen = (\<lambda>addr w. (None, Suc w)),
      env_now = (\<lambda>w. (int w, w)),
      ctx_err = (\<lambda>w. False),
      range_order = (\<lambda>ks. ks)\<rparr>"

definition demo_service :: "string \<Rightarrow> string list \<Rightarrow> Service" where
  "demo_service n deps =
     \<lparr>svc_name = n, svc_image = n @ '':1'', svc_build = None, svc_ports = [], svc_environment = [],
      svc_labels = [], svc_depends = map (\<lambda>d. (d, ''service_started'')) deps, svc_profiles = [],
      svc_volumes = [], svc_networks = [''back''], svc_restart = [], svc_command = [],
      svc_entrypoint = [], svc_containerid = [], svc_state = [], svc_health = []\<rparr>"

definition demo_project :: Project where
  "demo_project =
     \<lparr>pr_id = ''p1'', pr_name = ''shop'', pr_path = ''/srv/shop'', pr_composefiles = [], pr_envfiles = [],
      pr_services = [demo_service ''web'' [''db''], demo_service ''db'' []],
      pr_networks = [(''back'', \<lparr>net_name = [], net_driver = [], net_external = False, net_labels = []\<rparr>)],
      pr_volumes = [(''data'', \<lparr>vol_name = [], vol_driver = [], vol_external = False, vol_labels = []\<rparr>)],
      pr_profiles = [], pr_status = ProjectStatusUnknown, pr_lastop = None, pr_discovered = 0,
      pr_updated = 0\<rparr>"

definition demo_state :: "nat dstate" where
  "demo_state = \<lparr>ds_world = 0, ds_trace = []\<rparr>"

definition demo_container :: "string \<Rightarrow> string \<Rightarrow> string \<Rightarrow> ContainerInfo" where
  "demo_container i svc st =
     \<lparr>ci_id = i, ci_name = svc, ci_image = [], ci_state = st, ci_status = [],
      ci_labels = [(label_service, svc)], ci_ports = [], ci_created = 0\<rparr>"

lemmas demo_defs = demo_env_def demo_service_def demo_project_def demo_state_def demo_container_def

section \<open>Up on the small project\<close>

text \<open>
  The states \<open>Up\<close> passes through when everything succeeds, and the last one when the daemon refuses
  to start the container of \<open>web\<close>.
\<close>

definition demo_ok :: "string \<Rightarrow> string \<Rightarrow> duration \<Rightarrow> OpStep" where
  "demo_ok svc act d = mk_step svc act OpStatusSucceeded [] d"

definition demo_result :: "OpStep list \<Rightarrow> OperationResult" where
  "demo_result sts =
     \<lparr>res_request = [], res_status = OpStatusRunning, res_started = Some 0, res_finished = None,
      res_error = None, res_steps = sts\<rparr>"

definition demo_created :: "string list \<Rightarrow> created" where
  "demo_created cs = \<lparr>cr_containers = cs, cr_volumes = [''shop_data''], cr_networks = [''n1'']\<rparr>"

definition demo_trace0 :: "call_event list" where
  "demo_trace0 =
     [(OpCtx, CallNetworkList (Inr [])),
      (OpCtx, CallNetworkCreate ''shop_back''
        (network_opts demo_project ''back'' (snd (hd (pr_networks demo_project)))) (Inr ''n1'')),
      (OpCtx, CallVolumeList (Inr [])),
      (OpCtx, CallVolumeCreate ''shop_data''
        (volume_opts demo_project ''data'' (snd (hd (pr_volumes demo_project)))) None)]"

definition demo_events :: "Service \<Rightarrow> string \<Rightarrow> go_error option \<Rightarrow> call_event list" where
  "demo_events svc i res =
     [(OpCtx, CallImageExists (svc_image svc) (Inr True)),
      (OpCtx, CallContainerCreate (container_config demo_project svc) (Inr i)),
      (OpCtx, CallContainerStart i res)]"

definition demo_steps0 :: "OpStep list" where
  "demo_steps0 = [demo_ok [] ''create_network:back'' 2, demo_ok [] ''create_volume:data'' 2]"

definition demo_steps :: "string \<Rightarrow> OpStep list" where
  "demo_steps svc = [demo_ok svc ''pull'' 1, demo_ok svc ''create'' 1, demo_ok svc ''start'' 1]"

abbreviation demo_good :: "nat env" where "demo_good \<equiv> demo_env [] []"
abbreviation demo_bad :: "nat env" where "demo_bad \<equiv> demo_env [''c8''] []"

definition demo_db :: Service where "demo_db = demo_service ''db'' []"
definition demo_web :: Service where "demo_web = demo_service ''web'' [''db'']"

lemma demo_order: "topologicalSort (range_order (demo_env bad cs)) (pr_services demo_project) = [demo_db, demo_web]"
proof -
  have "range_order (demo_env bad cs) = (\<lambda>ks. ks)" by (simp add: demo_env_def)
  moreover have "topologicalSort (\<lambda>ks. ks) (pr_services demo_project) = [demo_db, demo_web]" by code_simp
  ultimately show ?thesis by simp
qed

lemma demo_networks:
  "up_networks demo_good demo_project (pr_networks demo_project)
     \<lparr>cr_containers = [], cr_volumes = [], cr_networks = []\<rparr> (demo_result []) demo_state =
   (Inr (\<lparr>cr_containers = [], cr_volumes = [], cr_networks = [''n1'']\<rparr>, demo_result [hd demo_steps0]),
    \<lparr>ds_world = 2, ds_trace = take 2 demo_trace0\<rparr>)"
  "up_networks demo_bad demo_project (pr_networks demo_project)
     \<lparr>cr_containers = [], cr_volumes = [], cr_networks = []\<rparr> (demo_result []) demo_state =
   (Inr (\<lparr>cr_containers = [], cr_volumes = [], cr_networks = [''n1'']\<rparr>, demo_result [hd demo_steps0]),
    \<lparr>ds_world = 2, ds_trace = take 2 demo_trace0\<rparr>)"
  by code_simp+

lemma demo_volumes:
  "up_volumes demo_good demo_project (pr_volumes demo_project)
     \<lparr>cr_containers = [], cr_volumes = [], cr_networks = [''n1'']\<rparr> (demo_result [hd demo_steps0])
     \<lparr>ds_world = 2, ds_trace = take 2 demo_trace0\<rparr> =
   (Inr (demo_created [], demo_result demo_steps0), \<lparr>ds_world = 4, ds_trace = demo_trace0\<rparr>)"
  "up_volumes demo_bad demo_project (pr_volumes demo_project)
     \<lparr>cr_containers = [], cr_volumes = [], cr_networks = [''n1'']\<rparr> (demo_result [hd demo_steps0])
     \<lparr>ds_world = 2, ds_trace = take 2 demo_trace0\<rparr> =
   (Inr (demo_created [], demo_result demo_steps0), \<lparr>ds_world = 4, ds_trace = demo_trace0\<rparr>)"
  by code_simp+

lemma demo_service_db:
  "up_service demo_good demo_project demo_db (demo_created []) (demo_result demo_steps0)
     \<lparr>ds_world = 4, ds_trace = demo_trace0\<rparr> =
   (Inr (demo_created [''c5''], demo_result (demo_steps0 @ demo_steps ''db'')),
    \<lparr>ds_world = 7, ds_trace = demo_trace0 @ demo_events demo_db ''c5'' None\<rparr>)"
  "up_service demo_bad demo_project demo_db (demo_created []) (demo_result demo_steps0)
     \<lparr>ds_world = 4, ds_trace = demo_trace0\<rparr> =
   (Inr (demo_created [''c5''], demo_result (demo_steps0 @ demo_steps ''db'')),
    \<lparr>ds_world = 7, ds_trace = demo_trace0 @ demo_events demo_db ''c5'' None\<rparr>)"
  by code_simp+

lemma demo_service_web:
  "up_service demo_good demo_project demo_web (demo_created [''c5''])
     (demo_result (demo_steps0 @ demo_steps ''db''))
     \<lparr>ds_world = 7, ds_trace = demo_trace0 @ demo_events demo_db ''c5'' None\<rparr> =
   (Inr (demo_created [''c5'', ''c8''], demo_result (demo_steps0 @ demo_steps ''db'' @ demo_steps ''web'')),
    \<lparr>ds_world = 10, ds_trace = demo_trace0 @ demo_events demo_db ''c5'' None @ demo_events demo_web ''c8'' None\<rparr>)"
  by code_simp

text \<open>The refusal: the new container is removed, then \<open>db\<close>, the volume and the network.\<close>

definition demo_undo :: "call_event list" where
  "demo_undo =
     [(Background, CallContainerRemove ''c8'' True None),
      (Background, CallContainerStop ''c5'' (5 * second) None),
      (Background, CallContainerRemove ''c5'' True None),
      (Background, CallVolumeRemove ''shop_data'' True None),
      (Background, CallNetworkRemove ''n1'' None)]"

definition demo_failed :: OperationResult where
  "demo_failed =
     (demo_result (demo_steps0 @ demo_steps ''db'' @ take 2 (demo_steps ''web'') @
        [mk_step ''web'' ''start'' OpStatusFailed ''refused'' 1]))
     \<lparr>res_status := OpStatusRolledBack, res_finished := Some 15,
      res_error := Some \<lparr>oe_code = ErrContainerFailed, oe_message = ''refused''\<rparr>\<rparr>"

lemma demo_service_refused:
  "up_service demo_bad demo_project demo_web (demo_created [''c5''])
     (demo_result (demo_steps0 @ demo_steps ''db''))
     \<lparr>ds_world = 7, ds_trace = demo_trace0 @ demo_events demo_db ''c5'' None\<rparr> =
   (Inl demo_failed,
    \<lparr>ds_world = 15, ds_trace = demo_trace0 @ demo_events demo_db ''c5'' None @
       demo_events demo_web ''c8'' (Some (PlainError ''refused'')) @ demo_undo\<rparr>)"
  by code_simp

lemma demo_ports: "wanted_ports (pr_services demo_project) = []"
  by (simp add: demo_defs wanted_ports_def)

lemma demo_start: "start_result (demo_env bad cs) demo_state = (demo_result [], demo_state)"
  by (simp add: start_result_def time_now_def demo_env_def demo_state_def demo_result_def)

lemma demo_Up:
  "Up demo_good demo_project [] demo_state =
   (Inr ((demo_result (demo_steps0 @ demo_steps ''db'' @ demo_steps ''web''))
      \<lparr>res_status := OpStatusSucceeded, res_finished := Some 10\<rparr>),
    \<lparr>ds_world = 10, ds_trace = demo_trace0 @ demo_events demo_db ''c5'' None @ demo_events demo_web ''c8'' None\<rparr>)"
proof -
  have "finish demo_good OpStatusSucceeded r \<lparr>ds_world = 10, ds_trace = tr\<rparr> =
      (r\<lparr>res_status := OpStatusSucceeded, res_finished := Some 10\<rparr>, \<lparr>ds_world = 10, ds_trace = tr\<rparr>)" for r tr
    by (simp add: finish_def time_now_def demo_env_def)
  then show ?thesis
    by (simp add: Up_def filterServices_def demo_start checkPortConflicts_def demo_ports demo_networks
        demo_volumes demo_order demo_service_db demo_service_web)
qed

lemma demo_Up_refused:
  "Up demo_bad demo_project [] demo_state =
   (Inr demo_failed,
    \<lparr>ds_world = 15, ds_trace = demo_trace0 @ demo_events demo_db ''c5'' None @
       demo_events demo_web ''c8'' (Some (PlainError ''refused'')) @ demo_undo\<rparr>)"
  by (simp add: Up_def filterServices_def demo_start checkPortConflicts_def demo_ports demo_networks
      demo_volumes demo_order demo_service_db demo_service_refused)

end
