(* ===== verification/OpsProps.thy ===== *)
theory OpsProps
  imports OpsTrace Demo
begin

text \<open>
  The properties of the compose operations: what \<open>Up\<close> leaves behind on every outcome, which calls it
  makes, the order in which it starts services, and the exact calls and steps of the other operations.
\<close>

section \<open>Up\<close>

lemma Up_error_reads:
  assumes "Up e p services s = (Inl err, s')"
  shows "only reads s s'"
proof -
  obtain r1 s1 where 1: "start_result e s = (r1, s1)" by fastforce
  obtain cf s2 where 2: "checkPortConflicts e (filterServices p services) s1 = (cf, s2)" by fastforce
  have "s' = s2" using assms by (auto simp: Up_def 1 2 Let_def split: option.splits sum.splits prod.splits)
  moreover have "only reads s s1" using 1 by (rule only_step)
  moreover have "only reads s1 s2" by (rule only_checks(1) [OF _ 2]) auto
  ultimately show ?thesis using only_trans by blast
qed

text \<open>What \<open>Up\<close> returns, and what it leaves behind.\<close>

definition up_outcome :: "'w dstate \<Rightarrow> (go_error + OperationResult) \<times> 'w dstate \<Rightarrow> bool" where
  "up_outcome s0 out \<longleftrightarrow>
     (case out of
        (Inl err, s) \<Rightarrow> only reads s0 s
      | (Inr r, s) \<Rightarrow>
          failed_result r \<and> nothing_left s0 s \<or>
          cancelled_result r \<and> no_container_left s0 s \<or>
          succeeded_result r)"

text \<open>
  C1: \<open>Up\<close> accounts for what it creates, whatever the daemon answers. It returns an error only when
  it has made no call that changes anything. A rolled-back result has an error and ends with the one
  failed step, and every container, network and volume the daemon then still holds (created, and not
  removed with success since) it held before the call, or \<open>Up\<close> asked for its removal after it was
  made and the daemon refused. After a cancelled result the same is true of the containers; its networks
  and volumes stay. Otherwise it succeeded, every step included.
\<close>

theorem Up_accounts_for_resources: "up_outcome s (Up e p services s)"
proof -
  obtain out s' where run: "Up e p services s = (out, s')" by fastforce
  obtain tr where tr: "ds_trace s' = ds_trace s @ tr"
    using Up_events [OF run] by (auto simp: only_def)
  note up = Up_tried [of s e p services, unfolded run]
  show ?thesis
  proof (cases out)
    case (Inl err)
    then show ?thesis using Up_error_reads run by (simp add: up_outcome_def)
  next
    case (Inr r)
    then show ?thesis using up rolled_back_left [OF _ tr] cancelled_left [OF _ tr]
      by (auto simp: up_outcome_def run)
  qed
qed

text \<open>
  C15: The calls \<open>Up\<close> may make. It creates, pulls and starts with the operation's context, it stops
  and removes only with the background context, so a cancelled or timed-out operation still cleans
  up, and every container it creates is configured from one of the target services with an image.
\<close>

theorem Up_calls: "only (up_event p (set (filterServices p services))) s (snd (Up e p services s))"
  by (rule Up_events [where out = "fst (Up e p services s)"]) simp

text \<open>
  The services are started in the order of the plan, each at most once and none out of turn: the
  start steps of the result are the services with an image of a prefix of the sorted plan, and of all
  of it when the result is succeeded.
\<close>

lemma Up_follows_plan:
  assumes "Up e p services s = (Inr r, s')"
  shows "\<exists>ys zs. topologicalSort (range_order e) (filterServices p services) = ys @ zs \<and>
    starts r = with_image p ys \<and> distinct (starts r) \<and>
    (res_status r = OpStatusSucceeded \<longrightarrow> zs = [])"
proof -
  obtain ys zs where yz: "topologicalSort (range_order e) (filterServices p services) = ys @ zs"
    "starts r = with_image p ys" "res_status r = OpStatusSucceeded \<longrightarrow> zs = []"
    using Up_starts [OF assms] by blast
  have "distinct (map svc_name ys)"
    using topologicalSort_distinct [of "range_order e" "filterServices p services"] yz(1) by simp
  then have "distinct (starts r)" unfolding yz(2) with_image_def by (rule distinct_map_filter)
  with yz show ?thesis by blast
qed

lemma Up_follows_plan_witness:
  "\<exists>r s'. Up demo_good demo_project [] demo_state = (Inr r, s') \<and> res_status r = OpStatusSucceeded \<and>
     (\<exists>ys zs. topologicalSort (range_order demo_good) (filterServices demo_project []) = ys @ zs \<and>
       starts r = with_image demo_project ys \<and> distinct (starts r) \<and>
       (res_status r = OpStatusSucceeded \<longrightarrow> zs = []))"
  using Up_follows_plan [OF demo_Up] demo_Up by auto

text \<open>Where a value comes from in a list that was filtered and mapped.\<close>

lemma map_filter_split:
  "map f (filter P ys) = xs @ n # rest \<Longrightarrow>
     \<exists>a v b. ys = a @ v # b \<and> P v \<and> f v = n \<and> map f (filter P a) = xs"
proof (induction ys arbitrary: xs)
  case (Cons y ys)
  show ?case
  proof (cases "P y")
    case False
    then obtain a v b where "ys = a @ v # b" "P v" "f v = n" "map f (filter P a) = xs"
      using Cons by auto
    then show ?thesis using False by (intro exI [of _ "y # a"] exI [of _ v] exI [of _ b]) simp
  next
    case True
    show ?thesis
    proof (cases xs)
      case Nil
      then show ?thesis using True Cons.prems by (intro exI [of _ "[]"]) auto
    next
      case (Cons x xs')
      then have "map f (filter P ys) = xs' @ n # rest" "f y = x" using True Cons.prems by simp_all
      then obtain a v b where "ys = a @ v # b" "P v" "f v = n" "map f (filter P a) = xs'"
        using Cons.IH by blast
      then show ?thesis using True Cons \<open>f y = x\<close>
        by (intro exI [of _ "y # a"] exI [of _ v] exI [of _ b]) simp
    qed
  qed
qed simp

text \<open>
  C10: Dependencies start first. When the names are distinct and the target services have no cyclic
  dependency, a started service's dependencies among the target, if they have an image, were all
  started before it, even in a run that later failed.
\<close>

theorem Up_dependencies_first:
  assumes up: "Up e p services s = (Inr r, s')"
    and dist: "distinct (map svc_name (filterServices p services))"
    and acyc: "acyclic (depends_on (filterServices p services))"
    and started: "starts r = xs @ n # rest"
    and svc: "svc \<in> set (filterServices p services)" "svc_name svc = n"
    and dep: "svc_name d \<in> fst ` set (svc_depends svc)" "d \<in> set (filterServices p services)"
      "image_name p d \<noteq> []"
  shows "svc_name d \<in> set xs"
proof -
  let ?T = "filterServices p services"
  obtain ys zs where plan: "topologicalSort (range_order e) ?T = ys @ zs" and st: "starts r = with_image p ys"
    using Up_starts [OF up] by blast
  obtain a v b where v: "ys = a @ v # b" "svc_name v = n"
    and xs: "map svc_name (filter (\<lambda>svc. image_name p svc \<noteq> []) a) = xs"
    using map_filter_split [OF trans [OF st [unfolded with_image_def, symmetric] started]] by blast
  have inj: "inj_on svc_name (set ?T)" using dist by (simp add: distinct_map)
  have sub: "set (a @ v # b) \<subseteq> set ?T"
    using topologicalSort_subset [of "range_order e" ?T] plan v(1) by auto
  have "v = svc" using inj sub v(2) svc by (auto dest: inj_onD)
  then have "svc_name d \<in> svc_name ` set a"
    using topologicalSort_deps_first [OF dist acyc, of "range_order e" a v "b @ zs" "svc_name d"]
      plan v(1) svc dep by simp
  then obtain d' where d': "d' \<in> set a" "svc_name d' = svc_name d" by auto
  then have "d' = d" using inj sub dep(2) by (auto dest: inj_onD)
  then show ?thesis using d' dep(3) xs by auto
qed

lemma Up_dependencies_first_witness:
  "\<exists>r s'. Up demo_good demo_project [] demo_state = (Inr r, s') \<and>
     starts r = [''db''] @ ''web'' # [] \<and> svc_name demo_db \<in> set [''db'']"
proof -
  let ?r = "(demo_result (demo_steps0 @ demo_steps ''db'' @ demo_steps ''web''))
      \<lparr>res_status := OpStatusSucceeded, res_finished := Some 10\<rparr>"
  have target: "filterServices demo_project [] = [demo_web, demo_db]"
    by (simp add: filterServices_def demo_project_def demo_web_def demo_db_def)
  have names: "svc_name demo_web = ''web''" "svc_name demo_db = ''db''"
    "fst ` set (svc_depends demo_web) = {''db''}" "svc_depends demo_db = []"
    "image_name demo_project demo_db \<noteq> []"
    by (simp_all add: demo_web_def demo_db_def demo_service_def image_name_def)
  have "depends_on (filterServices demo_project []) = {(''web'', ''db'')}"
    unfolding target depends_on_def using names by auto
  then have acyc: "acyclic (depends_on (filterServices demo_project []))"
    by (simp add: acyclic_insert) (simp add: acyclic_def)
  have st: "starts ?r = [''db''] @ ''web'' # []"
    by (simp add: starts_def demo_result_def demo_steps0_def demo_steps_def demo_ok_def mk_step_def)
  have "svc_name demo_db \<in> set [''db'']"
    by (rule Up_dependencies_first [OF demo_Up _ acyc st, of demo_web])
      (use names in \<open>simp_all add: target\<close>)
  then show ?thesis using demo_Up st by blast
qed

section \<open>Conflicts\<close>

lemma host_ports_error:
  "host_ports_free e ps s = (Some err, s') \<Longrightarrow> \<exists>m d. err = AppError ErrPortConflict m d 409 None"
proof (induction e ps s rule: host_ports_free.induct)
  case (2 e p ps s)
  show ?case
  proof (cases "pm_hostport p = []")
    case True
    then have "host_ports_free e ps s = (Some err, s')" using 2(3) by simp
    then show ?thesis by (rule 2(1) [OF True])
  next
    case False
    let ?addr = "join_host_port (if pm_hostip p = [] then ''0.0.0.0'' else pm_hostip p) (pm_hostport p)"
    obtain x s1 where 1: "Listen e ?addr s = (x, s1)" by fastforce
    show ?thesis
    proof (cases x)
      case None
      then have "host_ports_free e ps s1 = (Some err, s')" using 2(3) False 1 by (simp add: Let_def)
      then show ?thesis using 2(2) [OF False refl 1 [symmetric] refl] None by blast
    next
      case (Some e1)
      then show ?thesis using 2(3) False 1 by (auto simp: Let_def)
    qed
  qed
qed simp

lemma container_conflict_error:
  "container_conflict w cs = Some err \<Longrightarrow> \<exists>m d. err = AppError ErrPortConflict m d 409 None"
  by (auto simp: container_conflict_def split: option.splits)

lemma port_check_error:
  "checkPortConflicts e svcs s = (Some err, s') \<Longrightarrow> \<exists>m d. err = AppError ErrPortConflict m d 409 None"
  by (auto simp: checkPortConflicts_def split: if_splits prod.splits sum.splits option.splits
      dest: host_ports_error container_conflict_error)

text \<open>
  The only error \<open>Up\<close> returns is a port conflict with status 409, and then it has made no call
  that changes anything.
\<close>

lemma Up_error_is_port_conflict:
  assumes "Up e p services s = (Inl err, s')"
  shows "(\<exists>m d. err = AppError ErrPortConflict m d 409 None) \<and> only reads s s'"
proof -
  obtain r1 s1 where 1: "start_result e s = (r1, s1)" by fastforce
  obtain cf s2 where 2: "checkPortConflicts e (filterServices p services) s1 = (cf, s2)" by fastforce
  have "cf = Some err"
    using assms by (auto simp: Up_def 1 2 Let_def split: option.splits sum.splits prod.splits)
  then show ?thesis using port_check_error 2 Up_error_reads [OF assms] by blast
qed

text \<open>The small project with a published port that the host does not let it bind.\<close>

definition demo_port_project :: Project where
  "demo_port_project = demo_project\<lparr>pr_services := [demo_db\<lparr>svc_ports :=
     [\<lparr>pm_hostip = [], pm_hostport = ''80'', pm_containerport = ''80'', pm_protocol = ''tcp''\<rparr>]\<rparr>]\<rparr>"

definition demo_closed :: "nat env" where
  "demo_closed = demo_good\<lparr>net_Listen := (\<lambda>addr w. (Some (PlainError ''in use''), w))\<rparr>"

definition demo_port_error :: go_error where
  "demo_port_error =
     AppError ErrPortConflict ''port 80/tcp is occupied on host'' (PortConflictDetails 80 ''tcp'' []) 409 None"

lemma demo_port_check:
  "checkPortConflicts demo_closed (pr_services demo_port_project) demo_state =
     (Some demo_port_error,
      \<lparr>ds_world = 1, ds_trace =
         [(OpCtx, CallContainerList [(''status'', [''running''])] (Inr [])),
          (Background, CallListen ''0.0.0.0:80'' (Some (PlainError ''in use'')))]\<rparr>)"
  by code_simp

lemma Up_error_is_port_conflict_witness:
  "\<exists>s'. Up demo_closed demo_port_project [] demo_state = (Inl demo_port_error, s') \<and>
     (\<exists>m d. demo_port_error = AppError ErrPortConflict m d 409 None) \<and> only reads demo_state s'"
proof -
  obtain r where "start_result demo_closed demo_state = (r, demo_state)"
    by (simp add: start_result_def time_now_def demo_closed_def demo_env_def demo_state_def)
  then have "\<exists>s'. Up demo_closed demo_port_project [] demo_state = (Inl demo_port_error, s')"
    by (simp add: Up_def filterServices_def demo_port_check)
  then show ?thesis using Up_error_is_port_conflict by blast
qed

lemma wanted_ports_iff:
  "map_of (wanted_ports svcs) k \<noteq> None \<longleftrightarrow>
     (\<exists>svc \<in> set svcs. \<exists>q \<in> set (svc_ports svc). pm_hostport q \<noteq> [] \<and> k = pm_protocol q @ '':'' @ pm_hostport q)"
proof -
  have "map_of (foldl (\<lambda>m (k, n). AList.update k n m) acc xs) k \<noteq> None \<longleftrightarrow>
      k \<in> fst ` set xs \<or> map_of acc k \<noteq> None" for acc and xs :: "(string \<times> string) list"
    by (induction xs arbitrary: acc) (auto split: if_splits)
  from this [of "[]"] show ?thesis by (auto simp: wanted_ports_def image_iff)
qed

text \<open>
  The port check against running containers is exact: it reports a conflict if and only if some
  listed container publishes a host port that a target service wants for the same protocol.
\<close>

lemma container_conflict_exact:
  "container_conflict (wanted_ports svcs) ctrs \<noteq> None \<longleftrightarrow>
     (\<exists>c \<in> set ctrs. \<exists>b \<in> set (ci_ports c). \<exists>svc \<in> set svcs. \<exists>q \<in> set (svc_ports svc).
        pm_hostport q \<noteq> [] \<and> pb_protocol b @ '':'' @ pb_hostport b = pm_protocol q @ '':'' @ pm_hostport q)"
proof -
  let ?hit = "\<lambda>cp. map_of (wanted_ports svcs) (pb_protocol (snd cp) @ '':'' @ pb_hostport (snd cp)) \<noteq> None"
  let ?all = "concat (map (\<lambda>c. map (\<lambda>b. (c, b)) (ci_ports c)) ctrs)"
  have "container_conflict (wanted_ports svcs) ctrs \<noteq> None \<longleftrightarrow> find ?hit ?all \<noteq> None"
    by (simp add: container_conflict_def case_prod_unfold split: option.split)
  also have "\<dots> \<longleftrightarrow> (\<exists>cp \<in> set ?all. ?hit cp)" by (auto simp: find_None_iff)
  also have "\<dots> \<longleftrightarrow> (\<exists>c \<in> set ctrs. \<exists>b \<in> set (ci_ports c).
      map_of (wanted_ports svcs) (pb_protocol b @ '':'' @ pb_hostport b) \<noteq> None)"
    by (auto simp del: not_None_eq)
  finally show ?thesis unfolding wanted_ports_iff .
qed

section \<open>Stop, Start, Restart and Down\<close>

















section \<open>Names and labels\<close>

text \<open>
  Containers find what \<open>Up\<close> created: for a declared network that is not external, the name given
  to a container is the name the network was created under, and likewise for a named volume whose
  key is not a path.
\<close>

lemma names_agree:
  assumes "map_of (pr_networks p) n = Some d" "\<not> net_external d"
    and "map_of (pr_volumes p) (vm_source m) = Some v" "vm_type m = ''volume''"
    and "vm_source m \<noteq> []" "\<not> has_prefix (vm_source m) ''/''"
  shows "resolve_network p n = network_actual p n d \<and>
    mc_source (resolve_mount p m) = volume_actual p (vm_source m) v"
  using assms by (simp add: resolve_network_def network_actual_def resolve_mount_def volume_actual_def Let_def)

lemma names_agree_witness:
  "resolve_network demo_project ''back'' = network_actual demo_project ''back'' (snd (hd (pr_networks demo_project))) \<and>
   mc_source (resolve_mount demo_project
     \<lparr>vm_source = ''data'', vm_target = ''/data'', vm_type = ''volume'', vm_readonly = False\<rparr>) =
   volume_actual demo_project ''data'' (snd (hd (pr_volumes demo_project)))"
  using names_agree [of demo_project "''back''" "snd (hd (pr_networks demo_project))"
      "\<lparr>vm_source = ''data'', vm_target = ''/data'', vm_type = ''volume'', vm_readonly = False\<rparr>"
      "snd (hd (pr_volumes demo_project))"]
  by (simp add: demo_project_def has_prefix_iff)

text \<open>
  The label of a new container under any key: a label of the service wins over the three labels
  the program sets, including the project label by which the other operations find the container.
\<close>

lemma container_labels_lookup:
  "map_of (container_labels p svc) k =
     (case map_of (rev (svc_labels svc)) k of
        Some v \<Rightarrow> Some v
      | None \<Rightarrow> if k = label_service then Some (svc_name svc)
                else if k = label_project then Some (pr_id p)
                else if k = label_name then Some (pr_name p) else None)"
proof -
  have "label_project \<noteq> label_service" "label_name \<noteq> label_service" "label_name \<noteq> label_project"
    by (simp_all add: label_project_def label_service_def label_name_def)
  then show ?thesis
    by (simp add: container_labels_def map_of_copy_rev project_labels_def map_add_def
        split: option.split)
qed

section \<open>The status of a project\<close>

lemma foldl_last_service:
  "map_of (foldl (\<lambda>m c. AList.update (ctr_service c) c m) acc cs) n =
     (case find (\<lambda>c. ctr_service c = n) (rev cs) of Some c \<Rightarrow> Some c | None \<Rightarrow> map_of acc n)"
  by (induction cs arbitrary: acc rule: rev_induct) auto

text \<open>
  The status of a project is decided by its containers: running if there are some and all run,
  stopped if none runs, partial otherwise; it is unknown only when the listing fails. The container
  shown for a service is the last one listed with its label.
\<close>

lemma project_status_exact:
  "fst (status_of ctrs) =
     (if ctrs \<noteq> [] \<and> list_all is_running ctrs then ProjectStatusRunning
      else if list_ex is_running ctrs then ProjectStatusPartial else ProjectStatusStopped) \<and>
   map_of (snd (status_of ctrs)) n = find (\<lambda>c. ctr_service c = n) (rev ctrs)"
proof (cases "ctrs = []")
  case True
  then show ?thesis by (simp add: status_of_def)
next
  case False
  have all: "length (filter is_running ctrs) = length ctrs \<longleftrightarrow> list_all is_running ctrs"
    by (metis filter_id_conv length_filter_less list_all_iff nat_neq_iff)
  have none: "length (filter is_running ctrs) = 0 \<longleftrightarrow> \<not> list_ex is_running ctrs"
    by (auto simp: list_ex_iff filter_empty_conv)
  have "map_of (snd (status_of ctrs)) n = find (\<lambda>c. ctr_service c = n) (rev ctrs)"
    using False foldl_last_service [of "[]" ctrs n] by (simp add: status_of_def Let_def split: option.splits)
  moreover have "list_all is_running ctrs \<Longrightarrow> list_ex is_running ctrs"
    using False by (cases ctrs) simp_all
  ultimately show ?thesis using False by (auto simp: status_of_def Let_def all none [simplified])
qed

section \<open>The dependency order\<close>

text \<open>
  The sort is a permutation: whatever order the nodes are visited in and whatever the dependencies
  are, cyclic ones included, services with distinct names all come out, each once.
\<close>

lemma topologicalSort_permutation:
  assumes "distinct (map svc_name svcs)" and "\<And>ks. set (order ks) = set ks"
  shows "mset (topologicalSort order svcs) = mset svcs"
  using assms by (rule topologicalSort_mset)

lemma topologicalSort_permutation_witness:
  "mset (topologicalSort rev [demo_service ''a'' [''b''], demo_service ''b'' [''a'']]) =
     mset [demo_service ''a'' [''b''], demo_service ''b'' [''a'']]"
  by (rule topologicalSort_permutation) (simp_all add: demo_service_def)

section \<open>What a rollback removes and a cancellation leaves\<close>

text \<open>
  A volume of the project that was there before counts as created, because creating it again succeeds:
  when the container cannot be created, the rollback removes the volume, and what is in it.
\<close>

definition kept_volume :: VolumeInfo where
  "kept_volume = \<lparr>vi_name = ''shop_data'', vi_driver = ''local'', vi_labels = [(label_project, pr_id demo_project)]\<rparr>"

definition failing_create :: "nat env" where
  "failing_create = demo_good
     \<lparr>cl_VolumeList := (\<lambda>c w. (Inr [kept_volume], w)),
      cl_ContainerCreate := (\<lambda>c k w. (Inl (PlainError ''no space''), w))\<rparr>"

lemma kept_volume_removed:
  "list_ex (\<lambda>ev. ev = (Background, CallVolumeRemove ''shop_data'' True None))
     (ds_trace (snd (Up failing_create demo_project [] demo_state)))"
  by code_simp

text \<open>A cancelled \<open>Up\<close> leaves the network it has just created.\<close>

definition is_removal :: "call_event \<Rightarrow> bool" where
  "is_removal ev = (case snd ev of CallNetworkRemove i r \<Rightarrow> True | CallVolumeRemove n f r \<Rightarrow> True | _ \<Rightarrow> False)"

definition is_network :: "call_event \<Rightarrow> bool" where
  "is_network ev = (case snd ev of CallNetworkCreate n opts (Inr i) \<Rightarrow> True | _ \<Rightarrow> False)"

lemma cancelled_keeps_network:
  "let (out, s) = Up (demo_good\<lparr>ctx_err := (\<lambda>w. True)\<rparr>) demo_project [] demo_state in
   map_option res_status (case out of Inl err \<Rightarrow> None | Inr r \<Rightarrow> Some r) = Some OpStatusCancelled \<and>
   list_ex is_network (ds_trace s) \<and> \<not> list_ex is_removal (ds_trace s)"
  by code_simp

end
