(* ===== verification/Executor.thy ===== *)
theory Executor
  imports Locker Queue Operations
begin

text \<open>
  The executor of \<open>internal/orchestrator/executor.go\<close>: submission to the queue, the synchronous
  call, the workers, cancellation, the table of running operations and the bounded history.

  Each critical section of the code is a definition on the record \<open>Executor\<close>. \<open>Execute\<close>, \<open>run\<close> and
  \<open>executeQueued\<close> compose them for one goroutine; the relation \<open>xstep\<close> interleaves any number of
  goroutines, one section at a time. The project resolver and the audit logger are interfaces of
  the program whose implementations are outside this component: parameters.
\<close>

section \<open>State\<close>

record runningOp =
  ro_request :: OperationRequest
  ro_result :: "OperationResult option"

record OperationRecord =
  or_request :: OperationRequest
  or_result :: "OperationResult option"
  or_error :: string
  or_finished :: time

text \<open>A \<open>context.CancelFunc\<close> is the number of the context it cancels.\<close>

record Executor =
  ex_locker :: inMemoryLocker
  ex_queue :: PriorityQueue
  ex_running :: "(string, runningOp) gomap"
  ex_cancels :: "(string, nat) gomap"
  ex_history :: "OperationRecord list"
  ex_max :: nat

definition NewExecutor :: Executor where
  "NewExecutor =
     \<lparr>ex_locker = NewInMemoryLocker, ex_queue = NewPriorityQueue, ex_running = [], ex_cancels = [],
      ex_history = [], ex_max = 256\<rparr>"

section \<open>The sections\<close>

definition addHistory :: "OperationRecord \<Rightarrow> Executor \<Rightarrow> Executor" where
  "addHistory rec ex =
     (let h = (if ex_max ex \<le> length (ex_history ex) then tl (ex_history ex) else ex_history ex)
      in ex\<lparr>ex_history := h @ [rec]\<rparr>)"

text \<open>The defaults \<open>Submit\<close> and \<open>Execute\<close> fill in: identifier, timeout and creation time.\<close>

definition default_request :: "string \<Rightarrow> time \<Rightarrow> OperationRequest \<Rightarrow> OperationRequest" where
  "default_request uuid now req =
     (let req = (if req_id req = [] then req\<lparr>req_id := uuid\<rparr> else req);
          req = (if req_timeout req = 0 then req\<lparr>req_timeout := 5 * minute\<rparr> else req)
      in req\<lparr>req_created := now\<rparr>)"

text \<open>\<open>now'\<close> is the instant \<open>Enqueue\<close> would stamp a request with that has no creation time.\<close>

definition Submit ::
    "string \<Rightarrow> time \<Rightarrow> time \<Rightarrow> OperationRequest \<Rightarrow> Executor \<Rightarrow> string \<times> Executor" where
  "Submit uuid now now' req ex =
     (let req = default_request uuid now req
      in (req_id req, ex\<lparr>ex_queue := Enqueue now' (ex_queue ex) req\<rparr>))"

definition execute_guard :: "Executor \<Rightarrow> ProjectID \<Rightarrow> go_error option" where
  "execute_guard ex p =
     (case IsLocked (ex_locker ex) p of
        (True, holder) \<Rightarrow> Some (AppError ErrOperationInProgress
          (''project is locked by operation '' @ holder) (OperationIDDetails holder) 409 None)
      | (False, _) \<Rightarrow> None)"

text \<open>The two sections of \<open>run\<close> under \<open>e.mu\<close>.\<close>

definition register :: "OperationRequest \<Rightarrow> nat \<Rightarrow> Executor \<Rightarrow> Executor" where
  "register req ctx ex =
     ex\<lparr>ex_running := AList.update (req_id req) \<lparr>ro_request = req, ro_result = None\<rparr> (ex_running ex),
        ex_cancels := AList.update (req_id req) ctx (ex_cancels ex)\<rparr>"

definition unregister :: "OperationRequest \<Rightarrow> Executor \<Rightarrow> Executor" where
  "unregister req ex =
     ex\<lparr>ex_running := AList.delete (req_id req) (ex_running ex),
        ex_cancels := AList.delete (req_id req) (ex_cancels ex)\<rparr>"

definition executeOp ::
    "'w env \<Rightarrow> OperationRequest \<Rightarrow> Project \<Rightarrow> 'w dstate \<Rightarrow> (go_error + OperationResult) \<times> 'w dstate" where
  "executeOp e req p s =
     (let services = slice (sc_services (req_scope req)) in
      if req_type req = OpUp then Up e p services s
      else if req_type req = OpDown then Down e p services s
      else if req_type req = OpStart then Start e p services s
      else if req_type req = OpStop then Stop e p services s
      else if req_type req = OpRestart then Restart e p services s
      else (Inl (AppError ErrValidation (''unsupported operation type: '' @ req_type req)
              NilDetails 400 None), s))"

text \<open>\<open>int(duration.Milliseconds())\<close>, a division that truncates.\<close>

definition milliseconds :: "duration \<Rightarrow> int" where
  "milliseconds d = (if d < 0 then - ((- d) div 1000000) else d div 1000000)"

definition audit_entry ::
    "OperationRequest \<Rightarrow> duration \<Rightarrow> time \<Rightarrow> (go_error + OperationResult) \<Rightarrow> AuditEntry" where
  "audit_entry req d now out =
     (let a = \<lparr>au_user = req_user req, au_project = sc_project (req_scope req),
               au_operation = req_type req, au_scope = sc_services (req_scope req),
               au_status = [], au_errorcode = [], au_errormsg = [],
               au_duration = milliseconds d, au_created = now\<rparr>
      in case out of
           Inl err \<Rightarrow>
             (let a = a\<lparr>au_status := ''failed''\<rparr>
              in case err of
                   AppError c m dt st w \<Rightarrow> a\<lparr>au_errorcode := c, au_errormsg := m\<rparr>
                 | PlainError m \<Rightarrow> a\<lparr>au_errorcode := ErrInternal, au_errormsg := error_string err\<rparr>)
         | Inr r \<Rightarrow>
             (let a = a\<lparr>au_status := status_string (res_status r)\<rparr>
              in case res_error r of
                   Some oe \<Rightarrow> a\<lparr>au_errorcode := oe_code oe, au_errormsg := oe_message oe\<rparr>
                 | None \<Rightarrow> a))"

section \<open>One goroutine\<close>

record 'w xenv =
  xe_docker :: "'w env"
  xe_resolve :: "ProjectID \<Rightarrow> 'w \<Rightarrow> (go_error + Project) \<times> 'w"
  xe_audit :: "(AuditEntry \<Rightarrow> 'w \<Rightarrow> 'w) option"

text \<open>
  The body of \<open>run\<close> between registration and the history: resolve the project, execute, audit.
  The result carries the request's identifier.
\<close>

definition run_body ::
    "'w xenv \<Rightarrow> OperationRequest \<Rightarrow> 'w dstate \<Rightarrow> (go_error + OperationResult) \<times> 'w dstate" where
  "run_body xe req s =
     (let (got, w) = xe_resolve xe (sc_project (req_scope req)) (ds_world s); s = s\<lparr>ds_world := w\<rparr>
      in case got of
           Inl err \<Rightarrow> (Inl err, s)
         | Inr p \<Rightarrow>
             (let (t0, s) = time_now (xe_docker xe) s;
                  (out, s) = executeOp (xe_docker xe) req p s;
                  (t1, s) = time_now (xe_docker xe) s;
                  (t2, s) = time_now (xe_docker xe) s;
                  entry = audit_entry req (t1 - t0) t2 out;
                  s = (case xe_audit xe of
                         None \<Rightarrow> s | Some log \<Rightarrow> s\<lparr>ds_world := log entry (ds_world s)\<rparr>)
              in case out of
                   Inl err \<Rightarrow> (Inl err, s)
                 | Inr r \<Rightarrow> (Inr (r\<lparr>res_request := req_id req\<rparr>), s)))"

definition result_record :: "OperationRequest \<Rightarrow> time \<Rightarrow> OperationResult \<Rightarrow> OperationRecord" where
  "result_record req now r =
     \<lparr>or_request = req, or_result = Some r, or_error = [], or_finished = now\<rparr>"

text \<open>The record of a successful \<open>run\<close>, before its deferred functions.\<close>

definition run_history :: "OperationRequest \<Rightarrow> time \<Rightarrow> (go_error + OperationResult) \<Rightarrow> Executor \<Rightarrow> Executor" where
  "run_history req now out ex =
     (case out of Inl err \<Rightarrow> ex | Inr r \<Rightarrow> addHistory (result_record req now r) ex)"

text \<open>The record \<open>executeQueued\<close> adds for whatever \<open>run\<close> returned.\<close>

definition queued_record :: "OperationRequest \<Rightarrow> time \<Rightarrow> (go_error + OperationResult) \<Rightarrow> OperationRecord" where
  "queued_record req now out =
     \<lparr>or_request = req,
      or_result = (case out of Inl _ \<Rightarrow> None | Inr r \<Rightarrow> Some r),
      or_error = (case out of Inl err \<Rightarrow> error_string err | Inr _ \<Rightarrow> []),
      or_finished = now\<rparr>"

text \<open>
  \<open>run\<close> for a goroutine that is alone: \<open>None\<close> when \<open>Acquire\<close> would block. The deferred functions run
  in the reverse order of their \<open>defer\<close>: the tables, the lock, the context.
\<close>

definition run ::
    "'w xenv \<Rightarrow> nat \<Rightarrow> OperationRequest \<Rightarrow> Executor \<Rightarrow> 'w dstate \<Rightarrow>
     ((go_error + OperationResult) \<times> Executor \<times> 'w dstate) option" where
  "run xe ctx req ex s =
     (case acquire_section (ex_locker ex) (sc_project (req_scope req)) (req_id req) of
        (WaitFor c h, l) \<Rightarrow> None
      | (Acquired, l) \<Rightarrow>
          (let ex = register req ctx (ex\<lparr>ex_locker := l\<rparr>);
               (out, s) = run_body xe req s;
               (now, s) = (case out of Inl _ \<Rightarrow> (0, s) | Inr _ \<Rightarrow> time_now (xe_docker xe) s);
               ex = unregister req (run_history req now out ex)
           in map_option (\<lambda>l. (out, ex\<lparr>ex_locker := l\<rparr>, s))
                (release (ex_locker ex) (sc_project (req_scope req)))))"

definition Execute ::
    "'w xenv \<Rightarrow> string \<Rightarrow> time \<Rightarrow> nat \<Rightarrow> OperationRequest \<Rightarrow> Executor \<Rightarrow> 'w dstate \<Rightarrow>
     ((go_error + OperationResult) \<times> Executor \<times> 'w dstate) option" where
  "Execute xe uuid now ctx req ex s =
     (let req = default_request uuid now req
      in case execute_guard ex (sc_project (req_scope req)) of
           Some err \<Rightarrow> Some (Inl err, ex, s)
         | None \<Rightarrow> run xe ctx req ex s)"

definition executeQueued ::
    "'w xenv \<Rightarrow> nat \<Rightarrow> OperationRequest \<Rightarrow> Executor \<Rightarrow> 'w dstate \<Rightarrow> (Executor \<times> 'w dstate) option" where
  "executeQueued xe ctx req ex s =
     (case run xe ctx req ex s of
        None \<Rightarrow> None
      | Some (out, ex, s) \<Rightarrow>
          (let (now, s) = time_now (xe_docker xe) s
           in Some (addHistory (queued_record req now out) ex, s)))"

section \<open>Queries, cancellation and shutdown\<close>

definition cancelled_record :: "string \<Rightarrow> time \<Rightarrow> time \<Rightarrow> OperationRequest \<Rightarrow> OperationRecord" where
  "cancelled_record op t1 t2 req =
     \<lparr>or_request = req,
      or_result = Some \<lparr>res_request = op, res_status = OpStatusCancelled, res_started = None,
                        res_finished = Some t1, res_error = None, res_steps = []\<rparr>,
      or_error = [], or_finished = t2\<rparr>"

definition cancel_not_found :: go_error where
  "cancel_not_found =
     AppError ErrOperationNotFound ''operation not found or already completed'' NilDetails 404 None"

text \<open>
  \<open>Cancel\<close> without interference: the error it returns, the context whose cancel function it called,
  and the executor. A queued operation is removed and recorded as cancelled.
\<close>

definition Cancel ::
    "string \<Rightarrow> time \<Rightarrow> time \<Rightarrow> Executor \<Rightarrow> (go_error option \<times> nat option) \<times> Executor" where
  "Cancel op t1 t2 ex =
     (case map_of (ex_cancels ex) op of
        Some c \<Rightarrow> ((None, Some c), ex)
      | None \<Rightarrow>
          (case RemoveAndReturn (ex_queue ex) op of
             (Some req, q) \<Rightarrow>
               ((None, None), addHistory (cancelled_record op t1 t2 req) (ex\<lparr>ex_queue := q\<rparr>))
           | (None, q) \<Rightarrow> ((Some cancel_not_found, None), ex\<lparr>ex_queue := q\<rparr>)))"

definition GetRunningOps :: "Executor \<Rightarrow> OperationRequest list" where
  "GetRunningOps ex = map (ro_request \<circ> snd) (ex_running ex)"

text \<open>A running operation, else the newest record of the history. A nil result is \<open>None\<close>.\<close>

definition GetOperation :: "Executor \<Rightarrow> string \<Rightarrow> OperationRecord option" where
  "GetOperation ex op =
     (case map_of (ex_running ex) op of
        Some ro \<Rightarrow> Some \<lparr>or_request = ro_request ro,
          or_result = Some \<lparr>res_request = op, res_status = OpStatusRunning, res_started = None,
                            res_finished = None, res_error = None, res_steps = []\<rparr>,
          or_error = [], or_finished = 0\<rparr>
      | None \<Rightarrow> find (\<lambda>rec. req_id (or_request rec) = op) (rev (ex_history ex)))"

definition GetQueueLen :: "Executor \<Rightarrow> nat" where
  "GetQueueLen ex = queue_len (ex_queue ex)"

definition Close :: "Executor \<Rightarrow> Executor" where
  "Close ex = ex\<lparr>ex_queue := queue_close (ex_queue ex)\<rparr>"

section \<open>Any number of goroutines\<close>

text \<open>
  A job is one call of \<open>run\<close>: its request, its context, and whether a worker made the call. The
  program counter of a goroutine follows the code of \<open>run\<close>, of its three deferred functions in the
  order they run, and of \<open>executeQueued\<close> and \<open>Cancel\<close>, which are not atomic either.
\<close>

record job =
  jb_req :: OperationRequest
  jb_ctx :: nat
  jb_worker :: bool

datatype xpc =
    XIdle
  | XTrying job
  | XWaiting job nat string
  | XFailed job go_error
  | XHolding job
  | XRunning job
  | XDone job "go_error + OperationResult"
  | XUnregistered job "go_error + OperationResult"
  | XReleased job "go_error + OperationResult"
  | XCancel string
  | XRemoved string OperationRequest
  | XStopped

text \<open>
  The system: the executor, the goroutines, the cancelled contexts and the next one. \<open>xs_ids\<close> are
  the identifiers drawn so far; the other two components are histories the code does not keep, to
  state what became of every submission: the operations submitted, and all records ever added.
  \<open>xs_dropped\<close> are the ones a worker discarded because the server's context had ended.
\<close>

record xsys =
  xs_ex :: Executor
  xs_pc :: "nat \<Rightarrow> xpc"
  xs_cancelled :: "nat set"
  xs_ctx :: nat
  xs_ids :: "string set"
  xs_submitted :: "string set"
  xs_log :: "OperationRecord list"
  xs_dropped :: "string set"

definition xsys_init :: xsys where
  "xsys_init =
     \<lparr>xs_ex = NewExecutor, xs_pc = (\<lambda>_. XIdle), xs_cancelled = {}, xs_ctx = 0, xs_ids = {},
      xs_submitted = {}, xs_log = [], xs_dropped = {}\<rparr>"

definition xs_goto :: "nat \<Rightarrow> xpc \<Rightarrow> xsys \<Rightarrow> xsys" where
  "xs_goto t pc s = s\<lparr>xs_pc := (xs_pc s)(t := pc)\<rparr>"

definition xs_update :: "(Executor \<Rightarrow> Executor) \<Rightarrow> xsys \<Rightarrow> xsys" where
  "xs_update f s = s\<lparr>xs_ex := f (xs_ex s)\<rparr>"

definition xs_record :: "OperationRecord \<Rightarrow> xsys \<Rightarrow> xsys" where
  "xs_record rec s = s\<lparr>xs_ex := addHistory rec (xs_ex s), xs_log := xs_log s @ [rec]\<rparr>"

abbreviation job_project :: "job \<Rightarrow> ProjectID" where
  "job_project j \<equiv> sc_project (req_scope (jb_req j))"

abbreviation job_id :: "job \<Rightarrow> string" where
  "job_id j \<equiv> req_id (jb_req j)"

text \<open>
  One section of one goroutine. A new request carries an identifier that was never drawn before,
  which is what \<open>uuid.New\<close> promises, whether a handler or the executor called it. The result of an
  operation is any value: nothing below depends on what the daemon did.
\<close>

inductive xstep :: "xsys \<Rightarrow> xsys \<Rightarrow> bool" where
  submit: "default_request uuid now req = req' \<Longrightarrow> req_id req' \<notin> xs_ids s \<Longrightarrow>
     xstep s (s\<lparr>xs_ex := snd (Submit uuid now now' req (xs_ex s)),
                xs_ids := insert (req_id req') (xs_ids s),
                xs_submitted := insert (req_id req') (xs_submitted s)\<rparr>)"
| execute: "xs_pc s t = XIdle \<Longrightarrow> default_request uuid now req = req' \<Longrightarrow> req_id req' \<notin> xs_ids s \<Longrightarrow>
     execute_guard (xs_ex s) (sc_project (req_scope req')) = None \<Longrightarrow>
     xstep s (xs_goto t (XTrying \<lparr>jb_req = req', jb_ctx = xs_ctx s, jb_worker = False\<rparr>)
                (s\<lparr>xs_ctx := Suc (xs_ctx s), xs_ids := insert (req_id req') (xs_ids s)\<rparr>))"
| dequeue: "xs_pc s t = XIdle \<Longrightarrow> Dequeue (ex_queue (xs_ex s)) = (DeqItem req, q) \<Longrightarrow>
     xstep s (xs_goto t (XTrying \<lparr>jb_req = req, jb_ctx = xs_ctx s, jb_worker = True\<rparr>)
                (s\<lparr>xs_ex := (xs_ex s)\<lparr>ex_queue := q\<rparr>, xs_ctx := Suc (xs_ctx s)\<rparr>))"
| quit: "xs_pc s t = XIdle \<Longrightarrow> Dequeue (ex_queue (xs_ex s)) = (DeqItem req, q) \<Longrightarrow>
     xstep s (xs_goto t XStopped
                (s\<lparr>xs_ex := (xs_ex s)\<lparr>ex_queue := q\<rparr>, xs_dropped := insert (req_id req) (xs_dropped s)\<rparr>))"
| stop: "xs_pc s t = XIdle \<Longrightarrow> Dequeue (ex_queue (xs_ex s)) = (DeqClosed, q) \<Longrightarrow>
     xstep s (xs_goto t XStopped s)"
| close: "xstep s (xs_update Close s)"
| take: "xs_pc s t = XTrying j \<Longrightarrow>
     acquire_section (ex_locker (xs_ex s)) (job_project j) (job_id j) = (Acquired, l) \<Longrightarrow>
     xstep s (xs_goto t (XHolding j) (xs_update (\<lambda>ex. ex\<lparr>ex_locker := l\<rparr>) s))"
| block: "xs_pc s t = XTrying j \<Longrightarrow>
     acquire_section (ex_locker (xs_ex s)) (job_project j) (job_id j) = (WaitFor c h, l) \<Longrightarrow>
     xstep s (xs_goto t (XWaiting j c h) (xs_update (\<lambda>ex. ex\<lparr>ex_locker := l\<rparr>) s))"
| wake: "xs_pc s t = XWaiting j c h \<Longrightarrow> c \<in> set (lk_closed (ex_locker (xs_ex s))) \<Longrightarrow>
     xstep s (xs_goto t (XTrying j) s)"
| timeout: "xs_pc s t = XWaiting j c h \<Longrightarrow>
     xstep s (xs_goto t (XFailed j (lock_timeout_error (job_project j) h)) s)"
| failed: "xs_pc s t = XFailed j err \<Longrightarrow>
     xstep s (xs_goto t XIdle
       (let s = s\<lparr>xs_cancelled := insert (jb_ctx j) (xs_cancelled s)\<rparr>
        in if jb_worker j then xs_record (queued_record (jb_req j) now (Inl err)) s else s))"
| registered: "xs_pc s t = XHolding j \<Longrightarrow>
     xstep s (xs_goto t (XRunning j) (xs_update (register (jb_req j) (jb_ctx j)) s))"
| completed: "xs_pc s t = XRunning j \<Longrightarrow>
     xstep s (xs_goto t (XDone j out)
       (case out of Inl err \<Rightarrow> s | Inr r \<Rightarrow> xs_record (result_record (jb_req j) now r) s))"
| unregistered: "xs_pc s t = XDone j out \<Longrightarrow>
     xstep s (xs_goto t (XUnregistered j out) (xs_update (unregister (jb_req j)) s))"
| released: "xs_pc s t = XUnregistered j out \<Longrightarrow> release (ex_locker (xs_ex s)) (job_project j) = Some l \<Longrightarrow>
     xstep s (xs_goto t (XReleased j out) (xs_update (\<lambda>ex. ex\<lparr>ex_locker := l\<rparr>) s))"
| returned: "xs_pc s t = XReleased j out \<Longrightarrow>
     xstep s (xs_goto t XIdle
       (let s = s\<lparr>xs_cancelled := insert (jb_ctx j) (xs_cancelled s)\<rparr>
        in if jb_worker j then xs_record (queued_record (jb_req j) now out) s else s))"
| cancel_running: "xs_pc s t = XIdle \<Longrightarrow> map_of (ex_cancels (xs_ex s)) op = Some c \<Longrightarrow>
     xstep s (s\<lparr>xs_cancelled := insert c (xs_cancelled s)\<rparr>)"
| cancel_looked: "xs_pc s t = XIdle \<Longrightarrow> map_of (ex_cancels (xs_ex s)) op = None \<Longrightarrow>
     xstep s (xs_goto t (XCancel op) s)"
| cancel_removed: "xs_pc s t = XCancel op \<Longrightarrow> RemoveAndReturn (ex_queue (xs_ex s)) op = (Some req, q) \<Longrightarrow>
     xstep s (xs_goto t (XRemoved op req) (xs_update (\<lambda>ex. ex\<lparr>ex_queue := q\<rparr>) s))"
| cancel_missing: "xs_pc s t = XCancel op \<Longrightarrow> RemoveAndReturn (ex_queue (xs_ex s)) op = (None, q) \<Longrightarrow>
     xstep s (xs_goto t XIdle s)"
| cancel_recorded: "xs_pc s t = XRemoved op req \<Longrightarrow>
     xstep s (xs_goto t XIdle (xs_record (cancelled_record op t1 t2 req) s))"

inductive xreach :: "xsys \<Rightarrow> bool" where
  xreach_init: "xreach xsys_init"
| xreach_step: "xreach s \<Longrightarrow> xstep s s' \<Longrightarrow> xreach s'"

end
