(* ===== verification/ExecutorFacts.thy ===== *)
theory ExecutorFacts
  imports Executor
begin

text \<open>
  The executor with any number of goroutines: it uses the project lock as \<open>Locker\<close> allows, its
  tables list exactly the running operations, no submission is lost, and its history is a window on
  everything it recorded.
\<close>

section \<open>The executor uses the lock as the locker's clients do\<close>

text \<open>What a goroutine of the executor is to the lock.\<close>

fun lpc_of :: "xpc \<Rightarrow> lpc" where
  "lpc_of (XTrying j) = LTrying (job_project j) (job_id j)"
| "lpc_of (XWaiting j c h) = LWaiting (job_project j) (job_id j) c h"
| "lpc_of (XFailed j err) = LFailed err"
| "lpc_of (XHolding j) = LHolding (job_project j) (job_id j)"
| "lpc_of (XRunning j) = LHolding (job_project j) (job_id j)"
| "lpc_of (XDone j out) = LHolding (job_project j) (job_id j)"
| "lpc_of (XUnregistered j out) = LHolding (job_project j) (job_id j)"
| "lpc_of _ = LIdle"

definition lproj :: "xsys \<Rightarrow> lsys" where
  "lproj s = \<lparr>ls_lk = ex_locker (xs_ex s), ls_pc = (\<lambda>t. lpc_of (xs_pc s t))\<rparr>"

lemma goto_simps [simp]:
  "xs_ex (xs_goto t pc s) = xs_ex s" "xs_pc (xs_goto t pc s) = (xs_pc s)(t := pc)"
  "xs_cancelled (xs_goto t pc s) = xs_cancelled s" "xs_ctx (xs_goto t pc s) = xs_ctx s"
  "xs_ids (xs_goto t pc s) = xs_ids s" "xs_submitted (xs_goto t pc s) = xs_submitted s"
  "xs_log (xs_goto t pc s) = xs_log s" "xs_dropped (xs_goto t pc s) = xs_dropped s"
  by (simp_all add: xs_goto_def)

lemma update_simps [simp]:
  "xs_ex (xs_update f s) = f (xs_ex s)" "xs_pc (xs_update f s) = xs_pc s"
  "xs_cancelled (xs_update f s) = xs_cancelled s" "xs_ctx (xs_update f s) = xs_ctx s"
  "xs_ids (xs_update f s) = xs_ids s" "xs_submitted (xs_update f s) = xs_submitted s"
  "xs_log (xs_update f s) = xs_log s" "xs_dropped (xs_update f s) = xs_dropped s"
  by (simp_all add: xs_update_def)

lemma record_simps [simp]:
  "xs_ex (xs_record rec s) = addHistory rec (xs_ex s)" "xs_pc (xs_record rec s) = xs_pc s"
  "xs_cancelled (xs_record rec s) = xs_cancelled s" "xs_ctx (xs_record rec s) = xs_ctx s"
  "xs_ids (xs_record rec s) = xs_ids s" "xs_submitted (xs_record rec s) = xs_submitted s"
  "xs_log (xs_record rec s) = xs_log s @ [rec]" "xs_dropped (xs_record rec s) = xs_dropped s"
  by (simp_all add: xs_record_def)

text \<open>Which fields of the executor a section leaves alone.\<close>

lemma addHistory_frame [simp]:
  "ex_locker (addHistory rec ex) = ex_locker ex" "ex_queue (addHistory rec ex) = ex_queue ex"
  "ex_running (addHistory rec ex) = ex_running ex" "ex_cancels (addHistory rec ex) = ex_cancels ex"
  "ex_max (addHistory rec ex) = ex_max ex"
  by (simp_all add: addHistory_def Let_def)

lemma section_frames [simp]:
  "ex_locker (register r c ex) = ex_locker ex" "ex_queue (register r c ex) = ex_queue ex"
  "ex_history (register r c ex) = ex_history ex" "ex_max (register r c ex) = ex_max ex"
  "ex_locker (unregister r ex) = ex_locker ex" "ex_queue (unregister r ex) = ex_queue ex"
  "ex_history (unregister r ex) = ex_history ex" "ex_max (unregister r ex) = ex_max ex"
  "ex_locker (Close ex) = ex_locker ex" "ex_running (Close ex) = ex_running ex"
  "ex_cancels (Close ex) = ex_cancels ex" "ex_history (Close ex) = ex_history ex"
  "ex_max (Close ex) = ex_max ex"
  "ex_locker (snd (Submit u now now' req ex)) = ex_locker ex"
  "ex_running (snd (Submit u now now' req ex)) = ex_running ex"
  "ex_cancels (snd (Submit u now now' req ex)) = ex_cancels ex"
  "ex_history (snd (Submit u now now' req ex)) = ex_history ex"
  "ex_max (snd (Submit u now now' req ex)) = ex_max ex"
  by (simp_all add: register_def unregister_def Close_def Submit_def Let_def)

lemma lproj_same:
  "ex_locker (xs_ex s') = ex_locker (xs_ex s) \<Longrightarrow> (\<And>t. lpc_of (xs_pc s' t) = lpc_of (xs_pc s t)) \<Longrightarrow>
     lproj s' = lproj s"
  by (simp add: lproj_def)

lemma lproj_goto: "lproj (xs_goto t pc s) = (lproj s)\<lparr>ls_pc := (ls_pc (lproj s))(t := lpc_of pc)\<rparr>"
  by (auto simp: lproj_def fun_eq_iff)

lemma lproj_update:
  "lproj (xs_update (\<lambda>ex. ex\<lparr>ex_locker := l\<rparr>) s) = (lproj s)\<lparr>ls_lk := l\<rparr>"
  by (simp add: lproj_def)

lemma lproj_fields [simp]:
  "ls_lk (lproj s) = ex_locker (xs_ex s)" "ls_pc (lproj s) t = lpc_of (xs_pc s t)"
  by (simp_all add: lproj_def)

text \<open>Every section of the executor is a step of the locker's clients, or none of their business.\<close>

lemma xstep_lstep: "xstep s s' \<Longrightarrow> lproj s' = lproj s \<or> lstep (lproj s) (lproj s')"
proof (induction rule: xstep.induct)
  case (submit uuid now req req' s now')
  show ?case by (simp add: lproj_def)
next
  case (execute s t uuid now req req')
  have "lproj (s\<lparr>xs_ctx := Suc (xs_ctx s), xs_ids := insert (req_id req') (xs_ids s)\<rparr>) = lproj s"
    by (rule lproj_same) simp_all
  then show ?case using execute by (auto simp: lproj_goto intro: lstep.call)
next
  case (dequeue s t req q)
  have "lproj (s\<lparr>xs_ex := (xs_ex s)\<lparr>ex_queue := q\<rparr>, xs_ctx := Suc (xs_ctx s)\<rparr>) = lproj s"
    by (rule lproj_same) simp_all
  then show ?case using dequeue by (auto simp: lproj_goto intro: lstep.call)
next
  case (quit s t req q)
  then show ?case by (intro disjI1 lproj_same) auto
next
  case (stop s t q)
  then show ?case by (intro disjI1 lproj_same) auto
next
  case (close s)
  show ?case by (intro disjI1 lproj_same) auto
next
  case (take s t j l)
  then have "lstep (lproj s) ((lproj s)\<lparr>ls_lk := l,
      ls_pc := (ls_pc (lproj s))(t := LHolding (job_project j) (job_id j))\<rparr>)"
    by (intro lstep.take) simp_all
  then show ?case by (simp add: lproj_goto lproj_update)
next
  case (block s t j c h l)
  then have "lstep (lproj s) ((lproj s)\<lparr>ls_lk := l,
      ls_pc := (ls_pc (lproj s))(t := LWaiting (job_project j) (job_id j) c h)\<rparr>)"
    by (intro lstep.block) simp_all
  then show ?case by (simp add: lproj_goto lproj_update)
next
  case (wake s t j c h)
  then show ?case by (auto simp: lproj_goto intro!: lstep.wake)
next
  case (timeout s t j c h)
  then show ?case by (auto simp: lproj_goto intro!: lstep.timeout)
next
  case (failed s t j err now)
  then have "lstep (lproj s) ((lproj s)\<lparr>ls_pc := (ls_pc (lproj s))(t := LIdle)\<rparr>)"
    by (intro lstep.give_up) simp
  moreover have "lproj (s\<lparr>xs_cancelled := C\<rparr>) = lproj s" "lproj (xs_record rec (s\<lparr>xs_cancelled := C\<rparr>)) = lproj s" for rec C
    by (rule lproj_same; simp)+
  ultimately show ?case by (simp add: lproj_goto Let_def)
next
  case (registered s t j)
  then show ?case by (intro disjI1 lproj_same) auto
next
  case (completed s t j out now)
  then show ?case by (intro disjI1 lproj_same) (auto split: sum.splits)
next
  case (unregistered s t j out)
  then show ?case by (intro disjI1 lproj_same) auto
next
  case (released s t j out l)
  then have "lstep (lproj s) ((lproj s)\<lparr>ls_lk := l, ls_pc := (ls_pc (lproj s))(t := LIdle)\<rparr>)"
    by (intro lstep.unlock) simp_all
  then show ?case by (simp add: lproj_goto lproj_update)
next
  case (returned s t j out now)
  then show ?case by (intro disjI1 lproj_same) (auto simp: Let_def)
next
  case (cancel_running s t op c)
  then show ?case by (intro disjI1 lproj_same) auto
next
  case (cancel_looked s t op)
  then show ?case by (intro disjI1 lproj_same) auto
next
  case (cancel_removed s t op req q)
  then show ?case by (intro disjI1 lproj_same) auto
next
  case (cancel_missing s t op q)
  then show ?case by (intro disjI1 lproj_same) auto
next
  case (cancel_recorded s t op req t1 t2)
  then show ?case by (intro disjI1 lproj_same) auto
qed

lemma lproj_init: "lproj xsys_init = lsys_init"
  by (simp add: lproj_def xsys_init_def lsys_init_def NewExecutor_def)

lemma xreach_lreach: "xreach s \<Longrightarrow> lreach (lproj s)"
proof (induction rule: xreach.induct)
  case xreach_init
  show ?case unfolding lproj_init by (rule lreach_init)
next
  case (xreach_step s s')
  then show ?case using xstep_lstep [of s s'] lreach_step by metis
qed

lemmas xreach_lock = xreach_lreach [THEN lreach_inv]

section \<open>Identifiers\<close>

text \<open>
  Who owns an identifier: the queue (a multiset), or one goroutine. \<open>ids_ok\<close> says no identifier has
  two owners and all of them have been drawn.
\<close>

definition ids_ok :: "(nat \<Rightarrow> string option) \<Rightarrow> string multiset \<Rightarrow> string set \<Rightarrow> bool" where
  "ids_ok h Q I \<longleftrightarrow>
     (\<forall>t u i. h t = Some i \<longrightarrow> h u = Some i \<longrightarrow> t = u) \<and>
     (\<forall>t i. h t = Some i \<longrightarrow> i \<notin># Q \<and> i \<in> I) \<and>
     (\<forall>i. count Q i \<le> 1) \<and> set_mset Q \<subseteq> I"

lemma ids_okI:
  assumes "\<And>t u i. h t = Some i \<Longrightarrow> h u = Some i \<Longrightarrow> t = u"
    and "\<And>t i. h t = Some i \<Longrightarrow> i \<notin># Q \<and> i \<in> I"
    and "\<And>i. count Q i \<le> 1" and "set_mset Q \<subseteq> I"
  shows "ids_ok h Q I"
  using assms by (auto simp: ids_ok_def)

lemma count_add_ok:
  assumes "\<And>k. count (add_mset i Q) k \<le> 1"
  shows "i \<notin># Q" "count Q k \<le> 1"
proof -
  have "count (add_mset i Q) i \<le> 1" by (rule assms)
  then show "i \<notin># Q" by (simp add: count_eq_zero_iff)
  have "count Q k \<le> count (add_mset i Q) k" by simp
  then show "count Q k \<le> 1" using assms le_trans by blast
qed

lemma ids_new_q:
  assumes "ids_ok h Q I" "i \<notin> I"
  shows "ids_ok h (add_mset i Q) (insert i I)"
proof (rule ids_okI, goal_cases)
  case (3 k)
  have "i \<notin># Q" using assms by (auto simp: ids_ok_def)
  then have "count Q i = 0" by (simp add: count_eq_zero_iff)
  then show ?case using assms(1) unfolding ids_ok_def by (cases "k = i") auto
qed (use assms in \<open>auto simp: ids_ok_def\<close>)

lemma ids_new_h:
  assumes "ids_ok h Q I" "i \<notin> I"
  shows "ids_ok (h(t := Some i)) Q (insert i I)"
  using assms unfolding ids_ok_def by (auto split: if_splits)

lemma ids_move:
  assumes "ids_ok h (add_mset i Q) I"
  shows "ids_ok (h(t := Some i)) Q I"
proof -
  note a = assms [unfolded ids_ok_def]
  have "\<And>k. count (add_mset i Q) k \<le> 1" using a by blast
  note c = count_add_ok [OF this]
  show ?thesis
  proof (rule ids_okI, goal_cases)
    case (1 u v k)
    then show ?case using a by (auto split: if_splits)
  next
    case (2 u k)
    then show ?case using a c(1) by (auto split: if_splits)
  qed (use a c in auto)
qed

lemma ids_drop_q:
  assumes "ids_ok h (add_mset i Q) I"
  shows "ids_ok h Q I"
proof -
  note a = assms [unfolded ids_ok_def]
  have "\<And>k. count (add_mset i Q) k \<le> 1" using a by blast
  note c = count_add_ok [OF this]
  show ?thesis by (rule ids_okI) (use a c in auto)
qed

lemma ids_drop_h: "ids_ok h Q I \<Longrightarrow> ids_ok (h(t := None)) Q I"
  unfolding ids_ok_def by (auto split: if_splits)

text \<open>The job a goroutine runs, the identifier it owns, and the identifiers in the queue.\<close>

fun job_of :: "xpc \<Rightarrow> job option" where
  "job_of (XTrying j) = Some j"
| "job_of (XWaiting j c h) = Some j"
| "job_of (XFailed j err) = Some j"
| "job_of (XHolding j) = Some j"
| "job_of (XRunning j) = Some j"
| "job_of (XDone j out) = Some j"
| "job_of (XUnregistered j out) = Some j"
| "job_of (XReleased j out) = Some j"
| "job_of _ = None"

fun owns :: "xpc \<Rightarrow> string option" where
  "owns (XRemoved op req) = Some (req_id req)"
| "owns pc = map_option (\<lambda>j. job_id j) (job_of pc)"

definition queue_ids :: "Executor \<Rightarrow> string multiset" where
  "queue_ids ex = image_mset req_id (queue_bag (ex_queue ex))"

definition owners :: "(nat \<Rightarrow> xpc) \<Rightarrow> nat \<Rightarrow> string option" where
  "owners pcs t = owns (pcs t)"

lemma owners_upd [simp]: "owners (pcs(t := pc)) = (owners pcs)(t := owns pc)"
  by (auto simp: owners_def)

definition ids_inv :: "xsys \<Rightarrow> bool" where
  "ids_inv s \<longleftrightarrow>
     queue_inv (ex_queue (xs_ex s)) \<and>
     ids_ok (owners (xs_pc s)) (queue_ids (xs_ex s)) (xs_ids s)"

lemma queue_ids_frames [simp]:
  "queue_ids (addHistory rec ex) = queue_ids ex" "queue_ids (register r c ex) = queue_ids ex"
  "queue_ids (unregister r ex) = queue_ids ex" "queue_ids (ex\<lparr>ex_locker := l\<rparr>) = queue_ids ex"
  "queue_ids (Close ex) = queue_ids ex"
  by (simp_all add: queue_ids_def Close_def queue_close_def queue_bag_def)

lemma queue_inv_close [simp]: "queue_inv (ex_queue (Close ex)) = queue_inv (ex_queue ex)"
  by (simp add: Close_def queue_close_def queue_inv_def)

lemma Submit_queue:
  assumes "queue_inv (ex_queue ex)" "default_request uuid now req = req'"
  shows "queue_inv (ex_queue (snd (Submit uuid now now' req ex)))"
    and "queue_ids (snd (Submit uuid now now' req ex)) = add_mset (req_id req') (queue_ids ex)"
  using assms by (auto simp: Submit_def Let_def queue_facts queue_ids_def stamped_def)

lemma Dequeue_queue:
  assumes "queue_inv (ex_queue ex)" "Dequeue (ex_queue ex) = (DeqItem req, q)"
  shows "queue_inv q"
    and "queue_ids ex = add_mset (req_id req) (queue_ids (ex\<lparr>ex_queue := q\<rparr>))"
  using Dequeue_correct [OF assms] by (auto simp: queue_ids_def)

lemma Remove_queue:
  assumes "queue_inv (ex_queue ex)" "RemoveAndReturn (ex_queue ex) op = (Some req, q)"
  shows "queue_inv q" "req_id req = op"
    and "queue_ids ex = add_mset (req_id req) (queue_ids (ex\<lparr>ex_queue := q\<rparr>))"
  using RemoveAndReturn_correct [OF assms] by (auto simp: queue_ids_def)

lemma ids_frame:
  assumes "ids_inv s" "ex_queue (xs_ex s') = ex_queue (xs_ex s)" "xs_ids s' = xs_ids s"
    and "\<And>t. owns (xs_pc s' t) = owns (xs_pc s t)"
  shows "ids_inv s'"
proof -
  have "owners (xs_pc s') = owners (xs_pc s)" using assms(4) by (auto simp: owners_def)
  then show ?thesis using assms(1-3) by (simp add: ids_inv_def queue_ids_def)
qed

lemma ids_goto:
  assumes "ids_inv s" "ex_queue (xs_ex s') = ex_queue (xs_ex s)" "xs_ids s' = xs_ids s"
    and "xs_pc s' = (xs_pc s)(t := pc)" "owns pc = None"
  shows "ids_inv s'"
  using assms(1-3,5) ids_drop_h [of "owners (xs_pc s)"]
  unfolding ids_inv_def assms(4) by (simp add: queue_ids_def)

lemma ids_step: "xstep s s' \<Longrightarrow> ids_inv s \<Longrightarrow> ids_inv s'"
proof (induction rule: xstep.induct)
  case (submit uuid now req req' s now')
  then show ?case
    using Submit_queue [of "xs_ex s" uuid now req req' now'] ids_new_q
    by (simp add: ids_inv_def)
next
  case (execute s t uuid now req req')
  then show ?case using ids_new_h by (simp add: ids_inv_def)
next
  case (dequeue s t req q)
  then show ?case
    using Dequeue_queue [of "xs_ex s" req q] ids_move by (simp add: ids_inv_def)
next
  case (quit s t req q)
  then have q: "queue_inv q"
    and "ids_ok (owners (xs_pc s)) (add_mset (req_id req) (queue_ids ((xs_ex s)\<lparr>ex_queue := q\<rparr>))) (xs_ids s)"
    using Dequeue_queue [of "xs_ex s" req q] by (simp_all add: ids_inv_def)
  from this(2) have "ids_ok (owners (xs_pc s)) (queue_ids ((xs_ex s)\<lparr>ex_queue := q\<rparr>)) (xs_ids s)"
    by (rule ids_drop_q)
  with q show ?case using ids_drop_h [of "owners (xs_pc s)" _ _ t] by (simp add: ids_inv_def)
next
  case (cancel_removed s t op req q)
  then show ?case
    using Remove_queue [of "xs_ex s" op req q] ids_move by (simp add: ids_inv_def)
next
  case (failed s t j err now)
  then show ?case by - (rule ids_goto [of s _ t XIdle], auto simp: Let_def)
next
  case (returned s t j out now)
  then show ?case by - (rule ids_goto [of s _ t XIdle], auto simp: Let_def)
next
  case (cancel_recorded s t op req t1 t2)
  then show ?case by - (rule ids_goto [of s _ t XIdle], auto)
next
  case (completed s t j out now)
  then show ?case by - (rule ids_frame [of s], auto split: sum.splits)
next
  case (close s)
  then show ?case by (simp add: ids_inv_def)
qed (auto intro: ids_frame simp: queue_ids_def)

lemma ids_inv_init: "ids_inv xsys_init"
  by (simp add: ids_inv_def xsys_init_def NewExecutor_def queue_ids_def queue_facts ids_ok_def owners_def)

lemma xreach_ids: "xreach s \<Longrightarrow> ids_inv s"
  by (induction rule: xreach.induct) (auto intro: ids_inv_init ids_step)

text \<open>A goroutine with a job owns the identifier of its request, so no two run the same request.\<close>

lemma job_owns: "job_of pc = Some j \<Longrightarrow> owns pc = Some (job_id j)"
  by (cases pc) auto

lemma job_unique:
  "ids_inv s \<Longrightarrow> job_of (xs_pc s t) = Some j \<Longrightarrow> job_of (xs_pc s u) = Some k \<Longrightarrow>
     job_id j = job_id k \<Longrightarrow> t = u"
  using job_owns by (fastforce simp: ids_inv_def ids_ok_def owners_def)

section \<open>The tables of running operations\<close>

fun listed :: "xpc \<Rightarrow> job option" where
  "listed (XRunning j) = Some j"
| "listed (XDone j out) = Some j"
| "listed _ = None"

lemma listed_job: "listed pc = Some j \<Longrightarrow> job_of pc = Some j"
  by (cases pc) auto

text \<open>A map whose entries are those of the listed jobs, under their identifiers.\<close>

definition tabled :: "(string \<rightharpoonup> 'v) \<Rightarrow> (job \<Rightarrow> 'v) \<Rightarrow> (nat \<Rightarrow> xpc) \<Rightarrow> bool" where
  "tabled m f pcs \<longleftrightarrow>
     (\<forall>i v. m i = Some v \<longleftrightarrow> (\<exists>t j. listed (pcs t) = Some j \<and> job_id j = i \<and> v = f j))"

lemma tabled_same:
  "tabled m f pcs \<Longrightarrow> (\<And>t. listed (pcs' t) = listed (pcs t)) \<Longrightarrow> tabled m f pcs'"
  by (simp add: tabled_def)

lemma tabled_add:
  assumes "tabled m f pcs" "listed (pcs t) = None" "listed pc = Some j"
    and "\<And>u k. listed (pcs u) = Some k \<Longrightarrow> job_id k \<noteq> job_id j"
  shows "tabled (m(job_id j \<mapsto> f j)) f (pcs(t := pc))"
  unfolding tabled_def
proof (intro allI)
  fix i v
  show "((m(job_id j \<mapsto> f j)) i = Some v) =
      (\<exists>u k. listed ((pcs(t := pc)) u) = Some k \<and> job_id k = i \<and> v = f k)"
  proof (cases "i = job_id j")
    case True
    have "\<exists>u k. listed ((pcs(t := pc)) u) = Some k \<and> job_id k = i \<and> v = f k" if "v = f j"
      using that True assms(3) by (intro exI [of _ t] exI [of _ j]) simp
    then show ?thesis using True assms(3,4) by (auto split: if_splits)
  next
    case False
    have "(\<exists>u k. listed (pcs u) = Some k \<and> job_id k = i \<and> v = f k) \<longleftrightarrow>
        (\<exists>u k. listed ((pcs(t := pc)) u) = Some k \<and> job_id k = i \<and> v = f k)"
      using assms(2,3) False by (metis fun_upd_apply option.inject option.distinct(1))
    then show ?thesis using assms(1) False by (simp add: tabled_def)
  qed
qed

lemma tabled_del:
  assumes "tabled m f pcs" "listed (pcs t) = Some j" "listed pc = None"
    and "\<And>u k. listed (pcs u) = Some k \<Longrightarrow> job_id k = job_id j \<Longrightarrow> u = t"
  shows "tabled (m(job_id j := None)) f (pcs(t := pc))"
  unfolding tabled_def
proof (intro allI)
  fix i v
  show "((m(job_id j := None)) i = Some v) =
      (\<exists>u k. listed ((pcs(t := pc)) u) = Some k \<and> job_id k = i \<and> v = f k)"
  proof (cases "i = job_id j")
    case True
    then show ?thesis using assms(3,4) by (auto split: if_splits)
  next
    case False
    have "(\<exists>u k. listed (pcs u) = Some k \<and> job_id k = i \<and> v = f k) \<longleftrightarrow>
        (\<exists>u k. listed ((pcs(t := pc)) u) = Some k \<and> job_id k = i \<and> v = f k)"
      using assms(2,3) False by (metis fun_upd_apply option.inject option.distinct(1))
    then show ?thesis using assms(1) False by (simp add: tabled_def)
  qed
qed

definition table_inv :: "xsys \<Rightarrow> bool" where
  "table_inv s \<longleftrightarrow>
     tabled (map_of (ex_running (xs_ex s))) (\<lambda>j. \<lparr>ro_request = jb_req j, ro_result = None\<rparr>) (xs_pc s) \<and>
     tabled (map_of (ex_cancels (xs_ex s))) jb_ctx (xs_pc s) \<and>
     distinct (map fst (ex_running (xs_ex s)))"

lemma table_frame:
  assumes "table_inv s" "ex_running (xs_ex s') = ex_running (xs_ex s)"
    "ex_cancels (xs_ex s') = ex_cancels (xs_ex s)" "\<And>t. listed (xs_pc s' t) = listed (xs_pc s t)"
  shows "table_inv s'"
  using assms(1-3)
    tabled_same [of _ "\<lambda>j. \<lparr>ro_request = jb_req j, ro_result = None\<rparr>" "xs_pc s" "xs_pc s'"]
    tabled_same [of _ jb_ctx "xs_pc s" "xs_pc s'"] assms(4)
  unfolding table_inv_def by simp

lemma table_step: "xstep s s' \<Longrightarrow> ids_inv s \<Longrightarrow> table_inv s \<Longrightarrow> table_inv s'"
proof (induction rule: xstep.induct)
  case (registered s t j)
  have other: "job_id k \<noteq> job_id j" if "listed (xs_pc s u) = Some k" for u k
  proof
    assume "job_id k = job_id j"
    with registered have "u = t" using job_unique [of s u k t j] listed_job [OF that] by simp
    with that registered show False by simp
  qed
  show ?case
    using registered other
      tabled_add [of _ "\<lambda>j. \<lparr>ro_request = jb_req j, ro_result = None\<rparr>" "xs_pc s" t "XRunning j" j]
      tabled_add [of _ jb_ctx "xs_pc s" t "XRunning j" j]
    by (simp add: table_inv_def register_def distinct_update)
next
  case (unregistered s t j out)
  have other: "u = t" if "listed (xs_pc s u) = Some k" "job_id k = job_id j" for u k
    using unregistered job_unique [of s u k t j] listed_job [OF that(1)] that(2) by simp
  have pc: "listed (xs_pc s t) = Some j" "listed (XUnregistered j out) = None"
    using unregistered by simp_all
  note inv = unregistered(3) [unfolded table_inv_def]
  note del = tabled_del [of _ _ "xs_pc s" t j "XUnregistered j out", OF _ pc other]
  show ?case
    using del [OF conjunct1 [OF inv]] del [OF conjunct1 [OF conjunct2 [OF inv]]] inv
    by (simp add: table_inv_def unregister_def distinct_delete)
next
  case (completed s t j out now)
  then show ?case by - (rule table_frame [of s], auto split: sum.splits)
next
  case (failed s t j err now)
  then show ?case by - (rule table_frame [of s], auto simp: Let_def)
next
  case (returned s t j out now)
  then show ?case by - (rule table_frame [of s], auto simp: Let_def)
qed (auto intro: table_frame)

lemma table_inv_init: "table_inv xsys_init"
  by (simp add: table_inv_def tabled_def xsys_init_def NewExecutor_def)

lemma xreach_table: "xreach s \<Longrightarrow> table_inv s"
proof (induction rule: xreach.induct)
  case (xreach_step s s')
  then show ?case using table_step xreach_ids by blast
qed (rule table_inv_init)

section \<open>The history is a window on the records\<close>

definition window :: "nat \<Rightarrow> 'a list \<Rightarrow> 'a list" where
  "window n xs = drop (length xs - n) xs"

lemma window_snoc:
  assumes "0 < n"
  shows "window n (xs @ [x]) = (if n \<le> length (window n xs) then tl (window n xs) else window n xs) @ [x]"
proof (cases "n \<le> length xs")
  case True
  then have "length (xs @ [x]) - n = Suc (length xs - n)" by simp
  then have "window n (xs @ [x]) = tl (window n xs) @ [x]"
    using True assms by (simp add: window_def drop_Suc tl_drop Suc_diff_le)
  then show ?thesis using True by (simp add: window_def)
qed (use assms in \<open>auto simp: window_def\<close>)

lemma addHistory_window:
  "0 < ex_max ex \<Longrightarrow> ex_history ex = window (ex_max ex) log \<Longrightarrow>
     ex_history (addHistory rec ex) = window (ex_max ex) (log @ [rec])"
  by (simp add: addHistory_def Let_def window_snoc)

definition history_inv :: "xsys \<Rightarrow> bool" where
  "history_inv s \<longleftrightarrow> ex_max (xs_ex s) = 256 \<and> ex_history (xs_ex s) = window 256 (xs_log s)"

lemma history_record: "history_inv s \<Longrightarrow> history_inv (xs_record rec s)"
  using addHistory_window [of "xs_ex s" "xs_log s" rec] by (simp add: history_inv_def)

lemma history_frame:
  "history_inv s \<Longrightarrow> ex_max (xs_ex s') = ex_max (xs_ex s) \<Longrightarrow>
     ex_history (xs_ex s') = ex_history (xs_ex s) \<Longrightarrow> xs_log s' = xs_log s \<Longrightarrow> history_inv s'"
  by (simp add: history_inv_def)

lemma history_goto [simp]: "history_inv (xs_goto t pc s) = history_inv s"
  by (simp add: history_inv_def)

lemma history_cancelled: "history_inv s \<Longrightarrow> history_inv (s\<lparr>xs_cancelled := C\<rparr>)"
  by (simp add: history_inv_def)

lemma history_step: "xstep s s' \<Longrightarrow> history_inv s \<Longrightarrow> history_inv s'"
proof (induction rule: xstep.induct)
  case (returned s t j out now)
  show ?case using history_record [OF history_cancelled [OF returned(2)]] history_cancelled [OF returned(2)]
    by (simp add: Let_def)
next
  case (completed s t j out now)
  then show ?case using history_record by (cases out) simp_all
next
  case (failed s t j err now)
  show ?case using history_record [OF history_cancelled [OF failed(2)]] history_cancelled [OF failed(2)]
    by (simp add: Let_def)
next
  case (cancel_recorded s t op req t1 t2)
  then show ?case using history_record by simp
qed (simp_all add: history_inv_def)

lemma xreach_history: "xreach s \<Longrightarrow> history_inv s"
proof (induction rule: xreach.induct)
  case xreach_init
  show ?case by (simp add: history_inv_def xsys_init_def NewExecutor_def window_def)
next
  case (xreach_step s s')
  then show ?case using history_step by blast
qed

section \<open>No submission is lost\<close>

text \<open>The submitted operation a goroutine has taken from the queue, as a worker or to cancel it.\<close>

definition async :: "xpc \<Rightarrow> string option" where
  "async pc =
     (case pc of
        XRemoved op req \<Rightarrow> Some (req_id req)
      | _ \<Rightarrow> (case job_of pc of
               Some j \<Rightarrow> if jb_worker j then Some (job_id j) else None | None \<Rightarrow> None))"

definition asyncs :: "(nat \<Rightarrow> xpc) \<Rightarrow> nat \<Rightarrow> string option" where
  "asyncs pcs t = async (pcs t)"

lemma asyncs_upd [simp]: "asyncs (pcs(t := pc)) = (asyncs pcs)(t := async pc)"
  by (auto simp: asyncs_def)

definition logged :: "xsys \<Rightarrow> string set" where
  "logged s = (\<lambda>rec. req_id (or_request rec)) ` set (xs_log s)"

definition accounted :: "xsys \<Rightarrow> string set" where
  "accounted s =
     set_mset (queue_ids (xs_ex s)) \<union> ran (asyncs (xs_pc s)) \<union> logged s \<union> xs_dropped s"

lemma ran_keep: "ran a \<subseteq> ran (a(t := x)) \<union> set_option (a t)"
  by (auto simp: ran_def)

lemma ran_new: "a t = None \<Longrightarrow> ran (a(t := x)) = ran a \<union> set_option x"
  using ran_keep [of a t x] by (auto simp: ran_def split: if_splits)

lemma asyncs_at: "asyncs pcs t = async (pcs t)"
  by (simp add: asyncs_def)

lemma logged_simps [simp]:
  "logged (xs_goto t pc s) = logged s" "logged (xs_update f s) = logged s"
  "logged (xs_record rec s) = insert (req_id (or_request rec)) (logged s)"
  by (simp_all add: logged_def)

lemma records_of [simp]:
  "or_request (queued_record req now out) = req" "or_request (result_record req now r) = req"
  "or_request (cancelled_record op t1 t2 req) = req"
  by (simp_all add: queued_record_def result_record_def cancelled_record_def)

lemma asyncs_same: "async pc = async (pcs t) \<Longrightarrow> asyncs (pcs(t := pc)) = asyncs pcs"
  by (auto simp: asyncs_def)

lemma accounted_goto:
  "async pc = async (xs_pc s t) \<Longrightarrow> accounted (xs_goto t pc s) = accounted s"
  by (simp add: accounted_def asyncs_same asyncs_at del: asyncs_upd)

lemma accounted_record:
  "accounted (xs_record rec s) = insert (req_id (or_request rec)) (accounted s)"
  by (simp add: accounted_def)

lemma accounted_goto_record:
  "accounted (xs_goto t pc (xs_record rec s)) = insert (req_id (or_request rec)) (accounted (xs_goto t pc s))"
  by (simp add: accounted_def)

lemma accounted_update:
  "queue_ids (f (xs_ex s)) = queue_ids (xs_ex s) \<Longrightarrow> accounted (xs_update f s) = accounted s"
  by (simp add: accounted_def)

lemma accounted_cancelled [simp]:
  "accounted (s\<lparr>xs_cancelled := C\<rparr>) = accounted s"
  "accounted (xs_goto t pc (s\<lparr>xs_cancelled := C\<rparr>)) = accounted (xs_goto t pc s)"
  by (simp_all add: accounted_def logged_def)

lemma accounted_leave:
  "async pc = None \<Longrightarrow>
     accounted s \<subseteq> accounted (xs_goto t pc s) \<union> set_option (async (xs_pc s t))"
  using ran_keep [of "asyncs (xs_pc s)" t None] by (auto simp: accounted_def asyncs_at)

lemma accounted_step: "xstep s s' \<Longrightarrow> ids_inv s \<Longrightarrow> accounted s \<subseteq> accounted s'"
proof (induction rule: xstep.induct)
  case (submit uuid now req req' s now')
  then show ?case
    using Submit_queue(2) [of "xs_ex s" uuid now req req' now']
    by (auto simp: accounted_def ids_inv_def logged_def)
next
  case (execute s t uuid now req req')
  then have "asyncs (xs_pc s) t = None" by (simp add: asyncs_at async_def)
  with execute show ?case by (auto simp: accounted_def ran_new logged_def async_def)
next
  case (dequeue s t req q)
  then have "asyncs (xs_pc s) t = None" by (simp add: asyncs_at async_def)
  with dequeue show ?case
    using Dequeue_queue(2) [of "xs_ex s" req q]
    by (auto simp: accounted_def ran_new logged_def async_def ids_inv_def)
next
  case (quit s t req q)
  then have "asyncs (xs_pc s) t = None" by (simp add: asyncs_at async_def)
  with quit show ?case
    using Dequeue_queue(2) [of "xs_ex s" req q]
    by (auto simp: accounted_def ran_new logged_def async_def ids_inv_def)
next
  case (cancel_removed s t op req q)
  then have "asyncs (xs_pc s) t = None" by (simp add: asyncs_at async_def)
  with cancel_removed show ?case
    using Remove_queue(3) [of "xs_ex s" op req q]
    by (auto simp: accounted_def ran_new logged_def async_def ids_inv_def)
next
  case (failed s t j err now)
  then have "set_option (async (xs_pc s t)) = (if jb_worker j then {job_id j} else {})"
    by (simp add: async_def)
  then show ?case
    using accounted_leave [of XIdle s t] by (auto simp: accounted_goto_record async_def Let_def)
next
  case (returned s t j out now)
  then have "set_option (async (xs_pc s t)) = (if jb_worker j then {job_id j} else {})"
    by (simp add: async_def)
  then show ?case
    using accounted_leave [of XIdle s t] by (auto simp: accounted_goto_record async_def Let_def)
next
  case (cancel_recorded s t op req t1 t2)
  then show ?case
    using accounted_leave [of XIdle s t] by (auto simp: accounted_goto_record async_def)
next
  case (completed s t j out now)
  then have "accounted (xs_goto t (XDone j out) s) = accounted s"
    by (intro accounted_goto) (simp add: async_def)
  then show ?case by (auto simp: accounted_goto_record split: sum.splits)
qed (simp_all add: accounted_goto accounted_update async_def)

lemma submitted_step:
  "xstep s s' \<Longrightarrow> ids_inv s \<Longrightarrow> xs_submitted s' \<subseteq> xs_submitted s \<union> set_mset (queue_ids (xs_ex s'))"
proof (induction rule: xstep.induct)
  case (submit uuid now req req' s now')
  then show ?case
    using Submit_queue(2) [of "xs_ex s" uuid now req req' now'] by (auto simp: ids_inv_def)
qed (auto simp: Let_def split: sum.splits)

lemma xreach_accounted: "xreach s \<Longrightarrow> xs_submitted s \<subseteq> accounted s"
proof (induction rule: xreach.induct)
  case xreach_init
  show ?case by (simp add: xsys_init_def)
next
  case (xreach_step s s')
  have "xs_submitted s' \<subseteq> xs_submitted s \<union> accounted s'"
    using submitted_step [OF xreach_step(2) xreach_ids [OF xreach_step(1)]]
    by (auto simp: accounted_def)
  then show ?case
    using accounted_step [OF xreach_step(2) xreach_ids [OF xreach_step(1)]] xreach_step(3) by auto
qed

section \<open>Contexts\<close>

text \<open>Every job has a context of its own, so cancelling one operation cancels no other.\<close>

definition ctx_inv :: "xsys \<Rightarrow> bool" where
  "ctx_inv s \<longleftrightarrow>
     (\<forall>t j. job_of (xs_pc s t) = Some j \<longrightarrow> jb_ctx j < xs_ctx s) \<and>
     (\<forall>t u j k. job_of (xs_pc s t) = Some j \<longrightarrow> job_of (xs_pc s u) = Some k \<longrightarrow>
        jb_ctx j = jb_ctx k \<longrightarrow> t = u)"

lemma ctx_frame:
  "ctx_inv s \<Longrightarrow> xs_ctx s' = xs_ctx s \<Longrightarrow> (\<And>t. job_of (xs_pc s' t) = job_of (xs_pc s t)) \<Longrightarrow> ctx_inv s'"
  by (simp add: ctx_inv_def)

lemma ctx_new:
  assumes "ctx_inv s" "xs_ctx s' = Suc (xs_ctx s)" "xs_pc s' = (xs_pc s)(t := pc)"
    "job_of pc = Some j" "jb_ctx j = xs_ctx s"
  shows "ctx_inv s'"
proof -
  have "jb_ctx k < xs_ctx s" if "job_of (xs_pc s u) = Some k" for u k
    using assms(1) that by (simp add: ctx_inv_def)
  then show ?thesis
    using assms unfolding ctx_inv_def by (auto split: if_splits) (metis less_irrefl less_Suc_eq)+
qed

lemma ctx_drop:
  assumes "ctx_inv s" "xs_ctx s' = xs_ctx s" "xs_pc s' = (xs_pc s)(t := pc)" "job_of pc = None"
  shows "ctx_inv s'"
  using assms unfolding ctx_inv_def by (auto split: if_splits)

lemma ctx_step: "xstep s s' \<Longrightarrow> ctx_inv s \<Longrightarrow> ctx_inv s'"
proof (induction rule: xstep.induct)
  case (execute s t uuid now req req')
  show ?case by (rule ctx_new [OF execute(5)]) auto
next
  case (dequeue s t req q)
  show ?case by (rule ctx_new [OF dequeue(3)]) auto
next
  case (failed s t j err now)
  show ?case by (rule ctx_drop [OF failed(2), where t = t and pc = XIdle]) (auto simp: Let_def)
next
  case (returned s t j out now)
  show ?case by (rule ctx_drop [OF returned(2), where t = t and pc = XIdle]) (auto simp: Let_def)
next
  case (completed s t j out now)
  then show ?case by - (rule ctx_frame [of s], auto split: sum.splits)
qed (auto intro: ctx_frame)

lemma xreach_ctx: "xreach s \<Longrightarrow> ctx_inv s"
proof (induction rule: xreach.induct)
  case xreach_init
  show ?case by (simp add: ctx_inv_def xsys_init_def)
next
  case (xreach_step s s')
  then show ?case using ctx_step by blast
qed

section \<open>One call of run\<close>

text \<open>
  On a free project \<open>run\<close> returns, gives the lock back, leaves the tables without its entry, and
  records a successful operation last.
\<close>

lemma run_free:
  assumes wf: "locker_wf (ex_locker ex)" and free: "lk_locks (ex_locker ex) p = None"
    and p: "p = sc_project (req_scope req)"
  shows "\<exists>out ex' s'. run xe ctx req ex s = Some (out, ex', s') \<and>
    locker_wf (ex_locker ex') \<and> lock_holder (ex_locker ex') = lock_holder (ex_locker ex) \<and>
    ex_queue ex' = ex_queue ex \<and>
    map_of (ex_running ex') = (map_of (ex_running ex))(req_id req := None) \<and>
    map_of (ex_cancels ex') = (map_of (ex_cancels ex))(req_id req := None) \<and>
    (\<exists>now s''. out = fst (run_body xe req s'') \<and> ex_history ex' = ex_history (run_history req now out ex))"
proof -
  obtain l where acq: "acquire_section (ex_locker ex) p (req_id req) = (Acquired, l)"
    using free by (simp add: acquire_section_def)
  then have take: "try_take (ex_locker ex) p (req_id req) = Some l" by (simp add: try_take_def)
  have wfl: "locker_wf l" by (rule lk.acq_ok [OF wf take])
  obtain l' where rel: "release l p = Some l'" using release_total [OF wfl] by blast
  have hold: "lock_holder l' = lock_holder (ex_locker ex)"
    using lk.rel_acq [OF wf take] rel by (simp add: do_release_def)
  have wfl': "locker_wf l'" by (rule locker_wf_release [OF wfl rel])
  obtain out s1 where body: "run_body xe req s = (out, s1)" by fastforce
  obtain now s2 where t: "(case out of Inl _ \<Rightarrow> (0, s1) | Inr _ \<Rightarrow> time_now (xe_docker xe) s1) = (now, s2)"
    by fastforce
  let ?ex1 = "register req ctx (ex\<lparr>ex_locker := l\<rparr>)"
  let ?ex2 = "unregister req (run_history req now out ?ex1)"
  have lk2: "ex_locker ?ex2 = l" by (simp add: run_history_def register_def split: sum.split)
  have "run xe ctx req ex s = Some (out, ?ex2\<lparr>ex_locker := l'\<rparr>, s2)"
    using acq body t rel lk2 by (simp add: run_def Let_def p)
  moreover have "ex_history ?ex2 = ex_history (run_history req now out ex)"
    by (simp add: run_history_def addHistory_def register_def split: sum.split)
  moreover have "ex_queue ?ex2 = ex_queue ex"
    "map_of (ex_running ?ex2) = (map_of (ex_running ex))(req_id req := None)"
    "map_of (ex_cancels ?ex2) = (map_of (ex_cancels ex))(req_id req := None)"
    by (simp_all add: run_history_def unregister_def register_def split: sum.split)
  moreover have "\<exists>now s''. out = fst (run_body xe req s'') \<and>
      ex_history (run_history req now out ex) = ex_history (run_history req now out ex)"
    using body by (intro exI [of _ now] exI [of _ s]) simp
  ultimately show ?thesis
    using wfl' hold body
    by (intro exI [of _ out] exI [of _ "?ex2\<lparr>ex_locker := l'\<rparr>"] exI [of _ s2] conjI)
      (auto intro: exI [of _ now] exI [of _ s])
qed

lemma run_busy:
  "lk_locks (ex_locker ex) (sc_project (req_scope req)) \<noteq> None \<Longrightarrow> run xe ctx req ex s = None"
  by (auto simp: run_def acquire_section_def)

text \<open>The body gives its result the identifier of the request.\<close>

lemma run_body_request: "run_body xe req s = (Inr r, s') \<Longrightarrow> res_request r = req_id req"
  by (auto simp: run_body_def Let_def split: prod.splits sum.splits)

section \<open>Running operations are on different projects\<close>

lemma listed_holds: "listed pc = Some j \<Longrightarrow> lpc_of pc = LHolding (job_project j) (job_id j)"
  by (cases pc) auto

lemma xreach_projects:
  assumes "xreach s"
  shows "inj_on (\<lambda>e. sc_project (req_scope (ro_request (snd e)))) (set (ex_running (xs_ex s)))"
proof (rule inj_onI, clarify)
  fix a ra b rb
  assume a: "(a, ra) \<in> set (ex_running (xs_ex s))" and b: "(b, rb) \<in> set (ex_running (xs_ex s))"
    and eq: "sc_project (req_scope (ro_request (snd (a, ra)))) = sc_project (req_scope (ro_request (snd (b, rb))))"
  note tab = xreach_table [OF assms, unfolded table_inv_def]
  have run: "\<exists>t j. listed (xs_pc s t) = Some j \<and> job_id j = i \<and> ro = \<lparr>ro_request = jb_req j, ro_result = None\<rparr>"
    if "(i, ro) \<in> set (ex_running (xs_ex s))" for i ro
    using that tab map_of_is_SomeI [of "ex_running (xs_ex s)" i ro] unfolding tabled_def by blast
  obtain t j where t: "listed (xs_pc s t) = Some j" "job_id j = a" "ra = \<lparr>ro_request = jb_req j, ro_result = None\<rparr>"
    using run [OF a] by blast
  obtain u k where u: "listed (xs_pc s u) = Some k" "job_id k = b" "rb = \<lparr>ro_request = jb_req k, ro_result = None\<rparr>"
    using run [OF b] by blast
  have p: "job_project j = job_project k" using eq t(3) u(3) by simp
  have "ls_pc (lproj s) t = LHolding (job_project j) (job_id j)"
    "ls_pc (lproj s) u = LHolding (job_project j) (job_id k)"
    using listed_holds [OF t(1)] listed_holds [OF u(1)] p by simp_all
  then have "t = u" by (rule lsys_excl [OF xreach_lock [OF assms]])
  then show "a = b \<and> ra = rb" using t u by simp
qed

end
