(* ===== verification/ExecProps.thy ===== *)
theory ExecProps
  imports ExecutorFacts Demo
begin

text \<open>
  The properties of the lock, the queue and the executor, with a run of the executor as the concrete
  input of their witnesses.
\<close>

section \<open>A run of the executor\<close>

definition demo_request :: "string \<Rightarrow> OperationRequest" where
  "demo_request op =
     \<lparr>req_id = op, req_type = OpUp, req_scope = \<lparr>sc_project = ''p1'', sc_services = None\<rparr>, req_user = ''u1'',
      req_priority = 50, req_timeout = minute, req_created = 7\<rparr>"

lemma demo_request_fields [simp]:
  "req_id (demo_request op) = op" "sc_project (req_scope (demo_request op)) = ''p1''"
  by (simp_all add: demo_request_def)

definition demo_job :: job where
  "demo_job = \<lparr>jb_req = demo_request ''op1'', jb_ctx = 0, jb_worker = False\<rparr>"

definition demo_job2 :: job where
  "demo_job2 = \<lparr>jb_req = demo_request ''op2'', jb_ctx = 1, jb_worker = False\<rparr>"

definition demo_lock :: inMemoryLocker where
  "demo_lock = snd (acquire_section NewInMemoryLocker ''p1'' ''op1'')"

text \<open>
  Two callers pass the check of \<open>Execute\<close> while the project is free; one takes the lock and runs, the
  other blocks.
\<close>

definition demo_x1 :: xsys where
  "demo_x1 = xs_goto 0 (XTrying demo_job) (xsys_init\<lparr>xs_ctx := 1, xs_ids := {''op1''}\<rparr>)"

definition demo_x2 :: xsys where
  "demo_x2 = xs_goto 1 (XTrying demo_job2) (demo_x1\<lparr>xs_ctx := 2, xs_ids := {''op2'', ''op1''}\<rparr>)"

definition demo_x3 :: xsys where
  "demo_x3 = xs_goto 0 (XHolding demo_job) (xs_update (\<lambda>ex. ex\<lparr>ex_locker := demo_lock\<rparr>) demo_x2)"

definition demo_x4 :: xsys where
  "demo_x4 = xs_goto 0 (XRunning demo_job) (xs_update (register (demo_request ''op1'') 0) demo_x3)"

definition demo_x5 :: xsys where
  "demo_x5 = xs_goto 1 (XWaiting demo_job2 0 ''op1'') (xs_update (\<lambda>ex. ex\<lparr>ex_locker := demo_lock\<rparr>) demo_x4)"

definition demo_x6 :: xsys where
  "demo_x6 = demo_x5\<lparr>xs_ex := snd (Submit ''op3'' 7 0 (demo_request []) (xs_ex demo_x5)),
     xs_ids := {''op3'', ''op2'', ''op1''}, xs_submitted := {''op3''}\<rparr>"

lemmas demo_xs = demo_x1_def demo_x2_def demo_x3_def demo_x4_def demo_x5_def demo_x6_def

lemma demo_default: "default_request u 7 (demo_request (x # xs)) = demo_request (x # xs)"
  by (simp add: default_request_def demo_request_def minute_def second_def)

lemma demo_pcs:
  "xs_pc demo_x5 0 = XRunning demo_job" "xs_pc demo_x5 (Suc 0) = XWaiting demo_job2 0 ''op1''"
  "ex_locker (xs_ex demo_x5) = demo_lock" "xs_ids demo_x5 = {''op2'', ''op1''}"
  by (simp_all add: demo_xs)

lemma demo_run_steps:
  "xstep xsys_init demo_x1" "xstep demo_x1 demo_x2" "xstep demo_x2 demo_x3" "xstep demo_x3 demo_x4"
  "xstep demo_x4 demo_x5"
proof -
  show "xstep xsys_init demo_x1"
    using execute [of xsys_init 0 "[]" 7 "demo_request ''op1''" "demo_request ''op1''"]
    by (simp add: demo_x1_def demo_default demo_job_def execute_guard_def IsLocked_def xsys_init_def
        NewExecutor_def NewInMemoryLocker_def)
  show "xstep demo_x1 demo_x2"
    using execute [of demo_x1 1 "[]" 7 "demo_request ''op2''" "demo_request ''op2''"]
    by (simp add: demo_x2_def demo_x1_def demo_default demo_job2_def execute_guard_def IsLocked_def
        xsys_init_def NewExecutor_def NewInMemoryLocker_def numeral_2_eq_2)
  show "xstep demo_x2 demo_x3"
    unfolding demo_x3_def
    by (rule take)
      (simp_all add: demo_x2_def demo_x1_def demo_job_def demo_request_def demo_lock_def
        acquire_section_def xsys_init_def NewExecutor_def NewInMemoryLocker_def)
  show "xstep demo_x3 demo_x4"
    using registered [of demo_x3 0 demo_job] by (simp add: demo_x4_def demo_x3_def demo_job_def)
  have "acquire_section demo_lock ''p1'' ''op2'' = (WaitFor 0 ''op1'', demo_lock)"
    by (simp add: demo_lock_def acquire_section_def NewInMemoryLocker_def)
  then show "xstep demo_x4 demo_x5"
    unfolding demo_x5_def
    by (intro block) (simp_all add: demo_x4_def demo_x3_def demo_x2_def demo_job2_def demo_request_def)
qed

lemma demo_reach: "xreach demo_x5"
  using xreach_init demo_run_steps xreach_step by metis

lemma demo_reach_submitted: "xreach demo_x6"
proof -
  have "default_request ''op3'' 7 (demo_request []) = demo_request ''op3''"
    by (simp add: default_request_def demo_request_def minute_def second_def)
  from submit [OF this, of demo_x5 0] have "xstep demo_x5 demo_x6"
    by (simp add: demo_x6_def demo_pcs demo_request_def) (simp add: demo_xs xsys_init_def)
  with demo_reach show ?thesis by (rule xreach_step)
qed

section \<open>The project lock\<close>

text \<open>
  C2: One operation per project. In every reachable state of any number of goroutines, at most one is
  between taking a project's lock and giving it back, and the lock names its operation.
\<close>

theorem one_operation_per_project:
  assumes "xreach s"
    and "lpc_of (xs_pc s t) = LHolding p i" and "lpc_of (xs_pc s u) = LHolding p k"
  shows "t = u \<and> IsLocked (ex_locker (xs_ex s)) p = (True, i)"
proof -
  note inv = xreach_lock [OF assms(1)]
  have "t = u" using lsys_excl [OF inv, of t p i u k] assms(2,3) by simp
  moreover have "lock_holder (ex_locker (xs_ex s)) p = Some i"
    using lsys_held [OF inv, of t p i] assms(2) by simp
  ultimately show ?thesis by (auto simp: lock_holder_def IsLocked_def)
qed

lemma one_operation_per_project_witness:
  "xreach demo_x5 \<and> lpc_of (xs_pc demo_x5 0) = LHolding ''p1'' ''op1'' \<and>
     IsLocked (ex_locker (xs_ex demo_x5)) ''p1'' = (True, ''op1'')"
  using one_operation_per_project [OF demo_reach, of 0 "''p1''" "''op1''" 0 "''op1''"] demo_reach
  by (simp add: demo_pcs demo_job_def)

text \<open>
  C26: No wakeup is lost and no release panics. A goroutine blocked on a project either waits on a channel
  that is closed already, so it can go on, or some goroutine holds that project, the channel is the
  one of its lock entry, and its release succeeds and closes it.
\<close>

theorem waiter_is_woken:
  assumes "xreach s" and "xs_pc s t = XWaiting j c h"
  shows "c \<in> set (lk_closed (ex_locker (xs_ex s))) \<or>
    (\<exists>u i l. lpc_of (xs_pc s u) = LHolding (job_project j) i \<and>
       release (ex_locker (xs_ex s)) (job_project j) = Some l \<and> c \<in> set (lk_closed l))"
proof -
  note inv = xreach_lock [OF assms(1)]
  show ?thesis
  proof (cases "c \<in> set (lk_closed (ex_locker (xs_ex s)))")
    case False
    then obtain e where e: "lk_locks (ex_locker (xs_ex s)) (job_project j) = Some e" "le_ch e = c"
      using lsys_waits [OF inv, of t "job_project j" "job_id j" c h] assms(2) by auto
    then obtain u where "lpc_of (xs_pc s u) = LHolding (job_project j) (le_holder e)"
      using lsys_owned [OF inv, of "job_project j" "le_holder e"] by (auto simp: lock_holder_def)
    moreover obtain l where l: "release (ex_locker (xs_ex s)) (job_project j) = Some l"
      using release_total [OF lsys_wf [OF inv]] by auto
    moreover have "c \<in> set (lk_closed l)" using l e by (auto simp: release_def split: if_splits)
    ultimately show ?thesis by blast
  qed simp
qed

lemma waiter_is_woken_witness:
  "xs_pc demo_x5 1 = XWaiting demo_job2 0 ''op1'' \<and> 0 \<notin> set (lk_closed demo_lock) \<and>
     (\<exists>u i l. lpc_of (xs_pc demo_x5 u) = LHolding ''p1'' i \<and>
        release demo_lock ''p1'' = Some l \<and> 0 \<in> set (lk_closed l))"
proof -
  have "0 \<notin> set (lk_closed demo_lock)"
    by (simp add: demo_lock_def acquire_section_def NewInMemoryLocker_def)
  then show ?thesis
    using waiter_is_woken [OF demo_reach, of 1 demo_job2 0 "''op1''"]
    by (simp add: demo_pcs demo_job2_def)
qed

text \<open>
  A lock given back can be taken again, by anyone: release never panics on a well-formed locker,
  frees exactly its own project, and the next attempt on that project succeeds.
\<close>

lemma release_then_acquire:
  assumes "locker_wf l"
  shows "\<exists>l'. release l p = Some l' \<and> locker_wf l' \<and> lock_holder l' = (lock_holder l)(p := None) \<and>
    fst (acquire_section l' p op) = Acquired"
proof -
  obtain l' where r: "release l p = Some l'" using release_total [OF assms] by blast
  have "try_take (do_release l p) p op \<noteq> None" by (rule lk.acq_after_rel [OF assms])
  then have "fst (acquire_section l' p op) = Acquired"
    using r by (auto simp: do_release_def try_take_def split: prod.splits acquire_outcome.splits)
  then show ?thesis using r locker_wf_release [OF assms r] release_holder [OF r] by blast
qed

lemma release_then_acquire_witness:
  "locker_wf demo_lock \<and> lock_holder demo_lock ''p1'' = Some ''op1'' \<and>
   (\<exists>l'. release demo_lock ''p1'' = Some l' \<and> locker_wf l' \<and>
      lock_holder l' = (lock_holder demo_lock)(''p1'' := None) \<and>
      fst (acquire_section l' ''p1'' ''op2'') = Acquired)"
proof -
  have "locker_wf demo_lock"
    using locker_wf_acquire [OF locker_wf_new] by (metis demo_lock_def prod.collapse)
  moreover have "lock_holder demo_lock ''p1'' = Some ''op1''"
    by (simp add: demo_lock_def acquire_section_def NewInMemoryLocker_def lock_holder_def)
  ultimately show ?thesis using release_then_acquire [of demo_lock "''p1''" "''op2''"] by blast
qed

section \<open>The priority queue\<close>

text \<open>
  C21: The queue is a priority queue. A worker that drains what was enqueued receives exactly those
  requests, each with its creation time filled in, by falling priority and, among equal priorities,
  by creation time.
\<close>

theorem queue_drains_in_order:
  "mset (drain try_deq (length rs) (foldl (Enqueue now) NewPriorityQueue rs)) = mset (map (stamped now) rs) \<and>
   sorted (map req_key (drain try_deq (length rs) (foldl (Enqueue now) NewPriorityQueue rs)))"
proof -
  let ?q = "foldl (Enqueue now) NewPriorityQueue rs"
  have q: "queue_inv ?q \<and> queue_bag ?q = mset (map (stamped now) rs)"
    using pq.enq_all [of NewPriorityQueue now rs] by (simp add: queue_facts)
  then have "mset (drain try_deq (length rs) ?q) = mset (map (stamped now) rs)"
    using pq.drain_all [of ?q "length rs"] by simp
  moreover have "sorted (map req_key (drain try_deq (length rs) ?q))"
    using pq.drain_sorted q by blast
  ultimately show ?thesis ..
qed

text \<open>
  \<open>Dequeue\<close> on a well-formed queue: it blocks only on an empty open queue, reports closed only on an
  empty closed one, so a close never drops a queued request, and otherwise takes out a request that
  no other one precedes. The queue stays well formed.
\<close>

lemma Dequeue_takes_first:
  assumes "queue_inv q" and "Dequeue q = (out, q')"
  shows "queue_inv q' \<and> pq_closed q' = pq_closed q \<and>
    (case out of
       DeqBlocked \<Rightarrow> q' = q \<and> queue_bag q = {#} \<and> \<not> pq_closed q
     | DeqClosed \<Rightarrow> q' = q \<and> queue_bag q = {#} \<and> pq_closed q
     | DeqItem r \<Rightarrow> queue_bag q = add_mset r (queue_bag q') \<and>
         (\<forall>x \<in># queue_bag q. req_key r \<le> req_key x))"
  using assms by (rule Dequeue_correct)

lemma Dequeue_takes_first_witness:
  "\<exists>q' r. Dequeue (Enqueue 3 NewPriorityQueue (demo_request ''op1'')) = (DeqItem r, q') \<and>
     queue_inv q' \<and> queue_bag (Enqueue 3 NewPriorityQueue (demo_request ''op1'')) = add_mset r (queue_bag q')"
proof -
  let ?q = "Enqueue 3 NewPriorityQueue (demo_request ''op1'')"
  have inv: "queue_inv ?q" by (simp add: queue_facts)
  have ne: "queue_bag ?q \<noteq> {#}" by (simp add: queue_facts)
  obtain out q' where d: "Dequeue ?q = (out, q')" by fastforce
  show ?thesis
    using Dequeue_takes_first [OF inv d] d ne by (cases out) auto
qed

text \<open>
  Removing a queued operation takes out a request of that identifier and nothing else, and leaves
  a well-formed queue; if there is none, nothing changes.
\<close>

lemma RemoveAndReturn_exact:
  assumes "queue_inv q" and "RemoveAndReturn q op = (res, q')"
  shows "queue_inv q' \<and> pq_closed q' = pq_closed q \<and>
    (case res of
       None \<Rightarrow> q' = q \<and> (\<forall>r \<in># queue_bag q. req_id r \<noteq> op)
     | Some r \<Rightarrow> req_id r = op \<and> queue_bag q = add_mset r (queue_bag q'))"
  using assms by (rule RemoveAndReturn_correct)

lemma RemoveAndReturn_exact_witness:
  "\<exists>q' r. RemoveAndReturn (Enqueue 3 NewPriorityQueue (demo_request ''op1'')) ''op1'' = (Some r, q') \<and>
     queue_inv q' \<and> req_id r = ''op1'' \<and>
     queue_bag (Enqueue 3 NewPriorityQueue (demo_request ''op1'')) = add_mset r (queue_bag q')"
proof -
  let ?q = "Enqueue 3 NewPriorityQueue (demo_request ''op1'')"
  have inv: "queue_inv ?q" by (simp add: queue_facts)
  have bag: "queue_bag ?q = {#stamped 3 (demo_request ''op1'')#}" by (simp add: queue_facts)
  have "req_id (stamped 3 (demo_request ''op1'')) = ''op1''" by (simp add: stamped_def)
  moreover obtain res q' where d: "RemoveAndReturn ?q ''op1'' = (res, q')" by fastforce
  ultimately show ?thesis using RemoveAndReturn_exact [OF inv d] d bag by (cases res) auto
qed

section \<open>The executor\<close>

text \<open>
  C12: The tables are exact. In every reachable state the running table and the cancel table hold exactly
  the operations of the goroutines between registration and its deferred undoing, each with its own
  request and context, and the operations listed as running are on pairwise different projects.
\<close>

theorem running_tables_exact:
  assumes "xreach s"
  shows "(map_of (ex_running (xs_ex s)) op = Some ro \<longleftrightarrow>
      (\<exists>t j. listed (xs_pc s t) = Some j \<and> job_id j = op \<and> ro = \<lparr>ro_request = jb_req j, ro_result = None\<rparr>)) \<and>
    (map_of (ex_cancels (xs_ex s)) op = Some c \<longleftrightarrow>
      (\<exists>t j. listed (xs_pc s t) = Some j \<and> job_id j = op \<and> c = jb_ctx j)) \<and>
    distinct (map (\<lambda>r. sc_project (req_scope r)) (GetRunningOps (xs_ex s)))"
proof (intro conjI)
  note tab = xreach_table [OF assms, unfolded table_inv_def tabled_def]
  show run: "map_of (ex_running (xs_ex s)) op = Some ro \<longleftrightarrow>
      (\<exists>t j. listed (xs_pc s t) = Some j \<and> job_id j = op \<and> ro = \<lparr>ro_request = jb_req j, ro_result = None\<rparr>)"
    for op ro using tab by blast
  show "map_of (ex_cancels (xs_ex s)) op = Some c \<longleftrightarrow>
      (\<exists>t j. listed (xs_pc s t) = Some j \<and> job_id j = op \<and> c = jb_ctx j)"
    using tab by blast
  show "distinct (map (\<lambda>r. sc_project (req_scope r)) (GetRunningOps (xs_ex s)))"
    using xreach_projects [OF assms] tab by (simp add: GetRunningOps_def distinct_map comp_def)
qed

lemma running_tables_exact_witness:
  "map_of (ex_running (xs_ex demo_x5)) ''op1'' = Some \<lparr>ro_request = demo_request ''op1'', ro_result = None\<rparr> \<and>
   map_of (ex_cancels (xs_ex demo_x5)) ''op1'' = Some 0 \<and>
   distinct (map (\<lambda>r. sc_project (req_scope r)) (GetRunningOps (xs_ex demo_x5)))"
proof -
  have "listed (xs_pc demo_x5 0) = Some demo_job" "job_id demo_job = ''op1''" "jb_ctx demo_job = 0"
    "jb_req demo_job = demo_request ''op1''"
    by (simp_all add: demo_pcs demo_job_def)
  then show ?thesis
    using running_tables_exact [OF demo_reach, of "''op1''"
        "\<lparr>ro_request = demo_request ''op1'', ro_result = None\<rparr>" 0] by metis
qed

text \<open>
  C30: Cancelling a running operation cancels that operation only: the context whose cancel function the
  table holds under an identifier belongs to the one goroutine that runs this operation, and no other
  goroutine has a job with that context.
\<close>

theorem cancel_hits_one:
  assumes "xreach s" and "Cancel op t1 t2 (xs_ex s) = ((None, Some c), ex')"
  shows "ex' = xs_ex s \<and> (\<exists>t j. listed (xs_pc s t) = Some j \<and> job_id j = op \<and> jb_ctx j = c \<and>
    (\<forall>u k. job_of (xs_pc s u) = Some k \<longrightarrow> jb_ctx k = c \<longrightarrow> u = t))"
proof -
  have c: "map_of (ex_cancels (xs_ex s)) op = Some c" and ex: "ex' = xs_ex s"
    using assms(2) by (auto simp: Cancel_def split: option.splits prod.splits)
  then obtain t j where t: "listed (xs_pc s t) = Some j" "job_id j = op" "c = jb_ctx j"
    using xreach_table [OF assms(1)] unfolding table_inv_def tabled_def by blast
  have "u = t" if "job_of (xs_pc s u) = Some k" "jb_ctx k = c" for u k
    using xreach_ctx [OF assms(1)] listed_job [OF t(1)] that t(3) unfolding ctx_inv_def by metis
  then show ?thesis using ex t by blast
qed

lemma cancel_hits_one_witness:
  "Cancel ''op1'' 8 9 (xs_ex demo_x5) = ((None, Some 0), xs_ex demo_x5) \<and>
   (\<exists>t j. listed (xs_pc demo_x5 t) = Some j \<and> job_id j = ''op1'' \<and> jb_ctx j = 0 \<and>
     (\<forall>u k. job_of (xs_pc demo_x5 u) = Some k \<longrightarrow> jb_ctx k = 0 \<longrightarrow> u = t))"
proof -
  have "map_of (ex_cancels (xs_ex demo_x5)) ''op1'' = Some 0"
    by (simp add: demo_xs register_def)
  then have "Cancel ''op1'' 8 9 (xs_ex demo_x5) = ((None, Some 0), xs_ex demo_x5)"
    by (simp add: Cancel_def)
  then show ?thesis using cancel_hits_one [OF demo_reach] by blast
qed

text \<open>
  C11: No submission is lost. An operation that was submitted is in the queue, or a goroutine has it (a
  worker runs it, or a cancellation is about to record it), or it is among the records ever added, or
  a worker discarded it because the server's context had ended.
\<close>

theorem no_submission_lost:
  assumes "xreach s" and "op \<in> xs_submitted s"
  shows "op \<in># queue_ids (xs_ex s) \<or> (\<exists>t. async (xs_pc s t) = Some op) \<or>
    op \<in> logged s \<or> op \<in> xs_dropped s"
  using xreach_accounted [OF assms(1)] assms(2)
  by (auto simp: accounted_def ran_def asyncs_at)

lemma no_submission_lost_witness:
  "''op3'' \<in># queue_ids (xs_ex demo_x6) \<or> (\<exists>t. async (xs_pc demo_x6 t) = Some ''op3'') \<or>
    ''op3'' \<in> logged demo_x6 \<or> ''op3'' \<in> xs_dropped demo_x6"
  by (rule no_submission_lost [OF demo_reach_submitted]) (simp add: demo_x6_def)

text \<open>
  C37: The history holds the last 256 records ever added, in order, and \<open>GetOperation\<close> answers from it: a
  running operation is reported as running, any other by its newest record among these, or not at all.
\<close>

theorem history_is_window:
  assumes "xreach s"
  shows "ex_history (xs_ex s) = window 256 (xs_log s) \<and>
    GetOperation (xs_ex s) op =
      (if \<exists>t j. listed (xs_pc s t) = Some j \<and> job_id j = op
       then Some \<lparr>or_request = ro_request (the (map_of (ex_running (xs_ex s)) op)),
          or_result = Some \<lparr>res_request = op, res_status = OpStatusRunning, res_started = None,
                            res_finished = None, res_error = None, res_steps = []\<rparr>,
          or_error = [], or_finished = 0\<rparr>
       else find (\<lambda>rec. req_id (or_request rec) = op) (rev (window 256 (xs_log s))))"
proof -
  have h: "ex_history (xs_ex s) = window 256 (xs_log s)"
    using xreach_history [OF assms] by (simp add: history_inv_def)
  note tab = xreach_table [OF assms, unfolded table_inv_def tabled_def]
  have iff: "(\<exists>t j. listed (xs_pc s t) = Some j \<and> job_id j = op) \<longleftrightarrow>
      map_of (ex_running (xs_ex s)) op \<noteq> None"
    using tab by blast
  show ?thesis
  proof (cases "map_of (ex_running (xs_ex s)) op")
    case None
    then show ?thesis using h iff by (auto simp: GetOperation_def)
  next
    case (Some ro)
    then show ?thesis using h iff by (simp add: GetOperation_def)
  qed
qed

lemma history_is_window_witness:
  "ex_history (xs_ex demo_x5) = window 256 (xs_log demo_x5) \<and>
   GetOperation (xs_ex demo_x5) ''op1'' = Some \<lparr>or_request = demo_request ''op1'',
     or_result = Some \<lparr>res_request = ''op1'', res_status = OpStatusRunning, res_started = None,
                       res_finished = None, res_error = None, res_steps = []\<rparr>,
     or_error = [], or_finished = 0\<rparr>"
proof -
  have "listed (xs_pc demo_x5 0) = Some demo_job \<and> job_id demo_job = ''op1''"
    by (simp add: demo_pcs demo_job_def)
  then have "\<exists>t j. listed (xs_pc demo_x5 t) = Some j \<and> job_id j = ''op1''" by blast
  moreover have "map_of (ex_running (xs_ex demo_x5)) ''op1'' =
      Some \<lparr>ro_request = demo_request ''op1'', ro_result = None\<rparr>"
    by (simp add: demo_xs register_def)
  ultimately show ?thesis using history_is_window [OF demo_reach, of "''op1''"] by simp
qed

text \<open>
  \<open>Execute\<close> refuses a locked project with status 409 and the holder's operation, and changes
  nothing. On a free project it returns what the operation returned; the lock and the tables are as
  before, and the operation is the newest record exactly when it returned a result, which carries
  its identifier.
\<close>

lemma Execute_exact:
  assumes "locker_wf (ex_locker ex)" and "0 < ex_max ex"
    and "default_request uuid now req = req'" and "map_of (ex_running ex) (req_id req') = None"
    and "map_of (ex_cancels ex) (req_id req') = None"
  shows "case lk_locks (ex_locker ex) (sc_project (req_scope req')) of
      Some e \<Rightarrow> \<exists>m. Execute xe uuid now ctx req ex s =
        Some (Inl (AppError ErrOperationInProgress m (OperationIDDetails (le_holder e)) 409 None), ex, s)
    | None \<Rightarrow> \<exists>out ex' s'. Execute xe uuid now ctx req ex s = Some (out, ex', s') \<and>
        lock_holder (ex_locker ex') = lock_holder (ex_locker ex) \<and> ex_queue ex' = ex_queue ex \<and>
        map_of (ex_running ex') = map_of (ex_running ex) \<and>
        map_of (ex_cancels ex') = map_of (ex_cancels ex) \<and>
        (case out of
           Inl err \<Rightarrow> ex_history ex' = ex_history ex
         | Inr r \<Rightarrow> res_request r = req_id req' \<and> or_request (last (ex_history ex')) = req' \<and>
             or_result (last (ex_history ex')) = Some r)"
proof (cases "lk_locks (ex_locker ex) (sc_project (req_scope req'))")
  case (Some e)
  then show ?thesis
    using assms(3) by (simp add: Execute_def Let_def execute_guard_def IsLocked_def)
next
  case None
  have g: "execute_guard ex (sc_project (req_scope req')) = None"
    using None by (simp add: execute_guard_def IsLocked_def)
  obtain out ex' s' where run: "run xe ctx req' ex s = Some (out, ex', s')"
    and lk: "lock_holder (ex_locker ex') = lock_holder (ex_locker ex)" "ex_queue ex' = ex_queue ex"
    and tabs: "map_of (ex_running ex') = (map_of (ex_running ex))(req_id req' := None)"
      "map_of (ex_cancels ex') = (map_of (ex_cancels ex))(req_id req' := None)"
    and h: "\<exists>now s''. out = fst (run_body xe req' s'') \<and> ex_history ex' = ex_history (run_history req' now out ex)"
    using run_free [OF assms(1) None refl, of xe ctx s] by blast
  have "map_of (ex_running ex') = map_of (ex_running ex)" "map_of (ex_cancels ex') = map_of (ex_cancels ex)"
    using tabs assms(4,5) by (metis fun_upd_triv)+
  moreover have "case out of Inl err \<Rightarrow> ex_history ex' = ex_history ex
      | Inr r \<Rightarrow> res_request r = req_id req' \<and> or_request (last (ex_history ex')) = req' \<and>
          or_result (last (ex_history ex')) = Some r"
  proof -
    obtain now s'' where o: "out = fst (run_body xe req' s'')"
      "ex_history ex' = ex_history (run_history req' now out ex)" using h by blast
    show ?thesis
    proof (cases out)
      case (Inl err)
      then show ?thesis using o by (simp add: run_history_def)
    next
      case (Inr r)
      then have "res_request r = req_id req'"
        using o(1) run_body_request [of xe req' s'' r] by (metis prod.collapse)
      then show ?thesis
        using o(2) Inr by (simp add: run_history_def addHistory_def result_record_def Let_def)
    qed
  qed
  moreover have "Execute xe uuid now ctx req ex s = Some (out, ex', s')"
    using g run assms(3) by (simp add: Execute_def Let_def)
  ultimately show ?thesis using None lk by auto
qed

definition demo_xenv :: "nat xenv" where
  "demo_xenv = \<lparr>xe_docker = demo_good, xe_resolve = (\<lambda>p w. (Inr demo_project, w)), xe_audit = None\<rparr>"

lemma Execute_exact_witness:
  "(\<exists>m. Execute demo_xenv [] 7 1 (demo_request ''op2'') (NewExecutor\<lparr>ex_locker := demo_lock\<rparr>) demo_state =
     Some (Inl (AppError ErrOperationInProgress m (OperationIDDetails ''op1'') 409 None),
           NewExecutor\<lparr>ex_locker := demo_lock\<rparr>, demo_state)) \<and>
   (\<exists>out ex' s'. Execute demo_xenv [] 7 1 (demo_request ''op2'') NewExecutor demo_state = Some (out, ex', s') \<and>
     lock_holder (ex_locker ex') = lock_holder (ex_locker NewExecutor))"
proof -
  have wf: "locker_wf demo_lock"
    using locker_wf_acquire [OF locker_wf_new] by (metis demo_lock_def prod.collapse)
  have d: "default_request [] 7 (demo_request ''op2'') = demo_request ''op2''" by (rule demo_default)
  have held: "lk_locks demo_lock ''p1'' = Some \<lparr>le_holder = ''op1'', le_ch = 0\<rparr>"
    by (simp add: demo_lock_def acquire_section_def NewInMemoryLocker_def)
  have new: "ex_running NewExecutor = []" "ex_cancels NewExecutor = []" "0 < ex_max NewExecutor"
    "locker_wf (ex_locker NewExecutor)" "lk_locks (ex_locker NewExecutor) ''p1'' = None"
    by (simp_all add: NewExecutor_def locker_wf_new, simp add: NewInMemoryLocker_def)
  have busy: "\<exists>m. Execute demo_xenv [] 7 1 (demo_request ''op2'') (NewExecutor\<lparr>ex_locker := demo_lock\<rparr>) demo_state =
      Some (Inl (AppError ErrOperationInProgress m (OperationIDDetails ''op1'') 409 None),
           NewExecutor\<lparr>ex_locker := demo_lock\<rparr>, demo_state)"
    using Execute_exact [of "NewExecutor\<lparr>ex_locker := demo_lock\<rparr>" "[]" 7 "demo_request ''op2''",
        OF _ _ d, of demo_xenv 1 demo_state] wf new held by simp
  have free: "\<exists>out ex' s'. Execute demo_xenv [] 7 1 (demo_request ''op2'') NewExecutor demo_state = Some (out, ex', s') \<and>
      lock_holder (ex_locker ex') = lock_holder (ex_locker NewExecutor)"
    using Execute_exact [of NewExecutor "[]" 7 "demo_request ''op2''", OF _ _ d, of demo_xenv 1 demo_state] new
    by (simp, blast)
  show ?thesis using busy free by blast
qed

text \<open>
  A queued operation that a worker runs to a result is recorded twice, once by \<open>run\<close> and once by
  \<open>executeQueued\<close>, with the same request and result; one that fails is recorded once, with its error.
\<close>

lemma queued_recorded_twice:
  assumes "locker_wf (ex_locker ex)" and "lk_locks (ex_locker ex) (sc_project (req_scope req)) = None"
    and "1 < ex_max ex"
  shows "\<exists>ex' s' pre recs. executeQueued xe ctx req ex s = Some (ex', s') \<and>
    ex_history ex' = pre @ recs \<and> lock_holder (ex_locker ex') = lock_holder (ex_locker ex) \<and>
    ((\<exists>err. map or_error recs = [error_string err] \<and> map or_result recs = [None]) \<or>
     (\<exists>r. map or_result recs = [Some r, Some r])) \<and>
    list_all (\<lambda>rec. or_request rec = req) recs"
proof -
  obtain out ex1 s1 where run: "run xe ctx req ex s = Some (out, ex1, s1)"
    and lk: "lock_holder (ex_locker ex1) = lock_holder (ex_locker ex)"
    and h: "\<exists>now s''. ex_history ex1 = ex_history (run_history req now out ex)"
    using run_free [OF assms(1,2) refl, of xe ctx s] by blast
  have mx: "ex_max ex1 = ex_max ex"
    using run by (auto simp: run_def run_history_def addHistory_def Let_def unregister_def register_def
        split: acquire_outcome.splits prod.splits sum.splits)
  obtain now s2 where t: "time_now (xe_docker xe) s1 = (now, s2)" by fastforce
  obtain now1 where h1: "ex_history ex1 = ex_history (run_history req now1 out ex)" using h by blast
  let ?ex' = "addHistory (queued_record req now out) ex1"
  have eq: "executeQueued xe ctx req ex s = Some (?ex', s2)" by (simp add: executeQueued_def run t)
  have lk': "lock_holder (ex_locker ?ex') = lock_holder (ex_locker ex)" using lk by simp
  have snoc: "\<exists>pre. ex_history (addHistory rec e) = pre @ [rec]" for rec e
    by (simp add: addHistory_def Let_def)
  show ?thesis
  proof (cases out)
    case (Inl err)
    obtain pre where "ex_history ?ex' = pre @ [queued_record req now out]" using snoc by blast
    then show ?thesis
      using eq lk' Inl
      by - (rule exI [of _ ?ex'], rule exI [of _ s2], rule exI [of _ pre],
        rule exI [of _ "[queued_record req now out]"], auto simp: queued_record_def)
  next
    case (Inr r)
    then obtain pre1 where p1: "ex_history ex1 = pre1 @ [result_record req now1 r]"
      using h1 by (simp add: run_history_def addHistory_def Let_def)
    let ?rec = "queued_record req now out"
    have "\<exists>pre. ex_history ?ex' = pre @ [result_record req now1 r, ?rec]"
    proof (cases pre1)
      case Nil
      then show ?thesis using p1 mx assms(3) by (simp add: addHistory_def Let_def)
    next
      case (Cons x xs)
      then show ?thesis using p1 by (auto simp: addHistory_def Let_def)
    qed
    then obtain pre where "ex_history ?ex' = pre @ [result_record req now1 r, ?rec]" by blast
    then show ?thesis
      using eq lk' Inr
      by - (rule exI [of _ ?ex'], rule exI [of _ s2], rule exI [of _ pre],
        rule exI [of _ "[result_record req now1 r, ?rec]"], simp add: queued_record_def result_record_def)
  qed
qed

lemma queued_recorded_twice_witness:
  "\<exists>ex' s' pre recs. executeQueued demo_xenv 1 (demo_request ''op1'') NewExecutor demo_state = Some (ex', s') \<and>
    ex_history ex' = pre @ recs \<and> lock_holder (ex_locker ex') = lock_holder (ex_locker NewExecutor) \<and>
    ((\<exists>err. map or_error recs = [error_string err] \<and> map or_result recs = [None]) \<or>
     (\<exists>r. map or_result recs = [Some r, Some r])) \<and>
    list_all (\<lambda>rec. or_request rec = demo_request ''op1'') recs"
  by (rule queued_recorded_twice)
    (simp_all add: NewExecutor_def locker_wf_new, simp add: NewInMemoryLocker_def)

text \<open>
  C29: \<open>Cancel\<close> answers for every state of an operation. Called in any reachable state: if the operation is
  listed as running, the context cancelled is its own and nothing else changes; if it is queued, exactly
  its request is taken out of the queue, the history gets one record of it, as cancelled, which
  \<open>GetOperation\<close> then finds, and the lock and the tables stay; otherwise (unknown, ended, or waiting for
  the lock of its project) the answer is 404 and nothing changes.
\<close>

theorem Cancel_answers:
  assumes "xreach s" and "Cancel op t1 t2 (xs_ex s) = (out, ex')"
  shows "if \<exists>t j. listed (xs_pc s t) = Some j \<and> job_id j = op
    then ex' = xs_ex s \<and> (\<exists>t j. listed (xs_pc s t) = Some j \<and> job_id j = op \<and> out = (None, Some (jb_ctx j)))
    else if op \<in># queue_ids (xs_ex s)
    then out = (None, None) \<and> op \<notin># queue_ids ex' \<and>
      (\<exists>rec r. ex' = (xs_ex s)\<lparr>ex_queue := ex_queue ex', ex_history := window 256 (xs_log s @ [rec])\<rparr> \<and>
        queue_bag (ex_queue (xs_ex s)) = add_mset (or_request rec) (queue_bag (ex_queue ex')) \<and>
        req_id (or_request rec) = op \<and> or_result rec = Some r \<and> res_request r = op \<and>
        res_status r = OpStatusCancelled \<and> GetOperation ex' op = Some rec)
    else (\<exists>m. out = (Some (AppError ErrOperationNotFound m NilDetails 404 None), None)) \<and> ex' = xs_ex s"
proof -
  note tab = xreach_table [OF assms(1), unfolded table_inv_def tabled_def]
  have inv: "queue_inv (ex_queue (xs_ex s))" and one: "count (queue_ids (xs_ex s)) op \<le> 1"
    using xreach_ids [OF assms(1)] by (simp_all add: ids_inv_def ids_ok_def)
  note h = xreach_history [OF assms(1), unfolded history_inv_def]
  show ?thesis
  proof (cases "\<exists>t j. listed (xs_pc s t) = Some j \<and> job_id j = op")
    case True
    then obtain t j where t: "listed (xs_pc s t) = Some j" "job_id j = op" by blast
    then have "map_of (ex_cancels (xs_ex s)) op = Some (jb_ctx j)" using tab by blast
    then have "out = (None, Some (jb_ctx j))" "ex' = xs_ex s" using assms(2) by (simp_all add: Cancel_def)
    then show ?thesis using t True by auto
  next
    case False
    then have none: "map_of (ex_cancels (xs_ex s)) op = None" "map_of (ex_running (xs_ex s)) op = None"
      using tab by (metis not_Some_eq)+
    obtain res q where rm: "RemoveAndReturn (ex_queue (xs_ex s)) op = (res, q)" by fastforce
    note rc = RemoveAndReturn_correct [OF inv rm]
    show ?thesis
    proof (cases res)
      case None
      then have "op \<notin># queue_ids (xs_ex s)" using rc by (auto simp: queue_ids_def)
      then show ?thesis using False assms(2) rm None none rc
        by (auto simp: Cancel_def cancel_not_found_def)
    next
      case (Some req)
      let ?rec = "cancelled_record op t1 t2 req"
      have ex': "out = (None, None)" "ex' = addHistory ?rec ((xs_ex s)\<lparr>ex_queue := q\<rparr>)"
        using assms(2) rm Some none by (auto simp: Cancel_def)
      have id: "req_id req = op" and bag: "queue_bag (ex_queue (xs_ex s)) = add_mset req (queue_bag q)"
        using rc Some by auto
      have "GetOperation ex' op = Some ?rec"
        using none id ex'(2) by (simp add: GetOperation_def addHistory_def Let_def cancelled_record_def)
      moreover have "ex' = (xs_ex s)\<lparr>ex_queue := q, ex_history := window 256 (xs_log s @ [?rec])\<rparr>"
        using h ex'(2) by (simp add: addHistory_window)
      moreover have "op \<notin># queue_ids ex'" using one id bag ex'(2)
        unfolding not_in_iff by (simp add: queue_ids_def)
      ultimately show ?thesis using False ex' id bag
        by (auto simp: queue_ids_def cancelled_record_def intro!: exI [of _ ?rec])
    qed
  qed
qed

lemma Cancel_answers_witness:
  "\<exists>out ex'. Cancel ''op3'' 8 9 (xs_ex demo_x6) = (out, ex') \<and> out = (None, None) \<and>
     ''op3'' \<in># queue_ids (xs_ex demo_x6) \<and> ''op3'' \<notin># queue_ids ex' \<and>
     (\<exists>rec. GetOperation ex' ''op3'' = Some rec)"
proof -
  have d: "default_request ''op3'' 7 (demo_request []) = demo_request ''op3''"
    by (simp add: default_request_def demo_request_def minute_def second_def)
  have "queue_inv (ex_queue (xs_ex demo_x5))"
    using xreach_ids [OF demo_reach] by (simp add: ids_inv_def)
  from Submit_queue(2) [OF this d] have q: "''op3'' \<in># queue_ids (xs_ex demo_x6)"
    by (simp add: demo_x6_def)
  have "map_of (ex_cancels (xs_ex demo_x6)) ''op3'' = None"
    by (simp add: demo_xs register_def xsys_init_def NewExecutor_def)
  then have l: "\<not> (\<exists>t j. listed (xs_pc demo_x6 t) = Some j \<and> job_id j = ''op3'')"
    using xreach_table [OF demo_reach_submitted] unfolding table_inv_def tabled_def by (metis option.distinct(1))
  obtain out ex' where c: "Cancel ''op3'' 8 9 (xs_ex demo_x6) = (out, ex')" by fastforce
  from Cancel_answers [OF demo_reach_submitted c] have "out = (None, None) \<and> ''op3'' \<notin># queue_ids ex' \<and>
    (\<exists>rec. GetOperation ex' ''op3'' = Some rec)"
    unfolding if_not_P [OF l] if_P [OF q] by blast
  then show ?thesis using q c by blast
qed


end
