(* ===== verification/Lifecycle.thy ===== *)
theory Lifecycle
  imports ExecProps
begin

text \<open>
  What the executor promises, as a machine of its own: an operation is queued or called, waits for its
  project, runs alone on it, and ends, and never goes back. The sections of
  \<open>internal/orchestrator/executor.go\<close>, interleaved in any way, refine it.
\<close>

section \<open>The promise\<close>

datatype life = Fresh | Queued OperationRequest | Waiting OperationRequest | Running OperationRequest | Ended

abbreviation project_of :: "OperationRequest \<Rightarrow> ProjectID" where
  "project_of r \<equiv> sc_project (req_scope r)"

text \<open>
  The next operation from the queue is one of the highest priority and, among these, the oldest; an
  operation starts only on a project on which none runs.
\<close>

inductive life_step :: "(string \<Rightarrow> life) \<Rightarrow> (string \<Rightarrow> life) \<Rightarrow> bool" where
  queues: "A (req_id r) = Fresh \<Longrightarrow> life_step A (A(req_id r := Queued r))"
| calls: "A (req_id r) = Fresh \<Longrightarrow> life_step A (A(req_id r := Waiting r))"
| takes: "A (req_id r) = Queued r \<Longrightarrow> (\<forall>i r'. A i = Queued r' \<longrightarrow> req_key r \<le> req_key r') \<Longrightarrow>
    life_step A (A(req_id r := Waiting r))"
| withdraws: "A (req_id r) = Queued r \<Longrightarrow> life_step A (A(req_id r := Ended))"
| starts: "A (req_id r) = Waiting r \<Longrightarrow> (\<forall>i r'. A i = Running r' \<longrightarrow> project_of r' \<noteq> project_of r) \<Longrightarrow>
    life_step A (A(req_id r := Running r))"
| gives_up: "A (req_id r) = Waiting r \<Longrightarrow> life_step A (A(req_id r := Ended))"
| ends: "A (req_id r) = Running r \<Longrightarrow> life_step A (A(req_id r := Ended))"

inductive life_reach :: "(string \<Rightarrow> life) \<Rightarrow> bool" where
  life_init: "life_reach (\<lambda>_. Fresh)"
| life_more: "life_reach A \<Longrightarrow> life_step A A' \<Longrightarrow> life_reach A'"

text \<open>What follows for the promise itself: operations of one project exclude each other.\<close>

lemma life_exclusive:
  "life_reach A \<Longrightarrow> A i = Running r \<Longrightarrow> A k = Running r' \<Longrightarrow> project_of r = project_of r' \<Longrightarrow> i = k"
proof (induction arbitrary: i k r r' rule: life_reach.induct)
  case (life_more A A')
  note IH = life_more.IH
  from life_more(2,4-6) show ?case by cases (auto split: if_splits dest: IH)
qed simp

section \<open>The abstraction\<close>

fun waiting_req :: "xpc \<Rightarrow> OperationRequest option" where
  "waiting_req (XTrying j) = Some (jb_req j)"
| "waiting_req (XWaiting j c h) = Some (jb_req j)"
| "waiting_req _ = None"

fun running_req :: "xpc \<Rightarrow> OperationRequest option" where
  "running_req (XHolding j) = Some (jb_req j)"
| "running_req (XRunning j) = Some (jb_req j)"
| "running_req (XDone j out) = Some (jb_req j)"
| "running_req (XUnregistered j out) = Some (jb_req j)"
| "running_req _ = None"

text \<open>
  The identifiers drawn, the queue as a bag, and what each goroutine waits with or runs determine the
  life of every operation; one that has none of these places and was drawn has ended.
\<close>

definition lives :: "string set \<Rightarrow> OperationRequest multiset \<Rightarrow> (nat \<Rightarrow> OperationRequest option) \<Rightarrow>
    (nat \<Rightarrow> OperationRequest option) \<Rightarrow> (string \<Rightarrow> life) \<Rightarrow> bool" where
  "lives I Q w v A \<longleftrightarrow>
     (\<forall>i. A i = Fresh \<longleftrightarrow> i \<notin> I) \<and>
     (\<forall>i r. A i = Queued r \<longleftrightarrow> r \<in># Q \<and> req_id r = i) \<and>
     (\<forall>i r. A i = Waiting r \<longleftrightarrow> (\<exists>t. w t = Some r) \<and> req_id r = i) \<and>
     (\<forall>i r. A i = Running r \<longleftrightarrow> (\<exists>t. v t = Some r) \<and> req_id r = i)"

definition waits :: "(nat \<Rightarrow> xpc) \<Rightarrow> nat \<Rightarrow> OperationRequest option" where
  "waits pcs t = waiting_req (pcs t)"

definition runs :: "(nat \<Rightarrow> xpc) \<Rightarrow> nat \<Rightarrow> OperationRequest option" where
  "runs pcs t = running_req (pcs t)"

lemma waits_upd [simp]: "waits (pcs(t := pc)) = (waits pcs)(t := waiting_req pc)"
  by (auto simp: waits_def)

lemma runs_upd [simp]: "runs (pcs(t := pc)) = (runs pcs)(t := running_req pc)"
  by (auto simp: runs_def)

definition represents :: "xsys \<Rightarrow> (string \<Rightarrow> life) \<Rightarrow> bool" where
  "represents s A \<longleftrightarrow>
     lives (xs_ids s) (queue_bag (ex_queue (xs_ex s))) (waits (xs_pc s)) (runs (xs_pc s)) A"

section \<open>Moves\<close>

text \<open>Who holds a request with a given identifier, in the queue or as a goroutine.\<close>

definition held :: "(nat \<Rightarrow> OperationRequest option) \<Rightarrow> OperationRequest set" where
  "held w = {r. \<exists>t. w t = Some r}"

lemma lives_alt: "lives I Q w v A \<longleftrightarrow>
    (\<forall>i. A i = Fresh \<longleftrightarrow> i \<notin> I) \<and> (\<forall>i r. A i = Queued r \<longleftrightarrow> r \<in># Q \<and> req_id r = i) \<and>
    (\<forall>i r. A i = Waiting r \<longleftrightarrow> r \<in> held w \<and> req_id r = i) \<and> (\<forall>i r. A i = Running r \<longleftrightarrow> r \<in> held v \<and> req_id r = i)"
  by (simp add: lives_def held_def)

lemma lives_move:
  assumes "lives I Q w v A" "i \<in> I'" "x \<noteq> Fresh" "\<And>k. k \<noteq> i \<Longrightarrow> k \<in> I' \<longleftrightarrow> k \<in> I"
    and "\<And>r. req_id r \<noteq> i \<Longrightarrow> (r \<in># Q' \<longleftrightarrow> r \<in># Q) \<and> (r \<in> held w' \<longleftrightarrow> r \<in> held w) \<and> (r \<in> held v' \<longleftrightarrow> r \<in> held v)"
    and "\<And>r. req_id r = i \<Longrightarrow> (r \<in># Q' \<longleftrightarrow> x = Queued r) \<and> (r \<in> held w' \<longleftrightarrow> x = Waiting r) \<and> (r \<in> held v' \<longleftrightarrow> x = Running r)"
    and "\<And>r. x = Queued r \<or> x = Waiting r \<or> x = Running r \<Longrightarrow> req_id r = i"
  shows "lives I' Q' w' v' (A(i := x))"
  unfolding lives_alt
proof (intro conjI allI)
  note a = assms(1) [unfolded lives_alt]
  fix k r
  show "((A(i := x)) k = Fresh) = (k \<notin> I')" using a assms(2-4) by (cases "k = i") auto
  show "((A(i := x)) k = Queued r) = (r \<in># Q' \<and> req_id r = k)"
    using a assms(5,6) [of r] assms(7) [of r] by (cases "k = i") auto
  show "((A(i := x)) k = Waiting r) = (r \<in> held w' \<and> req_id r = k)"
    using a assms(5,6) [of r] assms(7) [of r] by (cases "k = i") auto
  show "((A(i := x)) k = Running r) = (r \<in> held v' \<and> req_id r = k)"
    using a assms(5,6) [of r] assms(7) [of r] by (cases "k = i") auto
qed

text \<open>The places of an identifier exclude each other.\<close>

lemma lives_places:
  assumes "lives I Q w v A"
  shows "req_id r \<notin> I \<Longrightarrow> req_id r' = req_id r \<Longrightarrow> r' \<notin># Q \<and> r' \<notin> held w \<and> r' \<notin> held v"
    and "r \<in># Q \<Longrightarrow> req_id r' = req_id r \<Longrightarrow> (r' \<in># Q \<longrightarrow> r' = r) \<and> r' \<notin> held w \<and> r' \<notin> held v"
    and "r \<in> held w \<Longrightarrow> req_id r' = req_id r \<Longrightarrow> r' \<notin># Q \<and> (r' \<in> held w \<longrightarrow> r' = r) \<and> r' \<notin> held v"
    and "r \<in> held v \<Longrightarrow> req_id r' = req_id r \<Longrightarrow> r' \<notin># Q \<and> r' \<notin> held w \<and> (r' \<in> held v \<longrightarrow> r' = r)"
    and "r \<in># Q \<or> r \<in> held w \<or> r \<in> held v \<Longrightarrow> req_id r \<in> I"
  using assms unfolding lives_alt by (metis life.distinct life.inject)+

lemma held_new: "w t = None \<Longrightarrow> held (w(t := Some r)) = insert r (held w)"
proof (intro set_eqI iffI)
  fix x
  assume w: "w t = None" and "x \<in> insert r (held w)"
  then consider "x = r" | u where "w u = Some x" by (auto simp: held_def)
  then show "x \<in> held (w(t := Some r))"
  proof cases
    case 2
    then have "u \<noteq> t" using w by auto
    with 2 have "(w(t := Some r)) u = Some x" by simp
    then show ?thesis unfolding held_def by blast
  qed (auto simp: held_def)
qed (auto simp: held_def split: if_splits)

definition alone :: "(nat \<Rightarrow> OperationRequest option) \<Rightarrow> nat \<Rightarrow> OperationRequest \<Rightarrow> bool" where
  "alone w t r \<longleftrightarrow> w t = Some r \<and> (\<forall>u r'. w u = Some r' \<longrightarrow> req_id r' = req_id r \<longrightarrow> u = t)"

lemma held_gone: "alone w t r \<Longrightarrow> held (w(t := None)) = held w - {r}"
proof (intro set_eqI iffI)
  fix x
  assume a: "alone w t r"
  {
    assume "x \<in> held (w(t := None))"
    then obtain u where u: "u \<noteq> t" "w u = Some x" by (auto simp: held_def split: if_splits)
    have "x \<noteq> r" using a u unfolding alone_def by metis
    moreover have "x \<in> held w" using u(2) by (auto simp: held_def)
    ultimately show "x \<in> held w - {r}" by simp
  }
  assume "x \<in> held w - {r}"
  then obtain u where u: "w u = Some x" "x \<noteq> r" by (auto simp: held_def)
  then have "u \<noteq> t" using a unfolding alone_def by (metis option.inject)
  with u have "(w(t := None)) u = Some x" by simp
  then show "x \<in> held (w(t := None))" unfolding held_def by blast
qed

lemma alone_held: "alone w t r \<Longrightarrow> r \<in> held w"
  unfolding held_def alone_def by blast

lemma lives_queue:
  assumes "lives I Q w v A" "req_id r \<notin> I"
  shows "lives (insert (req_id r) I) (add_mset r Q) w v (A(req_id r := Queued r))"
  using lives_places(1) [OF assms] by (intro lives_move [OF assms(1)]) auto

lemma lives_call:
  assumes "lives I Q w v A" "req_id r \<notin> I" "w t = None"
  shows "lives (insert (req_id r) I) Q (w(t := Some r)) v (A(req_id r := Waiting r))"
  using lives_places(1) [OF assms(1,2)] by (intro lives_move [OF assms(1)]) (auto simp: held_new [of w t, OF assms(3)])

text \<open>A request leaves the queue, or the place of the goroutine that has it; no other has its identifier.\<close>

lemma lives_take:
  assumes "lives I (add_mset r Q) w v A" "r \<notin># Q" "w t = None"
  shows "lives I Q (w(t := Some r)) v (A(req_id r := Waiting r))"
  using lives_places(2,5) [OF assms(1), of r] assms(2)
  by (intro lives_move [OF assms(1)]) (auto simp: held_new [of w t, OF assms(3)])

lemma lives_withdraw:
  assumes "lives I (add_mset r Q) w v A" "r \<notin># Q"
  shows "lives I Q w v (A(req_id r := Ended))"
  using lives_places(2,5) [OF assms(1), of r] assms(2) by (intro lives_move [OF assms(1)]) auto

lemma lives_start:
  assumes "lives I Q w v A" "alone w t r" "v t = None"
  shows "lives I Q (w(t := None)) (v(t := Some r)) (A(req_id r := Running r))"
  using lives_places(3,5) [OF assms(1), of r] alone_held [OF assms(2)]
  by (intro lives_move [OF assms(1)]) (auto simp: held_new [of v t, OF assms(3)] held_gone [OF assms(2)])

lemma lives_give_up:
  assumes "lives I Q w v A" "alone w t r"
  shows "lives I Q (w(t := None)) v (A(req_id r := Ended))"
  using lives_places(3,5) [OF assms(1), of r] alone_held [OF assms(2)]
  by (intro lives_move [OF assms(1)]) (auto simp: held_gone [OF assms(2)])

lemma lives_end:
  assumes "lives I Q w v A" "alone v t r"
  shows "lives I Q w (v(t := None)) (A(req_id r := Ended))"
  using lives_places(4,5) [OF assms(1), of r] alone_held [OF assms(2)]
  by (intro lives_move [OF assms(1)]) (auto simp: held_gone [OF assms(2)])

section \<open>One section of the code\<close>

text \<open>No two goroutines have a request with the same identifier.\<close>

lemma job_alone:
  assumes "ids_inv s" "f (xs_pc s t) = Some r"
    and job: "\<And>pc q. f pc = Some q \<Longrightarrow> \<exists>j. job_of pc = Some j \<and> jb_req j = q"
  shows "alone (\<lambda>u. f (xs_pc s u)) t r"
proof -
  obtain j where j: "job_of (xs_pc s t) = Some j" "jb_req j = r" using job [OF assms(2)] by blast
  have "f (xs_pc s u) = Some q \<longrightarrow> req_id q = req_id r \<longrightarrow> u = t" for u q
  proof (intro impI)
    assume u: "f (xs_pc s u) = Some q" "req_id q = req_id r"
    obtain k where k: "job_of (xs_pc s u) = Some k" "jb_req k = q" using job [OF u(1)] by blast
    show "u = t" using job_unique [OF assms(1) k(1) j(1)] j(2) k(2) u(2) by simp
  qed
  then show ?thesis unfolding alone_def using assms(2) by blast
qed

lemma waiting_job: "waiting_req pc = Some q \<Longrightarrow> \<exists>j. job_of pc = Some j \<and> jb_req j = q"
  by (cases pc) auto

lemma running_job: "running_req pc = Some q \<Longrightarrow> \<exists>j. job_of pc = Some j \<and> jb_req j = q"
  by (cases pc) auto

lemma waits_alone: "ids_inv s \<Longrightarrow> waiting_req (xs_pc s t) = Some r \<Longrightarrow> alone (waits (xs_pc s)) t r"
  using job_alone [of s waiting_req t r] waiting_job by (simp add: waits_def [abs_def])

lemma runs_alone: "ids_inv s \<Longrightarrow> running_req (xs_pc s t) = Some r \<Longrightarrow> alone (runs (xs_pc s)) t r"
  using job_alone [of s running_req t r] running_job by (simp add: runs_def [abs_def])

text \<open>A goroutine that holds the lock of the project excludes that another takes it.\<close>

lemma running_lock:
  "running_req pc = Some r \<Longrightarrow> lpc_of pc = LHolding (project_of r) (req_id r)"
  by (cases pc) auto

lemma free_project:
  assumes "lsys_inv (lproj s)"
    and "acquire_section (ex_locker (xs_ex s)) p i = (Acquired, l)"
    and "runs (xs_pc s) t = Some r"
  shows "project_of r \<noteq> p"
proof
  assume "project_of r = p"
  then have "ls_pc (lproj s) t = LHolding p (req_id r)"
    using running_lock [of "xs_pc s t" r] assms(3) by (simp add: runs_def)
  from lsys_held [OF assms(1) this] show False
    using assms(2) by (auto simp: lock_holder_def acquire_section_def split: option.splits)
qed

text \<open>A queued request is the only one in the queue with its identifier.\<close>

lemma queue_alone:
  assumes "ids_inv s" "queue_bag (ex_queue (xs_ex s)) = add_mset r Q"
  shows "r \<notin># Q"
proof -
  have "\<And>i. count (add_mset (req_id r) (image_mset req_id Q)) i \<le> 1"
    using assms by (simp add: ids_inv_def ids_ok_def queue_ids_def)
  from count_add_ok(1) [OF this] show ?thesis by (metis image_eqI set_image_mset)
qed

text \<open>Every section either leaves the lives of the operations as they are or takes one step of the promise.\<close>

definition follows :: "xsys \<Rightarrow> (string \<Rightarrow> life) \<Rightarrow> bool" where
  "follows s A \<longleftrightarrow> (\<exists>A'. represents s A' \<and> (A' = A \<or> life_step A A'))"

lemma follows_step: "represents s A' \<Longrightarrow> life_step A A' \<Longrightarrow> follows s A"
  by (auto simp: follows_def)

lemma follows_same:
  assumes "represents s A" "xs_ids s' = xs_ids s"
    and "queue_bag (ex_queue (xs_ex s')) = queue_bag (ex_queue (xs_ex s))"
    and "xs_pc s' = (xs_pc s)(t := pc)" "waiting_req pc = waiting_req (xs_pc s t)"
    and "running_req pc = running_req (xs_pc s t)"
  shows "follows s' A"
proof -
  have "waits (xs_pc s') = waits (xs_pc s)" "runs (xs_pc s') = runs (xs_pc s)"
    unfolding assms(4) by (auto simp: waits_def runs_def assms(5,6))
  then show ?thesis using assms(1-3) by (auto simp: follows_def represents_def)
qed

lemma waits_idle [simp]: "waiting_req (xs_pc s t) = x \<Longrightarrow> waits (xs_pc s) t = x"
  by (simp add: waits_def)

lemma runs_idle [simp]: "running_req (xs_pc s t) = x \<Longrightarrow> runs (xs_pc s) t = x"
  by (simp add: runs_def)

lemma represents_min:
  assumes "represents s A" "\<forall>x \<in># queue_bag (ex_queue (xs_ex s)). req_key r \<le> req_key x"
  shows "\<forall>i r'. A i = Queued r' \<longrightarrow> req_key r \<le> req_key r'"
  using assms by (auto simp: represents_def lives_def)

lemma represents_free:
  assumes "represents s A" "\<And>t q. runs (xs_pc s) t = Some q \<Longrightarrow> project_of q \<noteq> p"
  shows "\<forall>i r'. A i = Running r' \<longrightarrow> project_of r' \<noteq> p"
  using assms by (auto simp: represents_def lives_def)

lemma represents_at:
  assumes "represents s A"
  shows "req_id r \<notin> xs_ids s \<Longrightarrow> A (req_id r) = Fresh"
    and "r \<in># queue_bag (ex_queue (xs_ex s)) \<Longrightarrow> A (req_id r) = Queued r"
    and "waiting_req (xs_pc s t) = Some r \<Longrightarrow> A (req_id r) = Waiting r"
    and "running_req (xs_pc s t) = Some r \<Longrightarrow> A (req_id r) = Running r"
  using assms by (auto simp: represents_def lives_def waits_def runs_def)

lemma fun_keep: "f t = x \<Longrightarrow> f(t := x) = f"
  by auto

lemma step_refines:
  assumes "xstep s s'" "ids_inv s" "lsys_inv (lproj s)" "represents s A"
  shows "follows s' A"
  using assms
proof (induction rule: xstep.induct)
  case (submit uuid now req req' s now')
  let ?r = "stamped now' req'"
  have i: "req_id ?r = req_id req'" by (simp add: stamped_def)
  have "queue_inv (ex_queue (xs_ex s))" using submit.prems(1) by (simp add: ids_inv_def)
  then have q: "queue_bag (ex_queue (snd (Submit uuid now now' req (xs_ex s)))) =
      add_mset ?r (queue_bag (ex_queue (xs_ex s)))"
    using submit.hyps(1) by (simp add: Submit_def Let_def Enqueue_bag)
  have "A (req_id ?r) = Fresh" using represents_at(1) [OF submit.prems(3), of ?r] submit.hyps(2) i by simp
  from queues [of A ?r, OF this] show ?case
    by (rule follows_step [rotated])
      (use lives_queue [OF submit.prems(3) [unfolded represents_def], of ?r] submit.hyps(2) i q in
        \<open>simp add: represents_def\<close>)
next
  case (execute s t uuid now req req')
  have "A (req_id req') = Fresh" using represents_at(1) [OF execute.prems(3)] execute.hyps(3) by simp
  from calls [of A req', OF this] show ?case
    by (rule follows_step [rotated])
      (use lives_call [OF execute.prems(3) [unfolded represents_def], of req' t] execute.hyps in
        \<open>simp add: represents_def fun_keep\<close>)
next
  case (dequeue s t req q)
  have "queue_inv (ex_queue (xs_ex s))" using dequeue.prems(1) by (simp add: ids_inv_def)
  note d = Dequeue_correct [OF this dequeue.hyps(2), simplified]
  then have bag: "queue_bag (ex_queue (xs_ex s)) = add_mset req (queue_bag q)" by blast
  have "A (req_id req) = Queued req" using represents_at(2) [OF dequeue.prems(3), of req] bag by simp
  moreover have "\<forall>i r'. A i = Queued r' \<longrightarrow> req_key req \<le> req_key r'"
    using represents_min [OF dequeue.prems(3)] d by blast
  ultimately show ?case
    by (intro follows_step [OF _ takes [of A req]])
      (use lives_take [OF dequeue.prems(3) [unfolded represents_def bag]
          queue_alone [OF dequeue.prems(1) bag], of t] dequeue.hyps in
        \<open>simp_all add: represents_def fun_keep\<close>)
next
  case (quit s t req q)
  have "queue_inv (ex_queue (xs_ex s))" using quit.prems(1) by (simp add: ids_inv_def)
  from Dequeue_correct [OF this quit.hyps(2), simplified]
  have bag: "queue_bag (ex_queue (xs_ex s)) = add_mset req (queue_bag q)" by blast
  have "A (req_id req) = Queued req" using represents_at(2) [OF quit.prems(3), of req] bag by simp
  then show ?case
    by (intro follows_step [OF _ withdraws [of A req]])
      (use lives_withdraw [OF quit.prems(3) [unfolded represents_def bag]
          queue_alone [OF quit.prems(1) bag]] quit.hyps in
        \<open>simp_all add: represents_def fun_keep\<close>)
next
  case (cancel_removed s t op req q)
  have "queue_inv (ex_queue (xs_ex s))" using cancel_removed.prems(1) by (simp add: ids_inv_def)
  from RemoveAndReturn_correct [OF this cancel_removed.hyps(2), simplified]
  have bag: "queue_bag (ex_queue (xs_ex s)) = add_mset req (queue_bag q)" by blast
  have "A (req_id req) = Queued req" using represents_at(2) [OF cancel_removed.prems(3), of req] bag by simp
  then show ?case
    by (intro follows_step [OF _ withdraws [of A req]])
      (use lives_withdraw [OF cancel_removed.prems(3) [unfolded represents_def bag]
          queue_alone [OF cancel_removed.prems(1) bag]] cancel_removed.hyps in
        \<open>simp_all add: represents_def fun_keep\<close>)
next
  case (take s t j l)
  let ?r = "jb_req j"
  have w: "waiting_req (xs_pc s t) = Some ?r" using take.hyps by simp
  have "A (req_id ?r) = Waiting ?r" by (rule represents_at(3) [OF take.prems(3) w])
  moreover have "\<forall>i r'. A i = Running r' \<longrightarrow> project_of r' \<noteq> project_of ?r"
    by (rule represents_free [OF take.prems(3) free_project [OF take.prems(2) take.hyps(2)]])
  ultimately show ?case
    by (intro follows_step [OF _ starts [of A ?r]])
      (use lives_start [OF take.prems(3) [unfolded represents_def] waits_alone [OF take.prems(1) w]]
          take.hyps in \<open>simp_all add: represents_def\<close>)
next
  case (timeout s t j c h)
  let ?r = "jb_req j"
  have w: "waiting_req (xs_pc s t) = Some ?r" using timeout.hyps by simp
  have "A (req_id ?r) = Waiting ?r" by (rule represents_at(3) [OF timeout.prems(3) w])
  from gives_up [of A ?r, OF this] show ?case
    by (rule follows_step [rotated])
      (use lives_give_up [OF timeout.prems(3) [unfolded represents_def] waits_alone [OF timeout.prems(1) w]]
          timeout.hyps in \<open>simp add: represents_def fun_keep\<close>)
next
  case (released s t j out l)
  let ?r = "jb_req j"
  have w: "running_req (xs_pc s t) = Some ?r" using released.hyps by simp
  have "A (req_id ?r) = Running ?r" by (rule represents_at(4) [OF released.prems(3) w])
  from ends [of A ?r, OF this] show ?case
    by (rule follows_step [rotated])
      (use lives_end [OF released.prems(3) [unfolded represents_def] runs_alone [OF released.prems(1) w]]
          released.hyps in \<open>simp add: represents_def fun_keep\<close>)
next
  case (stop s t q)
  then show ?case by (intro follows_same [of s A _ t XStopped]) auto
next
  case (close s)
  then show ?case by (intro follows_same [of s A _ 0 "xs_pc s 0"]) (auto simp: Close_def queue_close_def queue_bag_def)
next
  case (block s t j c h l)
  then show ?case by (intro follows_same [of s A _ t "XWaiting j c h"]) auto
next
  case (wake s t j c h)
  then show ?case by (intro follows_same [of s A _ t "XTrying j"]) auto
next
  case (failed s t j err now)
  then show ?case by (intro follows_same [of s A _ t XIdle]) (auto simp: Let_def)
next
  case (registered s t j)
  then show ?case by (intro follows_same [of s A _ t "XRunning j"]) auto
next
  case (completed s t j out now)
  then show ?case by (intro follows_same [of s A _ t "XDone j out"]) (auto split: sum.splits)
next
  case (unregistered s t j out)
  then show ?case by (intro follows_same [of s A _ t "XUnregistered j out"]) auto
next
  case (returned s t j out now)
  then show ?case by (intro follows_same [of s A _ t XIdle]) (auto simp: Let_def)
next
  case (cancel_running s t op c)
  then show ?case by (intro follows_same [of s A _ t "xs_pc s t"]) auto
next
  case (cancel_looked s t op)
  then show ?case by (intro follows_same [of s A _ t "XCancel op"]) auto
next
  case (cancel_missing s t op q)
  then show ?case by (intro follows_same [of s A _ t XIdle]) auto
next
  case (cancel_recorded s t op req t1 t2)
  then show ?case by (intro follows_same [of s A _ t XIdle]) auto
qed

lemma represents_init: "represents xsys_init (\<lambda>_. Fresh)"
  by (simp add: represents_def lives_def xsys_init_def waits_def runs_def NewExecutor_def queue_bag_new)

lemma reach_represents: "xreach s \<Longrightarrow> \<exists>A. life_reach A \<and> represents s A"
proof (induction rule: xreach.induct)
  case xreach_init
  then show ?case using life_init represents_init by blast
next
  case (xreach_step s s')
  then obtain A where A: "life_reach A" "represents s A" by blast
  from step_refines [OF xreach_step(2) xreach_ids xreach_lock A(2)] xreach_step(1) A(1)
  show ?case unfolding follows_def using life_more by blast
qed

text \<open>The state determines the lives.\<close>

lemma lives_agree: "lives I Q w v A \<Longrightarrow> lives I Q w v B \<Longrightarrow> x \<noteq> Ended \<Longrightarrow> A i = x \<longleftrightarrow> B i = x"
  unfolding lives_def by (cases x) simp_all

lemma represents_unique: "represents s A \<Longrightarrow> represents s B \<Longrightarrow> A = B"
  unfolding represents_def by (rule ext) (metis lives_agree)

section \<open>Refinement\<close>

text \<open>
  C6: The executor implements its promise. In every reachable state of any number of goroutines the
  submitted and called operations have lives, the state determines them, and every section of the code
  either leaves all lives as they are or takes one step of the promise: an operation is queued or
  called under a new identifier, a worker takes a queued operation of the highest priority that is the
  oldest of these, a queued one is withdrawn, a waiting one starts only while none runs on its
  project, gives up, or a running one ends. No other change is possible.
\<close>

theorem executor_refines:
  assumes "xreach s"
  shows "\<exists>A. represents s A \<and> life_reach A \<and> (\<forall>B. represents s B \<longrightarrow> B = A) \<and>
    (\<forall>s'. xstep s s' \<longrightarrow> (\<exists>A'. represents s' A' \<and> (A' = A \<or> life_step A A')))"
proof -
  obtain A where A: "life_reach A" "represents s A" using reach_represents [OF assms] by blast
  moreover have "\<forall>B. represents s B \<longrightarrow> B = A" using represents_unique A(2) by blast
  moreover have "\<forall>s'. xstep s s' \<longrightarrow> follows s' A"
    using step_refines xreach_ids [OF assms] xreach_lock [OF assms] A(2) by blast
  ultimately show ?thesis unfolding follows_def by blast
qed

lemma demo_lives:
  assumes "represents demo_x5 A"
  shows "A ''op1'' = Running (demo_request ''op1'')" "A ''op2'' = Waiting (demo_request ''op2'')"
    "A ''op3'' = Fresh"
proof -
  show "A ''op1'' = Running (demo_request ''op1'')"
    using represents_at(4) [OF assms, of 0 "demo_request ''op1''"] by (simp add: demo_pcs demo_job_def)
  show "A ''op2'' = Waiting (demo_request ''op2'')"
    using represents_at(3) [OF assms, of 1 "demo_request ''op2''"] by (simp add: demo_pcs demo_job2_def)
  show "A ''op3'' = Fresh"
    using represents_at(1) [OF assms, of "demo_request ''op3''"] by (simp add: demo_pcs)
qed

lemma executor_refines_witness:
  "xreach demo_x5 \<and> (\<exists>A. represents demo_x5 A \<and> life_reach A \<and>
     A ''op1'' = Running (demo_request ''op1'') \<and> A ''op2'' = Waiting (demo_request ''op2'') \<and>
     A ''op3'' = Fresh)"
  using executor_refines [OF demo_reach] demo_reach demo_lives by blast

section \<open>Operations that nobody finds\<close>

text \<open>
  An operation that waits for the lock of its project is neither in the queue nor in the table of cancel
  functions: cancelling it is answered with 404, and it goes on.
\<close>

lemma waiting_not_cancelled:
  assumes "xreach s" "waiting_req (xs_pc s t) = Some r"
  shows "fst (Cancel (req_id r) t1 t2 (xs_ex s)) = (Some cancel_not_found, None)"
proof -
  obtain j where j: "job_of (xs_pc s t) = Some j" "jb_req j = r" using waiting_job [OF assms(2)] by blast
  note ids = xreach_ids [OF assms(1)] and tab = xreach_table [OF assms(1), unfolded table_inv_def]
  have "map_of (ex_cancels (xs_ex s)) (req_id r) = None"
  proof (rule ccontr)
    assume "map_of (ex_cancels (xs_ex s)) (req_id r) \<noteq> None"
    then obtain u k where k: "listed (xs_pc s u) = Some k" "job_id k = req_id r"
      using tab unfolding tabled_def by blast
    then have "u = t" using job_unique [OF ids listed_job [OF k(1)] j(1)] j(2) by simp
    then show False using k(1) assms(2) by (cases "xs_pc s t") auto
  qed
  moreover have "fst (RemoveAndReturn (ex_queue (xs_ex s)) (req_id r)) = None"
  proof (rule ccontr)
    assume "fst (RemoveAndReturn (ex_queue (xs_ex s)) (req_id r)) \<noteq> None"
    then obtain q r' where rm: "RemoveAndReturn (ex_queue (xs_ex s)) (req_id r) = (Some r', q)"
      by (metis not_None_eq prod.collapse)
    have inv: "queue_inv (ex_queue (xs_ex s))" using ids by (simp add: ids_inv_def)
    from Remove_queue [OF inv rm] have "req_id r \<in># queue_ids (xs_ex s)" by simp
    moreover have "owners (xs_pc s) t = Some (req_id r)"
      using job_owns [OF j(1)] j(2) by (simp add: owners_def)
    ultimately show False using ids by (auto simp: ids_inv_def ids_ok_def)
  qed
  ultimately show ?thesis by (auto simp: Cancel_def split: prod.split option.split)
qed

text \<open>A queued operation is not shown, although \<open>Submit\<close> gives its identifier to poll with.\<close>

lemma queued_not_shown: "''op3'' \<in> xs_submitted demo_x6" "GetOperation (xs_ex demo_x6) ''op3'' = None"
  by (simp_all add: demo_xs GetOperation_def Submit_def register_def Let_def xsys_init_def NewExecutor_def)

end
