(* ===== verification/Scanner.thy ===== *)
theory Scanner
  imports Domain GoPath GoStrings
begin

text \<open>
  \<open>internal/discovery/scanner.go\<close>: the walk over the directory tree that finds compose projects.

  The file system and the request context are parameters (the record \<open>scan_fs\<close>): \<open>os.Lstat\<close>,
  \<open>os.Stat\<close>, \<open>filepath.EvalSymlinks\<close>, \<open>os.ReadDir\<close>, \<open>filepath.Abs\<close>, and what \<open>ctx.Err()\<close> answers
  at the n-th call of \<open>walk\<close>. An answer \<open>None\<close> is the error of the call, which the code only logs.
  The file system does not change during a scan. The walk threads the visited inodes, the projects
  found and the number of its calls; logging is not modelled.
\<close>

section \<open>The file system and the projects found\<close>

datatype fkind = FDir | FSymlink | FOther

text \<open>\<open>fi_ino\<close> is \<open>None\<close> where \<open>Sys()\<close> is not a \<open>*syscall.Stat_t\<close>.\<close>

record finfo =
  fi_kind :: fkind
  fi_ino :: "nat option"

record dirent =
  de_name :: string
  de_kind :: fkind

record scan_fs =
  fs_abs :: "string \<Rightarrow> go_error + string"
  fs_lstat :: "string \<Rightarrow> finfo option"
  fs_stat :: "string \<Rightarrow> finfo option"
  fs_evalsymlinks :: "string \<Rightarrow> string option"
  fs_readdir :: "string \<Rightarrow> dirent list option"
  fs_ctxerr :: "nat \<Rightarrow> go_error option"

record DiscoveredProject =
  dp_path :: string
  dp_composefiles :: "string list"
  dp_envfiles :: "string list"

record wstate =
  ws_visited :: "nat list"
  ws_projects :: "DiscoveredProject list"
  ws_calls :: nat

definition composeFileNames :: "string list" where
  "composeFileNames =
     [''docker-compose.yml'', ''docker-compose.yaml'', ''compose.yml'', ''compose.yaml'']"

definition overridePatterns :: "string list" where
  "overridePatterns =
     [''docker-compose.override.yml'', ''docker-compose.override.yaml'', ''compose.override.yml'',
      ''compose.override.yaml'']"

section \<open>Ordering the files of a project\<close>

fun dedup :: "string list \<Rightarrow> string list \<Rightarrow> string list" where
  "dedup seen [] = []"
| "dedup seen (f # fs) = (if f \<in> set seen then dedup seen fs else f # dedup (f # seen) fs)"

definition is_override :: "string \<Rightarrow> bool" where
  "is_override f = str_contains (path_base f) ''override''"

definition deduplicateAndOrder :: "string list \<Rightarrow> string list" where
  "deduplicateAndOrder files =
     (let fs = dedup [] files in filter (\<lambda>f. \<not> is_override f) fs @ filter is_override fs)"

section \<open>The walk\<close>

text \<open>
  The first part of \<open>walk\<close>: find out what \<open>current\<close> is, follow a symbolic link, and enter the inode
  into the visited set. The answer is the directory to read, or \<open>None\<close> where the walk returns.
\<close>

definition visit_ino :: "finfo \<Rightarrow> string \<Rightarrow> wstate \<Rightarrow> string option \<times> wstate" where
  "visit_ino info dir s =
     (case fi_ino info of
        None \<Rightarrow> (Some dir, s)
      | Some i \<Rightarrow>
          if i \<in> set (ws_visited s) then (None, s)
          else (Some dir, s\<lparr>ws_visited := i # ws_visited s\<rparr>))"

definition walk_enter :: "scan_fs \<Rightarrow> string \<Rightarrow> wstate \<Rightarrow> string option \<times> wstate" where
  "walk_enter fs current s =
     (case fs_lstat fs current of
        None \<Rightarrow> (None, s)
      | Some info \<Rightarrow>
          (case fi_kind info of
             FSymlink \<Rightarrow>
               (case fs_evalsymlinks fs current of
                  None \<Rightarrow> (None, s)
                | Some realPath \<Rightarrow>
                    (case fs_stat fs realPath of
                       None \<Rightarrow> (None, s)
                     | Some realInfo \<Rightarrow>
                         if fi_kind realInfo \<noteq> FDir then (None, s)
                         else visit_ino realInfo realPath s))
           | FDir \<Rightarrow> visit_ino info current s
           | FOther \<Rightarrow> (Some current, s)))"

text \<open>The files of a directory's entries, and the project they make.\<close>

definition compose_of :: "string \<Rightarrow> dirent list \<Rightarrow> string list" where
  "compose_of current entries =
     concat (map (\<lambda>e. map (\<lambda>_. path_join current (de_name e))
       (filter (equal_fold (de_name e)) composeFileNames
        @ filter (equal_fold (de_name e)) overridePatterns)) entries)"

definition envfiles_of :: "string \<Rightarrow> dirent list \<Rightarrow> string list" where
  "envfiles_of current entries =
     map (\<lambda>e. path_join current (de_name e)) (filter (\<lambda>e. de_name e = ''.env'') entries)"

definition walk_collect :: "string \<Rightarrow> dirent list \<Rightarrow> wstate \<Rightarrow> wstate" where
  "walk_collect current entries s =
     (let composeFiles = compose_of current entries in
      if composeFiles \<noteq> [] then
        s\<lparr>ws_projects := ws_projects s @
            [\<lparr>dp_path = current, dp_composefiles = deduplicateAndOrder composeFiles,
              dp_envfiles = envfiles_of current entries\<rparr>]\<rparr>
      else s)"

definition skip_dir :: "string \<Rightarrow> bool" where
  "skip_dir name = (has_prefix name ''.'' \<or> name = ''node_modules'' \<or> name = ''vendor'')"

function (sequential) walk ::
    "scan_fs \<Rightarrow> int \<Rightarrow> string \<Rightarrow> nat \<Rightarrow> wstate \<Rightarrow> go_error option \<times> wstate"
  and walk_children ::
    "scan_fs \<Rightarrow> int \<Rightarrow> string \<Rightarrow> nat \<Rightarrow> dirent list \<Rightarrow> wstate \<Rightarrow> go_error option \<times> wstate" where
  "walk fs maxDepth current depth s =
     (case fs_ctxerr fs (ws_calls s) of
        Some err \<Rightarrow> (Some err, s)
      | None \<Rightarrow>
          (if int depth > maxDepth then (None, s\<lparr>ws_calls := Suc (ws_calls s)\<rparr>)
           else
             (case walk_enter fs current (s\<lparr>ws_calls := Suc (ws_calls s)\<rparr>) of
                (None, s1) \<Rightarrow> (None, s1)
              | (Some dir, s1) \<Rightarrow>
                  (case fs_readdir fs dir of
                     None \<Rightarrow> (None, s1)
                   | Some entries \<Rightarrow>
                       walk_children fs maxDepth dir depth entries (walk_collect dir entries s1)))))"
| "walk_children fs maxDepth current depth [] s = (None, s)"
| "walk_children fs maxDepth current depth (e # es) s =
     (if de_kind e = FOther \<or> skip_dir (de_name e) then walk_children fs maxDepth current depth es s
      else
        (case walk fs maxDepth (path_join current (de_name e)) (Suc depth) s of
           (Some err, s1) \<Rightarrow> (Some err, s1)
         | (None, s1) \<Rightarrow> walk_children fs maxDepth current depth es s1))"
  by pat_completeness auto

text \<open>The walk ends because its depth grows towards the bound, whatever the directories hold.\<close>

termination
  by (relation "measures [
        \<lambda>x. (case x of Inl (fs, md, cur, d, s) \<Rightarrow> 2 * nat (md + 1 - int d)
                     | Inr (fs, md, cur, d, es, s) \<Rightarrow> 2 * nat (md + 1 - int d) - 1),
        \<lambda>x. (case x of Inl (fs, md, cur, d, s) \<Rightarrow> 0 | Inr (fs, md, cur, d, es, s) \<Rightarrow> length es)]")
     (auto simp: nat_diff_distrib')

definition init_ws :: wstate where
  "init_ws = \<lparr>ws_visited = [], ws_projects = [], ws_calls = 0\<rparr>"

definition Scan :: "scan_fs \<Rightarrow> int \<Rightarrow> string \<Rightarrow> go_error + DiscoveredProject list" where
  "Scan fs maxDepth rootDir =
     (case fs_abs fs rootDir of
        Inl err \<Rightarrow> Inl (PlainError (''resolve root dir: '' @ error_string err))
      | Inr root \<Rightarrow>
          (case walk fs maxDepth root 0 init_ws of
             (Some err, s) \<Rightarrow> Inl err
           | (None, s) \<Rightarrow> Inr (ws_projects s)))"

section \<open>The identity of a project\<close>

text \<open>
  SHA-256 is a parameter, a function from a string to its 32 bytes; the identity is the hexadecimal
  form of the first twelve.
\<close>

definition hex_encode :: "nat list \<Rightarrow> string" where
  "hex_encode bs = concat (map hex_byte bs)"

definition GenerateProjectID :: "(string \<Rightarrow> nat list) \<Rightarrow> string \<Rightarrow> ProjectID" where
  "GenerateProjectID sha256 path = hex_encode (take 12 (sha256 path))"

section \<open>Invariants of a walk\<close>

text \<open>
  A predicate on the walk's state that the three steps of the walk keep (counting a call, entering a
  directory, collecting the project of a directory just entered) holds after the whole walk.
\<close>

locale walk_invariant =
  fixes fs :: scan_fs and I :: "wstate \<Rightarrow> bool"
  assumes bump: "I s \<Longrightarrow> I (s\<lparr>ws_calls := Suc (ws_calls s)\<rparr>)"
    and enter: "I s \<Longrightarrow> I (snd (walk_enter fs cur s))"
    and collect: "I s \<Longrightarrow> walk_enter fs cur s = (Some dir, s1) \<Longrightarrow> fs_readdir fs dir = Some es \<Longrightarrow>
      I (walk_collect dir es s1)"
begin

lemma walk_keeps:
  shows "fs' = fs \<Longrightarrow> I s \<Longrightarrow> I (snd (walk fs' md cur d s))"
    and "fs' = fs \<Longrightarrow> I s \<Longrightarrow> I (snd (walk_children fs' md cur d es s))"
proof (induction fs' md cur d s and fs' md cur d es s rule: walk_walk_children.induct)
  case (1 fs' md cur d s)
  let ?s = "s\<lparr>ws_calls := Suc (ws_calls s)\<rparr>"
  obtain r s1 where e: "walk_enter fs cur ?s = (r, s1)" by (cases "walk_enter fs cur ?s")
  have b: "I ?s" using 1 bump by simp
  have s1: "I s1" using enter [OF b, of cur] e by simp
  show ?case
  proof (cases "fs_ctxerr fs (ws_calls s) = None \<and> \<not> md < int d \<and> r \<noteq> None \<and> fs_readdir fs (the r) \<noteq> None")
    case False
    then show ?thesis using "1.prems" b s1 e by (auto split: option.splits)
  next
    case True
    then obtain dir es where r: "r = Some dir" and es: "fs_readdir fs dir = Some es" by auto
    have "I (walk_collect dir es s1)" by (rule collect [OF b]) (use e r es in auto)
    then have "I (snd (walk_children fs md dir d es (walk_collect dir es s1)))"
      using "1.IH" [of r s1 dir es] True e r es "1.prems" by simp
    then show ?thesis using True e r es "1.prems" by simp
  qed
next
  case (2 fs' md cur d s)
  then show ?case by simp
next
  case (3 fs' md cur d e es s)
  then show ?case by (auto split: prod.splits option.splits)
qed

lemma walk_inv: "I s \<Longrightarrow> walk fs md cur d s = (r, s1) \<Longrightarrow> I s1"
  using walk_keeps(1) [OF refl, of s md cur d] by simp

end

declare walk.simps [simp del]

lemma Scan_walk: "Scan fs md root = Inr ps \<Longrightarrow> \<exists>cur s. walk fs md cur 0 init_ws = (None, s) \<and> ws_projects s = ps"
  by (auto simp: Scan_def split: sum.splits prod.splits option.splits)

section \<open>No directory twice\<close>

text \<open>The inode a directory has, by \<open>Lstat\<close> or, reached through a link, by \<open>Stat\<close>.\<close>

definition dir_inode :: "scan_fs \<Rightarrow> string \<Rightarrow> nat \<Rightarrow> bool" where
  "dir_inode fs p i \<longleftrightarrow>
     (\<exists>info. (fs_lstat fs p = Some info \<or> fs_stat fs p = Some info) \<and> fi_kind info = FDir \<and>
        fi_ino info = Some i)"

text \<open>What Unix promises: only directories can be read as directories, and every file has an inode.\<close>

definition unix_fs :: "scan_fs \<Rightarrow> bool" where
  "unix_fs fs \<longleftrightarrow>
     (\<forall>p info. fs_lstat fs p = Some info \<longrightarrow> fi_kind info = FOther \<longrightarrow> fs_readdir fs p = None) \<and>
     (\<forall>p info. fs_lstat fs p = Some info \<or> fs_stat fs p = Some info \<longrightarrow> fi_ino info \<noteq> None)"

definition once :: "scan_fs \<Rightarrow> wstate \<Rightarrow> bool" where
  "once fs s \<longleftrightarrow>
     (\<exists>inos. list_all2 (\<lambda>p i. dir_inode fs (dp_path p) i) (ws_projects s) inos \<and> distinct inos \<and>
        set inos \<subseteq> set (ws_visited s))"

lemma walk_enter_projects: "ws_projects (snd (walk_enter fs cur s)) = ws_projects s"
  by (auto simp: walk_enter_def visit_ino_def split: option.splits fkind.splits)

lemma walk_enter_visited: "set (ws_visited s) \<subseteq> set (ws_visited (snd (walk_enter fs cur s)))"
  by (auto simp: walk_enter_def visit_ino_def split: option.splits fkind.splits)

lemma visit_ino_new:
  "visit_ino info cur s = (Some dir, s1) \<Longrightarrow> fi_ino info \<noteq> None \<Longrightarrow>
     dir = cur \<and> (\<exists>i. fi_ino info = Some i \<and> i \<notin> set (ws_visited s) \<and> i \<in> set (ws_visited s1))"
  by (auto simp: visit_ino_def split: option.splits if_splits)

lemma walk_enter_new:
  assumes "unix_fs fs" "walk_enter fs cur s = (Some dir, s1)" "fs_readdir fs dir = Some es"
  shows "\<exists>i. dir_inode fs dir i \<and> i \<notin> set (ws_visited s) \<and> i \<in> set (ws_visited s1)"
proof -
  obtain info where info: "fs_lstat fs cur = Some info"
    using assms(2) by (auto simp: walk_enter_def split: option.splits)
  show ?thesis
  proof (cases "fi_kind info")
    case FDir
    then have "visit_ino info cur s = (Some dir, s1)"
      using assms(2) info by (simp add: walk_enter_def)
    then show ?thesis
      using visit_ino_new [of info cur s dir s1] assms(1) info FDir
      by (auto simp: unix_fs_def dir_inode_def)
  next
    case FSymlink
    then obtain rp ri where "fs_stat fs rp = Some ri" "fi_kind ri = FDir"
      "visit_ino ri rp s = (Some dir, s1)"
      using assms(2) info by (auto simp: walk_enter_def split: option.splits if_splits)
    then show ?thesis
      using visit_ino_new [of ri rp s dir s1] assms(1)
      by (auto simp: unix_fs_def dir_inode_def)
  next
    case FOther
    then show ?thesis
      using assms info by (auto simp: walk_enter_def unix_fs_def)
  qed
qed

lemma once_mono:
  "once fs s \<Longrightarrow> ws_projects s1 = ws_projects s \<Longrightarrow> set (ws_visited s) \<subseteq> set (ws_visited s1) \<Longrightarrow>
     once fs s1"
  unfolding once_def by (metis order_trans)

lemma once_collect:
  assumes "unix_fs fs" "once fs s" "walk_enter fs cur s = (Some dir, s1)"
    "fs_readdir fs dir = Some es"
  shows "once fs (walk_collect dir es s1)"
proof -
  obtain i where i: "dir_inode fs dir i" "i \<notin> set (ws_visited s)" "i \<in> set (ws_visited s1)"
    using walk_enter_new [OF assms(1,3,4)] by blast
  obtain inos where inos: "list_all2 (\<lambda>p i. dir_inode fs (dp_path p) i) (ws_projects s) inos"
      "distinct inos" "set inos \<subseteq> set (ws_visited s)"
    using assms(2) by (auto simp: once_def)
  have proj: "ws_projects s1 = ws_projects s" and vis: "set (ws_visited s) \<subseteq> set (ws_visited s1)"
    using walk_enter_projects [of fs cur s] walk_enter_visited [of s fs cur] assms(3) by auto
  show ?thesis
  proof (cases "compose_of dir es = []")
    case True
    then show ?thesis
      using once_mono [OF assms(2) proj vis] by (simp add: walk_collect_def)
  next
    case False
    then show ?thesis
      unfolding once_def
      by (intro exI [of _ "inos @ [i]"])
         (use i inos proj vis in \<open>auto simp: walk_collect_def Let_def intro!: list_all2_appendI\<close>)
  qed
qed

interpretation once: walk_invariant fs "\<lambda>s. unix_fs fs \<longrightarrow> once fs s" for fs
proof
  fix s :: wstate and cur
  assume "unix_fs fs \<longrightarrow> once fs s"
  then show "unix_fs fs \<longrightarrow> once fs (s\<lparr>ws_calls := Suc (ws_calls s)\<rparr>)"
    using once_mono [of fs s] by auto
  show "unix_fs fs \<longrightarrow> once fs (snd (walk_enter fs cur s))"
    using \<open>unix_fs fs \<longrightarrow> once fs s\<close> once_mono [of fs s] walk_enter_projects walk_enter_visited
    by blast
qed (use once_collect in blast)

section \<open>The files of a project\<close>

text \<open>
  A well-formed project: at least one compose file, none twice, those that are no overrides first,
  and each the path of an entry of its directory under a known name.
\<close>

definition known_name :: "string \<Rightarrow> bool" where
  "known_name n = list_ex (equal_fold n) (composeFileNames @ overridePatterns)"

definition project_ok :: "scan_fs \<Rightarrow> DiscoveredProject \<Rightarrow> bool" where
  "project_ok fs p \<longleftrightarrow>
     dp_composefiles p \<noteq> [] \<and> distinct (dp_composefiles p) \<and>
     (\<exists>prim over. dp_composefiles p = prim @ over \<and> (\<forall>f \<in> set prim. \<not> is_override f) \<and>
        (\<forall>f \<in> set over. is_override f)) \<and>
     (\<exists>es. fs_readdir fs (dp_path p) = Some es \<and>
        set (dp_composefiles p)
          = (\<lambda>e. path_join (dp_path p) (de_name e)) ` {e \<in> set es. known_name (de_name e)})"

lemma dedup_set: "set (dedup seen fs) = set fs - set seen"
  by (induction seen fs rule: dedup.induct) auto

lemma dedup_distinct: "distinct (dedup seen fs)"
  by (induction seen fs rule: dedup.induct) (auto simp: dedup_set)

lemma deduplicateAndOrder_set: "set (deduplicateAndOrder fs) = set fs"
  by (auto simp: deduplicateAndOrder_def Let_def dedup_set)

lemma deduplicateAndOrder_distinct: "distinct (deduplicateAndOrder fs)"
  by (auto simp: deduplicateAndOrder_def Let_def dedup_distinct)

lemma compose_of_set:
  "set (compose_of cur es) = (\<lambda>e. path_join cur (de_name e)) ` {e \<in> set es. known_name (de_name e)}"
  by (auto simp: compose_of_def known_name_def list_ex_iff)

lemma project_ok_collect:
  assumes "fs_readdir fs dir = Some es" "compose_of dir es \<noteq> []"
  shows "project_ok fs \<lparr>dp_path = dir, dp_composefiles = deduplicateAndOrder (compose_of dir es),
           dp_envfiles = envs\<rparr>"
proof -
  have "deduplicateAndOrder (compose_of dir es) \<noteq> []"
    using assms(2) deduplicateAndOrder_set [of "compose_of dir es"] by (metis set_empty)
  moreover have "\<exists>prim over. deduplicateAndOrder (compose_of dir es) = prim @ over \<and>
      (\<forall>f \<in> set prim. \<not> is_override f) \<and> (\<forall>f \<in> set over. is_override f)"
    unfolding deduplicateAndOrder_def Let_def by fastforce
  ultimately show ?thesis
    using assms(1)
    by (simp add: project_ok_def deduplicateAndOrder_distinct deduplicateAndOrder_set compose_of_set)
qed

interpretation shape: walk_invariant fs "\<lambda>s. \<forall>p \<in> set (ws_projects s). project_ok fs p" for fs
proof
  fix s s1 :: wstate and cur dir es
  assume I: "\<forall>p \<in> set (ws_projects s). project_ok fs p"
  then show "\<forall>p \<in> set (ws_projects (s\<lparr>ws_calls := Suc (ws_calls s)\<rparr>)). project_ok fs p" by simp
  show "\<forall>p \<in> set (ws_projects (snd (walk_enter fs cur s))). project_ok fs p"
    using I by (simp add: walk_enter_projects)
  assume "walk_enter fs cur s = (Some dir, s1)" "fs_readdir fs dir = Some es"
  then show "\<forall>p \<in> set (ws_projects (walk_collect dir es s1)). project_ok fs p"
    using I walk_enter_projects [of fs cur s] project_ok_collect [of fs dir es "envfiles_of dir es"]
    by (auto simp: walk_collect_def Let_def)
qed

end
