(* ===== verification/ScanProps.thy ===== *)
theory ScanProps
  imports Scanner
begin

text \<open>
  The properties of the scanner, with file systems given by tables on which they are evaluated.
\<close>

section \<open>A file system given by a table\<close>

text \<open>
  For evaluation: a table from paths to the file's info, the target of a link and the entries of a
  directory. The context is never cancelled and every path is absolute.
\<close>

record frow =
  fr_info :: finfo
  fr_target :: string
  fr_entries :: "dirent list"

definition table_fs :: "(string, frow) gomap \<Rightarrow> scan_fs" where
  "table_fs t =
     \<lparr>fs_abs = Inr,
      fs_lstat = (\<lambda>p. map_option fr_info (map_of t p)),
      fs_stat = (\<lambda>p. map_option fr_info (map_of t p)),
      fs_evalsymlinks = (\<lambda>p. map_option fr_target (map_of t p)),
      fs_readdir = (\<lambda>p. case map_of t p of None \<Rightarrow> None
                        | Some r \<Rightarrow> if fi_kind (fr_info r) = FDir then Some (fr_entries r) else None),
      fs_ctxerr = (\<lambda>n. None)\<rparr>"

definition fdir :: "nat \<Rightarrow> dirent list \<Rightarrow> frow" where
  "fdir i es = \<lparr>fr_info = \<lparr>fi_kind = FDir, fi_ino = Some i\<rparr>, fr_target = [], fr_entries = es\<rparr>"

definition flink :: "nat \<Rightarrow> string \<Rightarrow> frow" where
  "flink i tgt = \<lparr>fr_info = \<lparr>fi_kind = FSymlink, fi_ino = Some i\<rparr>, fr_target = tgt, fr_entries = []\<rparr>"

definition ent :: "fkind \<Rightarrow> string \<Rightarrow> dirent" where
  "ent k n = \<lparr>de_name = n, de_kind = k\<rparr>"

lemma table_unix:
  assumes "list_all (\<lambda>(p, r). fi_ino (fr_info r) \<noteq> None \<and> fi_kind (fr_info r) \<noteq> FOther) t"
  shows "unix_fs (table_fs t)"
  using assms
  by (auto simp: unix_fs_def table_fs_def list_all_iff dest!: map_of_SomeD split: option.splits)

text \<open>A project with an override file below a directory that links back to the root.\<close>

definition demo_tree :: "(string, frow) gomap" where
  "demo_tree =
     [(''/r'', fdir 1 [ent FDir ''app'', ent FSymlink ''back'']),
      (''/r/app'', fdir 2 [ent FOther ''.env'', ent FOther ''compose.override.yml'',
                           ent FOther ''compose.yml'', ent FSymlink ''up'']),
      (''/r/back'', flink 3 ''/r''),
      (''/r/app/up'', flink 4 ''/r'')]"

definition demo_found :: "DiscoveredProject list" where
  "demo_found =
     [\<lparr>dp_path = ''/r/app'', dp_composefiles = [''/r/app/compose.yml'', ''/r/app/compose.override.yml''],
       dp_envfiles = [''/r/app/.env'']\<rparr>]"

lemma demo_scan: "Scan (table_fs demo_tree) 10 ''/r'' = Inr demo_found"
  by code_simp

text \<open>
  The depth bound and the visited set do not go together: a directory first reached through a link
  at the last level is marked visited, and the later walk over its own path skips what is below it.
\<close>

definition demo_deep :: "frow list \<Rightarrow> (string, frow) gomap" where
  "demo_deep link =
     [(''/r'', fdir 1 [ent FDir ''a'', ent FDir ''b'']),
      (''/r/a'', fdir 2 (map (\<lambda>_. ent FSymlink ''l'') link)),
      (''/r/b'', fdir 3 [ent FDir ''c'']),
      (''/r/b/c'', fdir 4 [ent FOther ''compose.yml''])] @ map (\<lambda>r. (''/r/a/l'', r)) link"

lemma link_hides_project:
  "Scan (table_fs (demo_deep [])) 2 ''/r''
     = Inr [\<lparr>dp_path = ''/r/b/c'', dp_composefiles = [''/r/b/c/compose.yml''], dp_envfiles = []\<rparr>]"
  "Scan (table_fs (demo_deep [flink 5 ''/r/b''])) 2 ''/r'' = Inr []"
  by code_simp+

text \<open>
  File names are matched without regard to case, overrides are told apart with regard to case: an
  override in capitals is ordered as a primary file, before the file it overrides.
\<close>

lemma capital_override_first:
  "deduplicateAndOrder [''/r/Compose.Override.yml'', ''/r/compose.yml'']
     = [''/r/Compose.Override.yml'', ''/r/compose.yml'']"
  "known_name ''Compose.Override.yml''"
  by code_simp+

section \<open>Properties\<close>

text \<open>
  C32: A scan never reports a directory twice, whatever links the tree holds: on a Unix file system
  the projects found have pairwise different inodes.
\<close>

theorem Scan_each_directory_once:
  assumes "unix_fs fs" "Scan fs maxDepth rootDir = Inr ps"
  shows "\<exists>inos. list_all2 (\<lambda>p i. dir_inode fs (dp_path p) i) ps inos \<and> distinct inos"
proof -
  obtain cur s where w: "walk fs maxDepth cur 0 init_ws = (None, s)" "ws_projects s = ps"
    using Scan_walk [OF assms(2)] by blast
  have "unix_fs fs \<longrightarrow> once fs init_ws" by (simp add: once_def init_ws_def)
  from once.walk_inv [OF this w(1)] have "once fs s" using assms(1) by simp
  then show ?thesis using w(2) by (auto simp: once_def)
qed

lemma Scan_each_directory_once_witness:
  "\<exists>inos. list_all2 (\<lambda>p i. dir_inode (table_fs demo_tree) (dp_path p) i) demo_found inos \<and> distinct inos"
proof (rule Scan_each_directory_once [OF _ demo_scan])
  show "unix_fs (table_fs demo_tree)"
    by (rule table_unix) (simp add: demo_tree_def fdir_def flink_def)
qed

text \<open>
  Every project of a scan is well formed: it has compose files, none twice, primary files before
  overrides, and they are exactly the entries of its directory with a known name.
\<close>

lemma Scan_projects_ok:
  assumes "Scan fs maxDepth rootDir = Inr ps" "p \<in> set ps"
  shows "project_ok fs p"
proof -
  obtain cur s where w: "walk fs maxDepth cur 0 init_ws = (None, s)" "ws_projects s = ps"
    using Scan_walk [OF assms(1)] by blast
  have "\<forall>p \<in> set (ws_projects init_ws). project_ok fs p" by (simp add: init_ws_def)
  from shape.walk_inv [OF this w(1)] show ?thesis using w(2) assms(2) by simp
qed

lemma Scan_projects_ok_witness: "project_ok (table_fs demo_tree) (demo_found ! 0)"
  by (rule Scan_projects_ok [OF demo_scan]) (simp add: demo_found_def)

end
