(* ===== verification/ComposeFile.thy ===== *)
theory ComposeFile
  imports Domain GoStrings GoPath
begin

text \<open>
  The data of \<open>internal/discovery/parser.go\<close> and its readers: the YAML values the compose file
  structures keep undecoded, Go's \<open>%v\<close> of them, and the functions that turn them into the domain's
  ports, volumes, networks, dependencies, environments, builds and commands.

  An \<open>interface{}\<close> that \<open>yaml.v3\<close> filled is a \<open>yval\<close>: \<open>YNull\<close> is nil, \<open>YOther\<close> any value the code
  has no case for (floats, timestamps, maps with other keys than strings), known by what \<open>%v\<close> prints.
  \<open>YStrMap\<close> is the \<open>map[string]string\<close> the parser itself stores back into such a field.
\<close>

section \<open>YAML values\<close>

datatype yval =
    YNull
  | YString string
  | YInt int
  | YBool bool
  | YOther string
  | YSeq "yval list"
  | YMap "(string \<times> yval) list"
  | YStrMap "(string, string) gomap"

text \<open>\<open>fmt.Sprintf("%v", v)\<close>: maps are printed with their keys sorted.\<close>

definition print_map :: "(string \<times> string) list \<Rightarrow> string" where
  "print_map kvs =
     ''map['' @ join_with '' '' (map (\<lambda>(k, v). k @ '':'' @ v) (sort_key fst kvs)) @ '']''"

fun sprint_v :: "yval \<Rightarrow> string" where
  "sprint_v YNull = ''<nil>''"
| "sprint_v (YString s) = s"
| "sprint_v (YInt n) = itoa n"
| "sprint_v (YBool b) = (if b then ''true'' else ''false'')"
| "sprint_v (YOther s) = s"
| "sprint_v (YSeq vs) = ''['' @ join_with '' '' (map sprint_v vs) @ '']''"
| "sprint_v (YMap m) = print_map (map (\<lambda>(k, v). (k, sprint_v v)) m)"
| "sprint_v (YStrMap m) = print_map m"

text \<open>\<open>m[k].(string)\<close> and \<open>m[k].(bool)\<close>, with their \<open>ok\<close>.\<close>

definition get_string :: "(string \<times> yval) list \<Rightarrow> string \<Rightarrow> string option" where
  "get_string m k = (case map_of m k of Some (YString s) \<Rightarrow> Some s | _ \<Rightarrow> None)"

definition get_bool :: "(string \<times> yval) list \<Rightarrow> string \<Rightarrow> bool option" where
  "get_bool m k = (case map_of m k of Some (YBool b) \<Rightarrow> Some b | _ \<Rightarrow> None)"

text \<open>\<open>if x, ok := ...; ok { field = x }\<close>.\<close>

definition or_default :: "'a option \<Rightarrow> 'a \<Rightarrow> 'a" where
  "or_default x d = (case x of None \<Rightarrow> d | Some y \<Rightarrow> y)"

section \<open>The structures of a compose file\<close>

record extendsConfig =
  ex_file :: string
  ex_service :: string

text \<open>\<open>None\<close> is the nil slice or pointer; the code tells it apart from an empty slice.\<close>

record composeService =
  cs_image :: string
  cs_build :: yval
  cs_ports :: "yval list option"
  cs_environment :: yval
  cs_labels :: yval
  cs_depends :: yval
  cs_profiles :: "string list option"
  cs_volumes :: "yval list option"
  cs_networks :: yval
  cs_restart :: string
  cs_command :: yval
  cs_entrypoint :: yval
  cs_extends :: "extendsConfig option"
  cs_envfile :: yval

record composeNetwork =
  cn_name :: string
  cn_driver :: string
  cn_external :: yval
  cn_labels :: "(string, string) gomap"
  cn_ipam :: yval

record composeVolume =
  cv_name :: string
  cv_driver :: string
  cv_external :: yval
  cv_labels :: "(string, string) gomap"

record composeFile =
  cf_services :: "(string, composeService) gomap"
  cf_networks :: "(string, composeNetwork) gomap"
  cf_volumes :: "(string, composeVolume) gomap"
  cf_include :: yval

section \<open>Environments\<close>

text \<open>
  \<open>parseEnvInterface\<close>: \<open>None\<close> is the nil map. A map is read by its keys, so an entry of a list sets
  its key again.
\<close>

definition env_item :: "yval \<Rightarrow> (string, string) gomap \<Rightarrow> (string, string) gomap" where
  "env_item item result =
     (case str_cut (sprint_v item) ''='' of
        None \<Rightarrow> AList.update (sprint_v item) [] result
      | Some (k, v) \<Rightarrow> AList.update k v result)"

definition non_empty_map :: "(string, 'v) gomap \<Rightarrow> (string, 'v) gomap option" where
  "non_empty_map m = (if m = [] then None else Some m)"

fun parseEnvInterface :: "yval \<Rightarrow> (string, string) gomap option" where
  "parseEnvInterface (YStrMap m) = Some m"
| "parseEnvInterface (YMap m) =
     non_empty_map (fold (\<lambda>(k, v) r. AList.update k (sprint_v v) r) m [])"
| "parseEnvInterface (YSeq vs) = non_empty_map (fold env_item vs [])"
| "parseEnvInterface _ = None"

definition mergeEnvInterface :: "yval \<Rightarrow> yval \<Rightarrow> yval" where
  "mergeEnvInterface base over =
     YStrMap (copy_into (or_default (parseEnvInterface over) []) (or_default (parseEnvInterface base) []))"

text \<open>The environment a value denotes, as a partial function.\<close>

definition env_of :: "yval \<Rightarrow> string \<Rightarrow> string option" where
  "env_of v = map_of (or_default (parseEnvInterface v) [])"

section \<open>Builds, ports and volumes\<close>

fun parseBuildConfig :: "yval \<Rightarrow> BuildConfig option" where
  "parseBuildConfig (YString s) =
     Some \<lparr>bc_context = s, bc_dockerfile = [], bc_args = [], bc_target = []\<rparr>"
| "parseBuildConfig (YMap m) =
     Some \<lparr>bc_context = or_default (get_string m ''context'') [],
           bc_dockerfile = or_default (get_string m ''dockerfile'') [],
           bc_args = (case map_of m ''args'' of None \<Rightarrow> []
                      | Some a \<Rightarrow> or_default (parseEnvInterface a) []),
           bc_target = or_default (get_string m ''target'') []\<rparr>"
| "parseBuildConfig _ = None"

definition parsePortString :: "string \<Rightarrow> PortMapping option" where
  "parsePortString s0 =
     (let (s, proto) = (case last_cut slash s0 of None \<Rightarrow> (s0, ''tcp'') | Some (a, b) \<Rightarrow> (a, b));
          parts = split_on (CHR '':'') s
      in if length parts = 1 then
           Some \<lparr>pm_hostip = [], pm_hostport = parts ! 0, pm_containerport = parts ! 0,
                 pm_protocol = proto\<rparr>
         else if length parts = 2 then
           Some \<lparr>pm_hostip = [], pm_hostport = parts ! 0, pm_containerport = parts ! 1,
                 pm_protocol = proto\<rparr>
         else if length parts = 3 then
           Some \<lparr>pm_hostip = parts ! 0, pm_hostport = parts ! 1, pm_containerport = parts ! 2,
                 pm_protocol = proto\<rparr>
         else None)"

definition port_of_map :: "(string \<times> yval) list \<Rightarrow> PortMapping" where
  "port_of_map m =
     \<lparr>pm_hostip = or_default (get_string m ''host_ip'') [],
      pm_hostport = or_default (map_option sprint_v (map_of m ''published'')) [],
      pm_containerport = or_default (map_option sprint_v (map_of m ''target'')) [],
      pm_protocol = or_default (get_string m ''protocol'') ''tcp''\<rparr>"

fun parsePorts :: "yval list \<Rightarrow> PortMapping list" where
  "parsePorts [] = []"
| "parsePorts (p # ps) =
     (case p of
        YString s \<Rightarrow> (case parsePortString s of None \<Rightarrow> [] | Some pm \<Rightarrow> [pm])
      | YInt n \<Rightarrow> [\<lparr>pm_hostip = [], pm_hostport = itoa n, pm_containerport = itoa n,
                   pm_protocol = ''tcp''\<rparr>]
      | YMap m \<Rightarrow> [port_of_map m]
      | _ \<Rightarrow> []) @ parsePorts ps"

definition bind_source :: "string \<Rightarrow> bool" where
  "bind_source s = (has_prefix s ''/'' \<or> has_prefix s ''./'' \<or> has_prefix s ''~'')"

definition parseVolumeString :: "string \<Rightarrow> VolumeMount" where
  "parseVolumeString s =
     (let parts = split_n 3 (CHR '':'') s;
          src = (if length parts = 1 then [] else parts ! 0);
          tgt = (if length parts = 1 then parts ! 0 else parts ! 1);
          ro = (length parts = 3 \<and> str_contains (parts ! 2) ''ro'')
      in \<lparr>vm_source = src, vm_target = tgt,
          vm_type = (if bind_source src then ''bind'' else ''volume''), vm_readonly = ro\<rparr>)"

definition volume_of_map :: "(string \<times> yval) list \<Rightarrow> VolumeMount" where
  "volume_of_map m =
     \<lparr>vm_source = or_default (get_string m ''source'') [],
      vm_target = or_default (get_string m ''target'') [],
      vm_type = or_default (get_string m ''type'') ''volume'',
      vm_readonly = or_default (get_bool m ''read_only'') False\<rparr>"

fun parseVolumeMounts :: "yval list \<Rightarrow> VolumeMount list" where
  "parseVolumeMounts [] = []"
| "parseVolumeMounts (v # vs) =
     (case v of YString s \<Rightarrow> [parseVolumeString s] | YMap m \<Rightarrow> [volume_of_map m] | _ \<Rightarrow> [])
     @ parseVolumeMounts vs"

section \<open>Dependencies, networks and commands\<close>

definition dep_condition :: "yval \<Rightarrow> string" where
  "dep_condition cfg =
     (case cfg of YMap m \<Rightarrow> or_default (get_string m ''condition'') ''service_started''
      | _ \<Rightarrow> ''service_started'')"

text \<open>A dependency is its condition.\<close>

fun parseDependsOn :: "yval \<Rightarrow> (string, string) gomap" where
  "parseDependsOn (YSeq vs) =
     fold (\<lambda>item r. AList.update (sprint_v item) ''service_started'' r) vs []"
| "parseDependsOn (YMap m) = fold (\<lambda>(name, cfg) r. AList.update name (dep_condition cfg) r) m []"
| "parseDependsOn _ = []"

text \<open>The order of a map's names is the order of the list.\<close>

fun parseNetworksList :: "yval \<Rightarrow> string list" where
  "parseNetworksList (YSeq vs) = map sprint_v vs"
| "parseNetworksList (YMap m) = map fst m"
| "parseNetworksList _ = []"

fun parseStringOrSlice :: "yval \<Rightarrow> string list" where
  "parseStringOrSlice (YString s) = str_fields s"
| "parseStringOrSlice (YSeq vs) = map sprint_v vs"
| "parseStringOrSlice _ = []"

fun parseBoolOrStruct :: "yval \<Rightarrow> bool" where
  "parseBoolOrStruct (YBool b) = b"
| "parseBoolOrStruct (YMap m) = True"
| "parseBoolOrStruct _ = False"

section \<open>Facts about environments\<close>

text \<open>The parser's own maps have distinct keys, as Go maps have.\<close>

fun env_wf :: "yval \<Rightarrow> bool" where
  "env_wf (YStrMap m) = distinct (map fst m)"
| "env_wf _ = True"

lemma env_item_update: "\<exists>k v. env_item item = AList.update k v"
proof -
  have "env_item item =
      (case str_cut (sprint_v item) ''='' of
         None \<Rightarrow> AList.update (sprint_v item) [] | Some (k, v) \<Rightarrow> AList.update k v)"
    by (rule ext) (auto simp: env_item_def split: option.splits)
  then show ?thesis by (cases "str_cut (sprint_v item) ''=''") auto
qed

lemma fold_env_item_distinct: "distinct (map fst r) \<Longrightarrow> distinct (map fst (fold env_item vs r))"
proof (induction vs arbitrary: r)
  case (Cons v vs)
  obtain k w where "env_item v = AList.update k w" using env_item_update by blast
  then show ?case using Cons by (simp add: distinct_update)
qed simp

lemma parseEnvInterface_distinct:
  "env_wf v \<Longrightarrow> parseEnvInterface v = Some m \<Longrightarrow> distinct (map fst m)"
proof (induction v rule: parseEnvInterface.induct)
  case (2 kvs)
  then show ?case
    using distinct_fold_update [of "[]" "map (\<lambda>(k, v). (k, sprint_v v)) kvs"]
    by (auto simp: non_empty_map_def fold_map comp_def case_prod_unfold split: if_splits)
next
  case (3 vs)
  then show ?case
    using fold_env_item_distinct [of "[]" vs] by (auto simp: non_empty_map_def split: if_splits)
qed simp_all

lemma mergeEnvInterface_wf: "env_wf base \<Longrightarrow> env_wf (mergeEnvInterface base over)"
  by (auto simp: mergeEnvInterface_def or_default_def split: option.splits
      intro!: distinct_copy_into intro: parseEnvInterface_distinct)

text \<open>Merging two environments overrides the first by the second.\<close>

lemma env_of_merge: "env_wf over \<Longrightarrow> env_of (mergeEnvInterface base over) = env_of base ++ env_of over"
  by (auto simp: env_of_def mergeEnvInterface_def or_default_def map_of_copy_into
      parseEnvInterface_distinct split: option.splits)

lemma env_of_null [simp]: "env_of YNull = Map.empty"
  by (simp add: env_of_def or_default_def)

section \<open>Ports\<close>

text \<open>The short form of a port mapping.\<close>

definition print_port :: "PortMapping \<Rightarrow> string" where
  "print_port pm =
     (if pm_hostip pm = [] then [] else pm_hostip pm @ '':'')
     @ pm_hostport pm @ '':'' @ pm_containerport pm @ ''/'' @ pm_protocol pm"

text \<open>An IPv6 address has more colons than the parser expects: the mapping is dropped.\<close>

lemma port_ipv6_dropped: "parsePorts [YString ''[::1]:8080:80''] = []"
  by code_simp

text \<open>
  The short form of a port mapping is read back: printing a mapping and parsing it again gives
  the mapping, where no field holds a separator it must not hold.
\<close>

lemma parsePortString_roundtrip:
  assumes "CHR '':'' \<notin> set (pm_hostip pm)" "CHR '':'' \<notin> set (pm_hostport pm)"
    "CHR '':'' \<notin> set (pm_containerport pm)" "slash \<notin> set (pm_protocol pm)"
  shows "parsePortString (print_port pm) = Some pm"
proof -
  let ?pre = "(if pm_hostip pm = [] then [] else pm_hostip pm @ '':'')
      @ pm_hostport pm @ '':'' @ pm_containerport pm"
  have cut: "last_cut slash (print_port pm) = Some (?pre, pm_protocol pm)"
    using last_cut_last [OF assms(4), of ?pre] by (simp add: print_port_def)
  have parts: "split_on (CHR '':'') ?pre =
      (if pm_hostip pm = [] then [pm_hostport pm, pm_containerport pm]
       else [pm_hostip pm, pm_hostport pm, pm_containerport pm])"
    using split_on_append [OF assms(1)] split_on_append [OF assms(2)] split_on_single [OF assms(3)]
    by simp
  show ?thesis
    unfolding parsePortString_def cut by (simp only: option.case prod.case Let_def parts) simp
qed

lemma parsePortString_roundtrip_witness:
  "parsePortString (print_port \<lparr>pm_hostip = ''127.0.0.1'', pm_hostport = ''8080'',
       pm_containerport = ''80'', pm_protocol = ''udp''\<rparr>)
     = Some \<lparr>pm_hostip = ''127.0.0.1'', pm_hostport = ''8080'', pm_containerport = ''80'',
         pm_protocol = ''udp''\<rparr>"
  by (rule parsePortString_roundtrip) simp_all

end
