(* ===== verification/Parser.thy ===== *)
theory Parser
  imports ComposeFile Scanner
begin

text \<open>
  \<open>internal/discovery/parser.go\<close>: environment files and variables, reading a compose file, merging
  files and services, the \<open>include\<close> and \<open>extends\<close> directives, and \<open>Parse\<close>.

  The record \<open>parse_env\<close> holds what the parser calls outside: \<open>os.ReadFile\<close> (also the reading of an
  opened environment file), the YAML decoder, \<open>os.Environ()\<close>, SHA-256, and the order in which the
  n-th \<open>range\<close> loop of \<open>Parse\<close> visits the keys of a map. Logging is not modelled. The code's environment
  maps are association lists that are only looked up, updated and copied.
\<close>

section \<open>Variables\<close>

type_synonym env_map = "(string, string) gomap"

definition ident_start :: "char \<Rightarrow> bool" where
  "ident_start c =
     (let n = of_char c :: nat in (65 \<le> n \<and> n \<le> 90) \<or> (97 \<le> n \<and> n \<le> 122) \<or> n = 95)"

definition ident_char :: "char \<Rightarrow> bool" where
  "ident_char c = (ident_start c \<or> is_digit c)"

text \<open>
  A match of \<open>envVarPattern\<close> at a dollar sign whose rest is the argument: the matched text and what
  follows it. The first alternative is a non-empty name in braces, the second an identifier.
\<close>

definition env_match :: "string \<Rightarrow> (string \<times> string) option" where
  "env_match s =
     (case s of
        [] \<Rightarrow> None
      | c # t \<Rightarrow>
          if c = CHR ''{'' then
            (let n = takeWhile (\<lambda>x. x \<noteq> CHR ''}'') t; r = dropWhile (\<lambda>x. x \<noteq> CHR ''}'') t in
             if n \<noteq> [] \<and> r \<noteq> [] then Some (''${'' @ n @ ''}'', tl r) else None)
          else if ident_start c then
            Some (CHR ''$'' # c # takeWhile ident_char t, dropWhile ident_char t)
          else None)"

text \<open>The name and the default of a match.\<close>

definition split_default :: "string \<Rightarrow> string \<times> string option" where
  "split_default inner =
     (case str_cut inner '':-'' of
        Some (a, b) \<Rightarrow> (a, Some b)
      | None \<Rightarrow> (case str_cut inner ''-'' of Some (a, b) \<Rightarrow> (a, Some b) | None \<Rightarrow> (inner, None)))"

definition env_value :: "env_map \<Rightarrow> string \<Rightarrow> string \<times> string option \<Rightarrow> string" where
  "env_value envVars match nd =
     (case map_of envVars (fst nd) of
        Some v \<Rightarrow> if v \<noteq> [] then v else or_default (snd nd) match
      | None \<Rightarrow> or_default (snd nd) match)"

definition replace_env :: "env_map \<Rightarrow> string \<Rightarrow> string" where
  "replace_env envVars match =
     env_value envVars match
       (split_default (if has_prefix match ''${'' then take (length match - 3) (drop 2 match)
                       else drop 1 match))"

lemma env_match_shorter: "env_match s = Some (m, r) \<Longrightarrow> length r \<le> length s"
  by (auto simp: env_match_def Let_def length_dropWhile_le le_SucI
      split: list.splits if_splits)
     (metis le_SucI length_dropWhile_le diff_le_self order_trans)

function expandEnvVars :: "env_map \<Rightarrow> string \<Rightarrow> string" where
  "expandEnvVars envVars [] = []"
| "expandEnvVars envVars (c # s) =
     (if c = CHR ''$'' then
        (case env_match s of
           Some (m, r) \<Rightarrow> replace_env envVars m @ expandEnvVars envVars r
         | None \<Rightarrow> c # expandEnvVars envVars s)
      else c # expandEnvVars envVars s)"
  by pat_completeness auto

termination
  by (relation "measure (\<lambda>(e, s). length s)") (auto dest: env_match_shorter)

section \<open>Environment files\<close>

record parse_env =
  pe_read :: "string \<Rightarrow> go_error + string"
  pe_yaml :: "string \<Rightarrow> go_error + composeFile"
  pe_environ :: "string list"
  pe_sha256 :: "string \<Rightarrow> nat list"
  pe_range :: "nat \<Rightarrow> string list \<Rightarrow> string list"

definition is_quote :: "char \<Rightarrow> bool" where
  "is_quote c = ((of_char c :: nat) \<in> set [34, 39])"

definition parse_env_line :: "string \<Rightarrow> env_map \<Rightarrow> env_map" where
  "parse_env_line text env =
     (let line = trim_space text in
      if line = [] \<or> has_prefix line ''#'' then env
      else (case str_cut line ''='' of
              None \<Rightarrow> env
            | Some (k, v) \<Rightarrow>
                AList.update (trim_space k) (trim_where is_quote (trim_space v)) env))"

definition parseEnvFile :: "parse_env \<Rightarrow> string \<Rightarrow> env_map \<Rightarrow> env_map" where
  "parseEnvFile pe path env =
     (case pe_read pe path of
        Inl err \<Rightarrow> env
      | Inr data \<Rightarrow> fold parse_env_line (scan_lines 65536 data) env)"

definition loadEnvFiles :: "parse_env \<Rightarrow> string list \<Rightarrow> env_map" where
  "loadEnvFiles pe files = fold (parseEnvFile pe) files []"

definition getOSEnv :: "parse_env \<Rightarrow> env_map" where
  "getOSEnv pe =
     fold (\<lambda>kv env. case str_cut kv ''='' of None \<Rightarrow> AList.update kv [] env
                    | Some (k, v) \<Rightarrow> AList.update k v env) (pe_environ pe) []"

text \<open>The files' variables, and those of the process that no file sets.\<close>

definition env_vars :: "parse_env \<Rightarrow> string list \<Rightarrow> env_map" where
  "env_vars pe files =
     fold (\<lambda>(k, v) env. if map_of env k = None then AList.update k v env else env)
       (getOSEnv pe) (loadEnvFiles pe files)"

section \<open>Reading and merging files\<close>

text \<open>
  Nil maps are made empty ones, which a map is already here: what is left of \<open>parseFile\<close> is reading,
  expanding and decoding.
\<close>

definition parseFile :: "parse_env \<Rightarrow> string \<Rightarrow> env_map \<Rightarrow> go_error + composeFile" where
  "parseFile pe filePath envVars =
     (case pe_read pe filePath of
        Inl err \<Rightarrow> Inl err
      | Inr data \<Rightarrow>
          (case pe_yaml pe (expandEnvVars envVars data) of
             Inl err \<Rightarrow> Inl (PlainError (''yaml unmarshal: '' @ error_string err))
           | Inr cf \<Rightarrow> Inr cf))"

definition mergeService :: "composeService \<Rightarrow> composeService \<Rightarrow> composeService" where
  "mergeService base over =
     \<lparr>cs_image = (if cs_image over \<noteq> [] then cs_image over else cs_image base),
      cs_build = (if cs_build over \<noteq> YNull then cs_build over else cs_build base),
      cs_ports = (if cs_ports over \<noteq> None
                  then Some (slice (cs_ports base) @ slice (cs_ports over)) else cs_ports base),
      cs_environment = (if cs_environment over \<noteq> YNull
                        then mergeEnvInterface (cs_environment base) (cs_environment over)
                        else cs_environment base),
      cs_labels = (if cs_labels over \<noteq> YNull
                   then mergeEnvInterface (cs_labels base) (cs_labels over) else cs_labels base),
      cs_depends = (if cs_depends over \<noteq> YNull then cs_depends over else cs_depends base),
      cs_profiles = (if cs_profiles over \<noteq> None then cs_profiles over else cs_profiles base),
      cs_volumes = (if cs_volumes over \<noteq> None then cs_volumes over else cs_volumes base),
      cs_networks = (if cs_networks over \<noteq> YNull then cs_networks over else cs_networks base),
      cs_restart = (if cs_restart over \<noteq> [] then cs_restart over else cs_restart base),
      cs_command = (if cs_command over \<noteq> YNull then cs_command over else cs_command base),
      cs_entrypoint = (if cs_entrypoint over \<noteq> YNull then cs_entrypoint over
                       else cs_entrypoint base),
      cs_extends = cs_extends base,
      cs_envfile = (if cs_envfile over \<noteq> YNull then cs_envfile over else cs_envfile base)\<rparr>"

definition merge_one :: "string \<times> composeService \<Rightarrow> (string, composeService) gomap \<Rightarrow>
    (string, composeService) gomap" where
  "merge_one ns m =
     (case map_of m (fst ns) of
        Some existing \<Rightarrow> AList.update (fst ns) (mergeService existing (snd ns)) m
      | None \<Rightarrow> AList.update (fst ns) (snd ns) m)"

definition mergeInto :: "composeFile \<Rightarrow> composeFile \<Rightarrow> composeFile" where
  "mergeInto base over =
     base\<lparr>cf_services := fold merge_one (cf_services over) (cf_services base),
          cf_networks := copy_into (cf_networks over) (cf_networks base),
          cf_volumes := copy_into (cf_volumes over) (cf_volumes base)\<rparr>"

section \<open>Includes\<close>

record includeRef =
  inc_path :: string
  inc_envfile :: string

definition include_entry :: "string \<Rightarrow> yval \<Rightarrow> includeRef list" where
  "include_entry baseDir item =
     (case item of
        YString entry \<Rightarrow> [\<lparr>inc_path = path_join baseDir entry, inc_envfile = []\<rparr>]
      | YMap m \<Rightarrow>
          (let path = (case get_string m ''path'' of None \<Rightarrow> [] | Some p \<Rightarrow> path_join baseDir p);
               envf = (case get_string m ''env_file'' of None \<Rightarrow> [] | Some f \<Rightarrow> path_join baseDir f)
           in if path \<noteq> [] then [\<lparr>inc_path = path, inc_envfile = envf\<rparr>] else [])
      | _ \<Rightarrow> [])"

fun parseIncludeEntries :: "string \<Rightarrow> yval \<Rightarrow> includeRef list" where
  "parseIncludeEntries baseDir (YSeq items) = concat (map (include_entry baseDir) items)"
| "parseIncludeEntries baseDir (YString s) = [\<lparr>inc_path = path_join baseDir s, inc_envfile = []\<rparr>]"
| "parseIncludeEntries baseDir _ = []"

definition include_env :: "parse_env \<Rightarrow> includeRef \<Rightarrow> env_map \<Rightarrow> env_map" where
  "include_env pe inc envVars =
     (if inc_envfile inc \<noteq> [] then parseEnvFile pe (inc_envfile inc) envVars else envVars)"

text \<open>
  \<open>resolveIncludes\<close> and its loop. The bound on the depth ends the recursion of files that include
  each other.
\<close>

function (sequential) resolveIncludes ::
    "parse_env \<Rightarrow> string \<Rightarrow> composeFile \<Rightarrow> env_map \<Rightarrow> nat \<Rightarrow> go_error + composeFile"
  and include_each ::
    "parse_env \<Rightarrow> includeRef list \<Rightarrow> composeFile \<Rightarrow> env_map \<Rightarrow> nat \<Rightarrow> go_error + composeFile" where
  "resolveIncludes pe baseDir cf envVars depth =
     (if cf_include cf = YNull \<or> depth > 10 then Inr cf
      else (case include_each pe (parseIncludeEntries baseDir (cf_include cf)) cf envVars depth of
              Inl err \<Rightarrow> Inl err
            | Inr cf1 \<Rightarrow> Inr (cf1\<lparr>cf_include := YNull\<rparr>)))"
| "include_each pe [] cf envVars depth = Inr cf"
| "include_each pe (inc # incs) cf envVars depth =
     (case parseFile pe (inc_path inc) (include_env pe inc envVars) of
        Inl err \<Rightarrow> include_each pe incs cf envVars depth
      | Inr incFile \<Rightarrow>
          (case resolveIncludes pe (path_dir (inc_path inc)) incFile (include_env pe inc envVars)
                  (Suc depth) of
             Inl err \<Rightarrow> Inl err
           | Inr resolved \<Rightarrow> include_each pe incs (mergeInto cf resolved) envVars depth))"
  by pat_completeness auto

termination
  by (relation "measures [
        \<lambda>x. (case x of Inl (pe, dir, cf, env, d) \<Rightarrow> 2 * (11 - d)
                     | Inr (pe, incs, cf, env, d) \<Rightarrow> 2 * (11 - d) - 1),
        \<lambda>x. (case x of Inl (pe, dir, cf, env, d) \<Rightarrow> 0 | Inr (pe, incs, cf, env, d) \<Rightarrow> length incs)]")
     auto

section \<open>Extends\<close>

function resolveExtends ::
    "parse_env \<Rightarrow> string \<Rightarrow> extendsConfig \<Rightarrow> env_map \<Rightarrow> nat \<Rightarrow> go_error + composeService" where
  "resolveExtends pe baseDir ext envVars depth =
     (if depth > 10 then Inl (PlainError ''extends recursion limit exceeded'')
      else
        (let filePath = path_join baseDir (ex_file ext) in
         (case parseFile pe filePath envVars of
            Inl err \<Rightarrow>
              Inl (PlainError (''parse extends file '' @ filePath @ '': '' @ error_string err))
          | Inr cf \<Rightarrow>
              (case map_of (cf_services cf) (ex_service ext) of
                 None \<Rightarrow>
                   Inl (PlainError (''service '' @ go_quote (ex_service ext) @ '' not found in ''
                          @ filePath))
               | Some svc \<Rightarrow>
                   (case cs_extends svc of
                      None \<Rightarrow> Inr svc
                    | Some up \<Rightarrow>
                        (case resolveExtends pe (path_dir filePath) up envVars (Suc depth) of
                           Inl err \<Rightarrow> Inl err
                         | Inr parent \<Rightarrow> Inr ((mergeService parent svc)\<lparr>cs_extends := None\<rparr>)))))))"
  by pat_completeness auto

termination
  by (relation "measure (\<lambda>(pe, dir, ext, env, d). 11 - d)") auto

declare resolveExtends.simps [simp del] resolveIncludes.simps [simp del]

section \<open>From the merged file to the project\<close>

definition convertService :: "string \<Rightarrow> composeService \<Rightarrow> Service" where
  "convertService name svc =
     \<lparr>svc_name = name, svc_image = cs_image svc,
      svc_build = (if cs_build svc \<noteq> YNull then parseBuildConfig (cs_build svc) else None),
      svc_ports = parsePorts (slice (cs_ports svc)),
      svc_environment = or_default (parseEnvInterface (cs_environment svc)) [],
      svc_labels = or_default (parseEnvInterface (cs_labels svc)) [],
      svc_depends = parseDependsOn (cs_depends svc),
      svc_profiles = slice (cs_profiles svc),
      svc_volumes = parseVolumeMounts (slice (cs_volumes svc)),
      svc_networks = parseNetworksList (cs_networks svc),
      svc_restart = cs_restart svc,
      svc_command = parseStringOrSlice (cs_command svc),
      svc_entrypoint = parseStringOrSlice (cs_entrypoint svc),
      svc_containerid = [], svc_state = StateCreated, svc_health = HealthNone\<rparr>"

definition convert_network :: "composeNetwork \<Rightarrow> Network" where
  "convert_network n =
     \<lparr>net_name = cn_name n, net_driver = cn_driver n,
      net_external = parseBoolOrStruct (cn_external n), net_labels = cn_labels n\<rparr>"

definition convert_volume :: "composeVolume \<Rightarrow> Volume" where
  "convert_volume v =
     \<lparr>vol_name = cv_name v, vol_driver = cv_driver v,
      vol_external = parseBoolOrStruct (cv_external v), vol_labels = cv_labels v\<rparr>"

text \<open>
  The files named by a service's \<open>env_file\<close>, and the environment they give: nil where nothing was
  read.
\<close>

definition env_file_entry :: "yval \<Rightarrow> string list" where
  "env_file_entry item =
     (case item of
        YString s \<Rightarrow> [s]
      | YMap m \<Rightarrow> (case get_string m ''path'' of None \<Rightarrow> [] | Some p \<Rightarrow> [p])
      | _ \<Rightarrow> [])"

fun env_file_paths :: "yval \<Rightarrow> string list" where
  "env_file_paths (YString s) = [s]"
| "env_file_paths (YSeq items) = concat (map env_file_entry items)"
| "env_file_paths _ = []"

definition loadServiceEnvFiles :: "parse_env \<Rightarrow> string \<Rightarrow> yval \<Rightarrow> yval" where
  "loadServiceEnvFiles pe projectDir envFile =
     (let env = fold (\<lambda>f. parseEnvFile pe (path_join projectDir f)) (env_file_paths envFile) [] in
      if env = [] then YNull else YStrMap env)"

text \<open>The loops of \<open>Parse\<close>: the compose files in order, then the services in some order.\<close>

definition empty_file :: composeFile where
  "empty_file = \<lparr>cf_services = [], cf_networks = [], cf_volumes = [], cf_include = YNull\<rparr>"

fun merge_files :: "parse_env \<Rightarrow> env_map \<Rightarrow> string list \<Rightarrow> composeFile \<Rightarrow> go_error + composeFile" where
  "merge_files pe envVars [] merged = Inr merged"
| "merge_files pe envVars (filePath # fs) merged =
     (case parseFile pe filePath envVars of
        Inl err \<Rightarrow> Inl (PlainError (''parse '' @ filePath @ '': '' @ error_string err))
      | Inr cf \<Rightarrow>
          (case resolveIncludes pe (path_dir filePath) cf envVars 0 of
             Inl err \<Rightarrow>
               Inl (PlainError (''resolve includes in '' @ filePath @ '': '' @ error_string err))
           | Inr cf1 \<Rightarrow> merge_files pe envVars fs (mergeInto merged cf1)))"

fun extend_services :: "parse_env \<Rightarrow> string \<Rightarrow> env_map \<Rightarrow> string list \<Rightarrow>
    (string, composeService) gomap \<Rightarrow> go_error + (string, composeService) gomap" where
  "extend_services pe dir envVars [] m = Inr m"
| "extend_services pe dir envVars (name # ns) m =
     (case map_of m name of
        None \<Rightarrow> extend_services pe dir envVars ns m
      | Some svc \<Rightarrow>
          (case cs_extends svc of
             None \<Rightarrow> extend_services pe dir envVars ns m
           | Some ext \<Rightarrow>
               (case resolveExtends pe dir ext envVars 0 of
                  Inl err \<Rightarrow>
                    Inl (PlainError (''resolve extends for service '' @ name @ '': ''
                           @ error_string err))
                | Inr resolved \<Rightarrow>
                    extend_services pe dir envVars ns
                      (AList.update name ((mergeService resolved svc)\<lparr>cs_extends := None\<rparr>) m))))"

definition with_env_files :: "parse_env \<Rightarrow> string \<Rightarrow> composeService \<Rightarrow> composeService" where
  "with_env_files pe dir svc =
     (if cs_envfile svc = YNull then svc
      else svc\<lparr>cs_environment :=
             mergeEnvInterface (loadServiceEnvFiles pe dir (cs_envfile svc)) (cs_environment svc)\<rparr>)"

text \<open>The keys of a map as the n-th \<open>range\<close> loop visits them.\<close>

definition visit :: "parse_env \<Rightarrow> nat \<Rightarrow> (string, 'v) gomap \<Rightarrow> string list" where
  "visit pe n m = pe_range pe n (map fst m)"

definition services_of :: "parse_env \<Rightarrow> (string, composeService) gomap \<Rightarrow> Service list" where
  "services_of pe m =
     concat (map (\<lambda>name. case map_of m name of None \<Rightarrow> [] | Some svc \<Rightarrow> [convertService name svc])
       (visit pe 1 m))"

definition build_project :: "parse_env \<Rightarrow> DiscoveredProject \<Rightarrow> composeFile \<Rightarrow> Project" where
  "build_project pe disc merged =
     (let services = services_of pe (cf_services merged) in
      \<lparr>pr_id = GenerateProjectID (pe_sha256 pe) (dp_path disc), pr_name = path_base (dp_path disc),
       pr_path = dp_path disc, pr_composefiles = dp_composefiles disc,
       pr_envfiles = dp_envfiles disc, pr_services = services,
       pr_networks = map (\<lambda>(n, v). (n, convert_network v)) (cf_networks merged),
       pr_volumes = map (\<lambda>(n, v). (n, convert_volume v)) (cf_volumes merged),
       pr_profiles = pe_range pe 2 (remdups (concat (map svc_profiles services))),
       pr_status = ProjectStatusUnknown, pr_lastop = None, pr_discovered = 0, pr_updated = 0\<rparr>)"

definition Parse :: "parse_env \<Rightarrow> DiscoveredProject \<Rightarrow> go_error + Project" where
  "Parse pe disc =
     (let envVars = env_vars pe (dp_envfiles disc) in
      (case merge_files pe envVars (dp_composefiles disc) empty_file of
         Inl err \<Rightarrow> Inl err
       | Inr merged \<Rightarrow>
           (case extend_services pe (dp_path disc) envVars (visit pe 0 (cf_services merged))
                   (cf_services merged) of
              Inl err \<Rightarrow> Inl err
            | Inr svcs \<Rightarrow>
                Inr (build_project pe disc
                  (merged\<lparr>cf_services :=
                     map (\<lambda>(n, s). (n, with_env_files pe (dp_path disc) s)) svcs\<rparr>)))))"

end
