(* ===== verification/ParserFacts.thy ===== *)
theory ParserFacts
  imports Parser "HOL-Library.Multiset"
begin

text \<open>
  Facts about the parser: variable expansion against a reference semantics of templates, the merge of
  services and files as a merge of environments, the chain of an \<open>extends\<close> directive, and the shape of
  the project \<open>Parse\<close> returns.
\<close>

section \<open>Templates\<close>

text \<open>
  A template is a list of pieces: text without a dollar sign, a variable in braces with an optional
  default (written after \<open>:-\<close> when the flag is set, after \<open>-\<close> otherwise), and a plain variable.
\<close>

datatype piece =
    Lit string
  | Braced string "(bool \<times> string) option"
  | Plain string

fun print_piece :: "piece \<Rightarrow> string" where
  "print_piece (Lit s) = s"
| "print_piece (Braced n None) = ''${'' @ n @ ''}''"
| "print_piece (Braced n (Some (c, d))) = ''${'' @ n @ (if c then '':-'' else ''-'') @ d @ ''}''"
| "print_piece (Plain n) = CHR ''$'' # n"

definition print_pieces :: "piece list \<Rightarrow> string" where
  "print_pieces ps = concat (map print_piece ps)"

text \<open>What a piece stands for: the value of a set, non-empty variable, else the default, else itself.\<close>

definition set_value :: "env_map \<Rightarrow> string \<Rightarrow> string option" where
  "set_value env n = (case map_of env n of Some v \<Rightarrow> if v = [] then None else Some v | None \<Rightarrow> None)"

fun piece_value :: "env_map \<Rightarrow> piece \<Rightarrow> string" where
  "piece_value env (Lit s) = s"
| "piece_value env (Braced n d) =
     or_default (set_value env n) (case d of Some (c, v) \<Rightarrow> v | None \<Rightarrow> print_piece (Braced n None))"
| "piece_value env (Plain n) = or_default (set_value env n) (print_piece (Plain n))"

definition ident :: "string \<Rightarrow> bool" where
  "ident n = (n \<noteq> [] \<and> ident_start (hd n) \<and> list_all ident_char n)"

fun piece_ok :: "piece \<Rightarrow> bool" where
  "piece_ok (Lit s) = (CHR ''$'' \<notin> set s)"
| "piece_ok (Braced n None) = ident n"
| "piece_ok (Braced n (Some (c, d))) =
     (ident n \<and> CHR ''}'' \<notin> set d \<and> (c \<or> \<not> str_contains d '':-''))"
| "piece_ok (Plain n) = ident n"

text \<open>The text after a plain variable must not read on as part of its name.\<close>

fun pieces_ok :: "piece list \<Rightarrow> bool" where
  "pieces_ok [] = True"
| "pieces_ok (p # ps) =
     (piece_ok p \<and> pieces_ok ps \<and>
      (case p of Plain n \<Rightarrow> print_pieces ps = [] \<or> \<not> ident_char (hd (print_pieces ps)) | _ \<Rightarrow> True))"

lemma ident_char_not:
  "ident_char c \<Longrightarrow> c \<noteq> CHR '':'' \<and> c \<noteq> CHR ''-'' \<and> c \<noteq> CHR ''}'' \<and> c \<noteq> CHR ''{''"
  by (auto simp: ident_char_def ident_start_def is_digit_def)

lemma ident_no: "ident n \<Longrightarrow> CHR '':'' \<notin> set n \<and> CHR ''-'' \<notin> set n \<and> CHR ''}'' \<notin> set n"
  by (auto simp: ident_def list_all_iff dest: ident_char_not)

lemma expand_lit: "CHR ''$'' \<notin> set s \<Longrightarrow> expandEnvVars env (s @ t) = s @ expandEnvVars env t"
  by (induction s) auto

lemma env_match_braced:
  "n \<noteq> [] \<Longrightarrow> CHR ''}'' \<notin> set n \<Longrightarrow>
     env_match (CHR ''{'' # n @ CHR ''}'' # t) = Some (''${'' @ n @ ''}'', t)"
  by (simp add: env_match_def Let_def takeWhile_append dropWhile_append)

lemma env_match_plain:
  assumes "ident n" "t = [] \<or> \<not> ident_char (hd t)"
  shows "env_match (n @ t) = Some (CHR ''$'' # n, t)"
proof -
  obtain c s where n: "n = c # s" using assms(1) by (cases n) (auto simp: ident_def)
  have all: "\<forall>x \<in> set s. ident_char x" and c: "ident_start c" "c \<noteq> CHR ''{''"
    using assms(1) ident_char_not [of c] by (auto simp: n ident_def list_all_iff ident_char_def)
  have "takeWhile ident_char t = []" "dropWhile ident_char t = t"
    using assms(2) by (cases t; auto)+
  then show ?thesis
    using all c by (simp add: env_match_def n takeWhile_append dropWhile_append)
qed

lemma replace_braced [simp]:
  "replace_env env (''${'' @ n @ ''}'') = env_value env (''${'' @ n @ ''}'') (split_default n)"
  by (simp add: replace_env_def has_prefix_def)

lemma replace_plain:
  "ident n \<Longrightarrow> replace_env env (CHR ''$'' # n) = env_value env (CHR ''$'' # n) (split_default n)"
  by (cases n) (auto simp: replace_env_def has_prefix_def ident_def list_all_iff
      dest: ident_char_not)

lemma split_default_none: "ident n \<Longrightarrow> split_default n = (n, None)"
  using ident_no [of n] str_cut_None_iff [of n "'':-''"] str_cut_char_None [of n "CHR ''-''"]
  by (auto simp: split_default_def str_contains_iff split: option.splits)

lemma str_cut_prefix:
  "c \<notin> set a \<Longrightarrow> str_cut (a @ (c # sub) @ b) (c # sub) = Some (a, b)"
  by (induction a) (auto simp: has_prefix_def)

lemma split_default_colon: "ident n \<Longrightarrow> split_default (n @ '':-'' @ d) = (n, Some d)"
  using str_cut_prefix [of "CHR '':''" n "''-''" d] ident_no [of n] by (simp add: split_default_def)

lemma split_default_dash:
  assumes "ident n" "\<not> str_contains d '':-''"
  shows "split_default (n @ ''-'' @ d) = (n, Some d)"
proof -
  have "\<not> str_contains (n @ ''-'' @ d) '':-''"
  proof
    assume "str_contains (n @ ''-'' @ d) '':-''"
    then obtain a b where ab: "n @ ''-'' @ d = a @ '':-'' @ b" by (auto simp: str_contains_iff)
    have no: "CHR '':'' \<notin> set n" using ident_no [OF assms(1)] by simp
    obtain us where "(n = a @ us \<and> us @ ''-'' @ d = '':-'' @ b) \<or> (n @ us = a \<and> ''-'' @ d = us @ '':-'' @ b)"
      using ab by (auto simp: append_eq_append_conv2)
    then show False
    proof
      assume "n = a @ us \<and> us @ ''-'' @ d = '':-'' @ b"
      then show False using no by (cases us) auto
    next
      assume "n @ us = a \<and> ''-'' @ d = us @ '':-'' @ b"
      then show False using assms(2) by (cases us) (auto simp: str_contains_iff)
    qed
  qed
  then have "str_cut (n @ ''-'' @ d) '':-'' = None" by (simp add: str_cut_None_iff)
  moreover have "str_cut (n @ ''-'' @ d) ''-'' = Some (n, d)"
    using str_cut_char [of "CHR ''-''" n d] ident_no [OF assms(1)] by simp
  ultimately show ?thesis by (simp add: split_default_def)
qed

lemma env_value_set:
  "env_value env m (n, d) = or_default (set_value env n) (or_default d m)"
  by (auto simp: env_value_def set_value_def or_default_def split: option.splits)

lemma expand_braced:
  assumes "n \<noteq> []" "CHR ''}'' \<notin> set n"
  shows "expandEnvVars env (''${'' @ n @ ''}'' @ t)
    = env_value env (''${'' @ n @ ''}'') (split_default n) @ expandEnvVars env t"
  using env_match_braced [OF assms, of t] replace_braced [of env n] by simp

lemma expand_piece:
  assumes "piece_ok p" "\<And>n. p = Plain n \<Longrightarrow> t = [] \<or> \<not> ident_char (hd t)"
  shows "expandEnvVars env (print_piece p @ t) = piece_value env p @ expandEnvVars env t"
proof (cases p)
  case (Lit s)
  then show ?thesis using assms expand_lit by simp
next
  case (Plain n)
  then have "ident n" "t = [] \<or> \<not> ident_char (hd t)" using assms by auto
  then show ?thesis
    using env_match_plain [of n t] replace_plain [of n env] split_default_none [of n]
    by (simp add: Plain env_value_set or_default_def)
next
  case (Braced n d)
  show ?thesis
  proof (cases d)
    case None
    then have n: "ident n" using assms(1) Braced by simp
    then have "n \<noteq> []" "CHR ''}'' \<notin> set n" using ident_no by (auto simp: ident_def)
    from expand_braced [OF this, of env t] show ?thesis
      using n by (simp add: Braced None split_default_none env_value_set or_default_def)
  next
    case (Some cd)
    obtain c v where cd: "cd = (c, v)" by (cases cd)
    let ?inner = "n @ (if c then '':-'' else ''-'') @ v"
    have n: "ident n" and v: "CHR ''}'' \<notin> set v" "c \<or> \<not> str_contains v '':-''"
      using assms(1) Braced Some cd by auto
    have "?inner \<noteq> []" "CHR ''}'' \<notin> set ?inner" using n v ident_no by (auto simp: ident_def)
    moreover have "split_default ?inner = (n, Some v)"
      using n v split_default_colon split_default_dash by (cases c) simp_all
    ultimately show ?thesis
      using expand_braced [of ?inner env t]
      by (simp add: Braced Some cd env_value_set or_default_def)
  qed
qed

lemma expand_pieces:
  "pieces_ok ps \<Longrightarrow> expandEnvVars env (print_pieces ps) = concat (map (piece_value env) ps)"
proof (induction ps)
  case Nil
  then show ?case by (simp add: print_pieces_def)
next
  case (Cons p ps)
  have "expandEnvVars env (print_piece p @ print_pieces ps)
      = piece_value env p @ expandEnvVars env (print_pieces ps)"
    by (rule expand_piece) (use Cons.prems in auto)
  then show ?case using Cons by (simp add: print_pieces_def)
qed

section \<open>Extends\<close>

text \<open>
  One step of a chain: the service an \<open>extends\<close> names, and the directory further files are relative to.
\<close>

definition extends_step :: "parse_env \<Rightarrow> env_map \<Rightarrow> string \<Rightarrow> extendsConfig \<Rightarrow> composeService option" where
  "extends_step pe env dir ext =
     (case parseFile pe (path_join dir (ex_file ext)) env of
        Inl err \<Rightarrow> None
      | Inr cf \<Rightarrow> map_of (cf_services cf) (ex_service ext))"

definition parent_dir :: "string \<Rightarrow> extendsConfig \<Rightarrow> string" where
  "parent_dir dir ext = path_dir (path_join dir (ex_file ext))"

text \<open>The services of a chain that ends within \<open>n\<close> files, the extended service last.\<close>

fun extends_chain :: "nat \<Rightarrow> parse_env \<Rightarrow> env_map \<Rightarrow> string \<Rightarrow> extendsConfig \<Rightarrow>
    composeService list option" where
  "extends_chain 0 pe env dir ext = None"
| "extends_chain (Suc n) pe env dir ext =
     (case extends_step pe env dir ext of
        None \<Rightarrow> None
      | Some svc \<Rightarrow>
          (case cs_extends svc of
             None \<Rightarrow> Some [svc]
           | Some up \<Rightarrow> map_option ((#) svc) (extends_chain n pe env (parent_dir dir ext) up)))"

fun merge_chain :: "composeService list \<Rightarrow> composeService" where
  "merge_chain [] = undefined"
| "merge_chain [svc] = svc"
| "merge_chain (svc # up # ups) = (mergeService (merge_chain (up # ups)) svc)\<lparr>cs_extends := None\<rparr>"

lemma extends_chain_nonempty: "extends_chain n pe env dir ext = Some ss \<Longrightarrow> ss \<noteq> []"
  by (cases n) (auto split: option.splits)

lemma resolveExtends_step:
  assumes "depth \<le> 10" "extends_step pe env dir ext = Some svc"
  shows "resolveExtends pe dir ext env depth =
    (case cs_extends svc of
       None \<Rightarrow> Inr svc
     | Some up \<Rightarrow>
         (case resolveExtends pe (parent_dir dir ext) up env (Suc depth) of
            Inl err \<Rightarrow> Inl err
          | Inr parent \<Rightarrow> Inr ((mergeService parent svc)\<lparr>cs_extends := None\<rparr>)))"
proof -
  obtain cf where "parseFile pe (path_join dir (ex_file ext)) env = Inr cf"
      "map_of (cf_services cf) (ex_service ext) = Some svc"
    using assms(2) by (auto simp: extends_step_def split: sum.splits)
  then show ?thesis
    using assms(1) unfolding parent_dir_def by (subst resolveExtends.simps) (simp add: Let_def)
qed

lemma resolveExtends_no_step:
  assumes "extends_step pe env dir ext = None"
  shows "\<exists>err. resolveExtends pe dir ext env depth = Inl err"
  using assms by (subst resolveExtends.simps) (auto simp: Let_def extends_step_def split: sum.splits)

lemma resolveExtends_chain:
  "depth + n = 11 \<Longrightarrow>
     (case resolveExtends pe dir ext env depth of Inl err \<Rightarrow> None | Inr svc \<Rightarrow> Some svc)
       = map_option merge_chain (extends_chain n pe env dir ext)"
proof (induction n arbitrary: dir ext depth)
  case 0
  then show ?case by (subst resolveExtends.simps) simp
next
  case (Suc n)
  show ?case
  proof (cases "extends_step pe env dir ext")
    case None
    then show ?thesis using resolveExtends_no_step [OF None, of depth] by auto
  next
    case (Some svc)
    note step = resolveExtends_step [OF _ Some, of depth]
    show ?thesis
    proof (cases "cs_extends svc")
      case None
      then show ?thesis using Some Suc.prems step by simp
    next
      case up: (Some up)
      have IH: "(case resolveExtends pe (parent_dir dir ext) up env (Suc depth) of
            Inl err \<Rightarrow> None | Inr svc \<Rightarrow> Some svc)
          = map_option merge_chain (extends_chain n pe env (parent_dir dir ext) up)"
        by (rule Suc.IH) (use Suc.prems in simp)
      show ?thesis
      proof (cases "extends_chain n pe env (parent_dir dir ext) up")
        case None
        then show ?thesis using IH Some up Suc.prems step by (simp split: sum.splits)
      next
        case chain: (Some ss)
        obtain s ss' where ss: "ss = s # ss'" using extends_chain_nonempty [OF chain] by (cases ss) auto
        have "resolveExtends pe (parent_dir dir ext) up env (Suc depth) = Inr (merge_chain ss)"
          using IH chain by (simp split: sum.splits)
        then show ?thesis using chain Some up Suc.prems step by (simp add: ss)
      qed
    qed
  qed
qed

text \<open>A chain that never ends: the services extended, step by step.\<close>

definition endless_extends :: "parse_env \<Rightarrow> env_map \<Rightarrow> (nat \<Rightarrow> string \<times> extendsConfig) \<Rightarrow> bool" where
  "endless_extends pe env links \<longleftrightarrow>
     (\<forall>n. \<exists>svc. extends_step pe env (fst (links n)) (snd (links n)) = Some svc \<and>
        cs_extends svc = Some (snd (links (Suc n))) \<and>
        fst (links (Suc n)) = parent_dir (fst (links n)) (snd (links n)))"

lemma endless_limit:
  assumes "endless_extends pe env links"
  shows "depth + n = 11 \<Longrightarrow> resolveExtends pe (fst (links k)) (snd (links k)) env depth
    = Inl (PlainError ''extends recursion limit exceeded'')"
proof (induction n arbitrary: k depth)
  case 0
  then show ?case by (subst resolveExtends.simps) simp
next
  case (Suc n)
  obtain svc where "extends_step pe env (fst (links k)) (snd (links k)) = Some svc"
      "cs_extends svc = Some (snd (links (Suc k)))"
      "fst (links (Suc k)) = parent_dir (fst (links k)) (snd (links k))"
    using assms by (auto simp: endless_extends_def)
  then show ?case
    using resolveExtends_step [of depth pe env "fst (links k)" "snd (links k)" svc]
      Suc.IH [of "Suc depth" "Suc k"] Suc.prems by simp
qed

section \<open>Includes never fail\<close>

lemma includes_total:
  "\<exists>cf'. resolveIncludes pe dir cf env d = Inr cf'"
  "\<exists>cf'. include_each pe incs cf env d = Inr cf'"
proof (induction pe dir cf env d and pe incs cf env d rule: resolveIncludes_include_each.induct)
  case (1 pe dir cf env d)
  show ?case
  proof (cases "cf_include cf = YNull \<or> d > 10")
    case True
    then show ?thesis by (subst resolveIncludes.simps) auto
  next
    case False
    then show ?thesis using 1 by (subst resolveIncludes.simps) auto
  qed
next
  case (2 pe cf env d)
  then show ?case by simp
next
  case (3 pe inc incs cf env d)
  show ?case
  proof (cases "parseFile pe (inc_path inc) (include_env pe inc env)")
    case (Inl err)
    then show ?thesis using 3 by simp
  next
    case (Inr f)
    then obtain r where "resolveIncludes pe (path_dir (inc_path inc)) f (include_env pe inc env) (Suc d) = Inr r"
      using "3.IH"(2) by blast
    then show ?thesis using "3.IH"(3) Inr by simp
  qed
qed

section \<open>Merging files\<close>

text \<open>
  What the YAML decoder guarantees of a file: no service name twice, and no environment in the form
  the parser itself makes, unless it is a proper map.
\<close>

definition file_wf :: "composeFile \<Rightarrow> bool" where
  "file_wf cf \<longleftrightarrow>
     distinct (map fst (cf_services cf)) \<and>
     (\<forall>(n, s) \<in> set (cf_services cf). env_wf (cs_environment s))"

definition yaml_wf :: "parse_env \<Rightarrow> bool" where
  "yaml_wf pe \<longleftrightarrow> (\<forall>s cf. pe_yaml pe s = Inr cf \<longrightarrow> file_wf cf)"

text \<open>A service merged into what is there.\<close>

definition merge_opt :: "composeService option \<Rightarrow> composeService option \<Rightarrow> composeService option" where
  "merge_opt b over =
     (case over of None \<Rightarrow> b
      | Some s \<Rightarrow> (case b of None \<Rightarrow> Some s | Some e \<Rightarrow> Some (mergeService e s)))"

lemma map_of_merge_one:
  "map_of (merge_one (n, s) m) = (map_of m)(n := merge_opt (map_of m n) (Some s))"
  by (auto simp: merge_one_def merge_opt_def split: option.splits)

lemma map_of_merge:
  "distinct (map fst over) \<Longrightarrow>
     map_of (fold merge_one over base) name = merge_opt (map_of base name) (map_of over name)"
proof (induction over arbitrary: base)
  case Nil
  then show ?case by (simp add: merge_opt_def)
next
  case (Cons ns over)
  obtain n s where ns: "ns = (n, s)" by (cases ns)
  have "map_of over n = None" using Cons.prems by (simp add: ns map_of_eq_None_iff)
  then show ?case
    using Cons by (auto simp: ns map_of_merge_one) (simp add: merge_opt_def)
qed

lemma merge_one_distinct: "distinct (map fst m) \<Longrightarrow> distinct (map fst (merge_one ns m))"
  by (auto simp: merge_one_def distinct_update split: option.splits)

lemma fold_merge_distinct: "distinct (map fst m) \<Longrightarrow> distinct (map fst (fold merge_one over m))"
  by (induction over arbitrary: m) (simp_all add: merge_one_distinct)

lemma mergeService_env_wf:
  "env_wf (cs_environment b) \<Longrightarrow> env_wf (cs_environment s) \<Longrightarrow>
     env_wf (cs_environment (mergeService b s))"
  by (auto simp: mergeService_def intro: mergeEnvInterface_wf)

lemma file_wf_lookup:
  "file_wf cf \<longleftrightarrow> distinct (map fst (cf_services cf)) \<and>
     (\<forall>n s. map_of (cf_services cf) n = Some s \<longrightarrow> env_wf (cs_environment s))"
  unfolding file_wf_def by (auto dest: map_of_SomeD)

lemma file_wf_merge:
  assumes "file_wf a" "file_wf b"
  shows "file_wf (mergeInto a b)"
proof -
  have b: "distinct (map fst (cf_services b))" using assms(2) by (simp add: file_wf_def)
  have "env_wf (cs_environment s)" if "map_of (cf_services (mergeInto a b)) n = Some s" for n s
    using that assms b
    by (auto simp: mergeInto_def map_of_merge merge_opt_def file_wf_lookup
        intro: mergeService_env_wf split: option.splits)
  then show ?thesis
    using assms by (simp add: file_wf_lookup mergeInto_def fold_merge_distinct)
qed

lemma parseFile_wf: "yaml_wf pe \<Longrightarrow> parseFile pe p env = Inr cf \<Longrightarrow> file_wf cf"
  by (auto simp: parseFile_def yaml_wf_def split: sum.splits)

lemma file_wf_include [simp]: "file_wf (cf\<lparr>cf_include := v\<rparr>) = file_wf cf"
  by (simp add: file_wf_def)

lemma includes_wf:
  assumes "yaml_wf pe"
  shows "file_wf cf \<Longrightarrow> pe' = pe \<Longrightarrow> resolveIncludes pe' dir cf env d = Inr cf' \<Longrightarrow> file_wf cf'"
    and "file_wf cf \<Longrightarrow> pe' = pe \<Longrightarrow> include_each pe' incs cf env d = Inr cf' \<Longrightarrow> file_wf cf'"
proof (induction pe' dir cf env d and pe' incs cf env d arbitrary: cf' and cf'
    rule: resolveIncludes_include_each.induct)
  case (1 pe dir cf env d)
  show ?case
  proof (cases "cf_include cf = YNull \<or> d > 10")
    case True
    then show ?thesis using "1.prems" by (subst (asm) resolveIncludes.simps) auto
  next
    case False
    obtain r where r: "include_each pe (parseIncludeEntries dir (cf_include cf)) cf env d = Inr r"
      using includes_total(2) by blast
    then have "file_wf r" using "1.IH" False "1.prems" by blast
    then show ?thesis using "1.prems" False r by (subst (asm) resolveIncludes.simps) auto
  qed
next
  case (2 pe cf env d)
  then show ?case by simp
next
  case (3 pe inc incs cf env d)
  let ?f = "parseFile pe (inc_path inc) (include_env pe inc env)"
  show ?case
  proof (cases ?f)
    case (Inl err)
    then show ?thesis using 3 by simp
  next
    case (Inr f)
    obtain r where r: "resolveIncludes pe (path_dir (inc_path inc)) f (include_env pe inc env) (Suc d) = Inr r"
      using includes_total(1) by blast
    have "file_wf f" using parseFile_wf [OF assms] Inr "3.prems" by blast
    then have "file_wf r" using "3.IH"(2) [OF Inr] r "3.prems" by blast
    then have "file_wf (mergeInto cf r)" using "3.prems" file_wf_merge by blast
    then show ?thesis using "3.IH"(3) [OF Inr r] Inr r "3.prems" by simp
  qed
qed

text \<open>A compose file with its includes.\<close>

definition load_file :: "parse_env \<Rightarrow> env_map \<Rightarrow> string \<Rightarrow> composeFile option" where
  "load_file pe env path =
     (case parseFile pe path env of
        Inl err \<Rightarrow> None
      | Inr cf \<Rightarrow> (case resolveIncludes pe (path_dir path) cf env 0 of Inl err \<Rightarrow> None | Inr r \<Rightarrow> Some r))"

lemma load_file_wf: "yaml_wf pe \<Longrightarrow> load_file pe env path = Some cf \<Longrightarrow> file_wf cf"
  by (auto simp: load_file_def split: sum.splits dest: parseFile_wf includes_wf(1) [OF _ _ refl])

lemma merge_files_loaded:
  "merge_files pe env paths base = Inr merged \<Longrightarrow>
     \<exists>cfs. map (load_file pe env) paths = map Some cfs \<and> merged = fold (\<lambda>cf m. mergeInto m cf) cfs base"
proof (induction paths arbitrary: base)
  case Nil
  then show ?case by simp
next
  case (Cons p paths)
  obtain cf r where cf: "parseFile pe p env = Inr cf"
      "resolveIncludes pe (path_dir p) cf env 0 = Inr r"
      "merge_files pe env paths (mergeInto base r) = Inr merged"
    using Cons.prems by (auto split: sum.splits)
  obtain cfs where "map (load_file pe env) paths = map Some cfs"
      "merged = fold (\<lambda>cf m. mergeInto m cf) cfs (mergeInto base r)"
    using Cons.IH [OF cf(3)] by blast
  moreover have "load_file pe env p = Some r" by (simp add: load_file_def cf(1,2))
  ultimately show ?case by (intro exI [of _ "r # cfs"]) simp
qed

text \<open>The environment a file gives a service, and what a list of files gives it: the last one wins.\<close>

definition service_env :: "composeFile \<Rightarrow> string \<Rightarrow> string \<Rightarrow> string option" where
  "service_env cf name =
     (case map_of (cf_services cf) name of None \<Rightarrow> Map.empty | Some s \<Rightarrow> env_of (cs_environment s))"

lemma env_of_mergeService:
  "env_wf (cs_environment s) \<Longrightarrow>
     env_of (cs_environment (mergeService b s)) = env_of (cs_environment b) ++ env_of (cs_environment s)"
  by (auto simp: mergeService_def env_of_merge)

lemma service_env_merge:
  assumes "file_wf b"
  shows "service_env (mergeInto a b) name = service_env a name ++ service_env b name"
proof -
  have "distinct (map fst (cf_services b))" using assms by (simp add: file_wf_def)
  then show ?thesis
    using assms
    by (auto simp: service_env_def mergeInto_def map_of_merge merge_opt_def file_wf_lookup
        env_of_mergeService split: option.splits)
qed

definition last_setting :: "composeFile list \<Rightarrow> string \<Rightarrow> string \<Rightarrow> string option" where
  "last_setting cfs name k =
     (case find (\<lambda>cf. service_env cf name k \<noteq> None) (rev cfs) of
        None \<Rightarrow> None | Some cf \<Rightarrow> service_env cf name k)"

lemma last_setting_snoc:
  "last_setting (cfs @ [cf]) name k =
     (case service_env cf name k of None \<Rightarrow> last_setting cfs name k | Some v \<Rightarrow> Some v)"
  by (auto simp: last_setting_def)

lemma service_env_fold:
  "list_all file_wf cfs \<Longrightarrow>
     service_env (fold (\<lambda>cf m. mergeInto m cf) cfs base) name k =
       (case last_setting cfs name k of None \<Rightarrow> service_env base name k | Some v \<Rightarrow> Some v)"
proof (induction cfs rule: rev_induct)
  case Nil
  then show ?case by (simp add: last_setting_def)
next
  case (snoc cf cfs)
  then show ?case
    by (auto simp: service_env_merge last_setting_snoc map_add_def split: option.splits)
qed

lemma file_wf_fold:
  "list_all file_wf cfs \<Longrightarrow> file_wf base \<Longrightarrow> file_wf (fold (\<lambda>cf m. mergeInto m cf) cfs base)"
  by (induction cfs arbitrary: base) (simp_all add: file_wf_merge)

lemma file_wf_empty [simp]: "file_wf empty_file"
  by (simp add: file_wf_def empty_file_def)

section \<open>The project\<close>

lemma extend_services_keys:
  "extend_services pe dir env ns m = Inr m' \<Longrightarrow> map fst m' = map fst m"
proof (induction pe dir env ns m rule: extend_services.induct)
  case (2 pe dir env name ns m)
  show ?case
  proof (cases "map_of m name")
    case None
    then show ?thesis using 2 by simp
  next
    case svc: (Some svc)
    then have "name \<in> set (map fst m)" by (force dest: map_of_SomeD)
    then show ?thesis
      using 2 svc by (cases "cs_extends svc") (auto simp: update_keys split: sum.splits)
  qed
qed simp

text \<open>The n-th loop visits every key once.\<close>

definition range_wf :: "parse_env \<Rightarrow> bool" where
  "range_wf pe \<longleftrightarrow> (\<forall>n xs. mset (pe_range pe n xs) = mset xs)"

lemma visit_mset: "range_wf pe \<Longrightarrow> mset (visit pe n m) = mset (map fst m)"
  by (simp add: visit_def range_wf_def)

lemma services_of_map:
  assumes "range_wf pe"
  shows "services_of pe m = map (\<lambda>n. convertService n (the (map_of m n))) (visit pe 1 m)"
proof -
  have "set (visit pe 1 m) = set (map fst m)" using visit_mset [OF assms] by (metis mset_eq_setD)
  then have "(case map_of m n of None \<Rightarrow> [] | Some s \<Rightarrow> [convertService n s])
      = [convertService n (the (map_of m n))]" if "n \<in> set (visit pe 1 m)" for n
    using that by (cases "map_of m n") (auto simp: map_of_eq_None_iff)
  then have "map (\<lambda>n. case map_of m n of None \<Rightarrow> [] | Some s \<Rightarrow> [convertService n s]) (visit pe 1 m)
      = map (\<lambda>n. [convertService n (the (map_of m n))]) (visit pe 1 m)"
    by (rule map_cong [OF refl])
  then show ?thesis unfolding services_of_def by (simp only: concat_map_singleton)
qed

lemma services_of_names:
  assumes "range_wf pe"
  shows "mset (map svc_name (services_of pe m)) = mset (map fst m)"
  using visit_mset [OF assms] by (simp add: services_of_map [OF assms] comp_def convertService_def)

text \<open>The services, networks and volumes of the files merged are those of the single files.\<close>

lemma update_names: "fst ` set (AList.update k v m) = insert k (fst ` set m)"
  by (induction m) auto

lemma copy_into_names: "fst ` set (copy_into m base) = fst ` set base \<union> fst ` set m"
  unfolding copy_into_def by (induction m arbitrary: base) (simp_all add: update_names case_prod_unfold)

lemma merge_names: "fst ` set (fold merge_one m base) = fst ` set base \<union> fst ` set m"
proof (induction m arbitrary: base)
  case (Cons x m)
  have "fst ` set (merge_one x base) = insert (fst x) (fst ` set base)"
    by (simp add: merge_one_def update_names split: option.split)
  with Cons show ?case by simp
qed simp

definition names_of :: "(composeFile \<Rightarrow> (string, 'v) gomap) \<Rightarrow> composeFile list \<Rightarrow> string set" where
  "names_of part cfs = (\<Union>cf \<in> set cfs. fst ` set (part cf))"

lemma merged_names:
  "fst ` set (cf_services (fold (\<lambda>cf m. mergeInto m cf) cfs base)) = fst ` set (cf_services base) \<union> names_of cf_services cfs"
  "fst ` set (cf_networks (fold (\<lambda>cf m. mergeInto m cf) cfs base)) = fst ` set (cf_networks base) \<union> names_of cf_networks cfs"
  "fst ` set (cf_volumes (fold (\<lambda>cf m. mergeInto m cf) cfs base)) = fst ` set (cf_volumes base) \<union> names_of cf_volumes cfs"
  by (induction cfs arbitrary: base)
    (auto simp: names_of_def mergeInto_def merge_names copy_into_names)

text \<open>
  A freshly parsed project. Name, path and files are those of the directory and the identity is that of
  the path; every compose file was read, and the services, networks and volumes are those that some
  file (with its includes) declares, each service once; no service has run; the profiles are those of
  the services, each once.
\<close>

definition fresh_service :: "Service \<Rightarrow> bool" where
  "fresh_service s \<longleftrightarrow> svc_state s = StateCreated \<and> svc_health s = HealthNone \<and> svc_containerid s = []"

definition declared_by :: "composeFile list \<Rightarrow> Project \<Rightarrow> bool" where
  "declared_by cfs p \<longleftrightarrow>
     svc_name ` set (pr_services p) = names_of cf_services cfs \<and>
     fst ` set (pr_networks p) = names_of cf_networks cfs \<and>
     fst ` set (pr_volumes p) = names_of cf_volumes cfs"

definition fresh_project :: "parse_env \<Rightarrow> DiscoveredProject \<Rightarrow> Project \<Rightarrow> bool" where
  "fresh_project pe disc p \<longleftrightarrow>
     pr_id p = GenerateProjectID (pe_sha256 pe) (dp_path disc) \<and> pr_name p = path_base (dp_path disc) \<and>
     pr_path p = dp_path disc \<and> pr_composefiles p = dp_composefiles disc \<and> pr_envfiles p = dp_envfiles disc \<and>
     (\<exists>cfs. map (load_file pe (env_vars pe (dp_envfiles disc))) (dp_composefiles disc) = map Some cfs \<and>
        declared_by cfs p) \<and>
     distinct (map svc_name (pr_services p)) \<and>
     (\<forall>s \<in> set (pr_services p). fresh_service s) \<and>
     distinct (pr_profiles p) \<and>
     set (pr_profiles p) = (\<Union>s \<in> set (pr_services p). set (svc_profiles s)) \<and>
     pr_status p = ProjectStatusUnknown \<and> pr_lastop p = None"

lemma build_fresh:
  assumes "range_wf pe" "distinct (map fst (cf_services merged))"
    and "map (load_file pe (env_vars pe (dp_envfiles disc))) (dp_composefiles disc) = map Some cfs"
    and "fst ` set (cf_services merged) = names_of cf_services cfs"
    "fst ` set (cf_networks merged) = names_of cf_networks cfs"
    "fst ` set (cf_volumes merged) = names_of cf_volumes cfs"
  shows "fresh_project pe disc (build_project pe disc merged)"
proof -
  let ?ss = "services_of pe (cf_services merged)"
  have "distinct (map svc_name ?ss)"
    using services_of_names [OF assms(1)] assms(2) by (metis mset_eq_imp_distinct_iff)
  moreover have "svc_name ` set ?ss = names_of cf_services cfs"
    using services_of_names [OF assms(1), of "cf_services merged"] assms(4) by (metis mset_eq_setD set_map)
  then have "declared_by cfs (build_project pe disc merged)"
    using assms(5,6) by (simp add: declared_by_def build_project_def Let_def image_image case_prod_unfold)
  moreover have "\<forall>s \<in> set ?ss. fresh_service s"
    by (auto simp: services_of_map [OF assms(1)] fresh_service_def convertService_def)
  moreover have ps: "mset (pe_range pe 2 (remdups (concat (map svc_profiles ?ss))))
      = mset (remdups (concat (map svc_profiles ?ss)))"
    using assms(1) by (simp add: range_wf_def)
  moreover have "distinct (pe_range pe 2 (remdups (concat (map svc_profiles ?ss))))"
    using ps by (metis distinct_remdups mset_eq_imp_distinct_iff)
  moreover have "set (pe_range pe 2 (remdups (concat (map svc_profiles ?ss))))
      = (\<Union>s \<in> set ?ss. set (svc_profiles s))"
    using mset_eq_setD [OF ps] by auto
  ultimately show ?thesis using assms(3) by (auto simp: fresh_project_def build_project_def Let_def)
qed

lemma Parse_stages:
  assumes "Parse pe disc = Inr p"
  shows "\<exists>merged svcs. merge_files pe (env_vars pe (dp_envfiles disc)) (dp_composefiles disc) empty_file
      = Inr merged \<and>
    extend_services pe (dp_path disc) (env_vars pe (dp_envfiles disc))
      (visit pe 0 (cf_services merged)) (cf_services merged) = Inr svcs \<and>
    p = build_project pe disc
      (merged\<lparr>cf_services := map (\<lambda>(n, s). (n, with_env_files pe (dp_path disc) s)) svcs\<rparr>)"
  using assms by (auto simp: Parse_def Let_def split: sum.splits)

lemma load_all_wf:
  "yaml_wf pe \<Longrightarrow> map (load_file pe env) paths = map Some cfs \<Longrightarrow> list_all file_wf cfs"
proof -
  assume y: "yaml_wf pe" and m: "map (load_file pe env) paths = map Some cfs"
  have "file_wf cf" if "cf \<in> set cfs" for cf
  proof -
    have "Some cf \<in> set (map (load_file pe env) paths)" using that m by simp
    then show ?thesis using load_file_wf [OF y] by auto
  qed
  then show ?thesis by (simp add: list_all_iff)
qed

lemma merge_files_wf:
  "yaml_wf pe \<Longrightarrow> merge_files pe env paths empty_file = Inr merged \<Longrightarrow> file_wf merged"
  using merge_files_loaded load_all_wf file_wf_fold file_wf_empty by blast

lemma Parse_fresh_project:
  assumes "yaml_wf pe" "range_wf pe" "Parse pe disc = Inr p"
  shows "fresh_project pe disc p"
proof -
  obtain merged svcs where
      m: "merge_files pe (env_vars pe (dp_envfiles disc)) (dp_composefiles disc) empty_file = Inr merged"
    and e: "extend_services pe (dp_path disc) (env_vars pe (dp_envfiles disc))
        (visit pe 0 (cf_services merged)) (cf_services merged) = Inr svcs"
    and p: "p = build_project pe disc
        (merged\<lparr>cf_services := map (\<lambda>(n, s). (n, with_env_files pe (dp_path disc) s)) svcs\<rparr>)"
    using Parse_stages [OF assms(3)] by blast
  obtain cfs where cfs: "map (load_file pe (env_vars pe (dp_envfiles disc))) (dp_composefiles disc) = map Some cfs"
      "merged = fold (\<lambda>cf m. mergeInto m cf) cfs empty_file"
    using merge_files_loaded [OF m] by blast
  note names = merged_names [where cfs = cfs and base = empty_file, folded cfs(2)]
  have "distinct (map fst (cf_services merged))"
    using merge_files_wf [OF assms(1) m] by (simp add: file_wf_def)
  then have "distinct (map fst svcs)" "fst ` set svcs = fst ` set (cf_services merged)"
    using extend_services_keys [OF e] by (simp, metis set_map)
  then show ?thesis
    unfolding p using names
    by (intro build_fresh [OF assms(2) _ cfs(1)])
      (simp_all add: comp_def case_prod_unfold image_image empty_file_def)
qed

end
