(* ===== verification/ParserProps.thy ===== *)
theory ParserProps
  imports ParserFacts
begin

text \<open>
  The properties of the parser, with a small project on which they are evaluated: a compose file, an
  override, a file extended by a service, and a service that extends itself.
\<close>

section \<open>A project to evaluate on\<close>

definition plain_service :: composeService where
  "plain_service =
     \<lparr>cs_image = [], cs_build = YNull, cs_ports = None, cs_environment = YNull, cs_labels = YNull,
      cs_depends = YNull, cs_profiles = None, cs_volumes = None, cs_networks = YNull,
      cs_restart = [], cs_command = YNull, cs_entrypoint = YNull, cs_extends = None,
      cs_envfile = YNull\<rparr>"

definition one_service :: "string \<Rightarrow> composeService \<Rightarrow> composeFile" where
  "one_service n s = empty_file\<lparr>cf_services := [(n, s)]\<rparr>"

definition web_service :: composeService where
  "web_service = plain_service\<lparr>cs_image := ''web:2'', cs_ports := Some [YString ''8080:80''],
     cs_environment := YMap [(''MODE'', YString ''dev''), (''N'', YInt 3)],
     cs_extends := Some \<lparr>ex_file = ''base.yml'', ex_service = ''base''\<rparr>\<rparr>"

definition over_service :: composeService where
  "over_service = plain_service\<lparr>cs_environment := YSeq [YString ''MODE=prod'']\<rparr>"

definition base_service :: composeService where
  "base_service = plain_service\<lparr>cs_image := ''base'', cs_restart := ''always'',
     cs_environment := YMap [(''LOG'', YString ''debug'')]\<rparr>"

definition loop_service :: composeService where
  "loop_service = plain_service\<lparr>cs_extends := Some \<lparr>ex_file = ''loop.yml'', ex_service = ''a''\<rparr>\<rparr>"

definition demo_files :: "(string, string) gomap" where
  "demo_files =
     [(''/p/.env'', ''TAG=2''), (''/p/compose.yml'', ''web:${TAG}''),
      (''/p/compose.override.yml'', ''over''), (''/p/base.yml'', ''base''), (''/p/loop.yml'', ''loop'')]"

definition demo_yaml :: "(string, composeFile) gomap" where
  "demo_yaml =
     [(''web:2'', one_service ''web'' web_service), (''over'', one_service ''web'' over_service),
      (''base'', one_service ''base'' base_service), (''loop'', one_service ''a'' loop_service)]"

definition demo_pe :: parse_env where
  "demo_pe =
     \<lparr>pe_read = (\<lambda>p. case map_of demo_files p of
          None \<Rightarrow> Inl (PlainError ''no such file'') | Some s \<Rightarrow> Inr s),
      pe_yaml = (\<lambda>s. case map_of demo_yaml s of
          None \<Rightarrow> Inl (PlainError ''bad yaml'') | Some cf \<Rightarrow> Inr cf),
      pe_environ = [''HOME=/root''], pe_sha256 = (\<lambda>s. map (\<lambda>i. (length s + i) mod 256) [0..<32]),
      pe_range = (\<lambda>n xs. rev xs)\<rparr>"

definition demo_disc :: DiscoveredProject where
  "demo_disc = \<lparr>dp_path = ''/p'',
     dp_composefiles = [''/p/compose.yml'', ''/p/compose.override.yml''], dp_envfiles = [''/p/.env'']\<rparr>"

lemmas demo_defs =
  demo_pe_def demo_files_def demo_yaml_def one_service_def web_service_def over_service_def
  base_service_def loop_service_def plain_service_def empty_file_def

lemma demo_yaml_wf: "yaml_wf demo_pe"
  by (auto simp: yaml_wf_def demo_defs file_wf_def split: if_splits)

lemma demo_range_wf: "range_wf demo_pe"
  by (simp add: range_wf_def demo_pe_def)

lemma demo_lines: "scan_lines 65536 ''TAG=2'' = [''TAG=2'']"
proof -
  have "raw_lines ''TAG=2'' = [''TAG=2'']" by code_simp
  moreover have "drop_cr ''TAG=2'' = ''TAG=2''" by code_simp
  ultimately show ?thesis by (simp add: scan_lines_def)
qed

lemma demo_env_file: "parseEnvFile demo_pe ''/p/.env'' [] = [(''TAG'', ''2'')]"
proof -
  have "pe_read demo_pe ''/p/.env'' = Inr ''TAG=2''" by code_simp
  moreover have "parse_env_line ''TAG=2'' [] = [(''TAG'', ''2'')]" by code_simp
  ultimately show ?thesis by (simp add: parseEnvFile_def demo_lines)
qed

lemma demo_env: "env_vars demo_pe [''/p/.env''] = [(''TAG'', ''2''), (''HOME'', ''/root'')]"
proof -
  have "getOSEnv demo_pe = [(''HOME'', ''/root'')]" by code_simp
  then show ?thesis by (simp add: env_vars_def loadEnvFiles_def demo_env_file)
qed

definition demo_merged :: composeFile where
  "demo_merged = one_service ''web'' (mergeService web_service over_service)"

lemma demo_merge:
  "merge_files demo_pe (env_vars demo_pe [''/p/.env'']) [''/p/compose.yml'', ''/p/compose.override.yml'']
     empty_file = Inr demo_merged"
  unfolding demo_env by code_simp

text \<open>The parsed service: its own image, both environments, the restart policy of the extended one.\<close>

definition parsed_web :: Service where
  "parsed_web =
     \<lparr>svc_name = ''web'', svc_image = ''web:2'', svc_build = None,
      svc_ports = [\<lparr>pm_hostip = [], pm_hostport = ''8080'', pm_containerport = ''80'',
                    pm_protocol = ''tcp''\<rparr>],
      svc_environment = [(''LOG'', ''debug''), (''MODE'', ''prod''), (''N'', ''3'')], svc_labels = [],
      svc_depends = [], svc_profiles = [], svc_volumes = [], svc_networks = [],
      svc_restart = ''always'', svc_command = [], svc_entrypoint = [], svc_containerid = [],
      svc_state = ''created'', svc_health = ''none''\<rparr>"

lemma demo_extend:
  "extend_services demo_pe ''/p'' [(''TAG'', ''2''), (''HOME'', ''/root'')]
     (visit demo_pe 0 (cf_services demo_merged)) (cf_services demo_merged)
     = Inr [(''web'', (mergeService base_service (mergeService web_service over_service))
                \<lparr>cs_extends := None\<rparr>)]"
  by code_simp

definition demo_svc :: composeService where
  "demo_svc = (mergeService base_service (mergeService web_service over_service))\<lparr>cs_extends := None\<rparr>"

definition demo_final :: composeFile where
  "demo_final = one_service ''web'' demo_svc"

lemma demo_Parse: "Parse demo_pe demo_disc = Inr (build_project demo_pe demo_disc demo_final)"
proof -
  have env: "env_vars demo_pe (dp_envfiles demo_disc) = [(''TAG'', ''2''), (''HOME'', ''/root'')]"
    by (simp add: demo_disc_def demo_env)
  have merge: "merge_files demo_pe [(''TAG'', ''2''), (''HOME'', ''/root'')]
      (dp_composefiles demo_disc) empty_file = Inr demo_merged"
    using demo_merge by (simp add: demo_env demo_disc_def)
  have path: "dp_path demo_disc = ''/p''" by (simp add: demo_disc_def)
  have "demo_merged\<lparr>cf_services := map (\<lambda>(n, s). (n, with_env_files demo_pe ''/p'' s))
      [(''web'', (mergeService base_service (mergeService web_service over_service))
          \<lparr>cs_extends := None\<rparr>)]\<rparr> = demo_final"
    by code_simp
  then show ?thesis unfolding Parse_def Let_def env merge path sum.case demo_extend by simp
qed

lemma demo_services: "pr_services (build_project demo_pe demo_disc demo_final) = [parsed_web]"
  by code_simp

section \<open>Properties\<close>

text \<open>
  C24: Variable expansion is the substitution it means to be: on every text made of pieces (text
  without dollar signs, variables in braces with or without a default, plain variables) the scanner
  of matches gives exactly the values of the pieces, one after the other.
\<close>

theorem expandEnvVars_exact:
  assumes "pieces_ok ps"
  shows "expandEnvVars envVars (print_pieces ps) = concat (map (piece_value envVars) ps)"
  by (rule expand_pieces [OF assms])

lemma expandEnvVars_exact_witness:
  "expandEnvVars [(''TAG'', ''2'')]
     (print_pieces [Lit ''a'', Plain ''TAG'', Lit ''-'', Braced ''PORT'' (Some (True, ''80''))]) = ''a2-80''"
proof -
  have "pieces_ok [Lit ''a'', Plain ''TAG'', Lit ''-'', Braced ''PORT'' (Some (True, ''80''))]"
    by code_simp
  from expandEnvVars_exact [OF this, of "[(''TAG'', ''2'')]"] show ?thesis
    by (simp add: set_value_def or_default_def)
qed

text \<open>
  Services that extend each other for ever are answered with the limit error, at whatever depth up to
  the limit the chain is entered.
\<close>

lemma extends_cycle_fails:
  assumes "endless_extends pe envVars links" "depth \<le> 11"
  shows "resolveExtends pe (fst (links 0)) (snd (links 0)) envVars depth
    = Inl (PlainError ''extends recursion limit exceeded'')"
  using endless_limit [OF assms(1), of depth "11 - depth" 0] assms(2) by simp

lemma extends_cycle_fails_witness:
  "resolveExtends demo_pe ''/p'' \<lparr>ex_file = ''loop.yml'', ex_service = ''a''\<rparr> [] 0
    = Inl (PlainError ''extends recursion limit exceeded'')"
proof -
  let ?l = "\<lambda>n :: nat. (''/p'', \<lparr>ex_file = ''loop.yml'', ex_service = ''a''\<rparr>)"
  have step: "extends_step demo_pe [] ''/p'' \<lparr>ex_file = ''loop.yml'', ex_service = ''a''\<rparr>
      = Some loop_service"
    by code_simp
  have dir: "parent_dir ''/p'' \<lparr>ex_file = ''loop.yml'', ex_service = ''a''\<rparr> = ''/p''"
    by code_simp
  have "endless_extends demo_pe [] ?l"
    unfolding endless_extends_def by (simp add: step dir loop_service_def)
  from extends_cycle_fails [OF this, of 0] show ?thesis by simp
qed

text \<open>
  C28: An \<open>extends\<close> directive denotes the merge of its chain: resolution succeeds exactly when the chain
  of extended services ends within eleven files, and gives its services merged from the farthest to
  the nearest.
\<close>

theorem resolveExtends_exact:
  "(case resolveExtends pe dir ext envVars 0 of Inl err \<Rightarrow> None | Inr svc \<Rightarrow> Some svc)
     = map_option merge_chain (extends_chain 11 pe envVars dir ext)"
  by (rule resolveExtends_chain) simp

text \<open>
  C23: Later files override earlier ones, variable by variable: when the compose files of a project
  are merged, the value a service's environment gives a variable is the one of the last file
  (each with its includes) that sets it, and it is unset when no file does.
\<close>

theorem last_file_wins:
  assumes "yaml_wf pe" "merge_files pe envVars paths empty_file = Inr merged"
  shows "\<exists>cfs. map (load_file pe envVars) paths = map Some cfs \<and>
    (\<forall>name k. service_env merged name k = last_setting cfs name k)"
proof -
  obtain cfs where cfs: "map (load_file pe envVars) paths = map Some cfs"
      "merged = fold (\<lambda>cf m. mergeInto m cf) cfs empty_file"
    using merge_files_loaded [OF assms(2)] by blast
  have "service_env merged name k = last_setting cfs name k" for name k
    using service_env_fold [OF load_all_wf [OF assms(1) cfs(1)], of empty_file name k]
    by (simp add: cfs(2) service_env_def empty_file_def split: option.splits)
  then show ?thesis using cfs(1) by blast
qed

lemma last_file_wins_witness:
  "\<exists>cfs. map (load_file demo_pe (env_vars demo_pe [''/p/.env'']))
      [''/p/compose.yml'', ''/p/compose.override.yml''] = map Some cfs \<and>
    (\<forall>name k. service_env demo_merged name k = last_setting cfs name k)"
  by (rule last_file_wins [OF demo_yaml_wf demo_merge])

text \<open>
  C13: A parsed project is the directory's. Its identity, name, path, compose and environment files are
  those of the directory; every compose file could be read, and the project has exactly the services,
  networks and volumes that some of the files (each with its includes) declares, every service once;
  every service is in the created state without health and container, and the profiles are those of the
  services, each once.
\<close>

theorem Parse_fresh:
  assumes "yaml_wf pe" "range_wf pe" "Parse pe disc = Inr p"
  shows "fresh_project pe disc p"
  by (rule Parse_fresh_project [OF assms])

lemma Parse_fresh_witness:
  "fresh_project demo_pe demo_disc (build_project demo_pe demo_disc demo_final) \<and>
   map svc_name (pr_services (build_project demo_pe demo_disc demo_final)) = [''web'']"
  using Parse_fresh [OF demo_yaml_wf demo_range_wf demo_Parse] by (simp add: demo_services parsed_web_def)

section \<open>Divergences from the compose format\<close>

text \<open>
  An \<open>extends\<close> without a file means a service of the same file; the code joins the empty name to the
  directory and reads the directory, which fails.
\<close>

lemma same_file_extends_fails:
  assumes "pe_read pe ''/p'' = Inl err"
  shows "\<exists>e. resolveExtends pe ''/p'' \<lparr>ex_file = [], ex_service = s\<rparr> envVars 0 = Inl e"
proof -
  have "path_join ''/p'' [] = ''/p''" by code_simp
  then have "extends_step pe envVars ''/p'' \<lparr>ex_file = [], ex_service = s\<rparr> = None"
    using assms by (simp add: extends_step_def parseFile_def)
  then show ?thesis by (rule resolveExtends_no_step)
qed

text \<open>An \<open>extends\<close> that only an override file gives is dropped by the merge.\<close>

lemma override_extends_dropped: "cs_extends (mergeService base over) = cs_extends base"
  by (simp add: mergeService_def)

end
