(* ===== verification/Http.thy ===== *)
theory Http
  imports Domain GoStrings
begin

text \<open>
  Requests, responses and middlewares: \<open>internal/httputil\<close> and the claims of \<open>internal/auth/jwt.go\<close>
  that the request context carries.

  A request is what the handlers read of it: headers under their canonical names, the route's
  parameters, the query, and the claims in its context. The JSON text of a response is not modelled;
  a response is its status and the value that is encoded. The instant of the response's meta data
  is left out; the access log is in \<open>AccessLog\<close>.
\<close>

section \<open>Requests and responses\<close>

record Claims =
  cl_subject :: string
  cl_issuedat :: time
  cl_expiresat :: "time option"
  cl_issuer :: string
  cl_userid :: string
  cl_username :: string
  cl_role :: Role

text \<open>\<open>rq_uuid\<close> is the identifier \<open>uuid.New()\<close> would draw for this request.\<close>

record request =
  rq_headers :: "(string, string) gomap"
  rq_params :: "(string, string) gomap"
  rq_query :: "(string, string) gomap"
  rq_claims :: "Claims option"
  rq_uuid :: string

text \<open>\<open>AppendedBody\<close> is an error document written behind what another writer had written already.\<close>

datatype 'd body =
    DataBody 'd
  | ErrorBody string string err_details
  | PageBody 'd int int int
  | NoBody
  | AppendedBody "'d body" string string err_details

text \<open>\<open>rs_meta\<close> is the request identifier of the body's meta data, \<open>rs_header\<close> that of the headers.\<close>

record 'd response =
  rs_status :: int
  rs_body :: "'d body"
  rs_meta :: "string option"
  rs_header :: "string option"

type_synonym ('d, 's) handler = "request \<Rightarrow> 's \<Rightarrow> 'd response \<times> 's"

definition GetRequestID :: "request \<Rightarrow> string" where
  "GetRequestID r =
     (let i = str_at (rq_headers r) ''X-Request-ID'' in if i \<noteq> [] then i else rq_uuid r)"

definition WriteJSON :: "request \<Rightarrow> int \<Rightarrow> 'd \<Rightarrow> 'd response" where
  "WriteJSON r st d =
     \<lparr>rs_status = st, rs_body = DataBody d, rs_meta = Some (GetRequestID r), rs_header = None\<rparr>"

definition WritePaginated :: "request \<Rightarrow> 'd \<Rightarrow> int \<Rightarrow> int \<Rightarrow> int \<Rightarrow> 'd response" where
  "WritePaginated r d n offset limit =
     \<lparr>rs_status = 200, rs_body = PageBody d n offset limit, rs_meta = Some (GetRequestID r),
      rs_header = None\<rparr>"

definition WriteError :: "request \<Rightarrow> int \<Rightarrow> string \<Rightarrow> string \<Rightarrow> err_details \<Rightarrow> 'd response" where
  "WriteError r st code message details =
     \<lparr>rs_status = st, rs_body = ErrorBody code message details, rs_meta = Some (GetRequestID r),
      rs_header = None\<rparr>"

definition url_param :: "request \<Rightarrow> string \<Rightarrow> string" where
  "url_param r k = str_at (rq_params r) k"

section \<open>The request identifier\<close>

definition RequestIDMiddleware :: "('d, 's) handler \<Rightarrow> ('d, 's) handler" where
  "RequestIDMiddleware next r s =
     (let i = GetRequestID r;
          (resp, s) = next (r\<lparr>rq_headers := AList.update ''X-Request-ID'' i (rq_headers r)\<rparr>) s
      in (resp\<lparr>rs_header := Some i\<rparr>, s))"

lemma GetRequestID_set: "i \<noteq> [] \<Longrightarrow>
    GetRequestID (r\<lparr>rq_headers := AList.update ''X-Request-ID'' i (rq_headers r)\<rparr>) = i"
  by (simp add: GetRequestID_def str_at_def Let_def)

section \<open>Recovery from panics\<close>

text \<open>
  What a handler that may panic comes to: its response, or the value it panics with and what it had
  written before, if anything: the status line and as much of the body.
\<close>

datatype 'd outcome =
    Answered "'d response"
  | Panicked string "'d response option"

text \<open>
  \<open>WriteError\<close> to a writer that may have been written to: once a status is out a second one is ignored,
  and the document goes behind the bytes that are out.
\<close>

definition WriteError_after ::
    "'d response option \<Rightarrow> request \<Rightarrow> int \<Rightarrow> string \<Rightarrow> string \<Rightarrow> err_details \<Rightarrow> 'd response" where
  "WriteError_after written r st code message details =
     (case written of
        None \<Rightarrow> WriteError r st code message details
      | Some resp \<Rightarrow> resp\<lparr>rs_body := AppendedBody (rs_body resp) code message details,
                          rs_meta := Some (GetRequestID r)\<rparr>)"

definition RecoveryMiddleware ::
    "(request \<Rightarrow> 's \<Rightarrow> 'd outcome \<times> 's) \<Rightarrow> ('d, 's) handler" where
  "RecoveryMiddleware next r s =
     (case next r s of
        (Panicked panic written, s1) \<Rightarrow>
          (WriteError_after written r 500 ''ERR_INTERNAL'' ''internal server error'' NilDetails, s1)
      | (Answered resp, s1) \<Rightarrow> (resp, s1))"

section \<open>Pagination parameters\<close>

text \<open>
  \<open>parseInt\<close> of \<open>user_handler.go\<close>: the leading digits, accumulated in a 64-bit integer that wraps
  around.
\<close>

definition wrap64 :: "int \<Rightarrow> int" where
  "wrap64 n = (n + 2 ^ 63) mod 2 ^ 64 - 2 ^ 63"

fun parseInt_from :: "int \<Rightarrow> string \<Rightarrow> int" where
  "parseInt_from n [] = n"
| "parseInt_from n (c # s) =
     (if is_digit c then parseInt_from (wrap64 (n * 10 + int (digit_val c))) s else n)"

definition parseInt :: "string \<Rightarrow> int" where
  "parseInt s = parseInt_from 0 s"

definition parsePagination :: "request \<Rightarrow> PaginationOpts" where
  "parsePagination r =
     (let lim = str_at (rq_query r) ''limit''; off = str_at (rq_query r) ''offset'' in
      \<lparr>po_offset = (if off \<noteq> [] \<and> parseInt off \<ge> 0 then parseInt off else 0),
       po_limit = (if lim \<noteq> [] \<and> parseInt lim > 0 then parseInt lim else 50)\<rparr>)"

lemma wrap64_id: "- (2 ^ 63) \<le> n \<Longrightarrow> n < 2 ^ 63 \<Longrightarrow> wrap64 n = n"
  by (simp add: wrap64_def)

lemma parsePagination_bounds:
  "0 \<le> po_offset (parsePagination r) \<and> 0 < po_limit (parsePagination r)"
  by (simp add: parsePagination_def Let_def)

text \<open>The decimal form of a number that fits is read back.\<close>

lemma parseInt_from_digits:
  "list_all is_digit s \<Longrightarrow> 0 \<le> n \<Longrightarrow> n * 10 ^ length s + 10 ^ length s \<le> 2 ^ 63 \<Longrightarrow>
     parseInt_from n s = foldl (\<lambda>n c. n * 10 + int (digit_val c)) n s"
proof (induction s arbitrary: n)
  case Nil
  then show ?case by simp
next
  case (Cons c s)
  let ?m = "n * 10 + int (digit_val c)"
  have d: "digit_val c \<le> 9" using Cons.prems(1) by (auto simp: is_digit_def digit_val_def Let_def)
  have b: "?m * 10 ^ length s + 10 ^ length s \<le> 2 ^ 63"
  proof -
    have "?m + 1 \<le> n * 10 + 10" using d by simp
    then have "(?m + 1) * 10 ^ length s \<le> (n * 10 + 10) * 10 ^ length s"
      by (intro mult_right_mono) simp_all
    also have "\<dots> \<le> 2 ^ 63" using Cons.prems(3) by (simp add: algebra_simps)
    finally show ?thesis by (simp add: algebra_simps)
  qed
  obtain p where p: "p = ?m * 10 ^ length s" by blast
  have "?m * 1 \<le> p" unfolding p using Cons.prems(2) by (intro mult_left_mono) simp_all
  then have "?m \<le> p" by simp
  also have "p < p + 10 ^ length s" by simp
  also have "p + 10 ^ length s \<le> 2 ^ 63" using b unfolding p .
  finally have "?m < 2 ^ 63" .
  then have "wrap64 ?m = ?m" using Cons.prems(2) by (intro wrap64_id) simp_all
  then show ?case using Cons b by simp
qed

lemma foldl_digits_int:
  "foldl (\<lambda>n c. n * 10 + int (digit_val c)) (int n) s = int (foldl (\<lambda>n c. n * 10 + digit_val c) n s)"
proof (induction s arbitrary: n)
  case (Cons c s)
  have "int n * 10 + int (digit_val c) = int (n * 10 + digit_val c)" by simp
  then show ?case using Cons [of "n * 10 + digit_val c"] by simp
qed simp

lemma parseInt_digits:
  assumes "length (nat_digits n) \<le> 18"
  shows "parseInt (nat_digits n) = int n"
proof -
  have "(10 :: int) ^ length (nat_digits n) \<le> 10 ^ 18"
    using assms by (intro power_increasing) simp_all
  then have "parseInt_from 0 (nat_digits n) = foldl (\<lambda>n c. n * 10 + int (digit_val c)) 0 (nat_digits n)"
    by (intro parseInt_from_digits) (auto simp: list_all_iff dest: nat_digits_digits)
  then show ?thesis
    using foldl_digits_int [of 0 "nat_digits n"] read_nat_digits [of n]
    by (simp add: parseInt_def read_nat_def)
qed

end
