(* ===== verification/Auth.thy ===== *)
theory Auth
  imports Http
begin

text \<open>
  Authentication and authorisation: the permissions of \<open>internal/auth/rbac.go\<close>, the token pair of
  \<open>jwt.go\<close>, the bearer middleware of \<open>middleware.go\<close>, and the project check of
  \<open>internal/api/handlers/acl_middleware.go\<close>.

  The JWT library is a parameter: how it signs claims, what it makes of a token, and how it rounds
  an instant. A token's claims are decoded into one record; a claim that is absent has its zero value,
  so the registered claims of a refresh token are a record with an empty user, name and role.
\<close>

section \<open>Permissions\<close>

datatype Permission =
    PermProjectRead | PermProjectOperate | PermProjectAdmin | PermUserManage | PermAuditRead
  | PermGlobalEvents

definition rolePermissions :: "(Role, Permission list) gomap" where
  "rolePermissions =
     [(RoleAdmin, [PermProjectRead, PermProjectOperate, PermProjectAdmin, PermUserManage,
                   PermAuditRead, PermGlobalEvents]),
      (RoleOperator, [PermProjectRead, PermProjectOperate, PermAuditRead]),
      (RoleViewer, [PermProjectRead])]"

definition HasPermission :: "Role \<Rightarrow> Permission \<Rightarrow> bool" where
  "HasPermission role perm =
     (case map_of rolePermissions role of None \<Rightarrow> False | Some perms \<Rightarrow> perm \<in> set perms)"

section \<open>Tokens\<close>

text \<open>
  \<open>jl_parse keyfunc token now\<close> is \<open>jwt.ParseWithClaims\<close>: the claims and \<open>token.Valid\<close>, \<open>None\<close> for an
  error; the key function answers with the key for a signing method, or refuses the method.
\<close>

datatype jwt_method = SigningMethodHMAC | OtherMethod

record jwt_lib =
  jl_sign :: "string \<Rightarrow> Claims \<Rightarrow> go_error + string"
  jl_parse :: "(jwt_method \<Rightarrow> string option) \<Rightarrow> string \<Rightarrow> time \<Rightarrow> (Claims \<times> bool) option"
  jl_date :: "time \<Rightarrow> time"

record JWTManager =
  jm_secret :: string
  jm_accessttl :: duration
  jm_refreshttl :: duration

record TokenPair =
  tp_access :: string
  tp_refresh :: string
  tp_expires :: time

definition NewJWTManager :: "string \<Rightarrow> duration \<Rightarrow> duration \<Rightarrow> JWTManager" where
  "NewJWTManager secret accessTTL refreshTTL =
     \<lparr>jm_secret = secret, jm_accessttl = accessTTL, jm_refreshttl = refreshTTL\<rparr>"

definition issuer :: string where "issuer = ''compose-cockpit''"

definition access_claims :: "jwt_lib \<Rightarrow> JWTManager \<Rightarrow> time \<Rightarrow> User \<Rightarrow> Claims" where
  "access_claims lib m now user =
     \<lparr>cl_subject = u_id user, cl_issuedat = jl_date lib now,
      cl_expiresat = Some (jl_date lib (now + jm_accessttl m)), cl_issuer = issuer,
      cl_userid = u_id user, cl_username = u_username user, cl_role = u_role user\<rparr>"

definition refresh_claims :: "jwt_lib \<Rightarrow> JWTManager \<Rightarrow> time \<Rightarrow> User \<Rightarrow> Claims" where
  "refresh_claims lib m now user =
     \<lparr>cl_subject = u_id user, cl_issuedat = jl_date lib now,
      cl_expiresat = Some (jl_date lib (now + jm_refreshttl m)), cl_issuer = issuer,
      cl_userid = [], cl_username = [], cl_role = []\<rparr>"

definition GenerateTokenPair ::
    "jwt_lib \<Rightarrow> JWTManager \<Rightarrow> time \<Rightarrow> User \<Rightarrow> go_error + TokenPair" where
  "GenerateTokenPair lib m now user =
     (case jl_sign lib (jm_secret m) (access_claims lib m now user) of
        Inl err \<Rightarrow> Inl err
      | Inr access \<Rightarrow>
          (case jl_sign lib (jm_secret m) (refresh_claims lib m now user) of
             Inl err \<Rightarrow> Inl err
           | Inr refresh \<Rightarrow>
               Inr \<lparr>tp_access = access, tp_refresh = refresh, tp_expires = now + jm_accessttl m\<rparr>))"

definition key_func :: "JWTManager \<Rightarrow> jwt_method \<Rightarrow> string option" where
  "key_func m meth = (if meth = SigningMethodHMAC then Some (jm_secret m) else None)"

definition ValidateAccessToken :: "jwt_lib \<Rightarrow> JWTManager \<Rightarrow> string \<Rightarrow> time \<Rightarrow> Claims option" where
  "ValidateAccessToken lib m tok now =
     (case jl_parse lib (key_func m) tok now of
        None \<Rightarrow> None | Some (c, valid) \<Rightarrow> if valid then Some c else None)"

definition ValidateRefreshToken :: "jwt_lib \<Rightarrow> JWTManager \<Rightarrow> string \<Rightarrow> time \<Rightarrow> string option" where
  "ValidateRefreshToken lib m tok now =
     (case jl_parse lib (key_func m) tok now of
        None \<Rightarrow> None | Some (c, valid) \<Rightarrow> if valid then Some (cl_subject c) else None)"

section \<open>Middlewares\<close>

text \<open>\<open>writeUnauthorized\<close> and the forbidden answers write their body themselves, without meta data.\<close>

definition raw_error :: "int \<Rightarrow> string \<Rightarrow> string \<Rightarrow> 'd response" where
  "raw_error st code msg =
     \<lparr>rs_status = st, rs_body = ErrorBody code msg NilDetails, rs_meta = None, rs_header = None\<rparr>"

definition writeUnauthorized :: "string \<Rightarrow> 'd response" where
  "writeUnauthorized msg = raw_error 401 ErrUnauthorized msg"

definition Middleware ::
    "jwt_lib \<Rightarrow> JWTManager \<Rightarrow> time \<Rightarrow> ('d, 's) handler \<Rightarrow> ('d, 's) handler" where
  "Middleware lib m now next r s =
     (let authHeader = str_at (rq_headers r) ''Authorization'' in
      if authHeader = [] then (writeUnauthorized ''missing authorization header'', s)
      else
        (let parts = split_n 2 (CHR '' '') authHeader in
         if length parts \<noteq> 2 \<or> \<not> equal_fold (parts ! 0) ''bearer''
         then (writeUnauthorized ''invalid authorization format'', s)
         else
           (case ValidateAccessToken lib m (parts ! 1) now of
              None \<Rightarrow> (writeUnauthorized ''invalid or expired token'', s)
            | Some c \<Rightarrow> next (r\<lparr>rq_claims := Some c\<rparr>) s)))"

definition RequirePermission :: "Permission \<Rightarrow> ('d, 's) handler \<Rightarrow> ('d, 's) handler" where
  "RequirePermission perm next r s =
     (case rq_claims r of
        None \<Rightarrow> (writeUnauthorized ''authentication required'', s)
      | Some c \<Rightarrow>
          if \<not> HasPermission (cl_role c) perm
          then (raw_error 403 ErrForbidden ''insufficient permissions'', s)
          else next r s)"

definition RequireRole :: "Role list \<Rightarrow> ('d, 's) handler \<Rightarrow> ('d, 's) handler" where
  "RequireRole roles next r s =
     (case rq_claims r of
        None \<Rightarrow> (writeUnauthorized ''authentication required'', s)
      | Some c \<Rightarrow>
          if cl_role c \<in> set roles then next r s
          else (raw_error 403 ErrForbidden ''insufficient role'', s))"

definition GetUserID :: "request \<Rightarrow> string" where
  "GetUserID r = (case rq_claims r of None \<Rightarrow> [] | Some c \<Rightarrow> cl_userid c)"

definition GetRole :: "request \<Rightarrow> Role" where
  "GetRole r = (case rq_claims r of None \<Rightarrow> [] | Some c \<Rightarrow> cl_role c)"

text \<open>
  The project check. The access-control repository is an interface: \<open>acl user project s\<close> is what
  \<open>GetUserProjectRole\<close> answers in the state of the program, whose error the code ignores.
\<close>

type_synonym 's acl_lookup = "string \<Rightarrow> string \<Rightarrow> 's \<Rightarrow> Role"

definition ProjectACLMiddleware ::
    "'s acl_lookup \<Rightarrow> Permission \<Rightarrow> ('d, 's) handler \<Rightarrow> ('d, 's) handler" where
  "ProjectACLMiddleware acl requiredPerm next r s =
     (case rq_claims r of
        None \<Rightarrow> (WriteError r 401 ErrUnauthorized ''authentication required'' NilDetails, s)
      | Some c \<Rightarrow>
          if cl_role c = RoleAdmin then next r s
          else
            (let projectID = url_param r ''projectID'' in
             if projectID = [] then next r s
             else
               (let role = acl (cl_userid c) projectID s in
                if role = [] then
                  (WriteError r 403 ErrForbidden ''no access to this project'' NilDetails, s)
                else if requiredPerm = PermProjectOperate \<and> role = RoleViewer then
                  (WriteError r 403 ErrForbidden ''viewer cannot perform operations'' NilDetails, s)
                else next r s)))"

section \<open>What the permissions mean\<close>

lemma HasPermission_cases:
  "HasPermission role perm \<longleftrightarrow>
     role = RoleAdmin \<or>
     (role = RoleOperator \<and> perm \<in> {PermProjectRead, PermProjectOperate, PermAuditRead}) \<or>
     (role = RoleViewer \<and> perm = PermProjectRead)"
  by (cases perm) (auto simp: HasPermission_def rolePermissions_def role_consts)

lemma HasPermission_operate:
  "HasPermission role PermProjectOperate \<longleftrightarrow> role = RoleAdmin \<or> role = RoleOperator"
  by (auto simp: HasPermission_cases)

section \<open>What the token library promises\<close>

text \<open>A token without an expiry does not expire. (This program issues none, and none with a not-before claim.)\<close>

definition unexpired :: "Claims \<Rightarrow> time \<Rightarrow> bool" where
  "unexpired c now \<longleftrightarrow> (case cl_expiresat c of None \<Rightarrow> True | Some t \<Rightarrow> now < t)"

text \<open>
  \<open>signed\<close> relates a key, claims and a token signed with the key. A token the library signs is
  signed; a token it accepts carries the claims it was signed over, with the key its method is given,
  and has not expired; and a token signed with an HMAC key is accepted until it expires, if it does.
\<close>

definition jwt_laws :: "jwt_lib \<Rightarrow> (string \<Rightarrow> Claims \<Rightarrow> string \<Rightarrow> bool) \<Rightarrow> bool" where
  "jwt_laws lib signed \<longleftrightarrow>
     (\<forall>key c tok. jl_sign lib key c = Inr tok \<longrightarrow> signed key c tok) \<and>
     (\<forall>kf tok now c v. jl_parse lib kf tok now = Some (c, v) \<longrightarrow>
        v \<and> unexpired c now \<and> (\<exists>meth key. kf meth = Some key \<and> signed key c tok)) \<and>
     (\<forall>kf tok now c key. signed key c tok \<longrightarrow> kf SigningMethodHMAC = Some key \<longrightarrow>
        unexpired c now \<longrightarrow> jl_parse lib kf tok now = Some (c, True))"

lemma ValidateAccessToken_iff:
  assumes "jwt_laws lib signed"
  shows "ValidateAccessToken lib m tok now = Some c \<longleftrightarrow>
    signed (jm_secret m) c tok \<and> unexpired c now"
proof
  assume "ValidateAccessToken lib m tok now = Some c"
  then have "jl_parse lib (key_func m) tok now = Some (c, True)"
    by (auto simp: ValidateAccessToken_def split: option.splits if_splits)
  then have "unexpired c now \<and> (\<exists>meth key. key_func m meth = Some key \<and> signed key c tok)"
    using assms unfolding jwt_laws_def by blast
  then show "signed (jm_secret m) c tok \<and> unexpired c now"
    by (auto simp: key_func_def split: if_splits)
next
  assume "signed (jm_secret m) c tok \<and> unexpired c now"
  moreover have "key_func m SigningMethodHMAC = Some (jm_secret m)" by (simp add: key_func_def)
  ultimately have "jl_parse lib (key_func m) tok now = Some (c, True)"
    using assms unfolding jwt_laws_def by blast
  then show "ValidateAccessToken lib m tok now = Some c" by (simp add: ValidateAccessToken_def)
qed

lemma ValidateRefreshToken_alt:
  "ValidateRefreshToken lib m tok now = map_option cl_subject (ValidateAccessToken lib m tok now)"
  by (auto simp: ValidateRefreshToken_def ValidateAccessToken_def split: option.splits)

text \<open>
  The two kinds of token are not told apart: an access token refreshes as well as a refresh token, and
  a refresh token passes the bearer middleware, with no user and no role.
\<close>

lemma tokens_interchangeable:
  assumes "jwt_laws lib signed" "GenerateTokenPair lib m now user = Inr tp"
    "now' < jl_date lib (now + jm_accessttl m)" "now' < jl_date lib (now + jm_refreshttl m)"
  shows "ValidateRefreshToken lib m (tp_access tp) now' = Some (u_id user)"
    and "ValidateAccessToken lib m (tp_refresh tp) now' = Some (refresh_claims lib m now user)"
proof -
  have s: "jl_sign lib (jm_secret m) (access_claims lib m now user) = Inr (tp_access tp)"
      "jl_sign lib (jm_secret m) (refresh_claims lib m now user) = Inr (tp_refresh tp)"
    using assms(2) by (auto simp: GenerateTokenPair_def split: sum.splits)
  then have "signed (jm_secret m) (access_claims lib m now user) (tp_access tp)"
      and r: "signed (jm_secret m) (refresh_claims lib m now user) (tp_refresh tp)"
    using assms(1) unfolding jwt_laws_def by blast+
  then have "ValidateAccessToken lib m (tp_access tp) now' = Some (access_claims lib m now user)"
    using assms(3) ValidateAccessToken_iff [OF assms(1)] by (simp add: access_claims_def unexpired_def)
  then show "ValidateRefreshToken lib m (tp_access tp) now' = Some (u_id user)"
    by (simp add: ValidateRefreshToken_alt access_claims_def)
  show "ValidateAccessToken lib m (tp_refresh tp) now' = Some (refresh_claims lib m now user)"
    using r assms(4) ValidateAccessToken_iff [OF assms(1)] by (simp add: refresh_claims_def unexpired_def)
qed

end
