(* ===== verification/Router.thy ===== *)
theory Router
  imports Auth
begin

text \<open>
  The routes of \<open>internal/api/router.go\<close>: for every route its method, its pattern, the middlewares in
  front of it in the order they run, and its handler. Choosing the route of a request and binding its
  parameters is chi's part; the model serves a request on a route that chi chose.

  Cross-origin headers, logging and panic recovery, which stand in front of every route, do not
  decide who reaches a handler; they are in \<open>AccessLog\<close>.
\<close>

section \<open>The table\<close>

datatype endpoint =
    HLiveness | HReadiness | HVersion
  | HLogin | HRefresh | HRegister
  | HListProjects | HTriggerScan
  | HGetProjectDetail | HListServices | HGetServiceDetail
  | HProjectEvents | HProjectStats | HServiceLogs
  | HAuditByProject
  | HACLList | HACLGrant | HACLRevoke
  | HUp | HDown | HStart | HStop | HRestart
  | HServiceStart | HServiceStop | HServiceRestart
  | HSubmitAsync
  | HListRunning | HGetOperation | HCancelOperation
  | HGlobalEvents
  | HUserList | HUserCreate | HUserUpdate | HUserDelete
  | HAuditAll

datatype mw = MwAuth | MwRole "Role list" | MwPerm Permission | MwACL Permission

record route =
  rt_method :: string
  rt_pattern :: string
  rt_mws :: "mw list"
  rt_endpoint :: endpoint

definition rt :: "string \<Rightarrow> string \<Rightarrow> endpoint \<Rightarrow> route" where
  "rt meth pat e = \<lparr>rt_method = meth, rt_pattern = pat, rt_mws = [], rt_endpoint = e\<rparr>"

text \<open>\<open>r.Route(prefix, ...)\<close> with its \<open>Use\<close>; \<open>Group\<close> and \<open>With\<close> are the case of an empty prefix.\<close>

definition sub_router :: "string \<Rightarrow> mw list \<Rightarrow> route list \<Rightarrow> route list" where
  "sub_router pre mws rs =
     map (\<lambda>r. r\<lparr>rt_pattern := pre @ rt_pattern r, rt_mws := mws @ rt_mws r\<rparr>) rs"

abbreviation get :: "string \<Rightarrow> endpoint \<Rightarrow> route" where "get \<equiv> rt ''GET''"
abbreviation post :: "string \<Rightarrow> endpoint \<Rightarrow> route" where "post \<equiv> rt ''POST''"
abbreviation put :: "string \<Rightarrow> endpoint \<Rightarrow> route" where "put \<equiv> rt ''PUT''"
abbreviation del :: "string \<Rightarrow> endpoint \<Rightarrow> route" where "del \<equiv> rt ''DELETE''"

definition operation_routes :: "route list" where
  "operation_routes =
     [post ''/up'' HUp, post ''/down'' HDown, post ''/start'' HStart, post ''/stop'' HStop,
      post ''/restart'' HRestart,
      post ''/services/{serviceName}/start'' HServiceStart,
      post ''/services/{serviceName}/stop'' HServiceStop,
      post ''/services/{serviceName}/restart'' HServiceRestart,
      post ''/async/{action}'' HSubmitAsync]"

definition project_routes :: "route list" where
  "project_routes =
     [get ''/'' HGetProjectDetail, get ''/services'' HListServices,
      get ''/services/{serviceName}'' HGetServiceDetail,
      get ''/events'' HProjectEvents, get ''/stats'' HProjectStats,
      get ''/services/{serviceName}/logs'' HServiceLogs,
      get ''/audit'' HAuditByProject]
     @ sub_router ''/acl'' [MwRole [RoleAdmin]]
         [get ''/'' HACLList, post ''/'' HACLGrant, del ''/{userID}'' HACLRevoke]
     @ sub_router '''' [MwACL PermProjectOperate, MwPerm PermProjectOperate] operation_routes"

definition protected_routes :: "route list" where
  "protected_routes =
     [get ''/projects'' HListProjects]
     @ sub_router '''' [MwRole [RoleAdmin]] [post ''/projects/scan'' HTriggerScan]
     @ sub_router ''/projects/{projectID}'' [MwACL PermProjectRead] project_routes
     @ [get ''/operations'' HListRunning, get ''/operations/{opID}'' HGetOperation]
     @ sub_router '''' [MwRole [RoleAdmin]]
         [del ''/operations/{opID}'' HCancelOperation, get ''/events'' HGlobalEvents]
     @ sub_router '''' [MwRole [RoleAdmin]]
         [get ''/users'' HUserList, post ''/users'' HUserCreate, put ''/users/{userID}'' HUserUpdate,
          del ''/users/{userID}'' HUserDelete]
     @ sub_router '''' [MwRole [RoleAdmin]] [get ''/audit'' HAuditAll]"

definition NewRouter :: "route list" where
  "NewRouter =
     [get ''/health'' HLiveness, get ''/ready'' HReadiness, get ''/version'' HVersion]
     @ sub_router ''/api/v1'' []
         ([post ''/auth/login'' HLogin, post ''/auth/refresh'' HRefresh,
           post ''/auth/register'' HRegister]
          @ sub_router '''' [MwAuth] protected_routes)"

section \<open>Serving a request\<close>

record 's guards =
  gd_lib :: jwt_lib
  gd_mgr :: JWTManager
  gd_now :: time
  gd_acl :: "'s acl_lookup"

fun apply_mw :: "'s guards \<Rightarrow> mw \<Rightarrow> ('d, 's) handler \<Rightarrow> ('d, 's) handler" where
  "apply_mw g MwAuth next = Middleware (gd_lib g) (gd_mgr g) (gd_now g) next"
| "apply_mw g (MwRole roles) next = RequireRole roles next"
| "apply_mw g (MwPerm perm) next = RequirePermission perm next"
| "apply_mw g (MwACL perm) next = ProjectACLMiddleware (gd_acl g) perm next"

definition serve ::
    "'s guards \<Rightarrow> (endpoint \<Rightarrow> ('d, 's) handler) \<Rightarrow> route \<Rightarrow> ('d, 's) handler" where
  "serve g handle route =
     RequestIDMiddleware (foldr (apply_mw g) (rt_mws route) (handle (rt_endpoint route)))"

section \<open>Who may reach which handler\<close>

text \<open>The intended access of every endpoint, stated without the middlewares.\<close>

datatype access = Public | Authenticated | ProjectRead | ProjectOperate | AdminOnly

fun required :: "endpoint \<Rightarrow> access" where
  "required e =
     (if e \<in> {HLiveness, HReadiness, HVersion, HLogin, HRefresh, HRegister} then Public
      else if e \<in> {HListProjects, HListRunning, HGetOperation} then Authenticated
      else if e \<in> {HGetProjectDetail, HListServices, HGetServiceDetail, HProjectEvents,
                   HProjectStats, HServiceLogs, HAuditByProject} then ProjectRead
      else if e \<in> {HUp, HDown, HStart, HStop, HRestart, HServiceStart, HServiceStop,
                   HServiceRestart, HSubmitAsync} then ProjectOperate
      else AdminOnly)"

text \<open>The claims of a request's bearer token.\<close>

definition bearer :: "'s guards \<Rightarrow> request \<Rightarrow> Claims option" where
  "bearer g r =
     (case str_cut (str_at (rq_headers r) ''Authorization'') '' '' of
        None \<Rightarrow> None
      | Some (scheme, tok) \<Rightarrow>
          if equal_fold scheme ''bearer'' then ValidateAccessToken (gd_lib g) (gd_mgr g) tok (gd_now g)
          else None)"

definition project_role :: "'s guards \<Rightarrow> Claims \<Rightarrow> request \<Rightarrow> 's \<Rightarrow> Role" where
  "project_role g c r s = gd_acl g (cl_userid c) (url_param r ''projectID'') s"

fun claims_allow :: "'s guards \<Rightarrow> access \<Rightarrow> Claims \<Rightarrow> request \<Rightarrow> 's \<Rightarrow> bool" where
  "claims_allow g Public c r s = True"
| "claims_allow g Authenticated c r s = True"
| "claims_allow g ProjectRead c r s =
     (cl_role c = RoleAdmin \<or> project_role g c r s \<noteq> [])"
| "claims_allow g ProjectOperate c r s =
     (cl_role c = RoleAdmin \<or>
      (cl_role c = RoleOperator \<and> project_role g c r s \<notin> {[], RoleViewer}))"
| "claims_allow g AdminOnly c r s = (cl_role c = RoleAdmin)"

definition allowed :: "'s guards \<Rightarrow> access \<Rightarrow> request \<Rightarrow> 's \<Rightarrow> bool" where
  "allowed g a r s \<longleftrightarrow>
     a = Public \<or> (case bearer g r of None \<Rightarrow> False | Some c \<Rightarrow> claims_allow g a c r s)"

section \<open>The guards decide as intended\<close>

text \<open>The chains of middlewares in the table, each with the access it is meant to give.\<close>

definition chain_of :: "access \<Rightarrow> mw list list" where
  "chain_of a =
     (case a of
        Public \<Rightarrow> [[]]
      | Authenticated \<Rightarrow> [[MwAuth]]
      | ProjectRead \<Rightarrow> [[MwAuth, MwACL PermProjectRead]]
      | ProjectOperate \<Rightarrow>
          [[MwAuth, MwACL PermProjectRead, MwACL PermProjectOperate, MwPerm PermProjectOperate]]
      | AdminOnly \<Rightarrow>
          [[MwAuth, MwRole [RoleAdmin]], [MwAuth, MwACL PermProjectRead, MwRole [RoleAdmin]]])"

lemma NewRouter_chains:
  "list_all (\<lambda>route. rt_mws route \<in> set (chain_of (required (rt_endpoint route)))) NewRouter"
  by (simp add: NewRouter_def protected_routes_def project_routes_def operation_routes_def
      sub_router_def rt_def chain_of_def)

declare required.simps [simp del]

lemma NewRouter_chain:
  "route \<in> set NewRouter \<Longrightarrow> rt_mws route \<in> set (chain_of (required (rt_endpoint route)))"
  using NewRouter_chains by (simp add: list_all_iff)

definition denied :: "'d response \<times> 's \<Rightarrow> 's \<Rightarrow> bool" where
  "denied out s \<longleftrightarrow> snd out = s \<and> rs_status (fst out) \<in> {401, 403}"

lemma denied_simps [simp]:
  "denied (writeUnauthorized msg, s) s" "denied (raw_error 403 code msg, s) s"
  "denied (WriteError r 401 code msg d, s) s" "denied (WriteError r 403 code msg d, s) s"
  by (simp_all add: denied_def writeUnauthorized_def raw_error_def WriteError_def)

lemma split_n_2:
  "split_n 2 c s = (case str_cut s [c] of None \<Rightarrow> [s] | Some (a, b) \<Rightarrow> [a, b])"
  by (simp add: numeral_2_eq_2 split: option.splits)

lemma Middleware_bearer:
  "(case bearer g r of
      None \<Rightarrow> denied (Middleware (gd_lib g) (gd_mgr g) (gd_now g) next r s) s
    | Some c \<Rightarrow> Middleware (gd_lib g) (gd_mgr g) (gd_now g) next r s = next (r\<lparr>rq_claims := Some c\<rparr>) s)"
  by (auto simp: bearer_def Middleware_def Let_def split_n_2 split: option.splits)

text \<open>What a handler behind \<open>MwAuth\<close> and further middlewares does, from what those do with claims.\<close>

lemma guarded:
  assumes "\<And>c r'. rq_claims r' = Some c \<Longrightarrow> url_param r' ''projectID'' = url_param r ''projectID'' \<Longrightarrow>
      (if claims_allow g a c r' s then rest r' s = h r' s else denied (rest r' s) s)"
    and "a \<noteq> Public"
  shows "if allowed g a r s
    then Middleware (gd_lib g) (gd_mgr g) (gd_now g) rest r s = h (r\<lparr>rq_claims := bearer g r\<rparr>) s
    else denied (Middleware (gd_lib g) (gd_mgr g) (gd_now g) rest r s) s"
proof (cases "bearer g r")
  case None
  then show ?thesis using Middleware_bearer [of g rest r s] assms(2) by (simp add: allowed_def)
next
  case (Some c)
  let ?r = "r\<lparr>rq_claims := Some c\<rparr>"
  have p: "url_param ?r k = url_param r k" for k by (simp add: url_param_def)
  have "claims_allow g a c ?r s = claims_allow g a c r s"
    by (cases a) (simp_all add: project_role_def p)
  then show ?thesis
    using Middleware_bearer [of g rest r s] Some assms(1) [of ?r c] assms(2)
    by (simp add: allowed_def p)
qed

lemma chain_guards:
  assumes "mws \<in> set (chain_of a)" "\<exists>perm. MwACL perm \<in> set mws \<Longrightarrow> url_param r ''projectID'' \<noteq> []"
  shows "if allowed g a r s
    then foldr (apply_mw g) mws h r s = h (if a = Public then r else r\<lparr>rq_claims := bearer g r\<rparr>) s
    else denied (foldr (apply_mw g) mws h r s) s"
proof (cases a)
  case Public
  then show ?thesis using assms by (simp add: chain_of_def allowed_def)
next
  case Authenticated
  then show ?thesis using assms guarded [of r g a s h h] by (simp add: chain_of_def)
next
  case ProjectRead
  then have "url_param r ''projectID'' \<noteq> []" using assms by (auto simp: chain_of_def)
  then show ?thesis
    using assms(1) guarded [of r g a s "ProjectACLMiddleware (gd_acl g) PermProjectRead h" h] ProjectRead
    by (auto simp: chain_of_def ProjectACLMiddleware_def project_role_def Let_def)
next
  case ProjectOperate
  then have "url_param r ''projectID'' \<noteq> []" using assms by (auto simp: chain_of_def)
  then show ?thesis
    using assms(1) guarded [of r g a s "ProjectACLMiddleware (gd_acl g) PermProjectRead
        (ProjectACLMiddleware (gd_acl g) PermProjectOperate (RequirePermission PermProjectOperate h))" h]
      ProjectOperate
    by (auto simp: chain_of_def ProjectACLMiddleware_def RequirePermission_def project_role_def
        HasPermission_operate Let_def)
next
  case AdminOnly
  have "mws = [MwAuth, MwRole [RoleAdmin]] \<or> mws = [MwAuth, MwACL PermProjectRead, MwRole [RoleAdmin]]"
    using assms(1) AdminOnly by (auto simp: chain_of_def)
  then show ?thesis
  proof
    assume "mws = [MwAuth, MwRole [RoleAdmin]]"
    then show ?thesis
      using AdminOnly guarded [of r g a s "RequireRole [RoleAdmin] h" h] by (auto simp: RequireRole_def)
  next
    assume m: "mws = [MwAuth, MwACL PermProjectRead, MwRole [RoleAdmin]]"
    then have "url_param r ''projectID'' \<noteq> []" using assms(2) by auto
    then show ?thesis
      using m AdminOnly
        guarded [of r g a s "ProjectACLMiddleware (gd_acl g) PermProjectRead (RequireRole [RoleAdmin] h)" h]
      by (auto simp: ProjectACLMiddleware_def RequireRole_def Let_def)
  qed
qed

text \<open>The request a handler sees: the identifier in its header, and the token's claims.\<close>

definition seen :: "'s guards \<Rightarrow> access \<Rightarrow> request \<Rightarrow> request" where
  "seen g a r =
     (let r1 = r\<lparr>rq_headers := AList.update ''X-Request-ID'' (GetRequestID r) (rq_headers r)\<rparr>
      in if a = Public then r1 else r1\<lparr>rq_claims := bearer g r\<rparr>)"

definition with_request_id :: "request \<Rightarrow> 'd response \<times> 's \<Rightarrow> 'd response \<times> 's" where
  "with_request_id r out = ((fst out)\<lparr>rs_header := Some (GetRequestID r)\<rparr>, snd out)"

text \<open>
  chi binds the placeholder of a pattern to the part of the path it matches, which is not empty. The
  project check stands in front of the routes below \<open>/projects/{projectID}\<close> only.
\<close>

definition bound_by :: "route \<Rightarrow> request \<Rightarrow> bool" where
  "bound_by route r \<longleftrightarrow>
     (has_prefix (rt_pattern route) ''/api/v1/projects/{projectID}'' \<longrightarrow> url_param r ''projectID'' \<noteq> [])"

lemma NewRouter_acl:
  "list_all (\<lambda>route. (\<exists>perm. MwACL perm \<in> set (rt_mws route)) \<longrightarrow>
     has_prefix (rt_pattern route) ''/api/v1/projects/{projectID}'') NewRouter"
  by (simp add: NewRouter_def protected_routes_def project_routes_def operation_routes_def
      sub_router_def rt_def has_prefix_def)

lemma bound_project:
  "route \<in> set NewRouter \<Longrightarrow> bound_by route r \<Longrightarrow> \<exists>perm. MwACL perm \<in> set (rt_mws route) \<Longrightarrow>
     url_param r ''projectID'' \<noteq> []"
  using NewRouter_acl by (auto simp: list_all_iff bound_by_def)

lemma serve_guarded:
  assumes "route \<in> set NewRouter" "bound_by route r"
  shows "if allowed g (required (rt_endpoint route)) r s
    then serve g handle route r s
       = with_request_id r (handle (rt_endpoint route) (seen g (required (rt_endpoint route)) r) s)
    else denied (serve g handle route r s) s"
proof -
  let ?a = "required (rt_endpoint route)"
  let ?r = "r\<lparr>rq_headers := AList.update ''X-Request-ID'' (GetRequestID r) (rq_headers r)\<rparr>"
  let ?out = "foldr (apply_mw g) (rt_mws route) (handle (rt_endpoint route)) ?r s"
  have p: "url_param ?r k = url_param r k" for k by (simp add: url_param_def)
  have b: "bearer g ?r = bearer g r" by (simp add: bearer_def str_at_def)
  have al: "allowed g a ?r s = allowed g a r s" for a
    by (cases a) (simp_all add: allowed_def b project_role_def p split: option.splits)
  have serve: "serve g handle route r s = with_request_id r ?out"
    by (simp add: serve_def RequestIDMiddleware_def with_request_id_def Let_def case_prod_unfold)
  have "if allowed g ?a r s
      then ?out = handle (rt_endpoint route) (seen g ?a r) s else denied ?out s"
    using chain_guards [OF NewRouter_chain [OF assms(1)], of ?r g s "handle (rt_endpoint route)"]
      bound_project [OF assms] by (simp add: al b p seen_def Let_def)
  then show ?thesis unfolding serve by (auto simp: denied_def with_request_id_def split: if_splits)
qed

end
