(* ===== verification/AuthProps.thy ===== *)
theory AuthProps
  imports Router
begin

text \<open>
  The properties of authentication and of the routes' guards, with a token library that knows a list
  of tokens, on which they are evaluated.
\<close>

section \<open>A library of listed tokens\<close>

definition listed_lib :: "string \<Rightarrow> (string, Claims) gomap \<Rightarrow> jwt_lib" where
  "listed_lib k toks =
     \<lparr>jl_sign = (\<lambda>key c. case find (\<lambda>(t, c'). c' = c) toks of
          Some (t, c') \<Rightarrow> if key = k then Inr t else Inl (PlainError ''unknown key'')
        | None \<Rightarrow> Inl (PlainError ''cannot sign'')),
      jl_parse = (\<lambda>kf tok now. case map_of toks tok of
          Some c \<Rightarrow> if kf SigningMethodHMAC = Some k \<and> unexpired c now then Some (c, True) else None
        | None \<Rightarrow> None),
      jl_date = (\<lambda>t. t)\<rparr>"

definition listed_signed :: "string \<Rightarrow> (string, Claims) gomap \<Rightarrow> string \<Rightarrow> Claims \<Rightarrow> string \<Rightarrow> bool" where
  "listed_signed k toks key c tok \<longleftrightarrow> key = k \<and> map_of toks tok = Some c"

lemma listed_laws:
  assumes "distinct (map fst toks)"
  shows "jwt_laws (listed_lib k toks) (listed_signed k toks)"
  using assms
  by (auto simp: jwt_laws_def listed_lib_def listed_signed_def map_of_eq_Some_iff
      split: option.splits if_splits dest!: find_SomeD)

definition demo_user :: User where
  "demo_user = \<lparr>u_id = ''u1'', u_username = ''ann'', u_email = ''a@x'', u_passwordhash = ''h'',
     u_role = RoleOperator, u_created = 1, u_updated = 1\<rparr>"

definition demo_mgr :: JWTManager where
  "demo_mgr = NewJWTManager ''secret'' 900 9000"

definition demo_toks :: "(string, Claims) gomap" where
  "demo_toks =
     [(''A'', access_claims (listed_lib ''secret'' []) demo_mgr 100 demo_user),
      (''R'', refresh_claims (listed_lib ''secret'' []) demo_mgr 100 demo_user)]"

definition demo_lib :: jwt_lib where
  "demo_lib = listed_lib ''secret'' demo_toks"

lemma demo_laws: "jwt_laws demo_lib (listed_signed ''secret'' demo_toks)"
  unfolding demo_lib_def by (rule listed_laws) (simp add: demo_toks_def)

lemma demo_generate:
  "GenerateTokenPair demo_lib demo_mgr 100 demo_user
     = Inr \<lparr>tp_access = ''A'', tp_refresh = ''R'', tp_expires = 1000\<rparr>"
  by code_simp

section \<open>Properties\<close>

text \<open>
  C27: An access token identifies its user until it expires: validating the access token of a generated
  pair gives back the claims it was made of (the user's identifier, name and role) before its expiry,
  and is refused from its expiry on.
\<close>

theorem access_token_roundtrip:
  assumes "jwt_laws lib signed" "GenerateTokenPair lib m now user = Inr tp"
  shows "ValidateAccessToken lib m (tp_access tp) now'
    = (if now' < jl_date lib (now + jm_accessttl m) then Some (access_claims lib m now user) else None)"
proof -
  let ?c = "access_claims lib m now user"
  have "jl_sign lib (jm_secret m) ?c = Inr (tp_access tp)"
    using assms(2) by (auto simp: GenerateTokenPair_def split: sum.splits)
  then have s: "signed (jm_secret m) ?c (tp_access tp)"
    using assms(1) unfolding jwt_laws_def by blast
  have uniq: "c = ?c" if "signed (jm_secret m) c (tp_access tp)" for c
  proof -
    obtain t where "t < (case cl_expiresat c of None \<Rightarrow> 0 | Some e \<Rightarrow> e)" "t < jl_date lib (now + jm_accessttl m)"
      by (meson lt_ex min_less_iff_conj)
    then have t: "unexpired c t" "unexpired ?c t"
      by (auto simp: unexpired_def access_claims_def split: option.splits)
    then have "ValidateAccessToken lib m (tp_access tp) t = Some c"
        "ValidateAccessToken lib m (tp_access tp) t = Some ?c"
      using that s ValidateAccessToken_iff [OF assms(1)] by simp_all
    then show ?thesis by simp
  qed
  have e: "unexpired ?c now' \<longleftrightarrow> now' < jl_date lib (now + jm_accessttl m)"
    by (simp add: access_claims_def unexpired_def)
  show ?thesis
  proof (cases "now' < jl_date lib (now + jm_accessttl m)")
    case True
    then show ?thesis using ValidateAccessToken_iff [OF assms(1)] s e by simp
  next
    case False
    then have "ValidateAccessToken lib m (tp_access tp) now' \<noteq> Some c" for c
      using ValidateAccessToken_iff [OF assms(1)] uniq e by auto
    then show ?thesis using False by (cases "ValidateAccessToken lib m (tp_access tp) now'") auto
  qed
qed

lemma access_token_roundtrip_witness:
  "ValidateAccessToken demo_lib demo_mgr ''A'' 500 = Some (access_claims demo_lib demo_mgr 100 demo_user)"
  using access_token_roundtrip [OF demo_laws demo_generate, of 500]
  by (simp add: demo_mgr_def NewJWTManager_def demo_lib_def listed_lib_def)

text \<open>
  C3: Who reaches a handler is exactly what its endpoint requires. For every route of the table, a
  request (in which chi has bound the project's identifier, where the pattern has one) whose bearer token
  and project role satisfy the endpoint's access gets the handler's answer
  (and the handler sees the token's claims); any other request is answered with 401 or 403, leaves
  the state as it was and never reaches the handler. Operations need the operator or admin role and,
  for operators, an access-control entry of the project that is more than a viewer's.
\<close>

theorem routes_guard_exactly:
  assumes "route \<in> set NewRouter" "bound_by route r"
  shows "if allowed g (required (rt_endpoint route)) r s
    then serve g handle route r s
       = with_request_id r (handle (rt_endpoint route) (seen g (required (rt_endpoint route)) r) s)
    else denied (serve g handle route r s) s"
  by (rule serve_guarded [OF assms])

text \<open>An operator with an entry for project \<open>p\<close> reaches \<open>Up\<close> there; a refresh token does not.\<close>

definition demo_guards :: "unit guards" where
  "demo_guards = \<lparr>gd_lib = demo_lib, gd_mgr = demo_mgr, gd_now = 500,
     gd_acl = (\<lambda>u p s. if u = ''u1'' \<and> p = ''p'' then RoleOperator else [])\<rparr>"

definition token_request :: "string \<Rightarrow> string \<Rightarrow> request" where
  "token_request tok p = \<lparr>rq_headers = [(''Authorization'', ''Bearer '' @ tok)],
     rq_params = [(''projectID'', p)], rq_query = [], rq_claims = None, rq_uuid = ''id''\<rparr>"

definition up_route :: route where
  "up_route = \<lparr>rt_method = ''POST'', rt_pattern = ''/api/v1/projects/{projectID}/up'',
     rt_mws = [MwAuth, MwACL PermProjectRead, MwACL PermProjectOperate, MwPerm PermProjectOperate],
     rt_endpoint = HUp\<rparr>"

lemma up_route_in: "up_route \<in> set NewRouter"
  by (simp add: up_route_def NewRouter_def protected_routes_def project_routes_def operation_routes_def
      sub_router_def rt_def)

lemma up_required: "required (rt_endpoint up_route) = ProjectOperate"
  by (simp add: up_route_def required.simps)

lemma demo_allowed: "allowed demo_guards ProjectOperate (token_request ''A'' ''p'') ()"
  by code_simp

lemma demo_refused: "\<not> allowed demo_guards ProjectOperate (token_request ''R'' ''p'') ()"
  by code_simp

definition demo_handle :: "endpoint \<Rightarrow> (endpoint, unit) handler" where
  "demo_handle e r s = (WriteJSON r 200 e, s)"

lemma routes_guard_exactly_witness:
  "serve demo_guards demo_handle up_route (token_request ''A'' ''p'') ()
     = with_request_id (token_request ''A'' ''p'')
         (demo_handle HUp (seen demo_guards ProjectOperate (token_request ''A'' ''p'')) ())
   \<and> denied (serve demo_guards demo_handle up_route (token_request ''R'' ''p'') ()) ()"
proof -
  have p: "bound_by up_route (token_request t ''p'')" for t
    by (simp add: bound_by_def url_param_def token_request_def str_at_def)
  have e: "rt_endpoint up_route = HUp" by (simp add: up_route_def)
  show ?thesis
    using routes_guard_exactly [OF up_route_in p [of "''A''"], of demo_guards "()" demo_handle]
      routes_guard_exactly [OF up_route_in p [of "''R''"], of demo_guards "()" demo_handle]
    unfolding up_required using demo_allowed demo_refused by (simp add: e)
qed

text \<open>
  Running operations of every project are shown to whoever has a token: a refresh token, which
  carries neither user nor role, passes the guards of the operations endpoints.
\<close>

lemma refresh_token_lists_operations:
  "allowed demo_guards (required HListRunning) (token_request ''R'' ''p'') ()"
  "allowed demo_guards (required HGetOperation) (token_request ''R'' ''p'') ()"
  by code_simp+

end
