(* ===== verification/AccessLog.thy ===== *)
theory AccessLog
  imports Router Executor
begin

text \<open>
  What stands in front of every route, in the order of \<open>internal/api/router.go\<close>: the cross-origin
  library, which may answer a request itself, the request identifier, the access log and the recovery
  from panics (\<open>internal/httputil/middleware.go\<close>). The library is a parameter.

  A request in the model is what the handlers read; the log also reads the line of the request, here
  \<open>request_line\<close>. The clock is read twice. The number of bytes written is a function of what is encoded, the
  body and the identifier in its meta data, because the text of JSON is not modelled.
\<close>

section \<open>Cross-origin options\<close>

record cors_options =
  co_origins :: "string list"
  co_methods :: "string list"
  co_headers :: "string list"
  co_exposed :: "string list"
  co_credentials :: bool
  co_maxage :: int

definition router_cors :: cors_options where
  "router_cors =
     \<lparr>co_origins = [''*''], co_methods = [''GET'', ''POST'', ''PUT'', ''DELETE'', ''OPTIONS''],
      co_headers = [''Accept'', ''Authorization'', ''Content-Type'', ''X-Request-ID''],
      co_exposed = [''X-Request-ID''], co_credentials = True, co_maxage = 300\<rparr>"

text \<open>A browser may use every route of the table: its method is among the allowed ones.\<close>

lemma routes_allowed: "route \<in> set NewRouter \<Longrightarrow> rt_method route \<in> set (co_methods router_cors)"
  by (auto simp: NewRouter_def protected_routes_def project_routes_def operation_routes_def
      sub_router_def rt_def router_cors_def)

section \<open>The access log\<close>

record request_line =
  rl_method :: string
  rl_path :: string
  rl_remote :: string

datatype log_line =
    HttpRequest (ll_method: string) (ll_path: string) (ll_status: int) (ll_duration: int)
      (ll_request: string) (ll_remote: string) (ll_bytes: int)
  | PanicRecovered string string

text \<open>
  The state of a handler behind the log is paired with the lines written. \<open>bytes\<close> is what the wrapped
  writer counted. The identifier is read from the header of the request when the handler is done.
\<close>

definition LoggingMiddleware ::
    "('d body \<Rightarrow> string option \<Rightarrow> int) \<Rightarrow> request_line \<Rightarrow> time \<Rightarrow> time \<Rightarrow>
     ('d, 's \<times> log_line list) handler \<Rightarrow> ('d, 's \<times> log_line list) handler" where
  "LoggingMiddleware bytes cn t0 t1 app r s =
     (let (resp, (s1, lines)) = app r s
      in (resp, (s1, lines @ [HttpRequest (rl_method cn) (rl_path cn) (rs_status resp)
                                (milliseconds (t1 - t0)) (str_at (rq_headers r) ''X-Request-ID'')
                                (rl_remote cn) (bytes (rs_body resp) (rs_meta resp))])))"

text \<open>\<open>RecoveryMiddleware\<close> with the line it writes for a panic.\<close>

definition panic_lines :: "request_line \<Rightarrow> 'd outcome \<Rightarrow> log_line list" where
  "panic_lines cn out =
     (case out of Panicked panic written \<Rightarrow> [PanicRecovered panic (rl_path cn)] | Answered _ \<Rightarrow> [])"

definition recovery_logged ::
    "request_line \<Rightarrow> (request \<Rightarrow> 's \<Rightarrow> 'd outcome \<times> 's) \<Rightarrow> ('d, 's \<times> log_line list) handler" where
  "recovery_logged cn app r s =
     (let (out, s1) = app r (fst s);
          (resp, s2) = RecoveryMiddleware (\<lambda>_ _. (out, s1)) r s1
      in (resp, (s2, snd s @ panic_lines cn out)))"

text \<open>
  What the cross-origin library does with a request under the options it was given: it answers it, as it
  does with the preflight request of a browser, or passes it on. The headers it adds are not modelled.
\<close>

type_synonym 'd cors_lib = "cors_options \<Rightarrow> request_line \<Rightarrow> request \<Rightarrow> 'd response option"

text \<open>The middlewares before the routes, around whatever the routes do.\<close>

definition front ::
    "'d cors_lib \<Rightarrow> ('d body \<Rightarrow> string option \<Rightarrow> int) \<Rightarrow> request_line \<Rightarrow> time \<Rightarrow> time \<Rightarrow>
     (request \<Rightarrow> 's \<Rightarrow> 'd outcome \<times> 's) \<Rightarrow> ('d, 's \<times> log_line list) handler" where
  "front cors bytes cn t0 t1 app r s =
     (case cors router_cors cn r of
        Some resp \<Rightarrow> (resp, s)
      | None \<Rightarrow> RequestIDMiddleware (LoggingMiddleware bytes cn t0 t1 (recovery_logged cn app)) r s)"

text \<open>A route behind them: the route's own middlewares and its handler, which does not panic.\<close>

definition route_chain ::
    "'s guards \<Rightarrow> (endpoint \<Rightarrow> ('d, 's) handler) \<Rightarrow> route \<Rightarrow> request \<Rightarrow> 's \<Rightarrow> 'd outcome \<times> 's" where
  "route_chain g handle route r s =
     (let (resp, s) = foldr (apply_mw g) (rt_mws route) (handle (rt_endpoint route)) r s in (Answered resp, s))"

section \<open>What the log says\<close>

lemma header_set [simp]: "str_at (AList.update k v m) k = v"
  by (simp add: str_at_def)

text \<open>The request behind the request identifier, and the answer of the front to what the routes did.\<close>

definition identified :: "request \<Rightarrow> request" where
  "identified r = r\<lparr>rq_headers := AList.update ''X-Request-ID'' (GetRequestID r) (rq_headers r)\<rparr>"

definition answered :: "request \<Rightarrow> 'd outcome \<Rightarrow> 'd response" where
  "answered r out =
     (case out of
        Panicked panic written \<Rightarrow>
          (WriteError_after written (identified r) 500 ''ERR_INTERNAL'' ''internal server error'' NilDetails)
            \<lparr>rs_header := Some (GetRequestID r)\<rparr>
      | Answered resp \<Rightarrow> resp\<lparr>rs_header := Some (GetRequestID r)\<rparr>)"

lemma front_exact:
  assumes "app (identified r) s = (out, s1)" "cors router_cors cn r = None"
  shows "front cors bytes cn t0 t1 app r (s, lines) =
     (answered r out,
      (s1, lines @ panic_lines cn out @
        [HttpRequest (rl_method cn) (rl_path cn) (rs_status (answered r out)) (milliseconds (t1 - t0))
           (GetRequestID r) (rl_remote cn) (bytes (rs_body (answered r out)) (rs_meta (answered r out)))]))"
  using assms
  by (simp add: front_def RequestIDMiddleware_def LoggingMiddleware_def recovery_logged_def
      RecoveryMiddleware_def answered_def identified_def panic_lines_def Let_def split: outcome.splits prod.splits)

text \<open>
  C38: Every request the cross-origin library passes on leaves exactly one line of the access log,
  written last, with the request's method and path, the status of the answer the client gets and the
  request identifier in the answer's header, whether or not the handler panicked. For a panic there is
  one line more before it; the answer is 500 if nothing was written before, else the status is the one
  that was out already and the error document stands behind what was out; nothing the handler did is
  undone. A request the library answers itself leaves no line and changes nothing.
\<close>

theorem access_logged:
  "case front cors bytes cn t0 t1 app r (s, lines) of (resp, (s1, lines1)) \<Rightarrow>
     (case cors router_cors cn r of
        Some pre \<Rightarrow> resp = pre \<and> s1 = s \<and> lines1 = lines
      | None \<Rightarrow>
          (\<exists>panics l. lines1 = lines @ panics @ [l] \<and>
             ll_method l = rl_method cn \<and> ll_path l = rl_path cn \<and> ll_remote l = rl_remote cn \<and>
             ll_status l = rs_status resp \<and> ll_bytes l = bytes (rs_body resp) (rs_meta resp) \<and>
             ll_request l = GetRequestID r \<and> rs_header resp = Some (ll_request l) \<and>
             (case app (identified r) s of
                (Panicked p None, s') \<Rightarrow>
                  panics = [PanicRecovered p (rl_path cn)] \<and> rs_status resp = 500 \<and> s1 = s'
              | (Panicked p (Some w), s') \<Rightarrow>
                  panics = [PanicRecovered p (rl_path cn)] \<and> rs_status resp = rs_status w \<and> s1 = s' \<and>
                  (\<exists>code m d. rs_body resp = AppendedBody (rs_body w) code m d)
              | (Answered a, s') \<Rightarrow> panics = [] \<and> resp = a\<lparr>rs_header := Some (ll_request l)\<rparr> \<and> s1 = s')))"
proof (cases "cors router_cors cn r")
  case (Some pre)
  then show ?thesis by (simp add: front_def)
next
  case None
  obtain out s' where n: "app (identified r) s = (out, s')" by fastforce
  show ?thesis
    unfolding front_exact [where app = app and r = r and s = s and cors = cors, OF n None]
    by (cases out) (simp_all add: None n answered_def panic_lines_def WriteError_after_def WriteError_def split: option.split)
qed

text \<open>A route behind the front is the route served, with its line.\<close>

lemma front_serves:
  assumes "cors router_cors cn r = None"
  shows "(let (resp, (s1, lines1)) = front cors bytes cn t0 t1 (route_chain g handle route) r (s, lines)
    in (resp, s1)) = serve g handle route r s"
  using assms by (simp add: front_def serve_def route_chain_def RequestIDMiddleware_def LoggingMiddleware_def
      recovery_logged_def RecoveryMiddleware_def Let_def split: prod.splits)

end
