(* ===== verification/Store.thy ===== *)
theory Store
  imports Domain GoStrings
begin

text \<open>
  \<open>internal/store\<close>: the repositories for users, access control and the audit log, and the migrations.

  The database is the tables the statements work on, and every statement is the meaning of its SQL
  text under the constraints of \<open>internal/store/migrations\<close>: primary keys, unique columns, checks and
  foreign keys with their actions. Whether the n-th statement fails for a reason of its own (a lost
  connection, an identifier that is no UUID) is a parameter (\<open>dv_fault\<close>); a failed statement changes
  nothing. PostgreSQL leaves open in which order a query finds the rows of a table, and with it the order
  of rows of equal \<open>created_at\<close>: it is a parameter for each query (\<open>dv_scan\<close>). bcrypt is a parameter: a hash that depends on the call, and the comparison.
\<close>

section \<open>Tables\<close>

record audit_row =
  ar_id :: int
  ar_user :: "string option"
  ar_project :: "string option"
  ar_operation :: string
  ar_scope :: "string list option"
  ar_status :: string
  ar_code :: "string option"
  ar_msg :: "string option"
  ar_duration :: int
  ar_created :: time

record db =
  db_users :: "User list"
  db_acls :: "ProjectACL list"
  db_audit :: "audit_row list"
  db_nextid :: int
  db_versions :: "string list"
  db_scripts :: "string list"
  db_calls :: nat

definition empty_db :: db where
  "empty_db = \<lparr>db_users = [], db_acls = [], db_audit = [], db_nextid = 1, db_versions = [],
     db_scripts = [], db_calls = 0\<rparr>"

record db_env =
  dv_fault :: "nat \<Rightarrow> go_error option"
  dv_hash :: "nat \<Rightarrow> string \<Rightarrow> go_error + string"
  dv_check :: "string \<Rightarrow> string \<Rightarrow> bool"
  dv_scan :: "nat \<Rightarrow> nat \<Rightarrow> nat"

text \<open>Run one statement.\<close>

definition sql :: "db_env \<Rightarrow> (db \<Rightarrow> (go_error + 'a) \<times> db) \<Rightarrow> db \<Rightarrow> (go_error + 'a) \<times> db" where
  "sql dv f s =
     (let s1 = s\<lparr>db_calls := Suc (db_calls s)\<rparr> in
      case dv_fault dv (db_calls s) of Some err \<Rightarrow> (Inl err, s1) | None \<Rightarrow> f s1)"

definition violates :: "string \<Rightarrow> go_error" where
  "violates c = PlainError (''violates constraint '' @ c)"

definition ok_unit :: "db \<Rightarrow> (go_error + unit) \<times> db" where
  "ok_unit s = (Inr (), s)"

definition select :: "(db \<Rightarrow> 'a) \<Rightarrow> db \<Rightarrow> (go_error + 'a) \<times> db" where
  "select q s = (Inr (q s), s)"

text \<open>
  \<open>ORDER BY created_at DESC LIMIT limit OFFSET offset\<close>. The rows are found in some order, here given by
  a rank for the position of each row in the table, and sorted by the column alone.
\<close>

definition scanned :: "(nat \<Rightarrow> nat) \<Rightarrow> 'r list \<Rightarrow> 'r list" where
  "scanned rank rows = map snd (sort_key (\<lambda>(i, r). rank i) (enumerate 0 rows))"

definition newest_first :: "(nat \<Rightarrow> nat) \<Rightarrow> ('r \<Rightarrow> time) \<Rightarrow> 'r list \<Rightarrow> 'r list" where
  "newest_first rank created rows = sort_key (\<lambda>r. - created r) (scanned rank rows)"

definition page :: "PaginationOpts \<Rightarrow> 'r list \<Rightarrow> 'r list" where
  "page opts rows = take (nat (po_limit opts)) (drop (nat (po_offset opts)) rows)"

definition normalizeOpts :: "PaginationOpts \<Rightarrow> PaginationOpts" where
  "normalizeOpts opts =
     \<lparr>po_offset = (if po_offset opts < 0 then 0 else po_offset opts),
      po_limit = (if po_limit opts \<le> 0 \<or> po_limit opts > 100 then 50 else po_limit opts)\<rparr>"

text \<open>The answer of two queries, the count and the page: the first error ends the call.\<close>

definition list_query ::
    "db_env \<Rightarrow> (db \<Rightarrow> 'r list) \<Rightarrow> ('r \<Rightarrow> time) \<Rightarrow> PaginationOpts \<Rightarrow> db \<Rightarrow>
     (go_error + 'r list \<times> nat) \<times> db" where
  "list_query dv rows created opts s =
     (case sql dv (select (\<lambda>s. length (rows s))) s of
        (Inl err, s1) \<Rightarrow> (Inl err, s1)
      | (Inr n, s1) \<Rightarrow>
          (case sql dv (select (\<lambda>s. page (normalizeOpts opts)
                   (newest_first (dv_scan dv (db_calls s1)) created (rows s)))) s1 of
             (Inl err, s2) \<Rightarrow> (Inl err, s2)
           | (Inr rs, s2) \<Rightarrow> (Inr (rs, n), s2)))"

section \<open>Users\<close>

definition roles :: "Role list" where "roles = [RoleAdmin, RoleOperator, RoleViewer]"

definition zero_user :: User where
  "zero_user = \<lparr>u_id = [], u_username = [], u_email = [], u_passwordhash = [], u_role = [],
     u_created = 0, u_updated = 0\<rparr>"

definition user_conflict :: "User \<Rightarrow> User list \<Rightarrow> bool" where
  "user_conflict u us =
     list_ex (\<lambda>v. u_id v = u_id u \<or> u_username v = u_username u \<or> u_email v = u_email u) us"

definition insert_user :: "User \<Rightarrow> db \<Rightarrow> (go_error + unit) \<times> db" where
  "insert_user u s =
     (if user_conflict u (db_users s) then (Inl (violates ''users_key''), s)
      else if u_role u \<notin> set roles then (Inl (violates ''users_role_check''), s)
      else ok_unit (s\<lparr>db_users := db_users s @ [u]\<rparr>))"

definition UserCreate :: "db_env \<Rightarrow> User \<Rightarrow> string \<Rightarrow> db \<Rightarrow> (go_error + unit) \<times> db" where
  "UserCreate dv u password s =
     (case dv_hash dv (db_calls s) password of
        Inl err \<Rightarrow> (Inl err, s)
      | Inr h \<Rightarrow> sql dv (insert_user (u\<lparr>u_passwordhash := h\<rparr>)) s)"

text \<open>
  The two readers of one user return a pointer and an error: nil and nil where no row matches, and
  on any other error a pointer to an empty user together with the error.
\<close>

definition get_user :: "db_env \<Rightarrow> (User \<Rightarrow> bool) \<Rightarrow> db \<Rightarrow> (User option \<times> go_error option) \<times> db" where
  "get_user dv P s =
     (case sql dv (select (\<lambda>s. find P (db_users s))) s of
        (Inl err, s1) \<Rightarrow> ((Some zero_user, Some err), s1)
      | (Inr None, s1) \<Rightarrow> ((None, None), s1)
      | (Inr (Some u), s1) \<Rightarrow> ((Some u, None), s1))"

definition GetByID :: "db_env \<Rightarrow> string \<Rightarrow> db \<Rightarrow> (User option \<times> go_error option) \<times> db" where
  "GetByID dv i = get_user dv (\<lambda>u. u_id u = i)"

definition GetByUsername :: "db_env \<Rightarrow> string \<Rightarrow> db \<Rightarrow> (User option \<times> go_error option) \<times> db" where
  "GetByUsername dv n = get_user dv (\<lambda>u. u_username u = n)"

text \<open>The listing does not read the password hash.\<close>

definition UserList ::
    "db_env \<Rightarrow> PaginationOpts \<Rightarrow> db \<Rightarrow> (go_error + User list \<times> nat) \<times> db" where
  "UserList dv opts s =
     (case list_query dv db_users u_created opts s of
        (Inl err, s1) \<Rightarrow> (Inl err, s1)
      | (Inr (us, n), s1) \<Rightarrow> (Inr (map (\<lambda>u. u\<lparr>u_passwordhash := []\<rparr>) us, n), s1))"

definition update_user :: "User \<Rightarrow> db \<Rightarrow> (go_error + unit) \<times> db" where
  "update_user u s =
     (if \<not> list_ex (\<lambda>v. u_id v = u_id u) (db_users s) then ok_unit s
      else if list_ex (\<lambda>v. u_id v \<noteq> u_id u \<and> (u_username v = u_username u \<or> u_email v = u_email u))
                (db_users s) then (Inl (violates ''users_key''), s)
      else if u_role u \<notin> set roles then (Inl (violates ''users_role_check''), s)
      else ok_unit (s\<lparr>db_users := map (\<lambda>v. if u_id v = u_id u
             then v\<lparr>u_username := u_username u, u_email := u_email u, u_role := u_role u,
                    u_updated := u_updated u\<rparr> else v) (db_users s)\<rparr>))"

text \<open>\<open>Update\<close> also stamps the caller's user, which the answer then shows.\<close>

definition UserUpdate :: "db_env \<Rightarrow> time \<Rightarrow> User \<Rightarrow> db \<Rightarrow> (go_error + unit) \<times> User \<times> db" where
  "UserUpdate dv now u s =
     (let u = u\<lparr>u_updated := now\<rparr>; (res, s1) = sql dv (update_user u) s in (res, u, s1))"

text \<open>
  Deleting a user deletes the user's access-control entries, clears the user in the audit log, and
  is refused where another user's entry was granted by the user.
\<close>

definition delete_user :: "string \<Rightarrow> db \<Rightarrow> (go_error + unit) \<times> db" where
  "delete_user i s =
     (let acls = filter (\<lambda>a. acl_user a \<noteq> i) (db_acls s) in
      if list_ex (\<lambda>u. u_id u = i) (db_users s) \<and> list_ex (\<lambda>a. acl_grantedby a = i) acls
      then (Inl (violates ''project_acl_granted_by_fkey''), s)
      else if list_ex (\<lambda>u. u_id u = i) (db_users s) then
        ok_unit (s\<lparr>db_users := filter (\<lambda>u. u_id u \<noteq> i) (db_users s), db_acls := acls,
          db_audit := map (\<lambda>r. if ar_user r = Some i then r\<lparr>ar_user := None\<rparr> else r) (db_audit s)\<rparr>)
      else ok_unit s)"

definition UserDelete :: "db_env \<Rightarrow> string \<Rightarrow> db \<Rightarrow> (go_error + unit) \<times> db" where
  "UserDelete dv i = sql dv (delete_user i)"

definition ValidatePassword ::
    "db_env \<Rightarrow> string \<Rightarrow> string \<Rightarrow> db \<Rightarrow> (go_error + User option) \<times> db" where
  "ValidatePassword dv username password s =
     (case GetByUsername dv username s of
        ((u, Some err), s1) \<Rightarrow> (Inl err, s1)
      | ((None, None), s1) \<Rightarrow> (Inr None, s1)
      | ((Some u, None), s1) \<Rightarrow>
          if dv_check dv (u_passwordhash u) password then (Inr (Some u), s1) else (Inr None, s1))"

definition UserCount :: "db_env \<Rightarrow> db \<Rightarrow> (go_error + nat) \<times> db" where
  "UserCount dv = sql dv (select (\<lambda>s. length (db_users s)))"

section \<open>Access control\<close>

definition acl_at :: "string \<Rightarrow> string \<Rightarrow> ProjectACL list \<Rightarrow> ProjectACL option" where
  "acl_at user project acls = find (\<lambda>a. acl_user a = user \<and> acl_project a = project) acls"

text \<open>Every error, also that no row matches, is the empty role.\<close>

definition GetUserProjectRole :: "db_env \<Rightarrow> string \<Rightarrow> string \<Rightarrow> db \<Rightarrow> Role \<times> db" where
  "GetUserProjectRole dv user project s =
     (case sql dv (select (\<lambda>s. acl_at user project (db_acls s))) s of
        (Inr (Some a), s1) \<Rightarrow> (acl_role a, s1)
      | (_, s1) \<Rightarrow> ([], s1))"

definition upsert_acl :: "ProjectACL \<Rightarrow> db \<Rightarrow> (go_error + unit) \<times> db" where
  "upsert_acl a s =
     (if acl_role a \<notin> set [RoleOperator, RoleViewer] then (Inl (violates ''project_acl_role_check''), s)
      else if \<not> list_ex (\<lambda>u. u_id u = acl_user a) (db_users s)
           \<or> \<not> list_ex (\<lambda>u. u_id u = acl_grantedby a) (db_users s)
      then (Inl (violates ''project_acl_fkey''), s)
      else if acl_at (acl_user a) (acl_project a) (db_acls s) = None
      then ok_unit (s\<lparr>db_acls := db_acls s @ [a]\<rparr>)
      else ok_unit (s\<lparr>db_acls := map (\<lambda>b. if acl_user b = acl_user a \<and> acl_project b = acl_project a
             then a else b) (db_acls s)\<rparr>))"

definition SetProjectACL :: "db_env \<Rightarrow> ProjectACL \<Rightarrow> db \<Rightarrow> (go_error + unit) \<times> db" where
  "SetProjectACL dv a = sql dv (upsert_acl a)"

definition ACLListByProject :: "db_env \<Rightarrow> string \<Rightarrow> db \<Rightarrow> (go_error + ProjectACL list) \<times> db" where
  "ACLListByProject dv p = sql dv (select (\<lambda>s. filter (\<lambda>a. acl_project a = p) (db_acls s)))"

definition ACLListByUser :: "db_env \<Rightarrow> string \<Rightarrow> db \<Rightarrow> (go_error + ProjectACL list) \<times> db" where
  "ACLListByUser dv u = sql dv (select (\<lambda>s. filter (\<lambda>a. acl_user a = u) (db_acls s)))"

definition ACLDelete :: "db_env \<Rightarrow> string \<Rightarrow> string \<Rightarrow> db \<Rightarrow> (go_error + unit) \<times> db" where
  "ACLDelete dv user project =
     sql dv (\<lambda>s. ok_unit (s\<lparr>db_acls :=
       filter (\<lambda>a. \<not> (acl_user a = user \<and> acl_project a = project)) (db_acls s)\<rparr>))"

section \<open>Audit log\<close>

definition nilIfEmpty :: "string \<Rightarrow> string option" where
  "nilIfEmpty s = (if s = [] then None else Some s)"

definition audit_row_of :: "int \<Rightarrow> AuditEntry \<Rightarrow> audit_row" where
  "audit_row_of i e =
     \<lparr>ar_id = i, ar_user = nilIfEmpty (au_user e), ar_project = nilIfEmpty (au_project e),
      ar_operation = au_operation e, ar_scope = au_scope e, ar_status = au_status e,
      ar_code = nilIfEmpty (au_errorcode e), ar_msg = nilIfEmpty (au_errormsg e),
      ar_duration = au_duration e, ar_created = au_created e\<rparr>"

text \<open>The identifier sequence advances even where the insertion fails.\<close>

definition insert_audit :: "AuditEntry \<Rightarrow> db \<Rightarrow> (go_error + unit) \<times> db" where
  "insert_audit e s =
     (let s1 = s\<lparr>db_nextid := db_nextid s + 1\<rparr> in
      if au_user e \<noteq> [] \<and> \<not> list_ex (\<lambda>u. u_id u = au_user e) (db_users s)
      then (Inl (violates ''audit_log_user_id_fkey''), s1)
      else ok_unit (s1\<lparr>db_audit := db_audit s @ [audit_row_of (db_nextid s) e]\<rparr>))"

definition LogOperation :: "db_env \<Rightarrow> AuditEntry \<Rightarrow> db \<Rightarrow> (go_error + unit) \<times> db" where
  "LogOperation dv e = sql dv (insert_audit e)"

text \<open>One row read back; the identifier is kept beside the entry.\<close>

definition from_null :: "string option \<Rightarrow> string" where
  "from_null x = (case x of None \<Rightarrow> [] | Some s \<Rightarrow> s)"

definition scanAuditEntry :: "audit_row \<Rightarrow> int \<times> AuditEntry" where
  "scanAuditEntry r =
     (ar_id r,
      \<lparr>au_user = from_null (ar_user r), au_project = from_null (ar_project r),
       au_operation = ar_operation r, au_scope = ar_scope r, au_status = ar_status r,
       au_errorcode = from_null (ar_code r), au_errormsg = from_null (ar_msg r),
       au_duration = ar_duration r, au_created = ar_created r\<rparr>)"

type_synonym audit_page = "(int \<times> AuditEntry) list \<times> nat"

definition audit_query ::
    "db_env \<Rightarrow> (audit_row \<Rightarrow> bool) \<Rightarrow> PaginationOpts \<Rightarrow> db \<Rightarrow> (go_error + audit_page) \<times> db" where
  "audit_query dv P opts s =
     (case list_query dv (\<lambda>s. filter P (db_audit s)) ar_created opts s of
        (Inl err, s1) \<Rightarrow> (Inl err, s1)
      | (Inr (rs, n), s1) \<Rightarrow> (Inr (map scanAuditEntry rs, n), s1))"

definition AuditListByProject ::
    "db_env \<Rightarrow> string \<Rightarrow> PaginationOpts \<Rightarrow> db \<Rightarrow> (go_error + audit_page) \<times> db" where
  "AuditListByProject dv p = audit_query dv (\<lambda>r. ar_project r = Some p)"

definition AuditListByUser ::
    "db_env \<Rightarrow> string \<Rightarrow> PaginationOpts \<Rightarrow> db \<Rightarrow> (go_error + audit_page) \<times> db" where
  "AuditListByUser dv u = audit_query dv (\<lambda>r. ar_user r = Some u)"

definition AuditList :: "db_env \<Rightarrow> PaginationOpts \<Rightarrow> db \<Rightarrow> (go_error + audit_page) \<times> db" where
  "AuditList dv = audit_query dv (\<lambda>r. True)"

section \<open>Migrations\<close>

text \<open>The lines between the two markers.\<close>

fun up_lines :: "bool \<Rightarrow> string list \<Rightarrow> string list" where
  "up_lines inUp [] = []"
| "up_lines inUp (line # ls) =
     (if trim_space line = ''-- +goose Up'' then up_lines True ls
      else if trim_space line = ''-- +goose Down'' then []
      else if inUp then line # up_lines inUp ls else up_lines inUp ls)"

definition extractUpSQL :: "string \<Rightarrow> string" where
  "extractUpSQL content = join_with [newline] (up_lines False (split_on newline content))"

text \<open>
  The embedded directory: names, whether they are directories, contents. A script that runs is
  recorded; whether it succeeds is the fault parameter's choice.
\<close>

type_synonym migrations_fs = "(string \<times> bool \<times> string) list"

definition has_suffix :: "string \<Rightarrow> string \<Rightarrow> bool" where
  "has_suffix s t = has_prefix (rev s) (rev t)"

definition migration_files :: "migrations_fs \<Rightarrow> string list" where
  "migration_files fs =
     sort (map fst (filter (\<lambda>(n, d, c). \<not> d \<and> has_suffix n ''.sql'') fs))"

definition migration_content :: "migrations_fs \<Rightarrow> string \<Rightarrow> string" where
  "migration_content fs n = (case map_of fs n of None \<Rightarrow> [] | Some (d, c) \<Rightarrow> c)"

definition wrap_error :: "string \<Rightarrow> string \<Rightarrow> go_error \<Rightarrow> go_error" where
  "wrap_error what name err = PlainError (what @ name @ '': '' @ error_string err)"

definition insert_version :: "string \<Rightarrow> db \<Rightarrow> (go_error + unit) \<times> db" where
  "insert_version n s =
     (if n \<in> set (db_versions s) then (Inl (violates ''schema_migrations_pkey''), s)
      else ok_unit (s\<lparr>db_versions := db_versions s @ [n]\<rparr>))"

fun migrate_each :: "db_env \<Rightarrow> migrations_fs \<Rightarrow> string list \<Rightarrow> db \<Rightarrow> go_error option \<times> db" where
  "migrate_each dv fs [] s = (None, s)"
| "migrate_each dv fs (n # ns) s =
     (case sql dv (select (\<lambda>s. n \<in> set (db_versions s))) s of
        (Inl err, s1) \<Rightarrow> (Some (wrap_error ''check migration '' n err), s1)
      | (Inr True, s1) \<Rightarrow> migrate_each dv fs ns s1
      | (Inr False, s1) \<Rightarrow>
          (case sql dv (\<lambda>s. ok_unit (s\<lparr>db_scripts :=
                  db_scripts s @ [extractUpSQL (migration_content fs n)]\<rparr>)) s1 of
             (Inl err, s2) \<Rightarrow> (Some (wrap_error ''apply migration '' n err), s2)
           | (Inr _, s2) \<Rightarrow>
               (case sql dv (insert_version n) s2 of
                  (Inl err, s3) \<Rightarrow> (Some (wrap_error ''record migration '' n err), s3)
                | (Inr _, s3) \<Rightarrow> migrate_each dv fs ns s3)))"

definition AutoMigrate :: "db_env \<Rightarrow> migrations_fs \<Rightarrow> db \<Rightarrow> go_error option \<times> db" where
  "AutoMigrate dv fs s =
     (case sql dv ok_unit s of
        (Inl err, s1) \<Rightarrow> (Some (wrap_error ''create migrations table'' [] err), s1)
      | (Inr _, s1) \<Rightarrow> migrate_each dv fs (migration_files fs) s1)"

end
