(* ===== verification/StoreFacts.thy ===== *)
theory StoreFacts
  imports Store "HOL-Library.Multiset"
begin

text \<open>
  Facts about the store: the constraints of the schema as an invariant of every reachable database,
  what a lookup sees after a change, pages, and migrations.
\<close>

section \<open>The constraints hold in every reachable database\<close>

definition user_ids :: "db \<Rightarrow> string set" where
  "user_ids s = u_id ` set (db_users s)"

definition users_ok :: "User list \<Rightarrow> bool" where
  "users_ok us \<longleftrightarrow>
     distinct (map u_id us) \<and> distinct (map u_username us) \<and> distinct (map u_email us) \<and>
     (\<forall>u \<in> set us. u_role u \<in> set roles)"

definition acls_ok :: "string set \<Rightarrow> ProjectACL list \<Rightarrow> bool" where
  "acls_ok ids acls \<longleftrightarrow>
     distinct (map (\<lambda>a. (acl_user a, acl_project a)) acls) \<and>
     (\<forall>a \<in> set acls. acl_role a \<in> {RoleOperator, RoleViewer} \<and> acl_user a \<in> ids \<and> acl_grantedby a \<in> ids)"

definition audit_ok :: "string set \<Rightarrow> int \<Rightarrow> audit_row list \<Rightarrow> bool" where
  "audit_ok ids n rows \<longleftrightarrow>
     distinct (map ar_id rows) \<and>
     (\<forall>r \<in> set rows. ar_id r < n \<and> (\<forall>u. ar_user r = Some u \<longrightarrow> u \<in> ids))"

definition db_ok :: "db \<Rightarrow> bool" where
  "db_ok s \<longleftrightarrow>
     users_ok (db_users s) \<and> acls_ok (user_ids s) (db_acls s) \<and>
     audit_ok (user_ids s) (db_nextid s) (db_audit s) \<and> distinct (db_versions s)"

lemma user_conflict_iff:
  "user_conflict u us \<longleftrightarrow>
     u_id u \<in> u_id ` set us \<or> u_username u \<in> u_username ` set us \<or> u_email u \<in> u_email ` set us"
  by (induction us) (auto simp: user_conflict_def)

lemma db_ok_calls [simp]: "db_ok (s\<lparr>db_calls := n\<rparr>) = db_ok s"
  by (simp add: db_ok_def user_ids_def)

lemma acls_ok_mono: "acls_ok ids acls \<Longrightarrow> ids \<subseteq> ids' \<Longrightarrow> acls_ok ids' acls"
  unfolding acls_ok_def by blast

lemma audit_ok_mono: "audit_ok ids n rows \<Longrightarrow> ids \<subseteq> ids' \<Longrightarrow> n \<le> n' \<Longrightarrow> audit_ok ids' n' rows"
  unfolding audit_ok_def by (meson less_le_trans subsetD)

lemma insert_user_ok: "db_ok s \<Longrightarrow> db_ok (snd (insert_user u s))"
proof (cases "user_conflict u (db_users s) \<or> u_role u \<notin> set roles")
  case False
  assume ok: "db_ok s"
  have "users_ok (db_users s @ [u])"
    using ok False by (auto simp: db_ok_def users_ok_def user_conflict_iff)
  moreover have "user_ids (s\<lparr>db_users := db_users s @ [u]\<rparr>) = insert (u_id u) (user_ids s)"
    by (auto simp: user_ids_def)
  ultimately show ?thesis
    using ok False acls_ok_mono audit_ok_mono
    by (auto simp: insert_user_def ok_unit_def db_ok_def intro: acls_ok_mono audit_ok_mono)
qed (auto simp: insert_user_def)

lemma map_distinct_update:
  assumes "distinct (map f us)" "\<And>v. v \<in> set us \<Longrightarrow> f (g v) = (if P v then c else f v)"
    "\<And>v. v \<in> set us \<Longrightarrow> \<not> P v \<Longrightarrow> f v \<noteq> c" "\<And>v w. v \<in> set us \<Longrightarrow> w \<in> set us \<Longrightarrow> P v \<Longrightarrow> P w \<Longrightarrow> v = w"
  shows "distinct (map f (map g us))"
proof -
  have "inj_on (\<lambda>v. f (g v)) (set us)"
    using assms unfolding inj_on_def distinct_map by (metis (full_types))
  moreover have "distinct us" using assms(1) by (simp add: distinct_map)
  ultimately show ?thesis by (simp add: distinct_map comp_def)
qed

lemma update_user_ok:
  assumes ok: "db_ok s"
  shows "db_ok (snd (update_user u s))"
proof -
  let ?g = "\<lambda>v. if u_id v = u_id u
      then v\<lparr>u_username := u_username u, u_email := u_email u, u_role := u_role u,
             u_updated := u_updated u\<rparr> else v"
  have one: "v = w" if "v \<in> set (db_users s)" "w \<in> set (db_users s)" "u_id v = u_id u" "u_id w = u_id u"
    for v w
    using that ok by (auto simp: db_ok_def users_ok_def distinct_map inj_on_def)
  have ids: "map u_id (map ?g (db_users s)) = map u_id (db_users s)" by simp
  show ?thesis
  proof (cases "list_ex (\<lambda>v. u_id v \<noteq> u_id u \<and> (u_username v = u_username u \<or> u_email v = u_email u))
                (db_users s) \<or> u_role u \<notin> set roles")
    case True
    then show ?thesis using ok by (auto simp: update_user_def ok_unit_def)
  next
    case False
    then have no: "u_username v \<noteq> u_username u" "u_email v \<noteq> u_email u"
      if "v \<in> set (db_users s)" "u_id v \<noteq> u_id u" for v
      using that by (auto simp: list_ex_iff)
    have "distinct (map u_username (map ?g (db_users s)))"
      by (rule map_distinct_update [where P = "\<lambda>v. u_id v = u_id u" and c = "u_username u"])
         (use ok no one in \<open>auto simp: db_ok_def users_ok_def\<close>)
    moreover have "distinct (map u_email (map ?g (db_users s)))"
      by (rule map_distinct_update [where P = "\<lambda>v. u_id v = u_id u" and c = "u_email u"])
         (use ok no one in \<open>auto simp: db_ok_def users_ok_def\<close>)
    moreover have "\<forall>v \<in> set (map ?g (db_users s)). u_role v \<in> set roles"
      using ok False by (auto simp: db_ok_def users_ok_def)
    moreover have "distinct (map u_id (map ?g (db_users s)))"
      unfolding ids using ok by (simp add: db_ok_def users_ok_def)
    ultimately have "users_ok (map ?g (db_users s))"
      unfolding users_ok_def by (intro conjI)
    moreover have "user_ids (s\<lparr>db_users := us\<rparr>) = set (map u_id us)" for us
      by (simp add: user_ids_def)
    then have "user_ids (s\<lparr>db_users := map ?g (db_users s)\<rparr>) = user_ids s"
      unfolding ids by (simp only: ids) (simp add: user_ids_def)
    ultimately show ?thesis
      using ok by (auto simp: update_user_def ok_unit_def db_ok_def)
  qed
qed

lemma delete_user_ok:
  assumes ok: "db_ok s"
  shows "db_ok (snd (delete_user i s))"
proof -
  let ?acls = "filter (\<lambda>a. acl_user a \<noteq> i) (db_acls s)"
  let ?users = "filter (\<lambda>u. u_id u \<noteq> i) (db_users s)"
  let ?audit = "map (\<lambda>r. if ar_user r = Some i then r\<lparr>ar_user := None\<rparr> else r) (db_audit s)"
  show ?thesis
  proof (cases "list_ex (\<lambda>a. acl_grantedby a = i) ?acls \<or> \<not> list_ex (\<lambda>u. u_id u = i) (db_users s)")
    case True
    then show ?thesis using ok by (auto simp: delete_user_def Let_def ok_unit_def)
  next
    case False
    have ids: "u_id ` set ?users = user_ids s - {i}" by (auto simp: user_ids_def)
    have "users_ok ?users" using ok by (auto simp: db_ok_def users_ok_def distinct_map_filter)
    moreover have "acls_ok (user_ids s - {i}) ?acls"
      using ok False by (auto simp: db_ok_def acls_ok_def distinct_map_filter list_ex_iff)
    moreover have ids_same: "map ar_id ?audit = map ar_id (db_audit s)" by simp
    have "audit_ok (user_ids s - {i}) (db_nextid s) ?audit"
      unfolding audit_ok_def ids_same using ok
      by (auto simp: db_ok_def audit_ok_def split: if_splits)
    moreover have "snd (delete_user i s)
        = s\<lparr>db_users := ?users, db_acls := ?acls, db_audit := ?audit\<rparr>"
      using False by (simp add: delete_user_def Let_def ok_unit_def)
    moreover have "user_ids (s\<lparr>db_users := ?users, db_acls := ?acls, db_audit := ?audit\<rparr>)
        = user_ids s - {i}"
      using ids by (simp add: user_ids_def)
    ultimately show ?thesis using ok by (simp add: db_ok_def)
  qed
qed

lemma list_ex_id: "list_ex (\<lambda>u. u_id u = i) (db_users s) \<longleftrightarrow> i \<in> user_ids s"
  by (auto simp: list_ex_iff user_ids_def)

lemma acl_at_None: "acl_at u p acls = None \<longleftrightarrow> (u, p) \<notin> (\<lambda>a. (acl_user a, acl_project a)) ` set acls"
  by (auto simp: acl_at_def find_None_iff image_iff)

lemma upsert_acl_ok:
  assumes ok: "db_ok s"
  shows "db_ok (snd (upsert_acl a s))"
proof -
  let ?k = "\<lambda>b. (acl_user b, acl_project b)"
  let ?g = "\<lambda>b. if acl_user b = acl_user a \<and> acl_project b = acl_project a then a else b"
  show ?thesis
  proof (cases "acl_role a \<in> {RoleOperator, RoleViewer} \<and> acl_user a \<in> user_ids s \<and> acl_grantedby a \<in> user_ids s")
    case False
    then have "snd (upsert_acl a s) = s" by (auto simp: upsert_acl_def list_ex_id)
    then show ?thesis using ok by simp
  next
    case True
    have ks: "map ?k (map ?g (db_acls s)) = map ?k (db_acls s)" by auto
    have "acls_ok (user_ids s) (map ?g (db_acls s))"
      unfolding acls_ok_def ks using ok True by (auto simp: db_ok_def acls_ok_def)
    moreover have "acls_ok (user_ids s) (db_acls s @ [a])"
      if "acl_at (acl_user a) (acl_project a) (db_acls s) = None"
      using that ok True by (auto simp: acls_ok_def db_ok_def acl_at_None image_iff)
    ultimately show ?thesis
      using ok by (auto simp: upsert_acl_def ok_unit_def db_ok_def user_ids_def)
  qed
qed

lemma delete_acl_ok:
  "db_ok s \<Longrightarrow> db_ok (s\<lparr>db_acls := filter P (db_acls s)\<rparr>)"
  by (auto simp: db_ok_def acls_ok_def user_ids_def distinct_map_filter)

lemma insert_audit_ok:
  assumes ok: "db_ok s"
  shows "db_ok (snd (insert_audit e s))"
proof -
  have "audit_ok (user_ids s) (db_nextid s + 1) (db_audit s)"
    using ok by (auto simp: db_ok_def intro: audit_ok_mono)
  moreover have "audit_ok (user_ids s) (db_nextid s + 1) (db_audit s @ [audit_row_of (db_nextid s) e])"
    if "au_user e = [] \<or> au_user e \<in> user_ids s"
    using that ok by (auto simp: audit_ok_def db_ok_def audit_row_of_def nilIfEmpty_def split: if_splits)
  ultimately show ?thesis
    using ok user_ids_def [of "s\<lparr>db_nextid := db_nextid s + 1, db_audit := _\<rparr>"]
      user_ids_def [of "s\<lparr>db_nextid := db_nextid s + 1\<rparr>"]
    by (auto simp: insert_audit_def Let_def ok_unit_def db_ok_def list_ex_id user_ids_def [of s, symmetric])
qed

lemma insert_version_ok: "db_ok s \<Longrightarrow> db_ok (snd (insert_version n s))"
  by (auto simp: insert_version_def ok_unit_def db_ok_def user_ids_def)

lemma select_ok: "db_ok s \<Longrightarrow> db_ok (snd (select q s))"
  by (simp add: select_def)

lemma sql_ok:
  assumes "\<And>s. db_ok s \<Longrightarrow> db_ok (snd (f s))" "db_ok s"
  shows "db_ok (snd (sql dv f s))"
  using assms(2) assms(1) [of "s\<lparr>db_calls := Suc (db_calls s)\<rparr>"]
  by (simp add: sql_def Let_def split: option.splits)

lemma sql_okD: "(\<And>s. db_ok s \<Longrightarrow> db_ok (snd (f s))) \<Longrightarrow> db_ok s \<Longrightarrow> sql dv f s = (r, s1) \<Longrightarrow> db_ok s1"
  using sql_ok [of f s dv] by simp

lemma migrate_each_ok: "db_ok s \<Longrightarrow> db_ok (snd (migrate_each dv fs ns s))"
proof (induction dv fs ns s rule: migrate_each.induct)
  case (2 dv fs n ns s)
  obtain r1 s1 where 1: "sql dv (select (\<lambda>s. n \<in> set (db_versions s))) s = (r1, s1)"
    by fastforce
  obtain r2 s2 where 2: "sql dv (\<lambda>s. ok_unit (s\<lparr>db_scripts :=
      db_scripts s @ [extractUpSQL (migration_content fs n)]\<rparr>)) s1 = (r2, s2)" by fastforce
  obtain r3 s3 where 3: "sql dv (insert_version n) s2 = (r3, s3)" by fastforce
  have ok1: "db_ok s1" by (rule sql_okD [OF select_ok "2.prems" 1])
  have ok2: "db_ok s2" by (rule sql_okD [OF _ ok1 2]) (simp add: ok_unit_def db_ok_def user_ids_def)
  have ok3: "db_ok s3" by (rule sql_okD [OF insert_version_ok ok2 3])
  show ?case
  proof (cases r1)
    case (Inl err)
    then show ?thesis using 1 ok1 by simp
  next
    case (Inr b)
    show ?thesis
    proof (cases b)
      case True
      then show ?thesis using "2.IH"(1) [OF 1 [symmetric] Inr] Inr 1 ok1 by simp
    next
      case False
      then show ?thesis
        using "2.IH"(2) [OF 1 [symmetric] Inr] Inr 1 2 3 ok2 ok3 by (cases r2; cases r3) auto
    qed
  qed
qed simp

text \<open>The calls of the repositories that change the database.\<close>

datatype db_call =
    CallUserCreate User string
  | CallUserUpdate time User
  | CallUserDelete string
  | CallSetACL ProjectACL
  | CallDeleteACL string string
  | CallLog AuditEntry
  | CallMigrate migrations_fs

fun db_after :: "db_env \<Rightarrow> db_call \<Rightarrow> db \<Rightarrow> db" where
  "db_after dv (CallUserCreate u pw) s = snd (UserCreate dv u pw s)"
| "db_after dv (CallUserUpdate now u) s = snd (snd (UserUpdate dv now u s))"
| "db_after dv (CallUserDelete i) s = snd (UserDelete dv i s)"
| "db_after dv (CallSetACL a) s = snd (SetProjectACL dv a s)"
| "db_after dv (CallDeleteACL u p) s = snd (ACLDelete dv u p s)"
| "db_after dv (CallLog e) s = snd (LogOperation dv e s)"
| "db_after dv (CallMigrate fs) s = snd (AutoMigrate dv fs s)"

lemma db_after_ok:
  assumes "db_ok s"
  shows "db_ok (db_after dv call s)"
proof (cases call)
  case (CallUserCreate u pw)
  then show ?thesis
    using assms sql_ok [OF insert_user_ok assms] by (auto simp: UserCreate_def split: sum.splits)
next
  case (CallUserUpdate now u)
  then show ?thesis
    using sql_ok [OF update_user_ok assms]
    by (simp add: UserUpdate_def Let_def case_prod_unfold)
next
  case (CallUserDelete i)
  then show ?thesis using sql_ok [OF delete_user_ok assms] by (simp add: UserDelete_def)
next
  case (CallSetACL a)
  then show ?thesis using sql_ok [OF upsert_acl_ok assms] by (simp add: SetProjectACL_def)
next
  case (CallDeleteACL u p)
  have "db_ok (snd (ok_unit (s\<lparr>db_acls := filter P (db_acls s)\<rparr>)))" if "db_ok s" for s P
    using delete_acl_ok [OF that] by (simp add: ok_unit_def)
  then have "db_ok (snd (ACLDelete dv u p s))"
    unfolding ACLDelete_def by (intro sql_ok [OF _ assms])
  then show ?thesis using CallDeleteACL by simp
next
  case (CallLog e)
  then show ?thesis using sql_ok [OF insert_audit_ok assms] by (simp add: LogOperation_def)
next
  case (CallMigrate fs)
  obtain r s1 where 1: "sql dv ok_unit s = (r, s1)" by fastforce
  have "db_ok s1" by (rule sql_okD [OF _ assms 1]) (simp add: ok_unit_def)
  then show ?thesis using CallMigrate 1 migrate_each_ok by (auto simp: AutoMigrate_def split: sum.splits)
qed

inductive db_reach :: "db_env \<Rightarrow> db \<Rightarrow> bool" for dv where
  db_reach_empty: "db_reach dv empty_db"
| db_reach_call: "db_reach dv s \<Longrightarrow> db_reach dv (db_after dv call s)"
| db_reach_read: "db_reach dv s \<Longrightarrow> db_reach dv (s\<lparr>db_calls := Suc (db_calls s)\<rparr>)"

lemma db_ok_empty: "db_ok empty_db"
  by (simp add: db_ok_def empty_db_def users_ok_def acls_ok_def audit_ok_def)

lemma db_reach_ok: "db_reach dv s \<Longrightarrow> db_ok s"
  by (induction rule: db_reach.induct) (simp_all add: db_ok_empty db_after_ok)

section \<open>Lookups in the access-control table\<close>

text \<open>
  What the project check relies on: a repository of roles, where an entry that was set is looked up,
  a deleted one is gone, and neither touches the entries of other users and projects.
\<close>

locale acl_store =
  fixes lookup :: "string \<Rightarrow> string \<Rightarrow> 's \<Rightarrow> Role"
    and grant :: "ProjectACL \<Rightarrow> 's \<Rightarrow> 's option"
    and revoke :: "string \<Rightarrow> string \<Rightarrow> 's \<Rightarrow> 's"
  assumes lookup_grant: "grant a s = Some s' \<Longrightarrow>
      lookup u p s' = (if u = acl_user a \<and> p = acl_project a then acl_role a else lookup u p s)"
    and lookup_revoke: "lookup u p (revoke u' p' s) = (if u = u' \<and> p = p' then [] else lookup u p s)"
    and grant_role: "grant a s = Some s' \<Longrightarrow> acl_role a \<in> {RoleOperator, RoleViewer}"
begin

text \<open>Whether a user may operate a project, by the entry alone.\<close>

definition operates :: "string \<Rightarrow> string \<Rightarrow> 's \<Rightarrow> bool" where
  "operates u p s \<longleftrightarrow> lookup u p s \<notin> {[], RoleViewer}"

lemma operates_grant:
  "grant a s = Some s' \<Longrightarrow> operates (acl_user a) (acl_project a) s' \<longleftrightarrow> acl_role a = RoleOperator"
  using grant_role [of a s s'] by (auto simp: operates_def lookup_grant role_consts)

lemma operates_other:
  "grant a s = Some s' \<Longrightarrow> (u, p) \<noteq> (acl_user a, acl_project a) \<Longrightarrow> operates u p s' = operates u p s"
  by (auto simp: operates_def lookup_grant)

lemma revoked: "\<not> operates u p (revoke u p s)"
  by (simp add: operates_def lookup_revoke)

lemma regrant_revoke: "grant a s = Some s' \<Longrightarrow> lookup (acl_user a) (acl_project a) (revoke (acl_user a) (acl_project a) s') = []"
  by (simp add: lookup_revoke)

end

definition acl_role_at :: "string \<Rightarrow> string \<Rightarrow> db \<Rightarrow> Role" where
  "acl_role_at u p s = (case acl_at u p (db_acls s) of None \<Rightarrow> [] | Some a \<Rightarrow> acl_role a)"

definition grant_acl :: "ProjectACL \<Rightarrow> db \<Rightarrow> db option" where
  "grant_acl a s = (case upsert_acl a s of (Inl e, s') \<Rightarrow> None | (Inr _, s') \<Rightarrow> Some s')"

definition revoke_acl :: "string \<Rightarrow> string \<Rightarrow> db \<Rightarrow> db" where
  "revoke_acl u p s = s\<lparr>db_acls := filter (\<lambda>a. \<not> (acl_user a = u \<and> acl_project a = p)) (db_acls s)\<rparr>"

lemma acl_at_snoc:
  "acl_at (acl_user a) (acl_project a) as = None \<Longrightarrow>
     acl_at u p (as @ [a]) = (if u = acl_user a \<and> p = acl_project a then Some a else acl_at u p as)"
  by (induction as) (auto simp: acl_at_def split: if_splits)

lemma acl_at_replace:
  assumes "acl_at (acl_user a) (acl_project a) as \<noteq> None"
  shows "acl_at u p (map (\<lambda>b. if acl_user b = acl_user a \<and> acl_project b = acl_project a then a else b) as)
       = (if u = acl_user a \<and> p = acl_project a then Some a else acl_at u p as)"
proof (cases "u = acl_user a \<and> p = acl_project a")
  case True
  then show ?thesis using assms by (induction as) (auto simp: acl_at_def split: if_splits)
next
  case False
  then have "acl_at u p (map (\<lambda>b. if acl_user b = acl_user a \<and> acl_project b = acl_project a then a else b) as)
      = acl_at u p as"
    by (induction as) (auto simp: acl_at_def)
  then show ?thesis using False by auto
qed

lemma acl_at_filter:
  "acl_at u p (filter (\<lambda>a. \<not> (acl_user a = u' \<and> acl_project a = p')) as)
     = (if u = u' \<and> p = p' then None else acl_at u p as)"
  by (induction as) (auto simp: acl_at_def)

interpretation acl: acl_store acl_role_at grant_acl revoke_acl
proof
  fix a s s' u p
  assume g: "grant_acl a s = Some s'"
  then show "acl_role_at u p s' = (if u = acl_user a \<and> p = acl_project a then acl_role a else acl_role_at u p s)"
    by (auto simp: grant_acl_def upsert_acl_def ok_unit_def acl_role_at_def acl_at_snoc acl_at_replace
        split: if_splits)
  show "acl_role a \<in> {RoleOperator, RoleViewer}"
    using g by (auto simp: grant_acl_def upsert_acl_def split: if_splits)
next
  fix u p u' p' s
  show "acl_role_at u p (revoke_acl u' p' s) = (if u = u' \<and> p = p' then [] else acl_role_at u p s)"
    using acl_at_filter [of u p u' p' "db_acls s"] by (simp add: acl_role_at_def revoke_acl_def)
qed

text \<open>The repository's calls, where the statement does not fail by itself.\<close>

definition no_fault :: "db_env \<Rightarrow> bool" where
  "no_fault dv \<longleftrightarrow> (\<forall>n. dv_fault dv n = None)"

lemma sql_no_fault: "no_fault dv \<Longrightarrow> sql dv f s = f (s\<lparr>db_calls := Suc (db_calls s)\<rparr>)"
  by (simp add: sql_def no_fault_def Let_def)

lemma GetUserProjectRole_no_fault:
  "no_fault dv \<Longrightarrow> fst (GetUserProjectRole dv u p s) = acl_role_at u p s"
  by (auto simp: GetUserProjectRole_def sql_no_fault select_def acl_role_at_def split: option.splits)

section \<open>Pages\<close>

lemma normalize_bounds:
  "1 \<le> po_limit (normalizeOpts opts) \<and> po_limit (normalizeOpts opts) \<le> 100 \<and>
   0 \<le> po_offset (normalizeOpts opts)"
  by (simp add: normalizeOpts_def)

lemma list_query_page:
  "list_query dv rows created opts s = (Inr (rs, n), s') \<Longrightarrow>
     rs = page (normalizeOpts opts) (newest_first (dv_scan dv (Suc (db_calls s))) created
       (rows (s\<lparr>db_calls := Suc (Suc (db_calls s))\<rparr>))) \<and>
     n = length (rows (s\<lparr>db_calls := Suc (db_calls s)\<rparr>))"
  by (auto simp: list_query_def sql_def select_def Let_def split: sum.splits prod.splits option.splits)

lemma mset_scanned [simp]: "mset (scanned rank rows) = mset rows"
proof -
  have "mset (scanned rank rows) = image_mset snd (mset (enumerate 0 rows))"
    by (simp add: scanned_def)
  also have "\<dots> = mset rows" by (metis map_snd_enumerate mset_map)
  finally show ?thesis .
qed

lemma mset_newest_first [simp]: "mset (newest_first rank created rows) = mset rows"
  by (simp add: newest_first_def)

lemma newest_first_sorted: "sorted (map (\<lambda>r. - created r) (newest_first rank created rows))"
  by (simp add: newest_first_def)

lemma length_newest_first [simp]: "length (newest_first rank created rows) = length rows"
  using mset_newest_first [of rank created rows] by (metis size_mset)

lemma set_newest_first [simp]: "set (newest_first rank created rows) = set rows"
  using mset_newest_first [of rank created rows] by (metis set_mset_mset)

text \<open>Where the instants are distinct the order the rows are found in does not matter.\<close>

lemma newest_first_unique:
  assumes "distinct (map created rows)"
  shows "newest_first rank created rows = sort_key (\<lambda>r. - created r) rows"
  unfolding newest_first_def
proof (rule sort_key_inj_key_eq)
  show "mset (scanned rank rows) = mset (sort_key (\<lambda>r. - created r) rows)" by simp
  have "inj_on created (set rows)" using assms by (simp add: distinct_map)
  then have "inj_on (\<lambda>r. - created r) (set rows)" by (auto simp: inj_on_def)
  moreover have "set (scanned rank rows) = set rows" by (metis mset_scanned set_mset_mset)
  ultimately show "inj_on (\<lambda>r. - created r) (set (scanned rank rows))" by simp
  show "sorted (map (\<lambda>r. - created r) (sort_key (\<lambda>r. - created r) rows))" by simp
qed

lemma length_page: "length (page opts rows) = min (nat (po_limit opts)) (length rows - nat (po_offset opts))"
  by (simp add: page_def)

lemma page_length: "length (page (normalizeOpts opts) rows) \<le> 100"
  using normalize_bounds [of opts] by (simp add: page_def min_le_iff_disj) linarith

text \<open>Consecutive pages of one length make up the whole listing.\<close>

lemma take_drop_chunks:
  "concat (map (\<lambda>i. take n (drop (i * n) xs)) [0..<k]) = take (k * n) xs"
proof (induction k)
  case (Suc k)
  have "take (Suc k * n) xs = take (k * n) xs @ take n (drop (k * n) xs)"
    by (simp add: take_add [symmetric] add.commute)
  then show ?case using Suc by (simp del: mult_Suc)
qed simp

lemma pages_cover:
  assumes "1 \<le> L" "L \<le> 100" "length xs \<le> k * L"
  shows "concat (map (\<lambda>i. page (normalizeOpts \<lparr>po_offset = int (i * L), po_limit = int L\<rparr>) xs) [0..<k]) = xs"
proof -
  have "page (normalizeOpts \<lparr>po_offset = int (i * L), po_limit = int L\<rparr>) xs = take L (drop (i * L) xs)"
    for i
    using assms(1,2) by (simp add: page_def normalizeOpts_def del: of_nat_mult)
  then show ?thesis using assms(3) take_drop_chunks [of L xs k] by simp
qed

section \<open>Migrations\<close>

text \<open>
  What of a script is to run, by the position of its lines: those behind a line that is the up marker,
  markers themselves left out, as long as no line so far is the down marker.
\<close>

definition is_marker :: "string \<Rightarrow> string \<Rightarrow> bool" where
  "is_marker m line \<longleftrightarrow> trim_space line = m"

definition up_section :: "string list \<Rightarrow> string list" where
  "up_section ls = map (nth ls)
     (filter (\<lambda>i. \<not> is_marker ''-- +goose Up'' (ls ! i) \<and>
        (\<exists>j \<in> {0..<i}. is_marker ''-- +goose Up'' (ls ! j)) \<and>
        (\<forall>j \<in> {0..<Suc i}. \<not> is_marker ''-- +goose Down'' (ls ! j))) [0..<length ls])"

lemma markers_apart: "is_marker ''-- +goose Up'' l \<Longrightarrow> \<not> is_marker ''-- +goose Down'' l"
  by (simp add: is_marker_def)

lemma filter_nth_Cons:
  "map (nth (l # ls)) (filter P [0..<length (l # ls)])
    = (if P 0 then [l] else []) @ map (nth ls) (filter (\<lambda>i. P (Suc i)) [0..<length ls])"
proof -
  have "[0..<length (l # ls)] = 0 # map Suc [0..<length ls]"
    by (simp add: upt_conv_Cons map_Suc_upt del: upt_Suc)
  then show ?thesis by (simp add: filter_map comp_def)
qed

lemma up_lines_section:
  "up_lines inUp ls = map (nth ls)
     (filter (\<lambda>i. \<not> is_marker ''-- +goose Up'' (ls ! i) \<and>
        (inUp \<or> (\<exists>j \<in> {0..<i}. is_marker ''-- +goose Up'' (ls ! j))) \<and>
        (\<forall>j \<in> {0..<Suc i}. \<not> is_marker ''-- +goose Down'' (ls ! j))) [0..<length ls])"
proof (induction ls arbitrary: inUp)
  case (Cons l ls)
  have ex: "(\<exists>j \<in> {0..<Suc i}. is_marker m ((l # ls) ! j)) \<longleftrightarrow>
      is_marker m l \<or> (\<exists>j \<in> {0..<i}. is_marker m (ls ! j))" for m i
    unfolding atLeastLessThan_iff Bex_def using less_Suc_eq_0_disj by auto
  have all: "(\<forall>j \<in> {0..<Suc i}. \<not> is_marker m ((l # ls) ! j)) \<longleftrightarrow>
      \<not> is_marker m l \<and> (\<forall>j \<in> {0..<i}. \<not> is_marker m (ls ! j))" for m i
    unfolding atLeastLessThan_iff Ball_def using less_Suc_eq_0_disj by auto
  have "up_lines inUp (l # ls) =
      (if is_marker ''-- +goose Up'' l then up_lines True ls
       else if is_marker ''-- +goose Down'' l then []
       else if inUp then l # up_lines inUp ls else up_lines inUp ls)"
    by (simp add: is_marker_def)
  then show ?case
    unfolding filter_nth_Cons ex all nth_Cons_Suc nth_Cons_0
    using Cons.IH [of True] Cons.IH [of False] markers_apart [of l] by (cases inUp) simp_all
qed simp

lemma extractUpSQL_section: "extractUpSQL c = join_with [newline] (up_section (split_on newline c))"
  by (simp add: extractUpSQL_def up_lines_section up_section_def)

text \<open>The scripts of the directory, independently of the order they are listed in, and what one runs.\<close>

definition script_names :: "migrations_fs \<Rightarrow> string set" where
  "script_names fs = {n. \<exists>c. (n, False, c) \<in> set fs \<and> (\<exists>m. n = m @ ''.sql'')}"

definition script_of :: "migrations_fs \<Rightarrow> string \<Rightarrow> string \<Rightarrow> bool" where
  "script_of fs n text \<longleftrightarrow>
     (\<exists>c. (n, False, c) \<in> set fs \<and> text = join_with [newline] (up_section (split_on newline c)))"

text \<open>The scripts a run executes: those of the files not yet recorded, in the order of their names.\<close>

definition pending :: "migrations_fs \<Rightarrow> string list \<Rightarrow> db \<Rightarrow> string list" where
  "pending fs ns s = map (\<lambda>n. extractUpSQL (migration_content fs n)) (filter (\<lambda>n. n \<notin> set (db_versions s)) ns)"

lemma sql_Inr:
  "sql dv f s = (Inr x, s1) \<Longrightarrow> f (s\<lparr>db_calls := Suc (db_calls s)\<rparr>) = (Inr x, s1)"
  by (auto simp: sql_def Let_def split: option.splits)

lemma migrate_each_exact:
  assumes "distinct ns" "migrate_each dv fs ns s = (None, s')"
  shows "db_scripts s' = db_scripts s @ pending fs ns s \<and>
    db_versions s' = db_versions s @ filter (\<lambda>n. n \<notin> set (db_versions s)) ns"
  using assms
proof (induction dv fs ns s rule: migrate_each.induct)
  case (1 dv fs s)
  then show ?case by (simp add: pending_def)
next
  case (2 dv fs n ns s)
  obtain r1 s1 where 1: "sql dv (select (\<lambda>s. n \<in> set (db_versions s))) s = (r1, s1)" by fastforce
  obtain b where b: "r1 = Inr b" using 1 "2.prems" by (cases r1) auto
  have s1: "s1 = s\<lparr>db_calls := Suc (db_calls s)\<rparr>" "b = (n \<in> set (db_versions s))"
    using sql_Inr [OF 1 [unfolded b]] by (auto simp: select_def)
  show ?case
  proof (cases b)
    case True
    then show ?thesis using "2.IH"(1) [OF 1 [symmetric] b] "2.prems" 1 b s1 by (simp add: pending_def)
  next
    case False
    obtain r2 s2 where 2: "sql dv (\<lambda>s. ok_unit (s\<lparr>db_scripts :=
        db_scripts s @ [extractUpSQL (migration_content fs n)]\<rparr>)) s1 = (r2, s2)" by fastforce
    obtain r3 s3 where 3: "sql dv (insert_version n) s2 = (r3, s3)" by fastforce
    obtain u2 where u2: "r2 = Inr u2" using 1 2 b False "2.prems" by (cases r2) auto
    obtain u3 where u3: "r3 = Inr u3" using 1 2 3 b u2 False "2.prems" by (cases r3) auto
    have s2: "db_scripts s2 = db_scripts s @ [extractUpSQL (migration_content fs n)]"
        "db_versions s2 = db_versions s"
      using sql_Inr [OF 2 [unfolded u2]] by (auto simp: ok_unit_def s1)
    have s3: "db_scripts s3 = db_scripts s2" "db_versions s3 = db_versions s @ [n]"
      using sql_Inr [OF 3 [unfolded u3]]
      by (auto simp: insert_version_def ok_unit_def s2 split: if_splits)
    have IH: "db_scripts s' = db_scripts s3 @ pending fs ns s3 \<and>
        db_versions s' = db_versions s3 @ filter (\<lambda>n. n \<notin> set (db_versions s3)) ns"
      by (rule "2.IH"(2) [OF 1 [symmetric] b _ 2 [symmetric] u2 3 [symmetric] u3])
         (use "2.prems" 1 2 3 b u2 u3 False in auto)
    have "filter (\<lambda>m. m \<notin> set (db_versions s3)) ns = filter (\<lambda>m. m \<notin> set (db_versions s)) ns"
      by (rule filter_cong [OF refl]) (use "2.prems"(1) s3 in auto)
    then show ?thesis using IH s1 False s2 s3 by (simp add: pending_def)
  qed
qed

lemma migration_files_distinct: "distinct (map fst fs) \<Longrightarrow> distinct (migration_files fs)"
  by (simp add: migration_files_def distinct_map_filter)

lemma has_suffix_iff: "has_suffix s t \<longleftrightarrow> (\<exists>m. s = m @ t)"
proof -
  have "has_suffix s t \<longleftrightarrow> (\<exists>m. rev s = rev t @ m)" by (simp add: has_suffix_def has_prefix_iff)
  also have "\<dots> \<longleftrightarrow> (\<exists>m. s = m @ t)" by (metis rev_append rev_rev_ident)
  finally show ?thesis .
qed

lemma set_migration_files: "set (migration_files fs) = script_names fs"
  by (force simp: migration_files_def script_names_def has_suffix_iff)

lemma script_ofI:
  assumes "distinct (map fst fs)" "n \<in> script_names fs"
  shows "script_of fs n (extractUpSQL (migration_content fs n))"
proof -
  obtain c where c: "(n, False, c) \<in> set fs" using assms(2) by (auto simp: script_names_def)
  then have "migration_content fs n = c"
    using map_of_is_SomeI [OF assms(1) c] by (simp add: migration_content_def)
  then show ?thesis using c by (auto simp: script_of_def extractUpSQL_section)
qed

text \<open>
  A successful run executes the scripts not recorded before, in the strict order of their names, and
  records them all.
\<close>

definition migrated :: "migrations_fs \<Rightarrow> db \<Rightarrow> db \<Rightarrow> bool" where
  "migrated fs s s' \<longleftrightarrow>
     (\<exists>ns texts. sorted_wrt (<) ns \<and> set ns = script_names fs - set (db_versions s) \<and>
        list_all2 (script_of fs) ns texts \<and>
        db_scripts s' = db_scripts s @ texts \<and> db_versions s' = db_versions s @ ns)"

lemma AutoMigrate_exact:
  assumes "distinct (map fst fs)" "AutoMigrate dv fs s = (None, s')"
  shows "migrated fs s s'"
proof -
  let ?ns = "filter (\<lambda>n. n \<notin> set (db_versions s)) (migration_files fs)"
  obtain u s1 where 1: "sql dv ok_unit s = (Inr u, s1)" "migrate_each dv fs (migration_files fs) s1 = (None, s')"
    using assms(2) by (auto simp: AutoMigrate_def split: prod.splits sum.splits)
  have s1: "s1 = s\<lparr>db_calls := Suc (db_calls s)\<rparr>" using sql_Inr [OF 1(1)] by (simp add: ok_unit_def)
  have "sorted_wrt (<) (migration_files fs)"
    using migration_files_distinct [OF assms(1)]
    by (simp add: migration_files_def strict_sorted_iff)
  then have "sorted_wrt (<) ?ns" by (rule sorted_wrt_filter)
  moreover have "list_all2 (script_of fs) ?ns (map (\<lambda>n. extractUpSQL (migration_content fs n)) ?ns)"
    using script_ofI [OF assms(1)] by (auto simp: list_all2_map2 set_migration_files intro!: list_all2_same [THEN iffD2])
  moreover have "set ?ns = script_names fs - set (db_versions s)"
    using set_migration_files [of fs] by auto
  moreover have "db_scripts s' = db_scripts s @ map (\<lambda>n. extractUpSQL (migration_content fs n)) ?ns"
    "db_versions s' = db_versions s @ ?ns"
    using migrate_each_exact [OF migration_files_distinct [OF assms(1)] 1(2)] s1 by (auto simp: pending_def)
  ultimately show ?thesis unfolding migrated_def by blast
qed

lemma migrated_again:
  assumes "migrated fs s s'" "migrated fs s' s2"
  shows "db_scripts s2 = db_scripts s' \<and> db_versions s2 = db_versions s'"
proof -
  have "script_names fs \<subseteq> set (db_versions s')" using assms(1) by (auto simp: migrated_def)
  then have none: "script_names fs - set (db_versions s') = {}" by auto
  obtain ns texts where n: "set ns = {}" "list_all2 (script_of fs) ns texts"
    "db_scripts s2 = db_scripts s' @ texts" "db_versions s2 = db_versions s' @ ns"
    using assms(2) unfolding migrated_def none by blast
  from n(1) have "ns = []" by simp
  with n show ?thesis by simp
qed

section \<open>The audit log\<close>

lemma nil_round [simp]: "from_null (nilIfEmpty s) = s"
  by (simp add: from_null_def nilIfEmpty_def)

text \<open>An entry is read back as it was written: the empty strings that became NULL are empty again.\<close>

lemma audit_round: "scanAuditEntry (audit_row_of i e) = (i, e)"
  by (simp add: scanAuditEntry_def audit_row_of_def)

end
