(* ===== verification/StoreProps.thy ===== *)
theory StoreProps
  imports StoreFacts
begin

text \<open>The properties of the store, with a database and faults on which they are evaluated.\<close>

section \<open>A database to evaluate on\<close>

definition steady :: db_env where
  "steady = \<lparr>dv_fault = (\<lambda>n. None), dv_hash = (\<lambda>n pw. Inr (CHR ''h'' # pw)),
     dv_check = (\<lambda>h pw. h = CHR ''h'' # pw), dv_scan = (\<lambda>n i. i)\<rparr>"

lemma steady_no_fault: "no_fault steady"
  by (simp add: no_fault_def steady_def)

definition row :: "int \<Rightarrow> time \<Rightarrow> audit_row" where
  "row i t = \<lparr>ar_id = i, ar_user = None, ar_project = Some ''p'', ar_operation = ''up'', ar_scope = None,
     ar_status = ''succeeded'', ar_code = None, ar_msg = None, ar_duration = 5, ar_created = t\<rparr>"

definition three_rows :: db where
  "three_rows = empty_db\<lparr>db_audit := [row 1 10, row 2 30, row 3 20], db_nextid := 4\<rparr>"

definition demo_migrations :: migrations_fs where
  "demo_migrations =
     [(''002_acl.sql'', False, ''-- +goose Up'' @ [newline] @ ''CREATE b'' @ [newline] @ ''-- +goose Down''),
      (''001_users.sql'', False, ''-- +goose Up'' @ [newline] @ ''CREATE a''),
      (''README'', False, '''')]"

section \<open>Properties\<close>

text \<open>
  The constraints of the schema hold in every database the repositories can reach, whatever
  statements fail: users have distinct identifiers, names and addresses and a known role, a user has at
  most one entry per project and it is an operator's or a viewer's of existing users, and the audit log
  names existing users only.
\<close>

lemma reachable_db_ok:
  assumes "db_reach dv s"
  shows "db_ok s"
  by (rule db_reach_ok [OF assms])

definition admin_user :: User where
  "admin_user = \<lparr>u_id = ''a'', u_username = ''root'', u_email = ''r@x'', u_passwordhash = [],
     u_role = RoleAdmin, u_created = 1, u_updated = 1\<rparr>"

lemma reachable_db_ok_witness:
  "db_ok (db_after steady (CallUserDelete ''a'') (db_after steady (CallUserCreate admin_user ''secret99'') empty_db))"
  by (rule reachable_db_ok [of steady]) (intro db_reach_call db_reach_empty)

definition entries_of :: "(go_error + audit_page) \<times> db \<Rightarrow> (int \<times> AuditEntry) list" where
  "entries_of out = (case fst out of Inl err \<Rightarrow> [] | Inr (es, n) \<Rightarrow> es)"

text \<open>
  C35: The audit listing is complete and newest first: reading a project's log page by page, with any
  page length from 1 to 100, gives every entry of the project exactly once, from the newest to the
  oldest. The pages are separate queries, and the database may find the rows in another order for each;
  the instants of the entries are distinct (for equal ones the query leaves the order open), no entry is
  written in between, and none of the statements fails.
\<close>

theorem audit_pages_cover:
  assumes "1 \<le> L" "L \<le> 100" "\<forall>i < k. dv_fault dv (c i) = None \<and> dv_fault dv (Suc (c i)) = None"
    and "length (filter (\<lambda>r. ar_project r = Some p) (db_audit s)) \<le> k * L"
    and "distinct (map ar_created (filter (\<lambda>r. ar_project r = Some p) (db_audit s)))"
    and "es = concat (map (\<lambda>i. entries_of (AuditListByProject dv p
               \<lparr>po_offset = int (i * L), po_limit = int L\<rparr> (s\<lparr>db_calls := c i\<rparr>))) [0..<k])"
  shows "mset es = mset (map scanAuditEntry (filter (\<lambda>r. ar_project r = Some p) (db_audit s))) \<and>
    sorted (map (\<lambda>e. - au_created (snd e)) es)"
proof -
  let ?P = "\<lambda>r. ar_project r = Some p" and ?opts = "\<lambda>i. \<lparr>po_offset = int (i * L), po_limit = int L\<rparr>"
  let ?rows = "sort_key (\<lambda>r. - ar_created r) (filter ?P (db_audit s))"
  have "entries_of (AuditListByProject dv p (?opts i) (s\<lparr>db_calls := c i\<rparr>))
      = map scanAuditEntry (page (normalizeOpts (?opts i)) ?rows)" if "i < k" for i
    using assms(3) that newest_first_unique [OF assms(5)]
    by (simp add: AuditListByProject_def audit_query_def list_query_def sql_def Let_def select_def entries_of_def
        del: of_nat_mult)
  then have "es = concat (map (\<lambda>i. map scanAuditEntry (page (normalizeOpts (?opts i)) ?rows)) [0..<k])"
    unfolding assms(6) by (intro arg_cong [where f = concat] map_cong) simp_all
  also have "\<dots> = map scanAuditEntry (concat (map (\<lambda>i. page (normalizeOpts (?opts i)) ?rows) [0..<k]))"
    by (simp add: map_concat comp_def del: of_nat_mult)
  also have "\<dots> = map scanAuditEntry ?rows"
    by (subst pages_cover [OF assms(1,2)]) (simp_all add: assms(4))
  finally have es: "es = map scanAuditEntry ?rows" .
  have "map (\<lambda>e. - au_created (snd e)) (map scanAuditEntry rs) = map (\<lambda>r. - ar_created r) rs" for rs
    by (simp add: scanAuditEntry_def)
  then show ?thesis unfolding es by (simp del: map_map)
qed

lemma audit_pages_cover_witness:
  "mset (concat (map (\<lambda>i. entries_of (AuditListByProject steady ''p'' \<lparr>po_offset = int (i * 2), po_limit = int 2\<rparr>
       (three_rows\<lparr>db_calls := 2 * i\<rparr>))) [0..<2]))
     = mset (map scanAuditEntry [row 1 10, row 2 30, row 3 20])"
proof -
  have "length (filter (\<lambda>r. ar_project r = Some ''p'') (db_audit three_rows)) \<le> 2 * 2"
    "distinct (map ar_created (filter (\<lambda>r. ar_project r = Some ''p'') (db_audit three_rows)))"
    by (simp_all add: three_rows_def row_def)
  from audit_pages_cover [where c = "\<lambda>i. 2 * i" and dv = steady, OF _ _ _ this refl] show ?thesis
    by (simp add: three_rows_def row_def steady_def)
qed

text \<open>
  Where two entries have the same instant a client that pages through the log can see one of them twice
  and the other one not at all.
\<close>

definition shuffling :: db_env where
  "shuffling = steady\<lparr>dv_scan := (\<lambda>n i. if n = 1 then i else 1 - i)\<rparr>"

lemma ties_can_hide:
  "let s = empty_db\<lparr>db_audit := [row 1 10, row 2 10], db_nextid := 3\<rparr>;
       (first, s1) = AuditListByProject shuffling ''p'' \<lparr>po_offset = 0, po_limit = 1\<rparr> s;
       (second, s2) = AuditListByProject shuffling ''p'' \<lparr>po_offset = 1, po_limit = 1\<rparr> s1
   in first = second \<and> first = Inr ([scanAuditEntry (row 1 10)], 2)"
  by code_simp

text \<open>
  C34: Migrations run once each and in order. A start that succeeds executes the scripts of exactly the
  \<open>.sql\<close> files of the directory that were not recorded before, in the strict order of their names, of each
  the lines from its up marker to its down marker, records them all in that order, and leaves nothing
  for the next start to execute or record.
\<close>

theorem AutoMigrate_once:
  assumes "distinct (map fst fs)" "AutoMigrate dv fs s = (None, s')"
  shows "migrated fs s s' \<and>
    (\<forall>dv2 s2. AutoMigrate dv2 fs s' = (None, s2) \<longrightarrow>
       db_scripts s2 = db_scripts s' \<and> db_versions s2 = db_versions s')"
  using AutoMigrate_exact [OF assms] AutoMigrate_exact [OF assms(1)] migrated_again by blast

lemma AutoMigrate_once_witness:
  "\<exists>s'. AutoMigrate steady demo_migrations empty_db = (None, s') \<and> migrated demo_migrations empty_db s' \<and>
     db_scripts s' = [''CREATE a'', ''CREATE b'']"
proof -
  obtain s' where s': "AutoMigrate steady demo_migrations empty_db = (None, s')"
  proof -
    have "fst (AutoMigrate steady demo_migrations empty_db) = None" by code_simp
    then show ?thesis using that by (cases "AutoMigrate steady demo_migrations empty_db") auto
  qed
  have d: "distinct (map fst demo_migrations)" by (simp add: demo_migrations_def)
  have "db_scripts (snd (AutoMigrate steady demo_migrations empty_db)) = [''CREATE a'', ''CREATE b'']"
    by code_simp
  then show ?thesis using AutoMigrate_once [OF d s'] s' by simp
qed

section \<open>A divergence\<close>

text \<open>
  A user who granted an entry that still stands cannot be deleted: the schema gives \<open>granted_by\<close> no
  action, so the statement fails and the handler answers with an internal error.
\<close>

lemma granter_undeletable:
  assumes "db_ok s" "a \<in> set (db_acls s)" "acl_user a \<noteq> acl_grantedby a"
  shows "\<exists>err. delete_user (acl_grantedby a) s = (Inl err, s)"
proof -
  have "acl_grantedby a \<in> user_ids s" using assms(1,2) by (auto simp: db_ok_def acls_ok_def)
  then have "list_ex (\<lambda>u. u_id u = acl_grantedby a) (db_users s)" by (simp add: list_ex_id)
  moreover have "list_ex (\<lambda>b. acl_grantedby b = acl_grantedby a)
      (filter (\<lambda>b. acl_user b \<noteq> acl_grantedby a) (db_acls s))"
    using assms(2,3) by (auto simp: list_ex_iff)
  ultimately show ?thesis by (simp add: delete_user_def Let_def)
qed

end
