(* ===== verification/Accounts.thy ===== *)
theory Accounts
  imports Auth Store Executor
begin

text \<open>
  The handlers of \<open>internal/api/handlers\<close> that work on the store: log-in, refresh and registration
  (\<open>auth_handler.go\<close>), users (\<open>user_handler.go\<close>), access control (\<open>acl_handler.go\<close>), the audit log
  (\<open>audit_handler.go\<close>) and health (\<open>health_handler.go\<close>).

  A handler is a function of the request and the database. The body of a request is the structure its
  JSON decodes to, \<open>None\<close> where decoding fails; identifiers from \<open>uuid.New\<close> and instants from
  \<open>time.Now\<close> are arguments.
\<close>

section \<open>What the handlers answer\<close>

datatype payload =
    PTokens TokenPair
  | PUser User
  | PUsers "User list"
  | PNewUser string string string Role
  | PAcl ProjectACL
  | PAcls "ProjectACL list"
  | PAudit "(int \<times> AuditEntry) list"
  | PStatus "(string, string) gomap"
  | PProjects "Project list"
  | PProject Project
  | PServices "Service list"
  | PService Service
  | PFound nat
  | PResult OperationResult
  | PRecord OperationRecord
  | PRunning "OperationRequest list" nat

type_synonym 's api_handler = "(payload, 's) handler"

text \<open>The password hash is not part of a user's JSON.\<close>

definition json_user :: "User \<Rightarrow> payload" where
  "json_user u = PUser (u\<lparr>u_passwordhash := []\<rparr>)"

definition bad_request :: "request \<Rightarrow> string \<Rightarrow> payload response" where
  "bad_request r msg = WriteError r 400 ErrValidation msg NilDetails"

definition internal_error :: "request \<Rightarrow> string \<Rightarrow> payload response" where
  "internal_error r msg = WriteError r 500 ErrInternal msg NilDetails"

section \<open>Log-in, refresh and registration\<close>

record api_env =
  ae_dv :: db_env
  ae_lib :: jwt_lib
  ae_mgr :: JWTManager

record LoginRequest =
  lr_username :: string
  lr_password :: string

definition send_tokens :: "api_env \<Rightarrow> time \<Rightarrow> request \<Rightarrow> User \<Rightarrow> payload response" where
  "send_tokens e now r user =
     (case GenerateTokenPair (ae_lib e) (ae_mgr e) now user of
        Inl err \<Rightarrow> internal_error r ''failed to generate tokens''
      | Inr tp \<Rightarrow> WriteJSON r 200 (PTokens tp))"

definition Login :: "api_env \<Rightarrow> time \<Rightarrow> LoginRequest option \<Rightarrow> db api_handler" where
  "Login e now body r s =
     (case body of
        None \<Rightarrow> (bad_request r ''invalid request body'', s)
      | Some req \<Rightarrow>
          if lr_username req = [] \<or> lr_password req = []
          then (bad_request r ''username and password are required'', s)
          else
            (case ValidatePassword (ae_dv e) (lr_username req) (lr_password req) s of
               (Inl err, s1) \<Rightarrow> (internal_error r ''internal error'', s1)
             | (Inr None, s1) \<Rightarrow>
                 (WriteError r 401 ErrUnauthorized ''invalid credentials'' NilDetails, s1)
             | (Inr (Some user), s1) \<Rightarrow> (send_tokens e now r user, s1)))"

definition Refresh :: "api_env \<Rightarrow> time \<Rightarrow> time \<Rightarrow> string option \<Rightarrow> db api_handler" where
  "Refresh e t1 t2 body r s =
     (case body of
        None \<Rightarrow> (bad_request r ''invalid request body'', s)
      | Some refreshToken \<Rightarrow>
          (case ValidateRefreshToken (ae_lib e) (ae_mgr e) refreshToken t1 of
             None \<Rightarrow> (WriteError r 401 ErrTokenInvalid ''invalid refresh token'' NilDetails, s)
           | Some userID \<Rightarrow>
               (case GetByID (ae_dv e) userID s of
                  ((Some user, None), s1) \<Rightarrow> (send_tokens e t2 r user, s1)
                | (_, s1) \<Rightarrow> (WriteError r 401 ErrUnauthorized ''user not found'' NilDetails, s1))))"

record RegisterRequest =
  rr_username :: string
  rr_email :: string
  rr_password :: string

definition ErrUserExists :: string where "ErrUserExists = ''ERR_USER_EXISTS''"

text \<open>The first user becomes administrator; a failing count makes a viewer.\<close>

definition register_role :: "db_env \<Rightarrow> db \<Rightarrow> Role \<times> db" where
  "register_role dv s =
     (case UserCount dv s of
        (Inr n, s1) \<Rightarrow> (if n = 0 then RoleAdmin else RoleViewer, s1)
      | (Inl err, s1) \<Rightarrow> (RoleViewer, s1))"

definition new_user :: "string \<Rightarrow> string \<Rightarrow> string \<Rightarrow> Role \<Rightarrow> time \<Rightarrow> time \<Rightarrow> User" where
  "new_user uuid name email role t1 t2 =
     \<lparr>u_id = uuid, u_username = name, u_email = email, u_passwordhash = [], u_role = role,
      u_created = t1, u_updated = t2\<rparr>"

definition Register ::
    "api_env \<Rightarrow> string \<Rightarrow> time \<Rightarrow> time \<Rightarrow> RegisterRequest option \<Rightarrow> db api_handler" where
  "Register e uuid t1 t2 body r s =
     (case body of
        None \<Rightarrow> (bad_request r ''invalid request body'', s)
      | Some req \<Rightarrow>
          if rr_username req = [] \<or> rr_email req = [] \<or> rr_password req = []
          then (bad_request r ''username, email and password are required'', s)
          else if length (rr_password req) < 8
          then (bad_request r ''password must be at least 8 characters'', s)
          else
            (case GetByUsername (ae_dv e) (rr_username req) s of
               ((Some existing, err), s1) \<Rightarrow>
                 (WriteError r 409 ErrUserExists ''username already taken'' NilDetails, s1)
             | ((None, err), s1) \<Rightarrow>
                 (let (role, s2) = register_role (ae_dv e) s1;
                      user = new_user uuid (rr_username req) (rr_email req) role t1 t2
                  in case UserCreate (ae_dv e) user (rr_password req) s2 of
                       (Inl err, s3) \<Rightarrow> (internal_error r ''failed to create user'', s3)
                     | (Inr _, s3) \<Rightarrow>
                         (WriteJSON r 201 (PNewUser uuid (rr_username req) (rr_email req) role), s3))))"

section \<open>Users\<close>

definition HandleUserList :: "api_env \<Rightarrow> db api_handler" where
  "HandleUserList e r s =
     (let opts = parsePagination r in
      case UserList (ae_dv e) opts s of
        (Inl err, s1) \<Rightarrow> (internal_error r ''failed to list users'', s1)
      | (Inr (us, n), s1) \<Rightarrow>
          (WritePaginated r (PUsers us) (int n) (po_offset opts) (po_limit opts), s1))"

record UserBody =
  ub_username :: string
  ub_email :: string
  ub_password :: string
  ub_role :: Role

definition HandleUserCreate ::
    "api_env \<Rightarrow> string \<Rightarrow> time \<Rightarrow> time \<Rightarrow> UserBody option \<Rightarrow> db api_handler" where
  "HandleUserCreate e uuid t1 t2 body r s =
     (case body of
        None \<Rightarrow> (bad_request r ''invalid request body'', s)
      | Some req \<Rightarrow>
          if ub_username req = [] \<or> ub_email req = [] \<or> ub_password req = []
          then (bad_request r ''username, email, and password are required'', s)
          else
            (let role = (if ub_role req = [] then RoleViewer else ub_role req);
                 user = new_user uuid (ub_username req) (ub_email req) role t1 t2
             in case UserCreate (ae_dv e) user (ub_password req) s of
                  (Inl err, s1) \<Rightarrow> (internal_error r ''failed to create user'', s1)
                | (Inr _, s1) \<Rightarrow> (WriteJSON r 201 (json_user user), s1)))"

definition changed_user :: "UserBody \<Rightarrow> User \<Rightarrow> User" where
  "changed_user req u =
     (let u = (if ub_username req \<noteq> [] then u\<lparr>u_username := ub_username req\<rparr> else u);
          u = (if ub_email req \<noteq> [] then u\<lparr>u_email := ub_email req\<rparr> else u)
      in if ub_role req \<noteq> [] then u\<lparr>u_role := ub_role req\<rparr> else u)"

text \<open>The body has no password; its record carries one that is not read.\<close>

definition HandleUserUpdate :: "api_env \<Rightarrow> time \<Rightarrow> UserBody option \<Rightarrow> db api_handler" where
  "HandleUserUpdate e now body r s =
     (case GetByID (ae_dv e) (url_param r ''userID'') s of
        ((Some user, None), s1) \<Rightarrow>
          (case body of
             None \<Rightarrow> (bad_request r ''invalid request body'', s1)
           | Some req \<Rightarrow>
               (case UserUpdate (ae_dv e) now (changed_user req user) s1 of
                  (Inl err, u, s2) \<Rightarrow> (internal_error r ''failed to update user'', s2)
                | (Inr _, u, s2) \<Rightarrow> (WriteJSON r 200 (json_user u), s2)))
      | (_, s1) \<Rightarrow> (WriteError r 404 ErrUserNotFound ''user not found'' NilDetails, s1))"

definition HandleUserDelete :: "api_env \<Rightarrow> db api_handler" where
  "HandleUserDelete e r s =
     (case UserDelete (ae_dv e) (url_param r ''userID'') s of
        (Inl err, s1) \<Rightarrow> (internal_error r ''failed to delete user'', s1)
      | (Inr _, s1) \<Rightarrow>
          (\<lparr>rs_status = 204, rs_body = NoBody, rs_meta = None, rs_header = None\<rparr>, s1))"

section \<open>Access control\<close>

record GrantACLRequest =
  gr_user :: string
  gr_role :: Role

definition granted :: "request \<Rightarrow> time \<Rightarrow> GrantACLRequest \<Rightarrow> ProjectACL" where
  "granted r now req =
     \<lparr>acl_user = gr_user req, acl_project = url_param r ''projectID'', acl_role = gr_role req,
      acl_grantedby = GetUserID r, acl_grantedat = now\<rparr>"

text \<open>The handler reads the claims' user without a test; its routes run behind the token check.\<close>

definition HandleGrant :: "api_env \<Rightarrow> time \<Rightarrow> GrantACLRequest option \<Rightarrow> db api_handler" where
  "HandleGrant e now body r s =
     (case body of
        None \<Rightarrow> (bad_request r ''invalid request body'', s)
      | Some req \<Rightarrow>
          if gr_user req = [] then (bad_request r ''user_id is required'', s)
          else if gr_role req \<noteq> RoleOperator \<and> gr_role req \<noteq> RoleViewer
          then (bad_request r (''role must be 'operator' or 'viewer'' @ [CHR 0x27]), s)
          else
            (case SetProjectACL (ae_dv e) (granted r now req) s of
               (Inl err, s1) \<Rightarrow> (internal_error r ''failed to set ACL'', s1)
             | (Inr _, s1) \<Rightarrow> (WriteJSON r 200 (PAcl (granted r now req)), s1)))"

definition HandleRevoke :: "api_env \<Rightarrow> db api_handler" where
  "HandleRevoke e r s =
     (case ACLDelete (ae_dv e) (url_param r ''userID'') (url_param r ''projectID'') s of
        (Inl err, s1) \<Rightarrow> (internal_error r ''failed to revoke ACL'', s1)
      | (Inr _, s1) \<Rightarrow> (WriteJSON r 200 (PStatus [(''status'', ''revoked'')]), s1))"

definition HandleACLList :: "api_env \<Rightarrow> db api_handler" where
  "HandleACLList e r s =
     (case ACLListByProject (ae_dv e) (url_param r ''projectID'') s of
        (Inl err, s1) \<Rightarrow> (internal_error r ''failed to list ACLs'', s1)
      | (Inr acls, s1) \<Rightarrow> (WriteJSON r 200 (PAcls acls), s1))"

section \<open>Audit log and health\<close>

definition send_page ::
    "request \<Rightarrow> PaginationOpts \<Rightarrow> (go_error + audit_page) \<times> db \<Rightarrow> payload response \<times> db" where
  "send_page r opts out =
     (case out of
        (Inl err, s1) \<Rightarrow> (internal_error r ''failed to query audit log'', s1)
      | (Inr (es, n), s1) \<Rightarrow>
          (WritePaginated r (PAudit es) (int n) (po_offset opts) (po_limit opts), s1))"

definition HandleAuditAll :: "api_env \<Rightarrow> db api_handler" where
  "HandleAuditAll e r s =
     (let opts = parsePagination r in send_page r opts (AuditList (ae_dv e) opts s))"

definition HandleAuditByProject :: "api_env \<Rightarrow> db api_handler" where
  "HandleAuditByProject e r s =
     (let opts = parsePagination r
      in send_page r opts (AuditListByProject (ae_dv e) (url_param r ''projectID'') opts s))"

definition HandleLiveness :: "'s api_handler" where
  "HandleLiveness r s = (WriteJSON r 200 (PStatus [(''status'', ''ok'')]), s)"

definition health_of :: "go_error option \<Rightarrow> string" where
  "health_of err = (case err of None \<Rightarrow> ''healthy'' | Some e \<Rightarrow> ''unhealthy: '' @ error_string e)"

text \<open>The answers of the database's and the daemon's \<open>Ping\<close> are arguments.\<close>

definition HandleReadiness :: "go_error option \<Rightarrow> go_error option \<Rightarrow> 's api_handler" where
  "HandleReadiness dbErr dockerErr r s =
     (let checks = [(''database'', health_of dbErr), (''docker'', health_of dockerErr)]
      in (WriteJSON r (if list_ex (\<lambda>(k, v). v \<noteq> ''healthy'') checks then 503 else 200)
            (PStatus checks), s))"

definition HandleVersion :: "string \<Rightarrow> 's api_handler" where
  "HandleVersion v r s = (WriteJSON r 200 (PStatus [(''version'', v)]), s)"

end
