(* ===== verification/ProjectApi.thy ===== *)
theory ProjectApi
  imports Accounts Parser
begin

text \<open>
  The handlers of \<open>project_handler.go\<close> and \<open>operation_handler.go\<close>: the table of projects a scan fills,
  the project views, and the calls into the executor.

  The state is the database, the table of projects, the executor and the traced daemon. The executor
  is wired as in \<open>cmd/cockpit/main.go\<close>: it resolves projects in the table and writes its audit
  entries into the database. The scan and
  the parser run on a file system that is fixed during the call. A call of the executor that blocks
  on a project's lock does not return for a handler that is alone, so those handlers answer \<open>None\<close>
  then. \<open>time.ParseDuration\<close> is a parameter.
\<close>

section \<open>State\<close>

type_synonym projects = "(ProjectID, Project) gomap"

record 'w api =
  ap_db :: db
  ap_projects :: projects
  ap_ex :: Executor
  ap_docker :: "'w dstate"

record 'w server =
  sv_dv :: db_env
  sv_fs :: scan_fs
  sv_depth :: int
  sv_root :: string
  sv_pe :: parse_env
  sv_docker :: "'w env"
  sv_parseduration :: "string \<Rightarrow> duration option"

section \<open>Projects\<close>

definition project_not_found :: go_error where
  "project_not_found = AppError ErrProjectNotFound ''project not found'' NilDetails 404 None"

definition GetProject :: "projects \<Rightarrow> ProjectID \<Rightarrow> go_error + Project" where
  "GetProject ps i = (case map_of ps i of None \<Rightarrow> Inl project_not_found | Some p \<Rightarrow> Inr p)"

definition not_found :: "request \<Rightarrow> payload response" where
  "not_found r = WriteError r 404 ErrProjectNotFound ''project not found'' NilDetails"

text \<open>The projects a caller sees: all for an administrator, else those with an entry for the caller.\<close>

fun visible :: "db_env \<Rightarrow> Claims \<Rightarrow> projects \<Rightarrow> db \<Rightarrow> Project list \<times> db" where
  "visible dv c [] s = ([], s)"
| "visible dv c ((k, p) # ps) s =
     (if cl_role c = RoleAdmin then
        (let (vs, s1) = visible dv c ps s in (p # vs, s1))
      else
        (let (role, s1) = GetUserProjectRole dv (cl_userid c) (pr_id p) s;
             (vs, s2) = visible dv c ps s1
         in (if role \<noteq> [] then p # vs else vs, s2)))"

definition HandleListProjects :: "'w server \<Rightarrow> Claims \<Rightarrow> 'w api api_handler" where
  "HandleListProjects sv c r s =
     (let (ps, d) = visible (sv_dv sv) c (ap_projects s) (ap_db s)
      in (WriteJSON r 200 (PProjects ps), s\<lparr>ap_db := d\<rparr>))"

text \<open>The containers found are written into the services of the project in the table.\<close>

definition with_container :: "(string, ContainerInfo) gomap \<Rightarrow> Service \<Rightarrow> Service" where
  "with_container m svc =
     (case map_of m (svc_name svc) of
        None \<Rightarrow> svc
      | Some ctr \<Rightarrow> svc\<lparr>svc_containerid := ci_id ctr, svc_state := ci_state ctr\<rparr>)"

definition with_status :: "ProjectStatus \<Rightarrow> (string, ContainerInfo) gomap \<Rightarrow> Project \<Rightarrow> Project" where
  "with_status st m p = p\<lparr>pr_status := st, pr_services := map (with_container m) (pr_services p)\<rparr>"

definition HandleGetProjectDetail :: "'w server \<Rightarrow> 'w api api_handler" where
  "HandleGetProjectDetail sv r s =
     (let i = url_param r ''projectID'' in
      case map_of (ap_projects s) i of
        None \<Rightarrow> (not_found r, s)
      | Some p \<Rightarrow>
          (case GetProjectStatus (sv_docker sv) p (ap_docker s) of
             ((st, m, Some err), d) \<Rightarrow> (WriteJSON r 200 (PProject p), s\<lparr>ap_docker := d\<rparr>)
           | ((st, m, None), d) \<Rightarrow>
               (let p1 = with_status st m p
                in (WriteJSON r 200 (PProject p1),
                    s\<lparr>ap_docker := d, ap_projects := AList.update i p1 (ap_projects s)\<rparr>))))"

text \<open>The loop both scans share: projects that do not parse are skipped.\<close>

definition add_parsed :: "parse_env \<Rightarrow> DiscoveredProject list \<Rightarrow> projects \<Rightarrow> projects" where
  "add_parsed pe ds ps =
     fold (\<lambda>disc ps. case Parse pe disc of Inl err \<Rightarrow> ps
                     | Inr p \<Rightarrow> AList.update (pr_id p) p ps) ds ps"

definition HandleTriggerScan :: "'w server \<Rightarrow> 'w api api_handler" where
  "HandleTriggerScan sv r s =
     (case Scan (sv_fs sv) (sv_depth sv) (sv_root sv) of
        Inl err \<Rightarrow> (internal_error r (''scan failed: '' @ error_string err), s)
      | Inr ds \<Rightarrow>
          (let new = add_parsed (sv_pe sv) ds []
           in (WriteJSON r 200 (PFound (length new)), s\<lparr>ap_projects := new\<rparr>)))"

definition InitialScan :: "'w server \<Rightarrow> 'w api \<Rightarrow> go_error option \<times> 'w api" where
  "InitialScan sv s =
     (case Scan (sv_fs sv) (sv_depth sv) (sv_root sv) of
        Inl err \<Rightarrow> (Some err, s)
      | Inr ds \<Rightarrow> (None, s\<lparr>ap_projects := add_parsed (sv_pe sv) ds (ap_projects s)\<rparr>))"

definition HandleListServices :: "'w api api_handler" where
  "HandleListServices r s =
     (case map_of (ap_projects s) (url_param r ''projectID'') of
        None \<Rightarrow> (not_found r, s)
      | Some p \<Rightarrow> (WriteJSON r 200 (PServices (pr_services p)), s))"

definition HandleGetServiceDetail :: "'w api api_handler" where
  "HandleGetServiceDetail r s =
     (case map_of (ap_projects s) (url_param r ''projectID'') of
        None \<Rightarrow> (not_found r, s)
      | Some p \<Rightarrow>
          (case find (\<lambda>svc. svc_name svc = url_param r ''serviceName'') (pr_services p) of
             Some svc \<Rightarrow> (WriteJSON r 200 (PService svc), s)
           | None \<Rightarrow> (WriteError r 404 ErrServiceNotFound ''service not found'' NilDetails, s)))"

section \<open>The executor's surroundings\<close>

text \<open>
  What an operation of the executor works on: the daemon, the database and the table. The daemon's
  calls change the daemon only.
\<close>

record 'v world =
  wd_daemon :: 'v
  wd_db :: db
  wd_projects :: projects

definition on_daemon :: "('v \<Rightarrow> 'r \<times> 'v) \<Rightarrow> 'v world \<Rightarrow> 'r \<times> 'v world" where
  "on_daemon f w = (let (r, v) = f (wd_daemon w) in (r, w\<lparr>wd_daemon := v\<rparr>))"

definition daemon_env :: "'v env \<Rightarrow> 'v world env" where
  "daemon_env e =
     \<lparr>cl_ContainerCreate = (\<lambda>c cfg. on_daemon (cl_ContainerCreate e c cfg)),
      cl_ContainerStart = (\<lambda>c i. on_daemon (cl_ContainerStart e c i)),
      cl_ContainerStop = (\<lambda>c i d. on_daemon (cl_ContainerStop e c i d)),
      cl_ContainerRemove = (\<lambda>c i f. on_daemon (cl_ContainerRemove e c i f)),
      cl_ContainerList = (\<lambda>c fs. on_daemon (cl_ContainerList e c fs)),
      cl_NetworkCreate = (\<lambda>c n opts. on_daemon (cl_NetworkCreate e c n opts)),
      cl_NetworkRemove = (\<lambda>c i. on_daemon (cl_NetworkRemove e c i)),
      cl_NetworkList = (\<lambda>c. on_daemon (cl_NetworkList e c)),
      cl_VolumeCreate = (\<lambda>c n opts. on_daemon (cl_VolumeCreate e c n opts)),
      cl_VolumeRemove = (\<lambda>c n f. on_daemon (cl_VolumeRemove e c n f)),
      cl_VolumeList = (\<lambda>c. on_daemon (cl_VolumeList e c)),
      cl_ImagePull = (\<lambda>c i. on_daemon (cl_ImagePull e c i)),
      cl_ImageBuild = (\<lambda>c opts. on_daemon (cl_ImageBuild e c opts)),
      cl_ImageExists = (\<lambda>c i. on_daemon (cl_ImageExists e c i)),
      net_Listen = (\<lambda>a. on_daemon (net_Listen e a)),
      env_now = on_daemon (env_now e),
      ctx_err = (\<lambda>w. ctx_err e (wd_daemon w)),
      range_order = range_order e\<rparr>"

definition wired :: "'v server \<Rightarrow> 'v world xenv" where
  "wired sv =
     \<lparr>xe_docker = daemon_env (sv_docker sv),
      xe_resolve = (\<lambda>i w. (GetProject (wd_projects w) i, w)),
      xe_audit = Some (\<lambda>a w. w\<lparr>wd_db := snd (LogOperation (sv_dv sv) a (wd_db w))\<rparr>)\<rparr>"

definition to_world :: "'v api \<Rightarrow> 'v world dstate" where
  "to_world s =
     \<lparr>ds_world = \<lparr>wd_daemon = ds_world (ap_docker s), wd_db = ap_db s, wd_projects = ap_projects s\<rparr>,
      ds_trace = ds_trace (ap_docker s)\<rparr>"

definition of_world :: "'v world dstate \<Rightarrow> 'v api \<Rightarrow> 'v api" where
  "of_world d s =
     s\<lparr>ap_docker := \<lparr>ds_world = wd_daemon (ds_world d), ds_trace = ds_trace d\<rparr>,
       ap_db := wd_db (ds_world d), ap_projects := wd_projects (ds_world d)\<rparr>"

lemma of_to_world [simp]: "of_world (to_world s) s = s"
  by (simp add: of_world_def to_world_def)

section \<open>Operations\<close>

text \<open>The body after decoding, whose error the code ignores: zero values where there is none.\<close>

record OperationBody =
  ob_services :: "string list option"
  ob_timeout :: string

definition op_timeout :: "(string \<Rightarrow> duration option) \<Rightarrow> string \<Rightarrow> duration" where
  "op_timeout pd text =
     (if text \<noteq> [] then (case pd text of Some d \<Rightarrow> d | None \<Rightarrow> 5 * minute) else 5 * minute)"

definition op_priority :: "Role \<Rightarrow> int" where
  "op_priority role = (if role = RoleAdmin then 100 else 50)"

definition op_request ::
    "string \<Rightarrow> string \<Rightarrow> request \<Rightarrow> string list option \<Rightarrow> duration \<Rightarrow> OperationRequest" where
  "op_request uuid opType r services tmo =
     \<lparr>req_id = uuid, req_type = opType,
      req_scope = \<lparr>sc_project = url_param r ''projectID'', sc_services = services\<rparr>,
      req_user = GetUserID r, req_priority = op_priority (GetRole r), req_timeout = tmo,
      req_created = 0\<rparr>"

text \<open>An application error keeps its status and code; any other error is an internal one.\<close>

definition send_error :: "request \<Rightarrow> go_error \<Rightarrow> err_details \<Rightarrow> payload response" where
  "send_error r err details =
     (case err of
        AppError c m d st w \<Rightarrow> WriteError r st c m details
      | PlainError m \<Rightarrow> internal_error r (error_string err))"

definition run_request ::
    "'w server \<Rightarrow> string \<Rightarrow> time \<Rightarrow> nat \<Rightarrow> OperationRequest \<Rightarrow> request \<Rightarrow> 'w api \<Rightarrow>
     (payload response \<times> 'w api) option" where
  "run_request sv uuid now ctx req r s =
     (case Execute (wired sv) uuid now ctx req (ap_ex s) (to_world s) of
        None \<Rightarrow> None
      | Some (out, ex, d) \<Rightarrow>
          Some (case out of
                  Inl err \<Rightarrow> send_error r err (case err of AppError c m dt st w \<Rightarrow> dt | _ \<Rightarrow> NilDetails)
                | Inr res \<Rightarrow> WriteJSON r 200 (PResult res),
                (of_world d s)\<lparr>ap_ex := ex\<rparr>))"

definition HandleOp ::
    "'w server \<Rightarrow> string \<Rightarrow> time \<Rightarrow> nat \<Rightarrow> string \<Rightarrow> OperationBody \<Rightarrow> request \<Rightarrow> 'w api \<Rightarrow>
     (payload response \<times> 'w api) option" where
  "HandleOp sv uuid now ctx opType body r s =
     run_request sv uuid now ctx
       (op_request uuid opType r (ob_services body) (op_timeout (sv_parseduration sv) (ob_timeout body)))
       r s"

definition HandleServiceOp ::
    "'w server \<Rightarrow> string \<Rightarrow> time \<Rightarrow> nat \<Rightarrow> string \<Rightarrow> request \<Rightarrow> 'w api \<Rightarrow>
     (payload response \<times> 'w api) option" where
  "HandleServiceOp sv uuid now ctx opType r s =
     run_request sv uuid now ctx
       (op_request uuid opType r (Some [url_param r ''serviceName'']) (5 * minute)) r s"

text \<open>The handlers of the routes: each names its operation.\<close>

definition HandleUp ::
    "'w server \<Rightarrow> string \<Rightarrow> time \<Rightarrow> nat \<Rightarrow> OperationBody \<Rightarrow> request \<Rightarrow> 'w api \<Rightarrow> (payload response \<times> 'w api) option" where
  "HandleUp sv uuid now ctx body r s = HandleOp sv uuid now ctx OpUp body r s"

definition HandleDown ::
    "'w server \<Rightarrow> string \<Rightarrow> time \<Rightarrow> nat \<Rightarrow> OperationBody \<Rightarrow> request \<Rightarrow> 'w api \<Rightarrow> (payload response \<times> 'w api) option" where
  "HandleDown sv uuid now ctx body r s = HandleOp sv uuid now ctx OpDown body r s"

definition HandleStart ::
    "'w server \<Rightarrow> string \<Rightarrow> time \<Rightarrow> nat \<Rightarrow> OperationBody \<Rightarrow> request \<Rightarrow> 'w api \<Rightarrow> (payload response \<times> 'w api) option" where
  "HandleStart sv uuid now ctx body r s = HandleOp sv uuid now ctx OpStart body r s"

definition HandleStop ::
    "'w server \<Rightarrow> string \<Rightarrow> time \<Rightarrow> nat \<Rightarrow> OperationBody \<Rightarrow> request \<Rightarrow> 'w api \<Rightarrow> (payload response \<times> 'w api) option" where
  "HandleStop sv uuid now ctx body r s = HandleOp sv uuid now ctx OpStop body r s"

definition HandleRestart ::
    "'w server \<Rightarrow> string \<Rightarrow> time \<Rightarrow> nat \<Rightarrow> OperationBody \<Rightarrow> request \<Rightarrow> 'w api \<Rightarrow> (payload response \<times> 'w api) option" where
  "HandleRestart sv uuid now ctx body r s = HandleOp sv uuid now ctx OpRestart body r s"

definition HandleServiceStart ::
    "'w server \<Rightarrow> string \<Rightarrow> time \<Rightarrow> nat \<Rightarrow> request \<Rightarrow> 'w api \<Rightarrow> (payload response \<times> 'w api) option" where
  "HandleServiceStart sv uuid now ctx r s = HandleServiceOp sv uuid now ctx OpStart r s"

definition HandleServiceStop ::
    "'w server \<Rightarrow> string \<Rightarrow> time \<Rightarrow> nat \<Rightarrow> request \<Rightarrow> 'w api \<Rightarrow> (payload response \<times> 'w api) option" where
  "HandleServiceStop sv uuid now ctx r s = HandleServiceOp sv uuid now ctx OpStop r s"

definition HandleServiceRestart ::
    "'w server \<Rightarrow> string \<Rightarrow> time \<Rightarrow> nat \<Rightarrow> request \<Rightarrow> 'w api \<Rightarrow> (payload response \<times> 'w api) option" where
  "HandleServiceRestart sv uuid now ctx r s = HandleServiceOp sv uuid now ctx OpRestart r s"

text \<open>The identifier of a queued request is drawn by \<open>Submit\<close>.\<close>

definition HandleSubmitAsync ::
    "'w server \<Rightarrow> string \<Rightarrow> time \<Rightarrow> time \<Rightarrow> OperationBody \<Rightarrow> 'w api api_handler" where
  "HandleSubmitAsync sv uuid now now' body r s =
     (let req = op_request [] (url_param r ''action'') r (ob_services body)
            (op_timeout (sv_parseduration sv) (ob_timeout body));
          (i, ex) = Submit uuid now now' req (ap_ex s)
      in (WriteJSON r 202 (PStatus [(''operation_id'', i), (''status'', ''queued'')]),
          s\<lparr>ap_ex := ex\<rparr>))"

definition HandleCancelOperation :: "time \<Rightarrow> time \<Rightarrow> 'w api api_handler" where
  "HandleCancelOperation t1 t2 r s =
     (case Cancel (url_param r ''opID'') t1 t2 (ap_ex s) of
        ((Some err, c), ex) \<Rightarrow> (send_error r err NilDetails, s\<lparr>ap_ex := ex\<rparr>)
      | ((None, c), ex) \<Rightarrow>
          (WriteJSON r 200 (PStatus [(''status'', ''cancelled'')]), s\<lparr>ap_ex := ex\<rparr>))"

definition HandleGetOperation :: "'w api api_handler" where
  "HandleGetOperation r s =
     (case GetOperation (ap_ex s) (url_param r ''opID'') of
        None \<Rightarrow> (WriteError r 404 ErrOperationNotFound ''operation not found'' NilDetails, s)
      | Some rec \<Rightarrow> (WriteJSON r 200 (PRecord rec), s))"

definition HandleListRunning :: "'w api api_handler" where
  "HandleListRunning r s =
     (WriteJSON r 200 (PRunning (GetRunningOps (ap_ex s)) (GetQueueLen (ap_ex s))), s)"

end
