(* ===== verification/StoreUse.thy ===== *)
theory StoreUse
  imports ProjectApi StoreFacts
begin

text \<open>
  How the handlers use the database. A property of the database that does not depend on the number of
  statements made is kept by every handler that only reads, and by one that changes something if it is
  kept by the repository's call the handler makes. Two such properties are interpreted here: that the
  constraints of the schema hold, and that some of the tables are as they were.
\<close>

section \<open>Properties of the database\<close>

locale db_property =
  fixes P :: "db \<Rightarrow> bool"
  assumes calls: "P (s\<lparr>db_calls := n\<rparr>) = P s"
begin

definition keeps :: "(db \<Rightarrow> 'a \<times> db) \<Rightarrow> bool" where
  "keeps f \<longleftrightarrow> (\<forall>s. P s \<longrightarrow> P (snd (f s)))"

lemma keepsD: "keeps f \<Longrightarrow> f s = (x, s1) \<Longrightarrow> P s \<Longrightarrow> P s1"
  unfolding keeps_def by (metis snd_conv)

lemma sql_keeps:
  assumes "\<And>s. P s \<Longrightarrow> P (snd (f s))"
  shows "keeps (sql dv f)"
  unfolding keeps_def using assms calls by (simp add: sql_def Let_def split: option.split)

lemma select_keeps: "keeps (sql dv (select q))"
  by (rule sql_keeps) (simp add: select_def)

lemmas selectD = keepsD [OF select_keeps]

lemma list_query_keeps: "keeps (list_query dv rows created opts)"
  unfolding keeps_def list_query_def
  by (auto split: prod.split sum.split dest: selectD)

lemma audit_query_keeps: "keeps (audit_query dv Q opts)"
  unfolding keeps_def audit_query_def
  by (auto split: prod.split sum.split dest: keepsD [OF list_query_keeps])

lemma get_user_keeps: "keeps (get_user dv Q)"
  unfolding keeps_def get_user_def
  by (auto split: prod.split sum.split option.split dest: selectD)

lemma role_keeps: "keeps (GetUserProjectRole dv u p)"
  unfolding keeps_def GetUserProjectRole_def
  by (auto split: prod.split sum.split option.split dest: selectD)

lemma visible_keeps: "keeps (visible dv c ps)"
proof (induction ps)
  case Nil
  then show ?case by (simp add: keeps_def)
next
  case (Cons x ps)
  obtain k p where x: "x = (k, p)" by (cases x)
  show ?case
    unfolding keeps_def
    by (auto simp: x split: prod.split dest: keepsD [OF Cons] keepsD [OF role_keeps])
qed

lemma validate_keeps: "keeps (ValidatePassword dv u pw)"
  unfolding keeps_def ValidatePassword_def GetByUsername_def
  by (auto split: prod.split option.split dest: keepsD [OF get_user_keeps])

section \<open>The handlers that read\<close>

lemma readers_keep:
  "keeps (Login e now lbody r)" "keeps (Refresh e ta tb fbody r)" "keeps (HandleUserList e r)"
  "keeps (HandleACLList e r)" "keeps (HandleAuditAll e r)" "keeps (HandleAuditByProject e r)"
proof -
  show "keeps (Login e now lbody r)"
    by (auto simp: keeps_def Login_def split: option.split prod.split sum.split dest: keepsD [OF validate_keeps])
  show "keeps (Refresh e ta tb fbody r)"
    by (auto simp: keeps_def Refresh_def GetByID_def split: option.split prod.split dest: keepsD [OF get_user_keeps])
  show "keeps (HandleUserList e r)"
    by (auto simp: keeps_def HandleUserList_def UserList_def Let_def split: prod.split sum.split
        dest: keepsD [OF list_query_keeps])
  show "keeps (HandleACLList e r)"
    by (auto simp: keeps_def HandleACLList_def ACLListByProject_def split: prod.split sum.split dest: selectD)
  have page: "P (snd (send_page r opts out))" if "P (snd out)" for opts out
    using that by (auto simp: send_page_def split: prod.split sum.split)
  show "keeps (HandleAuditAll e r)" "keeps (HandleAuditByProject e r)"
    using audit_query_keeps
    by (simp_all add: keeps_def HandleAuditAll_def HandleAuditByProject_def AuditList_def
        AuditListByProject_def Let_def page)
qed

section \<open>The handlers that change something\<close>

lemma register_role_keeps: "keeps (register_role dv)"
  by (auto simp: keeps_def register_role_def UserCount_def split: prod.split sum.split dest: selectD)

lemma Register_keeps:
  assumes "\<And>u pw. keeps (UserCreate (ae_dv e) u pw)"
  shows "keeps (Register e uuid ta tb body r)"
  by (auto simp: keeps_def Register_def GetByUsername_def Let_def split: option.split prod.split sum.split
      dest: keepsD [OF get_user_keeps] keepsD [OF register_role_keeps] keepsD [OF assms])

lemma HandleUserCreate_keeps:
  assumes "\<And>u pw. keeps (UserCreate (ae_dv e) u pw)"
  shows "keeps (HandleUserCreate e uuid ta tb body r)"
  by (auto simp: keeps_def HandleUserCreate_def Let_def split: option.split prod.split sum.split
      dest: keepsD [OF assms])

lemma HandleUserUpdate_keeps:
  assumes "\<And>u s. P s \<Longrightarrow> P (snd (snd (UserUpdate (ae_dv e) now u s)))"
  shows "keeps (HandleUserUpdate e now body r)"
proof -
  have "P s2" if "UserUpdate (ae_dv e) now u s1 = (x, v, s2)" "P s1" for u s1 x v s2
    using assms [OF that(2), of u] that(1) by simp
  then show ?thesis
    by (auto simp: keeps_def HandleUserUpdate_def GetByID_def split: option.split prod.split sum.split
        dest: keepsD [OF get_user_keeps])
qed

lemma HandleUserDelete_keeps:
  assumes "\<And>i. keeps (UserDelete (ae_dv e) i)"
  shows "keeps (HandleUserDelete e r)"
  by (auto simp: keeps_def HandleUserDelete_def split: prod.split sum.split dest: keepsD [OF assms])

lemma HandleGrant_keeps:
  assumes "\<And>a. keeps (SetProjectACL (ae_dv e) a)"
  shows "keeps (HandleGrant e now body r)"
  by (auto simp: keeps_def HandleGrant_def split: option.split prod.split sum.split dest: keepsD [OF assms])

lemma HandleRevoke_keeps:
  assumes "\<And>u p. keeps (ACLDelete (ae_dv e) u p)"
  shows "keeps (HandleRevoke e r)"
  by (auto simp: keeps_def HandleRevoke_def split: prod.split sum.split dest: keepsD [OF assms])

end

section \<open>The constraints of the schema\<close>

interpretation schema: db_property db_ok
  by unfold_locales simp

lemma changes_keep_schema:
  "schema.keeps (UserCreate dv u pw)" "schema.keeps (UserDelete dv i)" "schema.keeps (SetProjectACL dv a)"
  "schema.keeps (ACLDelete dv v p)" "schema.keeps (LogOperation dv en)"
  "db_ok s \<Longrightarrow> db_ok (snd (snd (UserUpdate dv now u s)))"
  using db_after_ok [of _ dv "CallUserCreate u pw"] db_after_ok [of _ dv "CallUserDelete i"]
    db_after_ok [of _ dv "CallSetACL a"] db_after_ok [of _ dv "CallDeleteACL v p"]
    db_after_ok [of _ dv "CallLog en"] db_after_ok [of s dv "CallUserUpdate now u"]
  by (simp_all add: schema.keeps_def)

section \<open>The tables that are as they were\<close>

datatype db_table = TUsers | TAcls | TAudit | TMigrations

fun same_table :: "db_table \<Rightarrow> db \<Rightarrow> db \<Rightarrow> bool" where
  "same_table TUsers d d' = (db_users d' = db_users d)"
| "same_table TAcls d d' = (db_acls d' = db_acls d)"
| "same_table TAudit d d' = (db_audit d' = db_audit d)"
| "same_table TMigrations d d' = (db_versions d' = db_versions d \<and> db_scripts d' = db_scripts d)"

lemma same_table_calls: "same_table t d (s\<lparr>db_calls := n\<rparr>) = same_table t d s"
  by (cases t) simp_all

interpretation table: db_property "same_table t d" for t d
  by unfold_locales (rule same_table_calls)

lemma same_table_refl [simp]: "same_table t d d"
  by (cases t) simp_all

text \<open>Which tables the repositories' calls leave alone.\<close>

lemma changes_keep_table:
  "t \<noteq> TUsers \<Longrightarrow> table.keeps t d (UserCreate dv u pw)"
  "t \<noteq> TUsers \<Longrightarrow> same_table t d s \<Longrightarrow> same_table t d (snd (snd (UserUpdate dv now u s)))"
  "t = TMigrations \<Longrightarrow> table.keeps t d (UserDelete dv i)"
  "t \<noteq> TAcls \<Longrightarrow> table.keeps t d (SetProjectACL dv a)"
  "t \<noteq> TAcls \<Longrightarrow> table.keeps t d (ACLDelete dv v p)"
  "t \<noteq> TAudit \<Longrightarrow> table.keeps t d (LogOperation dv en)"
  by (cases t; auto simp: table.keeps_def UserCreate_def UserUpdate_def UserDelete_def SetProjectACL_def ACLDelete_def
      LogOperation_def sql_def insert_user_def update_user_def delete_user_def upsert_acl_def insert_audit_def
      ok_unit_def Let_def split: sum.split option.split)+

end
