(* ===== verification/Viewing.thy ===== *)
theory Viewing
  imports ProjectApi
begin

text \<open>
  Reading a project's detail writes the status, the containers and their states into the project of the
  table, which running operations share. No operation reads what is written: it does the same, call by
  call, on the refreshed project.
\<close>

section \<open>What a refresh changes\<close>

definition refreshed :: "string \<Rightarrow> string \<Rightarrow> Service \<Rightarrow> Service" where
  "refreshed i st svc = svc\<lparr>svc_containerid := i, svc_state := st\<rparr>"

lemma with_container_refreshed: "\<exists>i st. with_container m svc = refreshed i st svc"
proof (cases "map_of m (svc_name svc)")
  case None
  then have "with_container m svc = refreshed (svc_containerid svc) (svc_state svc) svc"
    by (simp add: with_container_def refreshed_def)
  then show ?thesis by blast
next
  case (Some ctr)
  then show ?thesis by (auto simp: with_container_def refreshed_def)
qed

lemma refreshed_fields [simp]:
  "svc_name (refreshed i st svc) = svc_name svc" "svc_image (refreshed i st svc) = svc_image svc"
  "svc_build (refreshed i st svc) = svc_build svc" "svc_ports (refreshed i st svc) = svc_ports svc"
  "svc_environment (refreshed i st svc) = svc_environment svc" "svc_labels (refreshed i st svc) = svc_labels svc"
  "svc_depends (refreshed i st svc) = svc_depends svc" "svc_volumes (refreshed i st svc) = svc_volumes svc"
  "svc_networks (refreshed i st svc) = svc_networks svc" "svc_restart (refreshed i st svc) = svc_restart svc"
  "svc_command (refreshed i st svc) = svc_command svc" "svc_entrypoint (refreshed i st svc) = svc_entrypoint svc"
  by (simp_all add: refreshed_def)

lemma with_container_fields [simp]:
  "svc_name (with_container m svc) = svc_name svc" "svc_ports (with_container m svc) = svc_ports svc"
  "svc_depends (with_container m svc) = svc_depends svc"
  using with_container_refreshed [of m svc] by (metis refreshed_fields)+

lemma with_status_fields [simp]:
  "pr_id (with_status st m p) = pr_id p" "pr_name (with_status st m p) = pr_name p"
  "pr_path (with_status st m p) = pr_path p" "pr_networks (with_status st m p) = pr_networks p"
  "pr_volumes (with_status st m p) = pr_volumes p"
  "pr_services (with_status st m p) = map (with_container m) (pr_services p)"
  by (simp_all add: with_status_def)

section \<open>The order of the services\<close>

lemma update_map_values:
  "AList.update k (f v) (map (\<lambda>(k, v). (k, f v)) m) = map (\<lambda>(k, v). (k, f v)) (AList.update k v m)"
  by (induction m) auto

lemma svcMap_refreshed:
  "topo_svcMap (map (with_container m) svcs) = map (\<lambda>(k, s). (k, with_container m s)) (topo_svcMap svcs)"
proof -
  have "foldl (\<lambda>m s. AList.update (svc_name s) s m) (map (\<lambda>(k, s). (k, with_container m s)) acc) (map (with_container m) svcs)
      = map (\<lambda>(k, s). (k, with_container m s)) (foldl (\<lambda>m s. AList.update (svc_name s) s m) acc svcs)" for acc
    by (induction svcs arbitrary: acc) (simp_all add: update_map_values)
  from this [of "[]"] show ?thesis by (simp add: topo_svcMap_def)
qed

lemma graph_refreshed: "topo_graph (map (with_container m) svcs) = topo_graph svcs"
  by (simp add: topo_graph_def foldl_map)

lemma visit_refreshed:
  "topo_visit g (map (\<lambda>(k, s). (k, f s)) m) ns (visited, map f order) =
     (let (v, ord) = topo_visit g m ns (visited, order) in (v, map f ord))"
proof (induction g m ns "(visited, order)" arbitrary: visited order rule: topo_visit.induct)
  case (2 g m n ns visited order)
  show ?case
  proof (cases "n \<in> set visited")
    case True
    then show ?thesis using 2(1) by simp
  next
    case False
    obtain v o1 where 1: "topo_visit g m (graph_deps g n) (n # visited, order) = (v, o1)" by fastforce
    have ord: "(case map_of (map (\<lambda>(k, s). (k, f s)) m) n of None \<Rightarrow> map f o1 | Some s \<Rightarrow> map f o1 @ [s])
        = map f (case map_of m n of None \<Rightarrow> o1 | Some s \<Rightarrow> o1 @ [s])"
      by (simp add: map_of_map split: option.split)
    show ?thesis
      using False 2(2) [OF False] 2(3) [OF False refl 1 [symmetric]] 1 by (simp add: ord Let_def)
  qed
qed simp

lemma sort_refreshed:
  "topologicalSort order (map (with_container m) svcs) = map (with_container m) (topologicalSort order svcs)"
  using visit_refreshed [of "topo_graph svcs" "with_container m" "topo_svcMap svcs" _ "[]" "[]"]
  by (simp add: topologicalSort_def svcMap_refreshed graph_refreshed Let_def case_prod_unfold)

section \<open>The operations\<close>

lemma wanted_refreshed: "wanted_ports (map (with_container m) svcs) = wanted_ports svcs"
  by (simp add: wanted_ports_def comp_def)

lemma conflicts_refreshed:
  "checkPortConflicts e (map (with_container m) svcs) s = checkPortConflicts e svcs s"
proof -
  have "map svc_ports (map (with_container m) svcs) = map svc_ports svcs" by simp
  then show ?thesis unfolding checkPortConflicts_def wanted_refreshed by (simp only:)
qed

lemma filter_refreshed:
  "filterServices (with_status st m p) services = map (with_container m) (filterServices p services)"
  by (simp add: filterServices_def filter_map comp_def)

lemma up_network_refreshed: "up_network e (with_status st m p) n d cr r s = up_network e p n d cr r s"
proof -
  have "network_actual (with_status st m p) = network_actual p" "network_opts (with_status st m p) = network_opts p"
    by (simp_all add: network_actual_def network_opts_def fun_eq_iff)
  then show ?thesis by (simp only: up_network_def)
qed

lemma up_networks_refreshed: "up_networks e (with_status st m p) ns cr r s = up_networks e p ns cr r s"
  by (induction e p ns cr r s rule: up_networks.induct)
     (auto simp: up_network_refreshed split: prod.split sum.split)

lemma up_volume_refreshed: "up_volume e (with_status st m p) n d cr r s = up_volume e p n d cr r s"
proof -
  have "volume_actual (with_status st m p) = volume_actual p" "volume_opts (with_status st m p) = volume_opts p"
    by (simp_all add: volume_actual_def volume_opts_def fun_eq_iff)
  then show ?thesis by (simp only: up_volume_def with_status_fields)
qed

lemma up_volumes_refreshed: "up_volumes e (with_status st m p) ns cr r s = up_volumes e p ns cr r s"
  by (induction e p ns cr r s rule: up_volumes.induct)
     (auto simp: up_volume_refreshed split: prod.split sum.split)

lemma image_refreshed:
  "image_name (with_status st m p) (refreshed i t svc) = image_name p svc"
  "up_image e (with_status st m p) (refreshed i t svc) r s = up_image e p svc r s"
proof -
  show img: "image_name (with_status st m p) (refreshed i t svc) = image_name p svc" by (simp add: image_name_def)
  have "build_opts (with_status st m p) = build_opts p" by (simp add: build_opts_def fun_eq_iff)
  then show "up_image e (with_status st m p) (refreshed i t svc) r s = up_image e p svc r s"
    by (simp only: up_image_def img service_failure_def refreshed_fields)
qed

lemma config_refreshed: "container_config (with_status st m p) (refreshed i t svc) = container_config p svc"
proof -
  have "resolve_mount (with_status st m p) = resolve_mount p" "resolve_network (with_status st m p) = resolve_network p"
    unfolding fun_eq_iff by (simp_all only: resolve_mount_def resolve_network_def with_status_fields simp_thms)
  then show ?thesis
    by (simp add: container_config_def container_labels_def project_labels_def resolveVolumeMounts_def
        resolveNetworks_def image_refreshed)
qed

lemma up_container_refreshed:
  "up_container e (with_status st m p) (refreshed i t svc) cr r s = up_container e p svc cr r s"
  by (simp only: up_container_def config_refreshed service_failure_def refreshed_fields)

lemma up_service_refreshed:
  "up_service e (with_status st m p) (with_container m svc) cr r s = up_service e p svc cr r s"
proof -
  obtain i t where r: "with_container m svc = refreshed i t svc" using with_container_refreshed by blast
  show ?thesis unfolding r by (simp only: up_service_def image_refreshed up_container_refreshed refreshed_fields)
qed

lemma up_services_refreshed:
  "up_services e (with_status st m p) (map (with_container m) svcs) cr r s = up_services e p svcs cr r s"
  by (induction svcs arbitrary: cr r s) (auto simp: up_service_refreshed split: prod.split sum.split)

lemma Up_refreshed: "Up e (with_status st m p) services s = Up e p services s"
  by (simp only: Up_def filter_refreshed conflicts_refreshed up_networks_refreshed up_volumes_refreshed
      sort_refreshed up_services_refreshed with_status_fields Let_def)

lemma down_networks_refreshed: "down_networks e (with_status st m p) ns r s = down_networks e p ns r s"
  by (induction ns arbitrary: r s) (simp_all add: Let_def case_prod_unfold)

lemma containers_refreshed: "getProjectContainers e (with_status st m p) = getProjectContainers e p"
  by (simp add: getProjectContainers_def project_filter_def fun_eq_iff)

lemma others_refreshed:
  "Down e (with_status st m p) services s = Down e p services s"
  "Stop e (with_status st m p) services s = Stop e p services s"
  "Start e (with_status st m p) services s = Start e p services s"
  "Restart e (with_status st m p) services s = Restart e p services s"
  by (simp_all only: Down_def Stop_def Start_def Restart_def over_containers_def containers_refreshed
      down_networks_refreshed)

section \<open>Property\<close>

text \<open>
  Looking at a project does not change what happens to it: every operation does and returns the same
  on a project whose status, containers and states a concurrent look has refreshed as on the project
  before, whatever was found.
\<close>

lemma view_harmless:
  "executeOp e req (with_status st m p) s = executeOp e req p s"
  by (simp only: executeOp_def Up_refreshed others_refreshed Let_def)

end
