(* ===== verification/ApiProps.thy ===== *)
theory ApiProps
  imports ProjectApi ParserProps StoreProps AuthProps ScanProps Demo
begin

text \<open>
  The properties of the handlers: registration, access control and the routes' guard together, the
  table of projects, and operations on a busy project.
\<close>

section \<open>Registration\<close>

lemma sql_select_users: "sql dv (select q) s = (x, s1) \<Longrightarrow> db_users s1 = db_users s"
  by (auto simp: sql_def select_def Let_def split: option.splits)

lemma get_user_users: "get_user dv P s = (x, s1) \<Longrightarrow> db_users s1 = db_users s"
  by (auto simp: get_user_def split: prod.splits sum.splits option.splits dest: sql_select_users)

lemma register_role_users: "register_role dv s = (role, s1) \<Longrightarrow> db_users s1 = db_users s"
  by (auto simp: register_role_def UserCount_def split: prod.splits sum.splits dest: sql_select_users)

lemma register_role_cases:
  "register_role dv s = (role, s1) \<Longrightarrow>
     role \<in> {RoleAdmin, RoleViewer} \<and> (role = RoleAdmin \<longrightarrow> db_users s = [])"
  by (auto simp: register_role_def UserCount_def sql_def select_def Let_def
      split: prod.splits sum.splits option.splits if_splits)

lemma UserCreate_users:
  "UserCreate dv u pw s = (res, s1) \<Longrightarrow>
     (case res of Inl err \<Rightarrow> db_users s1 = db_users s
      | Inr _ \<Rightarrow> \<exists>h. db_users s1 = db_users s @ [u\<lparr>u_passwordhash := h\<rparr>])"
  by (auto simp: UserCreate_def sql_def insert_user_def ok_unit_def Let_def
      split: sum.splits option.splits if_splits)

section \<open>The list of projects and the guard\<close>

text \<open>The guard of the routes, reading the roles from the database.\<close>

definition db_guards :: "jwt_lib \<Rightarrow> JWTManager \<Rightarrow> time \<Rightarrow> db_env \<Rightarrow> db guards" where
  "db_guards lib m now dv =
     \<lparr>gd_lib = lib, gd_mgr = m, gd_now = now, gd_acl = (\<lambda>u p s. fst (GetUserProjectRole dv u p s))\<rparr>"

lemma GetUserProjectRole_state:
  "GetUserProjectRole dv u p s = (fst (GetUserProjectRole dv u p s), s\<lparr>db_calls := Suc (db_calls s)\<rparr>)"
  by (auto simp: GetUserProjectRole_def sql_def select_def Let_def split: option.splits)

text \<open>
  Whether the project check of the read routes lets a caller through to a project: what it answers in
  front of a handler that answers 200.
\<close>

definition caller_request :: "Claims \<Rightarrow> ProjectID \<Rightarrow> request" where
  "caller_request c k =
     \<lparr>rq_headers = [], rq_params = [(''projectID'', k)], rq_query = [], rq_claims = Some c, rq_uuid = []\<rparr>"

definition accepting :: "(payload, 's) handler" where
  "accepting r s = (\<lparr>rs_status = 200, rs_body = NoBody, rs_meta = None, rs_header = None\<rparr>, s)"

definition lets_through :: "db guards \<Rightarrow> Claims \<Rightarrow> ProjectID \<Rightarrow> db \<Rightarrow> bool" where
  "lets_through g c k s \<longleftrightarrow>
     rs_status (fst (apply_mw g (MwACL PermProjectRead) accepting (caller_request c k) s)) = 200"

lemma lets_through_iff:
  "k \<noteq> [] \<Longrightarrow> lets_through (db_guards lib m now dv) c k s \<longleftrightarrow>
     cl_role c = RoleAdmin \<or> fst (GetUserProjectRole dv (cl_userid c) k s) \<noteq> []"
  by (simp add: lets_through_def db_guards_def ProjectACLMiddleware_def caller_request_def accepting_def
      url_param_def str_at_def WriteError_def Let_def)

lemma visible_let_through:
  assumes "\<forall>(k, p) \<in> set ps. pr_id p = k \<and> k \<noteq> []"
  shows "fst (visible dv c ps (s\<lparr>db_calls := n\<rparr>)) =
    map (snd \<circ> snd) (filter (\<lambda>(i, k, p). lets_through (db_guards lib m now dv) c k (s\<lparr>db_calls := i\<rparr>)) (enumerate n ps))"
  using assms
proof (induction ps arbitrary: n)
  case (Cons kp ps)
  obtain k p where kp: "kp = (k, p)" by (cases kp)
  have k: "pr_id p = k" "k \<noteq> []" using Cons.prems by (simp_all add: kp)
  have admin: "fst (visible dv c ps t) = map snd ps" if "cl_role c = RoleAdmin" for t
    using that by (induction ps arbitrary: t) (auto simp: case_prod_unfold Let_def)
  have all: "filter (\<lambda>(i, k, p). lets_through (db_guards lib m now dv) c k (s\<lparr>db_calls := i\<rparr>)) (enumerate j ps) = enumerate j ps"
    if "cl_role c = RoleAdmin" for j
  proof -
    have "lets_through (db_guards lib m now dv) c k t" if "(i, k, p) \<in> set (enumerate j ps)" for i k p t
    proof -
      have "(k, p) \<in> set ps" using that by (metis in_set_zip in_set_conv_nth enumerate_eq_zip snd_conv)
      then show ?thesis using Cons.prems \<open>cl_role c = RoleAdmin\<close> by (auto simp: lets_through_iff)
    qed
    then show ?thesis by (auto simp: filter_id_conv)
  qed
  show ?case
  proof (cases "cl_role c = RoleAdmin")
    case True
    have "map (\<lambda>x. snd (snd x)) (enumerate j ps) = map snd ps" for j
      by (metis (no_types, lifting) comp_apply map_eq_conv map_map map_snd_enumerate)
    then show ?thesis using True k admin all by (simp add: kp lets_through_iff case_prod_unfold Let_def)
  next
    case False
    have "GetUserProjectRole dv u q (s\<lparr>db_calls := n\<rparr>)
        = (fst (GetUserProjectRole dv u q (s\<lparr>db_calls := n\<rparr>)), s\<lparr>db_calls := Suc n\<rparr>)" for u q
      using GetUserProjectRole_state [of dv u q "s\<lparr>db_calls := n\<rparr>"] by simp
    then show ?thesis
      using False Cons.IH [of "Suc n"] Cons.prems k
      by (simp add: kp lets_through_iff case_prod_unfold Let_def) (metis fst_conv snd_conv)
  qed
qed simp

section \<open>The table of projects\<close>

definition table_ok :: "projects \<Rightarrow> bool" where
  "table_ok ps \<longleftrightarrow> distinct (map fst ps) \<and> (\<forall>(k, p) \<in> set ps. pr_id p = k)"

definition parsed_from :: "parse_env \<Rightarrow> DiscoveredProject list \<Rightarrow> projects \<Rightarrow> bool" where
  "parsed_from pe ds ps \<longleftrightarrow> (\<forall>(k, p) \<in> set ps. \<exists>disc \<in> set ds. Parse pe disc = Inr p)"

lemma table_ok_update: "table_ok ps \<Longrightarrow> table_ok (AList.update (pr_id p) p ps)"
proof -
  assume ok: "table_ok ps"
  have "pr_id q = k" if "(k, q) \<in> set (AList.update (pr_id p) p ps)" for k q
  proof -
    have "map_of (AList.update (pr_id p) p ps) k = Some q"
      using that ok by (intro map_of_is_SomeI) (simp_all add: distinct_update table_ok_def)
    then show ?thesis using ok by (auto simp: table_ok_def split: if_splits dest: map_of_SomeD)
  qed
  then show ?thesis using ok by (auto simp: table_ok_def distinct_update)
qed

lemma update_subset: "set (AList.update k v m) \<subseteq> insert (k, v) (set m)"
  by (induction m) auto

lemma add_parsed_ok:
  "table_ok ps \<Longrightarrow> table_ok (add_parsed pe ds ps)"
  unfolding add_parsed_def
  by (induction ds arbitrary: ps) (auto simp: table_ok_update split: sum.splits)

lemma add_parsed_from:
  "parsed_from pe ds0 ps \<Longrightarrow> parsed_from pe (ds @ ds0) (add_parsed pe ds ps)"
proof (induction ds arbitrary: ps ds0)
  case Nil
  then show ?case by (simp add: add_parsed_def)
next
  case (Cons d ds)
  have step: "parsed_from pe (d # ds0)
      (case Parse pe d of Inl err \<Rightarrow> ps | Inr p \<Rightarrow> AList.update (pr_id p) p ps)"
    using Cons.prems update_subset [of _ _ ps] unfolding parsed_from_def
    by (fastforce split: sum.splits)
  have "parsed_from pe (ds @ d # ds0) (add_parsed pe (d # ds) ps)"
    using Cons.IH [OF step] by (simp add: add_parsed_def)
  then show ?case by (auto simp: parsed_from_def)
qed

text \<open>Every project of a scan that parses is in the table, unless a later one has its identity.\<close>

lemma add_parsed_complete:
  "(k \<in> fst ` set ps \<or> (\<exists>d \<in> set ds. \<exists>p. Parse pe d = Inr p \<and> pr_id p = k)) \<longleftrightarrow>
     k \<in> fst ` set (add_parsed pe ds ps)"
proof (induction ds arbitrary: ps)
  case (Cons d ds)
  have upd: "fst ` set (AList.update k' v ps) = insert k' (fst ` set ps)" for k' and v :: Project
    by (induction ps) auto
  show ?case
    using Cons.IH [of "case Parse pe d of Inl err \<Rightarrow> ps | Inr p \<Rightarrow> AList.update (pr_id p) p ps"] upd
    by (auto simp: add_parsed_def split: sum.splits)
qed (simp add: add_parsed_def)

section \<open>Properties\<close>

text \<open>
  C25: Registration gives no one more than a first user's rights: whatever the database answers, a
  registration that is answered with 201 adds exactly one user, with the requested name, as an
  administrator only when there was no user before and as a viewer otherwise; any other answer adds
  and changes no user.
\<close>

theorem Register_no_escalation:
  "case Register e uuid t1 t2 body r s of (resp, s') \<Rightarrow>
     if rs_status resp = 201
     then \<exists>u req. body = Some req \<and> db_users s' = db_users s @ [u] \<and> u_username u = rr_username req \<and>
            u_role u \<in> {RoleAdmin, RoleViewer} \<and> (u_role u = RoleAdmin \<longrightarrow> db_users s = [])
     else db_users s' = db_users s"
proof (cases body)
  case None
  then show ?thesis by (simp add: Register_def bad_request_def WriteError_def)
next
  case (Some req)
  show ?thesis
  proof (cases "rr_username req = [] \<or> rr_email req = [] \<or> rr_password req = [] \<or> length (rr_password req) < 8")
    case True
    then show ?thesis by (auto simp: Register_def Some bad_request_def WriteError_def)
  next
    case False
    obtain ex err s1 where 1: "GetByUsername (ae_dv e) (rr_username req) s = ((ex, err), s1)"
      by (metis prod.collapse)
    have u1: "db_users s1 = db_users s"
      using 1 unfolding GetByUsername_def by (rule get_user_users)
    obtain role s2 where 2: "register_role (ae_dv e) s1 = (role, s2)" by fastforce
    have u2: "db_users s2 = db_users s" using register_role_users [OF 2] u1 by simp
    let ?u = "new_user uuid (rr_username req) (rr_email req) role t1 t2"
    obtain res s3 where 3: "UserCreate (ae_dv e) ?u (rr_password req) s2 = (res, s3)" by fastforce
    show ?thesis
    proof (cases ex)
      case (Some u)
      then show ?thesis using False 1 u1 by (simp add: Register_def \<open>body = Some req\<close> WriteError_def)
    next
      case None
      then have reg: "Register e uuid t1 t2 body r s =
          (case res of
             Inl err \<Rightarrow> (internal_error r ''failed to create user'', s3)
           | Inr _ \<Rightarrow> (WriteJSON r 201 (PNewUser uuid (rr_username req) (rr_email req) role), s3))"
        using False 1 2 3 by (simp add: Register_def \<open>body = Some req\<close>)
      show ?thesis
        using UserCreate_users [OF 3] register_role_cases [OF 2] u1 u2 \<open>body = Some req\<close>
        unfolding reg
        by (auto simp: internal_error_def WriteError_def WriteJSON_def new_user_def split: sum.splits)
    qed
  qed
qed

text \<open>
  C33: The list of projects agrees with the guard of the project routes. The projects listed for a caller
  are exactly those of the table, in its order, to which the project check of the read routes lets the
  caller through, the check reading the roles from the database as it is when the listing asks for that
  project, failing statements included.
\<close>

theorem ListProjects_agrees_with_guard:
  assumes "table_ok (ap_projects s)" "[] \<notin> fst ` set (ap_projects s)"
  shows "rs_body (fst (HandleListProjects sv c r s)) = DataBody (PProjects (map (snd \<circ> snd)
    (filter (\<lambda>(i, k, p). lets_through (db_guards lib m now (sv_dv sv)) c k ((ap_db s)\<lparr>db_calls := i\<rparr>))
       (enumerate (db_calls (ap_db s)) (ap_projects s)))))"
proof -
  have "\<forall>(k, p) \<in> set (ap_projects s). pr_id p = k \<and> k \<noteq> []"
    using assms by (auto simp: table_ok_def intro: rev_image_eqI)
  from visible_let_through [OF this, where s = "ap_db s" and n = "db_calls (ap_db s)" and dv = "sv_dv sv" and c = c] show ?thesis
    by (simp add: HandleListProjects_def WriteJSON_def case_prod_unfold Let_def)
qed

definition demo_accounts :: api_env where
  "demo_accounts = \<lparr>ae_dv = steady, ae_lib = demo_lib, ae_mgr = demo_mgr\<rparr>"

definition ann_request :: RegisterRequest where
  "ann_request = \<lparr>rr_username = ''ann'', rr_email = ''a@x'', rr_password = ''secret99''\<rparr>"

lemma Register_no_escalation_witness:
  "\<exists>u. db_users (snd (Register demo_accounts ''u9'' 1 1 (Some ann_request) (token_request [] []) empty_db)) = [u] \<and>
     u_username u = ''ann'' \<and> u_role u \<in> {RoleAdmin, RoleViewer}"
proof -
  have "rs_status (fst (Register demo_accounts ''u9'' 1 1 (Some ann_request) (token_request [] []) empty_db)) = 201"
    by code_simp
  then show ?thesis
    using Register_no_escalation [of "Some ann_request" empty_db demo_accounts "''u9''" 1 1 "token_request [] []"]
    by (simp only: case_prod_unfold if_True) (auto simp: ann_request_def empty_db_def)
qed

definition sample_project :: Project where
  "sample_project = build_project demo_pe demo_disc demo_final"

lemma sample_project_id: "Parse demo_pe demo_disc = Inr sample_project"
  by (simp add: sample_project_def demo_Parse)

text \<open>
  C14: A scan makes a sound table: after a triggered scan that succeeds, the table has one entry for
  every identity among the discovered projects that parse and no other; each is stored under its own
  identity, and is a freshly parsed, well-formed project of a directory found by the scan.
\<close>

theorem TriggerScan_table:
  assumes "yaml_wf (sv_pe sv)" "range_wf (sv_pe sv)"
    "Scan (sv_fs sv) (sv_depth sv) (sv_root sv) = Inr ds"
  shows "table_ok (ap_projects (snd (HandleTriggerScan sv r s))) \<and>
    fst ` set (ap_projects (snd (HandleTriggerScan sv r s)))
      = {pr_id p | p. \<exists>d \<in> set ds. Parse (sv_pe sv) d = Inr p} \<and>
    (\<forall>p \<in> snd ` set (ap_projects (snd (HandleTriggerScan sv r s))).
       \<exists>d \<in> set ds. project_ok (sv_fs sv) d \<and> fresh_project (sv_pe sv) d p)"
proof -
  let ?new = "add_parsed (sv_pe sv) ds []"
  have new: "ap_projects (snd (HandleTriggerScan sv r s)) = ?new"
    using assms(3) by (simp add: HandleTriggerScan_def Let_def)
  obtain cur w where w: "walk (sv_fs sv) (sv_depth sv) cur 0 init_ws = (None, w)" "ws_projects w = ds"
    using Scan_walk [OF assms(3)] by blast
  have "\<forall>p \<in> set (ws_projects init_ws). project_ok (sv_fs sv) p" by (simp add: init_ws_def)
  from shape.walk_inv [OF this w(1)] have ok: "\<forall>d \<in> set ds. project_ok (sv_fs sv) d" using w(2) by simp
  have fresh: "fresh_project (sv_pe sv) d p" if "Parse (sv_pe sv) d = Inr p" for d p
    by (rule Parse_fresh_project [OF assms(1,2) that])
  have "parsed_from (sv_pe sv) (ds @ []) ?new"
    by (rule add_parsed_from) (simp add: parsed_from_def)
  then have from_ds: "\<forall>p \<in> snd ` set ?new. \<exists>d \<in> set ds. Parse (sv_pe sv) d = Inr p"
    by (auto simp: parsed_from_def)
  have keys: "fst ` set ?new = {pr_id p | p. \<exists>d \<in> set ds. Parse (sv_pe sv) d = Inr p}"
  proof (rule set_eqI)
    fix k
    show "k \<in> fst ` set ?new \<longleftrightarrow> k \<in> {pr_id p | p. \<exists>d \<in> set ds. Parse (sv_pe sv) d = Inr p}"
      unfolding add_parsed_complete [of k "[]" ds "sv_pe sv", symmetric] by auto
  qed
  have "table_ok ?new" by (rule add_parsed_ok) (simp add: table_ok_def)
  moreover have "\<exists>d \<in> set ds. project_ok (sv_fs sv) d \<and> fresh_project (sv_pe sv) d p"
    if "p \<in> snd ` set ?new" for p
    using from_ds that ok fresh by (meson bspec)
  ultimately show ?thesis unfolding new keys by blast
qed

definition p_tree :: "(string, frow) gomap" where
  "p_tree = [(''/p'', fdir 7 [ent FOther ''.env'', ent FOther ''compose.override.yml'',
                              ent FOther ''compose.yml''])]"

definition demo_server :: "nat server" where
  "demo_server = \<lparr>sv_dv = steady, sv_fs = table_fs p_tree, sv_depth = 10, sv_root = ''/p'',
     sv_pe = demo_pe, sv_docker = demo_good,
     sv_parseduration = (\<lambda>s. None)\<rparr>"

definition demo_api :: "nat api" where
  "demo_api = \<lparr>ap_db = empty_db, ap_projects = [], ap_ex = NewExecutor, ap_docker = demo_state\<rparr>"

text \<open>A table of one project, an operator's claims, and the entry that lets the operator read it.\<close>

definition listed_api :: "nat api" where
  "listed_api = demo_api\<lparr>ap_projects := [(''p'', sample_project\<lparr>pr_id := ''p''\<rparr>)],
     ap_db := empty_db\<lparr>db_acls := [\<lparr>acl_user = ''u1'', acl_project = ''p'', acl_role = RoleViewer,
       acl_grantedby = ''a'', acl_grantedat = 0\<rparr>]\<rparr>\<rparr>"

lemma ListProjects_agrees_with_guard_witness:
  "rs_body (fst (HandleListProjects demo_server (access_claims demo_lib demo_mgr 100 demo_user)
       (token_request ''A'' []) listed_api)) = DataBody (PProjects [sample_project\<lparr>pr_id := ''p''\<rparr>])"
proof -
  let ?c = "access_claims demo_lib demo_mgr 100 demo_user"
  have t: "table_ok (ap_projects listed_api)" "[] \<notin> fst ` set (ap_projects listed_api)"
    by (simp_all add: table_ok_def listed_api_def)
  have "lets_through (db_guards demo_lib demo_mgr 500 (sv_dv demo_server)) ?c ''p'' ((ap_db listed_api)\<lparr>db_calls := 0\<rparr>)"
    by (simp add: lets_through_iff listed_api_def GetUserProjectRole_def sql_def select_def demo_server_def
        steady_def acl_at_def empty_db_def access_claims_def demo_user_def role_consts)
  then show ?thesis
    using ListProjects_agrees_with_guard [OF t, of demo_server ?c "token_request ''A'' []" demo_lib demo_mgr 500]
    by (simp add: listed_api_def empty_db_def)
qed

lemma demo_server_scan:
  "Scan (sv_fs demo_server) (sv_depth demo_server) (sv_root demo_server) = Inr [demo_disc]"
proof -
  have "Scan (table_fs p_tree) 10 ''/p'' = Inr [demo_disc]" by code_simp
  then show ?thesis by (simp add: demo_server_def)
qed

lemma TriggerScan_table_witness:
  "fst ` set (ap_projects (snd (HandleTriggerScan demo_server (token_request ''A'' []) demo_api)))
     = {pr_id sample_project}"
proof -
  have w: "yaml_wf (sv_pe demo_server)" "range_wf (sv_pe demo_server)"
    by (simp_all add: demo_server_def demo_yaml_wf demo_range_wf)
  have "Parse (sv_pe demo_server) demo_disc = Inr sample_project"
    by (simp add: demo_server_def sample_project_id)
  then show ?thesis
    using TriggerScan_table [OF w demo_server_scan, of "token_request ''A'' []" demo_api] by auto
qed

text \<open>What a page of a listing holds: a number of rows, under the total and the bounds it repeats.\<close>

definition page_rows :: "payload \<Rightarrow> nat" where
  "page_rows d = (case d of PUsers us \<Rightarrow> length us | PAudit es \<Rightarrow> length es | _ \<Rightarrow> 0)"

definition page_ok :: "nat \<Rightarrow> payload response \<Rightarrow> bool" where
  "page_ok tot resp \<longleftrightarrow>
     (case rs_body resp of
        PageBody d n off lim \<Rightarrow>
          n = int tot \<and> 0 \<le> off \<and> 0 < lim \<and> page_rows d \<le> 100 \<and>
          int (page_rows d) = max 0 (min (if lim \<le> 100 then lim else 50) (int tot - off))
      | _ \<Rightarrow> rs_status resp = 500)"

lemma page_size:
  "0 \<le> po_offset opts \<Longrightarrow> 0 < po_limit opts \<Longrightarrow>
     int (length (page (normalizeOpts opts) rows))
       = max 0 (min (if po_limit opts \<le> 100 then po_limit opts else 50) (int (length rows) - po_offset opts))"
  by (auto simp: length_page normalizeOpts_def)

lemma list_query_size:
  assumes "list_query dv rows created (parsePagination r) s = (Inr (rs, n), s')" "\<And>k. rows (s\<lparr>db_calls := k\<rparr>) = rows s"
  shows "n = length (rows s) \<and> length rs \<le> 100 \<and>
    int (length rs) = max 0 (min (if po_limit (parsePagination r) \<le> 100 then po_limit (parsePagination r) else 50)
      (int (length (rows s)) - po_offset (parsePagination r)))"
  using list_query_page [OF assms(1)] parsePagination_bounds [of r] page_length
  by (simp add: assms(2) page_size)

text \<open>
  C40: No paginated listing answers with more than a hundred rows, whatever limit and offset the request
  asks for, numbers too large for 64 bits and nonsense included. The listings of users, of the audit
  log and of a project's audit log answer 500, or with a page whose total is the number of matching rows
  and which has as many of them as the bounds leave: a limit above 100 counts as 50. The bounds it
  repeats are never negative. (The projects and the access-control entries are not paginated.)
\<close>

theorem listing_bounded:
  "page_ok (length (db_users s)) (fst (HandleUserList e r s)) \<and>
   page_ok (length (db_audit s)) (fst (HandleAuditAll e r s)) \<and>
   page_ok (length (filter (\<lambda>a. ar_project a = Some (url_param r ''projectID'')) (db_audit s)))
     (fst (HandleAuditByProject e r s))"
proof (intro conjI)
  note page = list_query_size [of "ae_dv e" _ _ r s] and bounds = parsePagination_bounds [of r]
  note defs = page_ok_def page_rows_def WritePaginated_def internal_error_def WriteError_def
  show "page_ok (length (db_users s)) (fst (HandleUserList e r s))"
    using bounds by (auto simp: HandleUserList_def UserList_def Let_def defs split: prod.split sum.split dest!: page)
  have audit: "page_ok (length (filter P (db_audit s)))
      (fst (send_page r (parsePagination r) (audit_query (ae_dv e) P (parsePagination r) s)))" for P
    using bounds by (auto simp: send_page_def audit_query_def defs split: prod.split sum.split dest!: page)
  show "page_ok (length (db_audit s)) (fst (HandleAuditAll e r s))"
    using audit [of "\<lambda>_. True"] by (simp add: HandleAuditAll_def AuditList_def Let_def)
  show "page_ok (length (filter (\<lambda>a. ar_project a = Some (url_param r ''projectID'')) (db_audit s)))
     (fst (HandleAuditByProject e r s))"
    using audit by (simp add: HandleAuditByProject_def AuditListByProject_def Let_def)
qed

section \<open>What the handlers answer in the corners\<close>

text \<open>An operation on a project that another operation holds is refused, and nothing changes.\<close>

lemma HandleOp_busy:
  assumes "IsLocked (ex_locker (ap_ex s)) (url_param r ''projectID'') = (True, holder)"
  shows "HandleOp sv uuid now ctx opType body r s =
    Some (WriteError r 409 ErrOperationInProgress (''project is locked by operation '' @ holder)
            (OperationIDDetails holder), s)"
proof -
  let ?req = "op_request uuid opType r (ob_services body) (op_timeout (sv_parseduration sv) (ob_timeout body))"
  have "sc_project (req_scope (default_request uuid now ?req)) = url_param r ''projectID''"
    by (simp add: default_request_def op_request_def Let_def)
  then show ?thesis
    using assms
    by (simp add: HandleOp_def run_request_def Execute_def execute_guard_def Let_def send_error_def)
qed

text \<open>
  A failing look-up of the name is taken for an existing user: the reader returns a pointer together
  with the error, and registration only tests the pointer.
\<close>

lemma Register_hides_failure:
  assumes "dv_fault (ae_dv e) (db_calls s) = Some err" "rr_username req \<noteq> []" "rr_email req \<noteq> []"
    "8 \<le> length (rr_password req)"
  shows "fst (Register e uuid t1 t2 (Some req) r s)
    = WriteError r 409 ErrUserExists ''username already taken'' NilDetails"
proof -
  have "rr_password req \<noteq> []" using assms(4) by auto
  moreover obtain s1 where "GetByUsername (ae_dv e) (rr_username req) s = ((Some zero_user, Some err), s1)"
    using assms(1) by (auto simp: GetByUsername_def get_user_def sql_def Let_def)
  ultimately show ?thesis using assms(2-4) by (simp add: Register_def)
qed

text \<open>The answer of a listing repeats the limit of the request, not the one the store used.\<close>

lemma listing_echoes_limit:
  "parsePagination \<lparr>rq_headers = [], rq_params = [], rq_query = [(''limit'', ''500'')], rq_claims = None,
       rq_uuid = []\<rparr> = \<lparr>po_offset = 0, po_limit = 500\<rparr>"
  "po_limit (normalizeOpts \<lparr>po_offset = 0, po_limit = 500\<rparr>) = 50"
  by code_simp+

end
