(* ===== verification/Sse.thy ===== *)
theory Sse
  imports Prelude GoStrings
begin

text \<open>
  \<open>internal/sse\<close>: the broker of server-sent events, with its subscribers, their bounded channels and
  the goroutine that cleans up after each, and the frames the handler writes.

  A channel is a number with a buffer; the goroutine of a subscription waits for its context, deletes
  the subscription's identifier from the table, and closes the channel, two steps that other
  goroutines may separate. The instants are arguments, and their format is a parameter. Sending to a
  closed channel and closing one twice would panic; the model keeps the channels that were closed so
  that this can be excluded.
\<close>

section \<open>State\<close>

datatype EventType =
    EventContainerState | EventContainerStats | EventOperation | EventLog | EventDockerEvent
  | EventShutdown

fun event_type_string :: "EventType \<Rightarrow> string" where
  "event_type_string EventContainerState = ''container.state''"
| "event_type_string EventContainerStats = ''container.stats''"
| "event_type_string EventOperation = ''operation''"
| "event_type_string EventLog = ''log''"
| "event_type_string EventDockerEvent = ''docker.event''"
| "event_type_string EventShutdown = ''shutdown''"

text \<open>\<open>None\<close> is nil data.\<close>

record 'd Event =
  ev_id :: string
  ev_type :: EventType
  ev_topic :: string
  ev_data :: "'d option"
  ev_time :: time

record subscriber =
  sub_id :: string
  sub_ch :: nat
  sub_topics :: "string list"

datatype cleanup = Waiting | Deleted | Closed

record 'd broker =
  br_subs :: "(string, subscriber) gomap"
  br_closed :: bool
  br_chans :: "nat \<Rightarrow> 'd Event list"
  br_cleanup :: "nat \<Rightarrow> string \<times> cleanup"
  br_cancelled :: "nat list"
  br_next :: nat
  br_counter :: nat

definition NewBroker :: "'d broker" where
  "NewBroker =
     \<lparr>br_subs = [], br_closed = False, br_chans = (\<lambda>c. []), br_cleanup = (\<lambda>c. ([], Waiting)),
      br_cancelled = [], br_next = 0, br_counter = 0\<rparr>"

section \<open>Operations\<close>

definition buffer_size :: nat where "buffer_size = 128"

text \<open>The second of the instant and the last digit of a 64-bit counter.\<close>

definition generateID :: "(time \<Rightarrow> string) \<Rightarrow> time \<Rightarrow> 'd broker \<Rightarrow> string \<times> 'd broker" where
  "generateID fmt now b =
     (let n = (br_counter b + 1) mod 2 ^ 64
      in (fmt now @ ''-'' @ [digit_char (n mod 10)], b\<lparr>br_counter := n\<rparr>))"

definition Subscribe :: "(time \<Rightarrow> string) \<Rightarrow> time \<Rightarrow> string list \<Rightarrow> 'd broker \<Rightarrow> nat \<times> 'd broker" where
  "Subscribe fmt now topics b =
     (let (i, b) = generateID fmt now b; c = br_next b
      in (c, b\<lparr>br_subs := AList.update i \<lparr>sub_id = i, sub_ch = c, sub_topics = topics\<rparr> (br_subs b),
               br_cleanup := (br_cleanup b)(c := (i, Waiting)), br_next := Suc c\<rparr>))"

text \<open>\<open>select { case ch <- e: default: }\<close>: an event that finds the buffer full is dropped.\<close>

definition offer :: "'d Event \<Rightarrow> nat \<Rightarrow> (nat \<Rightarrow> 'd Event list) \<Rightarrow> nat \<Rightarrow> 'd Event list" where
  "offer e c chans = (if length (chans c) < buffer_size then chans(c := chans c @ [e]) else chans)"

definition wants :: "string \<Rightarrow> subscriber \<Rightarrow> bool" where
  "wants topic sub = (topic \<in> set (sub_topics sub) \<or> ''*'' \<in> set (sub_topics sub))"

definition stamp_event ::
    "(time \<Rightarrow> string) \<Rightarrow> time \<Rightarrow> string \<Rightarrow> 'd Event \<Rightarrow> 'd broker \<Rightarrow> 'd Event \<times> 'd broker" where
  "stamp_event fmt now topic e b =
     (let e = e\<lparr>ev_topic := topic\<rparr>;
          e = (if ev_time e = 0 then e\<lparr>ev_time := now\<rparr> else e)
      in if ev_id e = [] then (let (i, b) = generateID fmt now b in (e\<lparr>ev_id := i\<rparr>, b)) else (e, b))"

definition Publish :: "(time \<Rightarrow> string) \<Rightarrow> time \<Rightarrow> string \<Rightarrow> 'd Event \<Rightarrow> 'd broker \<Rightarrow> 'd broker" where
  "Publish fmt now topic event b =
     (if br_closed b then b
      else
        (let (e, b) = stamp_event fmt now topic event b
         in b\<lparr>br_chans := fold (\<lambda>(i, sub) chans. if wants topic sub then offer e (sub_ch sub) chans else chans)
              (br_subs b) (br_chans b)\<rparr>))"

definition CloseBroker :: "(time \<Rightarrow> string) \<Rightarrow> time \<Rightarrow> 'd broker \<Rightarrow> 'd broker" where
  "CloseBroker fmt now b =
     (let (i, b) = generateID fmt now (b\<lparr>br_closed := True\<rparr>);
          e = \<lparr>ev_id = i, ev_type = EventShutdown, ev_topic = [], ev_data = None, ev_time = now\<rparr>
      in b\<lparr>br_chans := fold (\<lambda>(i, sub). offer e (sub_ch sub)) (br_subs b) (br_chans b),
           br_cancelled := map (sub_ch \<circ> snd) (br_subs b) @ br_cancelled b\<rparr>)"

text \<open>The end of a subscription's context: \<open>unsubscribe\<close>, the request's end, or \<open>Close\<close>.\<close>

definition cancel_sub :: "nat \<Rightarrow> 'd broker \<Rightarrow> 'd broker" where
  "cancel_sub c b = b\<lparr>br_cancelled := c # br_cancelled b\<rparr>"

definition cleanup_delete :: "nat \<Rightarrow> 'd broker \<Rightarrow> 'd broker" where
  "cleanup_delete c b =
     (let i = fst (br_cleanup b c)
      in b\<lparr>br_subs := AList.delete i (br_subs b), br_cleanup := (br_cleanup b)(c := (i, Deleted))\<rparr>)"

definition cleanup_close :: "nat \<Rightarrow> 'd broker \<Rightarrow> 'd broker" where
  "cleanup_close c b = b\<lparr>br_cleanup := (br_cleanup b)(c := (fst (br_cleanup b c), Closed))\<rparr>"

text \<open>The reader's side: an event, or the end of a closed channel whose buffer is empty.\<close>

definition receive :: "nat \<Rightarrow> 'd broker \<Rightarrow> ('d Event option \<times> 'd broker) option" where
  "receive c b =
     (case br_chans b c of
        e # es \<Rightarrow> Some (Some e, b\<lparr>br_chans := (br_chans b)(c := es)\<rparr>)
      | [] \<Rightarrow> if snd (br_cleanup b c) = Closed then Some (None, b) else None)"

section \<open>Frames\<close>

text \<open>One event on the wire; \<open>marshal\<close> is \<open>json.Marshal\<close>, and an event it refuses is skipped.\<close>

definition sse_frame :: "'d Event \<Rightarrow> string \<Rightarrow> string" where
  "sse_frame e data =
     ''id: '' @ ev_id e @ [newline] @ ''event: '' @ event_type_string (ev_type e) @ [newline]
     @ ''data: '' @ data @ [newline, newline]"

fun serve_events :: "('d Event \<Rightarrow> string option) \<Rightarrow> 'd Event list \<Rightarrow> string" where
  "serve_events marshal [] = []"
| "serve_events marshal (e # es) =
     (case marshal e of None \<Rightarrow> [] | Some data \<Rightarrow> sse_frame e data) @ serve_events marshal es"

section \<open>Steps and their invariant\<close>

inductive sse_step :: "(time \<Rightarrow> string) \<Rightarrow> 'd broker \<Rightarrow> 'd broker \<Rightarrow> bool" for fmt where
  subscribe: "Subscribe fmt now topics b = (c, b') \<Longrightarrow> sse_step fmt b b'"
| publish: "sse_step fmt b (Publish fmt now topic e b)"
| close: "sse_step fmt b (CloseBroker fmt now b)"
| cancel: "c < br_next b \<Longrightarrow> sse_step fmt b (cancel_sub c b)"
| delete: "c < br_next b \<Longrightarrow> c \<in> set (br_cancelled b) \<Longrightarrow> snd (br_cleanup b c) = Waiting \<Longrightarrow>
     sse_step fmt b (cleanup_delete c b)"
| close_chan: "c < br_next b \<Longrightarrow> snd (br_cleanup b c) = Deleted \<Longrightarrow> sse_step fmt b (cleanup_close c b)"
| receive: "receive c b = Some (x, b') \<Longrightarrow> sse_step fmt b b'"

inductive sse_reach :: "(time \<Rightarrow> string) \<Rightarrow> 'd broker \<Rightarrow> bool" for fmt where
  sse_init: "sse_reach fmt NewBroker"
| sse_more: "sse_reach fmt b \<Longrightarrow> sse_step fmt b b' \<Longrightarrow> sse_reach fmt b'"

text \<open>
  Registered subscriptions have pairwise different channels whose cleaning goroutine still waits, so
  none of them is closed; and no buffer exceeds its size.
\<close>

definition subs_ok :: "'d broker \<Rightarrow> bool" where
  "subs_ok b \<longleftrightarrow>
     distinct (map fst (br_subs b)) \<and> distinct (map (sub_ch \<circ> snd) (br_subs b)) \<and>
     (\<forall>(i, sub) \<in> set (br_subs b). sub_ch sub < br_next b \<and> br_cleanup b (sub_ch sub) = (i, Waiting))"

definition bufs_ok :: "'d broker \<Rightarrow> bool" where
  "bufs_ok b \<longleftrightarrow> (\<forall>c. length (br_chans b c) \<le> buffer_size)"

lemma offer_bound: "(\<forall>c. length (chans c) \<le> buffer_size) \<Longrightarrow> (\<forall>c. length (offer e c' chans c) \<le> buffer_size)"
  by (auto simp: offer_def)

lemma fold_offer_bound:
  "(\<forall>c. length (chans c) \<le> buffer_size) \<Longrightarrow>
     (\<forall>c. length (fold (\<lambda>(i, sub) chans. if P sub then offer e (sub_ch sub) chans else chans) subs chans c)
        \<le> buffer_size)"
proof (induction subs arbitrary: chans)
  case (Cons x subs)
  then show ?case using offer_bound [OF Cons.prems] by (auto split: prod.splits)
qed simp

text \<open>What a round of offers does to each channel.\<close>

lemma fold_offer:
  "distinct (map (sub_ch \<circ> snd) subs) \<Longrightarrow>
     fold (\<lambda>(i, sub) chans. if P sub then offer e (sub_ch sub) chans else chans) subs chans c =
       (if (\<exists>(i, sub) \<in> set subs. sub_ch sub = c \<and> P sub) \<and> length (chans c) < buffer_size
        then chans c @ [e] else chans c)"
proof (induction subs arbitrary: chans)
  case (Cons x subs)
  obtain i sub where x: "x = (i, sub)" by (cases x)
  show ?case
  proof (cases "sub_ch sub = c")
    case True
    then have "\<not> (\<exists>(i, sub) \<in> set subs. sub_ch sub = c \<and> P sub)" using Cons.prems x by force
    then show ?thesis using Cons True x by (auto simp: offer_def)
  next
    case False
    then show ?thesis using Cons x by (auto simp: offer_def)
  qed
qed simp

lemma generateID_frame:
  "generateID fmt now b = (i, b') \<Longrightarrow>
     br_subs b' = br_subs b \<and> br_chans b' = br_chans b \<and> br_cleanup b' = br_cleanup b \<and>
     br_next b' = br_next b \<and> br_closed b' = br_closed b \<and> br_cancelled b' = br_cancelled b"
  by (auto simp: generateID_def Let_def)

lemma stamp_event_frame:
  "stamp_event fmt now topic e b = (e', b') \<Longrightarrow>
     br_subs b' = br_subs b \<and> br_chans b' = br_chans b \<and> br_cleanup b' = br_cleanup b \<and>
     br_next b' = br_next b \<and> br_closed b' = br_closed b"
  by (auto simp: stamp_event_def Let_def split: prod.splits if_splits dest!: generateID_frame)

lemma update_set_distinct: "distinct (map fst m) \<Longrightarrow>
    set (AList.update k v m) = insert (k, v) {x \<in> set m. fst x \<noteq> k}"
  by (induction m) (auto simp: image_iff split: prod.splits)

lemma distinct_update_ch:
  "distinct (map (sub_ch \<circ> snd) m) \<Longrightarrow> sub_ch v \<notin> (sub_ch \<circ> snd) ` set m \<Longrightarrow>
     distinct (map (sub_ch \<circ> snd) (AList.update k v m))"
proof (induction m)
  case (Cons x m)
  have "set (AList.update k v m) \<subseteq> insert (k, v) (set m)" by (induction m) auto
  then show ?case using Cons by (cases x) (auto simp: image_iff subset_iff, fastforce+)
qed simp

lemma subs_ok_subscribe:
  assumes "subs_ok b" "Subscribe fmt now topics b = (c, b')"
  shows "subs_ok b'"
proof -
  obtain i b1 where g: "generateID fmt now b = (i, b1)" by fastforce
  note f = generateID_frame [OF g]
  let ?s = "\<lparr>sub_id = i, sub_ch = br_next b, sub_topics = topics\<rparr>"
  have b': "br_subs b' = AList.update i ?s (br_subs b)" "br_next b' = Suc (br_next b)"
      "br_cleanup b' = (br_cleanup b)(br_next b := (i, Waiting))"
    using assms(2) g f by (auto simp: Subscribe_def Let_def)
  have d: "distinct (map fst (br_subs b))" using assms(1) by (simp add: subs_ok_def)
  have "br_next b \<notin> (sub_ch \<circ> snd) ` set (br_subs b)"
    using assms(1) by (fastforce simp: subs_ok_def)
  then have "distinct (map (sub_ch \<circ> snd) (br_subs b'))"
    unfolding b' using assms(1) by (intro distinct_update_ch) (auto simp: subs_ok_def)
  moreover have "distinct (map fst (br_subs b'))" unfolding b' using d by (simp add: distinct_update)
  moreover have "\<forall>(j, sub) \<in> set (br_subs b'). sub_ch sub < br_next b' \<and> br_cleanup b' (sub_ch sub) = (j, Waiting)"
    unfolding b' update_set_distinct [OF d] using assms(1) by (fastforce simp: subs_ok_def)
  ultimately show ?thesis by (simp add: subs_ok_def)
qed

lemma subs_ok_frame:
  "subs_ok b \<Longrightarrow> br_subs b' = br_subs b \<Longrightarrow> br_cleanup b' = br_cleanup b \<Longrightarrow> br_next b' = br_next b \<Longrightarrow> subs_ok b'"
  by (simp add: subs_ok_def)

lemma subs_ok_delete:
  assumes "subs_ok b"
  shows "subs_ok (cleanup_delete c b)"
proof -
  let ?i = "fst (br_cleanup b c)"
  have s: "set (AList.delete ?i (br_subs b)) = {x \<in> set (br_subs b). fst x \<noteq> ?i}"
    by (auto simp: AList.delete_eq)
  have "sub_ch sub \<noteq> c" if "(j, sub) \<in> set (br_subs b)" "j \<noteq> ?i" for j sub
    using that assms by (fastforce simp: subs_ok_def)
  then show ?thesis
    using assms s by (auto simp: subs_ok_def cleanup_delete_def Let_def AList.delete_eq distinct_map_filter)
qed

lemma subs_ok_close_chan:
  "subs_ok b \<Longrightarrow> snd (br_cleanup b c) = Deleted \<Longrightarrow> subs_ok (cleanup_close c b)"
  by (fastforce simp: subs_ok_def cleanup_close_def)

lemma Publish_frame:
  "br_subs (Publish fmt now topic e b) = br_subs b \<and> br_cleanup (Publish fmt now topic e b) = br_cleanup b \<and>
   br_next (Publish fmt now topic e b) = br_next b"
proof -
  obtain e' b' where "stamp_event fmt now topic e b = (e', b')" by fastforce
  from this stamp_event_frame [OF this] show ?thesis by (simp add: Publish_def)
qed

lemma CloseBroker_frame:
  "br_subs (CloseBroker fmt now b) = br_subs b \<and> br_cleanup (CloseBroker fmt now b) = br_cleanup b \<and>
   br_next (CloseBroker fmt now b) = br_next b"
proof -
  obtain i b' where "generateID fmt now (b\<lparr>br_closed := True\<rparr>) = (i, b')" by fastforce
  from this generateID_frame [OF this] show ?thesis by (simp add: CloseBroker_def)
qed

lemma receive_frame:
  "receive c b = Some (x, b') \<Longrightarrow>
     br_subs b' = br_subs b \<and> br_cleanup b' = br_cleanup b \<and> br_next b' = br_next b \<and>
     (bufs_ok b \<longrightarrow> bufs_ok b')"
  by (auto simp: receive_def bufs_ok_def split: list.splits if_splits) (metis Suc_leD length_Cons)

lemma bufs_ok_Publish: "bufs_ok b \<Longrightarrow> bufs_ok (Publish fmt now topic e b)"
proof -
  assume ok: "bufs_ok b"
  obtain e' b' where s: "stamp_event fmt now topic e b = (e', b')" by fastforce
  show ?thesis
    using stamp_event_frame [OF s] s ok fold_offer_bound [of "br_chans b" "wants topic" e' "br_subs b"]
    by (simp add: Publish_def bufs_ok_def)
qed

lemma bufs_ok_CloseBroker: "bufs_ok b \<Longrightarrow> bufs_ok (CloseBroker fmt now b)"
proof -
  assume ok: "bufs_ok b"
  obtain i b' where s: "generateID fmt now (b\<lparr>br_closed := True\<rparr>) = (i, b')" by fastforce
  let ?e = "\<lparr>ev_id = i, ev_type = EventShutdown, ev_topic = [], ev_data = None, ev_time = now\<rparr>"
  show ?thesis
    using generateID_frame [OF s] s ok fold_offer_bound [of "br_chans b" "\<lambda>_. True" ?e "br_subs b"]
    by (simp add: CloseBroker_def bufs_ok_def)
qed

lemma sse_step_ok: "sse_step fmt b b' \<Longrightarrow> subs_ok b \<and> bufs_ok b \<Longrightarrow> subs_ok b' \<and> bufs_ok b'"
proof (induction rule: sse_step.induct)
  case (subscribe now topics b c b')
  have "br_chans b' = br_chans b"
    using subscribe.hyps by (auto simp: Subscribe_def Let_def split: prod.splits dest: generateID_frame)
  then show ?case using subscribe subs_ok_subscribe by (auto simp: bufs_ok_def)
next
  case (publish b now topic e)
  then show ?case using Publish_frame subs_ok_frame bufs_ok_Publish by metis
next
  case (close b now)
  then show ?case using CloseBroker_frame subs_ok_frame bufs_ok_CloseBroker by metis
next
  case (cancel c b)
  then show ?case by (simp add: cancel_sub_def subs_ok_def bufs_ok_def)
next
  case (delete c b)
  then show ?case using subs_ok_delete by (auto simp: cleanup_delete_def bufs_ok_def Let_def)
next
  case (close_chan c b)
  then show ?case using subs_ok_close_chan by (auto simp: cleanup_close_def bufs_ok_def)
next
  case (receive c b x b')
  then show ?case using receive_frame subs_ok_frame by metis
qed

lemma sse_reach_ok: "sse_reach fmt b \<Longrightarrow> subs_ok b \<and> bufs_ok b"
proof (induction rule: sse_reach.induct)
  case sse_init
  show ?case by (simp add: NewBroker_def subs_ok_def bufs_ok_def)
next
  case (sse_more b b')
  then show ?case using sse_step_ok by blast
qed

section \<open>Properties\<close>

text \<open>
  C22: Publication delivers exactly: in every state the broker can reach, an event goes to the end of
  the channel of each registered subscription to its topic (or to all topics) whose buffer has room,
  and to no other channel, once; no registered channel has been closed, so publication cannot panic;
  and no buffer ever holds more than 128 events.
\<close>

theorem Publish_delivers:
  assumes "sse_reach fmt b"
  shows "(\<forall>c. br_chans (Publish fmt now topic e b) c =
      (if \<not> br_closed b \<and> (\<exists>(i, sub) \<in> set (br_subs b). sub_ch sub = c \<and> wants topic sub)
          \<and> length (br_chans b c) < 128
       then br_chans b c @ [fst (stamp_event fmt now topic e b)] else br_chans b c)) \<and>
    (\<forall>(i, sub) \<in> set (br_subs b). snd (br_cleanup b (sub_ch sub)) \<noteq> Closed) \<and>
    (\<forall>c. length (br_chans b c) \<le> 128)"
proof -
  have ok: "subs_ok b" "bufs_ok b" using sse_reach_ok [OF assms] by auto
  obtain e' b' where s: "stamp_event fmt now topic e b = (e', b')" by fastforce
  note f = stamp_event_frame [OF s]
  have d: "distinct (map (sub_ch \<circ> snd) (br_subs b))" using ok(1) by (simp add: subs_ok_def)
  have "br_chans (Publish fmt now topic e b) c =
      (if \<not> br_closed b \<and> (\<exists>(i, sub) \<in> set (br_subs b). sub_ch sub = c \<and> wants topic sub)
          \<and> length (br_chans b c) < 128
       then br_chans b c @ [e'] else br_chans b c)" for c
    using fold_offer [OF d, of "wants topic" e' "br_chans b" c] s f
    by (simp add: Publish_def buffer_size_def)
  moreover have "\<forall>(i, sub) \<in> set (br_subs b). snd (br_cleanup b (sub_ch sub)) \<noteq> Closed"
    using ok(1) by (fastforce simp: subs_ok_def)
  moreover have "\<forall>c. length (br_chans b c) \<le> 128" using ok(2) by (simp add: bufs_ok_def buffer_size_def)
  ultimately show ?thesis by (simp add: s)
qed

definition demo_fmt :: "time \<Rightarrow> string" where "demo_fmt t = itoa (t div 1000)"

definition demo_event :: "nat Event" where
  "demo_event = \<lparr>ev_id = ''e'', ev_type = EventLog, ev_topic = [], ev_data = Some 1, ev_time = 5\<rparr>"

definition demo_broker :: "nat broker" where
  "demo_broker = snd (Subscribe demo_fmt 3000 [''b''] (snd (Subscribe demo_fmt 3000 [''a''] NewBroker)))"

lemma reach_subscribe: "sse_reach fmt b \<Longrightarrow> sse_reach fmt (snd (Subscribe fmt now topics b))"
  by (rule sse_more, assumption, rule sse_step.subscribe, rule prod.collapse [symmetric])

lemma demo_broker_reach: "sse_reach demo_fmt demo_broker"
  unfolding demo_broker_def by (intro reach_subscribe sse_init)

lemma Publish_delivers_witness:
  "br_chans (Publish demo_fmt 4000 ''b'' demo_event demo_broker) 1 = [demo_event\<lparr>ev_topic := ''b''\<rparr>] \<and>
   br_chans (Publish demo_fmt 4000 ''b'' demo_event demo_broker) 0 = []"
proof -
  have subs: "br_subs demo_broker =
      [(''3-1'', \<lparr>sub_id = ''3-1'', sub_ch = 0, sub_topics = [''a'']\<rparr>),
       (''3-2'', \<lparr>sub_id = ''3-2'', sub_ch = 1, sub_topics = [''b'']\<rparr>)]"
    by (simp add: demo_broker_def Subscribe_def generateID_def NewBroker_def demo_fmt_def itoa_def
        nat_digits.simps digit_char_def Let_def) code_simp
  have other: "\<not> br_closed demo_broker" "br_chans demo_broker c = []" for c
    by (simp_all add: demo_broker_def Subscribe_def generateID_def NewBroker_def Let_def)
  have ev: "fst (stamp_event demo_fmt 4000 ''b'' demo_event demo_broker) = demo_event\<lparr>ev_topic := ''b''\<rparr>"
    by (simp add: stamp_event_def demo_event_def)
  show ?thesis
    using Publish_delivers [OF demo_broker_reach, of 4000 "''b''" demo_event]
    by (simp add: subs other ev wants_def)
qed

section \<open>A divergence\<close>

text \<open>
  Identifiers repeat: ten identifiers later in the same second the last digit is the same. The second
  subscription replaces the first in the table, which then receives nothing.
\<close>

lemma identifiers_repeat:
  assumes "br_counter b + 11 < 2 ^ 64"
  shows "fst (generateID fmt now (b\<lparr>br_counter := br_counter b + 10\<rparr>)) = fst (generateID fmt now b)"
proof -
  have "(br_counter b + 11) mod 10 = (br_counter b + 1) mod 10"
    using mod_add_self2 [of "br_counter b + 1" 10] by (simp add: add.commute)
  then show ?thesis using assms by (simp add: generateID_def Let_def add.commute)
qed

lemma subscription_lost:
  assumes "subs_ok b1" "Subscribe fmt now ts b1 = (c, b2)" "(i, sub) \<in> set (br_subs b1)"
    "fst (generateID fmt now b1) = i"
  shows "sub \<notin> snd ` set (br_subs b2)"
proof -
  have d: "distinct (map fst (br_subs b1))" using assms(1) by (simp add: subs_ok_def)
  have b2: "br_subs b2 = AList.update i \<lparr>sub_id = i, sub_ch = br_next b1, sub_topics = ts\<rparr> (br_subs b1)"
    using assms(2,4) by (auto simp: Subscribe_def generateID_def Let_def)
  have "sub_ch sub < br_next b1" using assms(1,3) by (fastforce simp: subs_ok_def)
  moreover have "j = i" if "(j, sub) \<in> set (br_subs b1)" for j
  proof -
    have "br_cleanup b1 (sub_ch sub) = (j, Waiting)" "br_cleanup b1 (sub_ch sub) = (i, Waiting)"
      using that assms(1,3) by (auto simp: subs_ok_def)
    then show ?thesis by simp
  qed
  ultimately show ?thesis unfolding b2 update_set_distinct [OF d] by force
qed

end
