(* ===== verification/Streaming.thy ===== *)
theory Streaming
  imports Sse "HOL-Library.Sublist"
begin

text \<open>
  Connections that stream events: \<open>ServeSSE\<close> of \<open>internal/sse/handler.go\<close> for any number of clients,
  together with the broker, its publishers and its cleaning goroutines. A connection is known by the
  channel of its subscription. Beside what the code keeps, the system remembers for every channel the
  topics it was subscribed to, the events that were published for it, those its connection has read, and
  how many found its buffer full.
\<close>

section \<open>The system\<close>

record conn =
  cn_out :: string
  cn_ended :: bool

record 'd streams =
  st_broker :: "'d broker"
  st_conns :: "nat \<Rightarrow> conn option"
  st_gone :: "nat set"
  st_topics :: "nat \<Rightarrow> string list"
  st_offered :: "nat \<Rightarrow> 'd Event list"
  st_read :: "nat \<Rightarrow> 'd Event list"
  st_dropped :: "nat \<Rightarrow> nat"

definition streams_init :: "'d streams" where
  "streams_init =
     \<lparr>st_broker = NewBroker, st_conns = (\<lambda>c. None), st_gone = {}, st_topics = (\<lambda>c. []),
      st_offered = (\<lambda>c. []), st_read = (\<lambda>c. []), st_dropped = (\<lambda>c. 0)\<rparr>"

text \<open>The channels an event is for, and the note that it was published for them.\<close>

definition is_target :: "(subscriber \<Rightarrow> bool) \<Rightarrow> 'd broker \<Rightarrow> nat \<Rightarrow> bool" where
  "is_target P b c \<longleftrightarrow> (\<exists>(i, sub) \<in> set (br_subs b). sub_ch sub = c \<and> P sub)"

definition note_offer :: "(subscriber \<Rightarrow> bool) \<Rightarrow> 'd Event \<Rightarrow> 'd streams \<Rightarrow> 'd streams" where
  "note_offer P e s =
     s\<lparr>st_offered := (\<lambda>c. if is_target P (st_broker s) c then st_offered s c @ [e] else st_offered s c),
       st_dropped := (\<lambda>c. if is_target P (st_broker s) c \<and> \<not> length (br_chans (st_broker s) c) < buffer_size
                          then Suc (st_dropped s c) else st_dropped s c)\<rparr>"

definition shutdown_event :: "(time \<Rightarrow> string) \<Rightarrow> time \<Rightarrow> 'd broker \<Rightarrow> 'd Event" where
  "shutdown_event fmt now b =
     \<lparr>ev_id = fst (generateID fmt now b), ev_type = EventShutdown, ev_topic = [], ev_data = None, ev_time = now\<rparr>"

definition end_conn :: "nat \<Rightarrow> conn \<Rightarrow> 'd streams \<Rightarrow> 'd streams" where
  "end_conn c cn s = s\<lparr>st_conns := (st_conns s)(c \<mapsto> cn\<lparr>cn_ended := True\<rparr>), st_broker := cancel_sub c (st_broker s)\<rparr>"

text \<open>
  A connection reads until its channel is closed or its request's context ends (\<open>gone\<close>); then the
  deferred \<open>unsubscribe\<close> ends the subscription.
\<close>

text \<open>What a step does: a connection is opened for topics, an event is published, the broker is closed, or else.\<close>

datatype 'd stream_action = Opens "string list" | Publishes string "'d Event" | Shuts | Serves

inductive stream_step ::
    "(time \<Rightarrow> string) \<Rightarrow> ('d Event \<Rightarrow> string option) \<Rightarrow> 'd stream_action \<Rightarrow> 'd streams \<Rightarrow> 'd streams \<Rightarrow> bool"
  for fmt marshal where
  opened: "Subscribe fmt now topics (st_broker s) = (c, b) \<Longrightarrow>
    stream_step fmt marshal (Opens topics) s
      (s\<lparr>st_broker := b, st_conns := (st_conns s)(c \<mapsto> \<lparr>cn_out = [], cn_ended = False\<rparr>),
         st_topics := (st_topics s)(c := topics)\<rparr>)"
| published: "\<not> br_closed (st_broker s) \<Longrightarrow> stamp_event fmt now topic e (st_broker s) = (e', b) \<Longrightarrow>
    stream_step fmt marshal (Publishes topic e) s
      ((note_offer (wants topic) e' s)\<lparr>st_broker := Publish fmt now topic e (st_broker s)\<rparr>)"
| refused: "br_closed (st_broker s) \<Longrightarrow>
    stream_step fmt marshal (Publishes topic e) s (s\<lparr>st_broker := Publish fmt now topic e (st_broker s)\<rparr>)"
| shut: "stream_step fmt marshal Shuts s
      ((note_offer (\<lambda>_. True) (shutdown_event fmt now (st_broker s)) s)
         \<lparr>st_broker := CloseBroker fmt now (st_broker s)\<rparr>)"
| read: "st_conns s c = Some cn \<Longrightarrow> \<not> cn_ended cn \<Longrightarrow> receive c (st_broker s) = Some (Some e, b) \<Longrightarrow>
    stream_step fmt marshal Serves s
      (s\<lparr>st_broker := b, st_conns := (st_conns s)(c \<mapsto> cn\<lparr>cn_out := cn_out cn @ serve_events marshal [e]\<rparr>),
         st_read := (st_read s)(c := st_read s c @ [e])\<rparr>)"
| finished: "st_conns s c = Some cn \<Longrightarrow> \<not> cn_ended cn \<Longrightarrow> receive c (st_broker s) = Some (None, b) \<Longrightarrow>
    stream_step fmt marshal Serves s (end_conn c cn s)"
| gone: "st_conns s c = Some cn \<Longrightarrow>
    stream_step fmt marshal Serves s (s\<lparr>st_gone := insert c (st_gone s), st_broker := cancel_sub c (st_broker s)\<rparr>)"
| left: "st_conns s c = Some cn \<Longrightarrow> \<not> cn_ended cn \<Longrightarrow> c \<in> st_gone s \<Longrightarrow>
    stream_step fmt marshal Serves s (end_conn c cn s)"
| deleted: "c < br_next (st_broker s) \<Longrightarrow> c \<in> set (br_cancelled (st_broker s)) \<Longrightarrow>
    snd (br_cleanup (st_broker s) c) = Waiting \<Longrightarrow>
    stream_step fmt marshal Serves s (s\<lparr>st_broker := cleanup_delete c (st_broker s)\<rparr>)"
| closed: "c < br_next (st_broker s) \<Longrightarrow> snd (br_cleanup (st_broker s) c) = Deleted \<Longrightarrow>
    stream_step fmt marshal Serves s (s\<lparr>st_broker := cleanup_close c (st_broker s)\<rparr>)"

text \<open>What goes on by itself, while no connection is opened, nothing is published and the broker is not closed.\<close>

inductive stream_steps :: "(time \<Rightarrow> string) \<Rightarrow> ('d Event \<Rightarrow> string option) \<Rightarrow> 'd streams \<Rightarrow> 'd streams \<Rightarrow> bool"
  for fmt marshal where
  steps_refl: "stream_steps fmt marshal s s"
| steps_step: "stream_step fmt marshal Serves s s' \<Longrightarrow> stream_steps fmt marshal s' s'' \<Longrightarrow> stream_steps fmt marshal s s''"

lemma steps_trans: "stream_steps fmt m s s' \<Longrightarrow> stream_steps fmt m s' s'' \<Longrightarrow> stream_steps fmt m s s''"
  by (induction rule: stream_steps.induct) (auto intro: steps_step)

section \<open>The broker inside\<close>

lemma serve_events_append: "serve_events m (xs @ ys) = serve_events m xs @ serve_events m ys"
  by (induction xs) auto

lemma note_offer_frame [simp]:
  "st_broker (note_offer P e s) = st_broker s" "st_conns (note_offer P e s) = st_conns s"
  "st_gone (note_offer P e s) = st_gone s" "st_topics (note_offer P e s) = st_topics s"
  "st_read (note_offer P e s) = st_read s"
  by (simp_all add: note_offer_def)

text \<open>Every connection has a subscription, so its channel was made by the broker.\<close>

definition conns_known :: "'d streams \<Rightarrow> bool" where
  "conns_known s \<longleftrightarrow> (\<forall>c cn. st_conns s c = Some cn \<longrightarrow> c < br_next (st_broker s))"

lemma stream_sse:
  "stream_step fmt m a s s' \<Longrightarrow> conns_known s \<Longrightarrow> sse_step fmt (st_broker s) (st_broker s') \<and> conns_known s'"
proof (induction rule: stream_step.induct)
  case (opened now topics s c b)
  then have "c = br_next (st_broker s)" "br_next b = Suc (br_next (st_broker s))"
    by (auto simp: Subscribe_def Let_def split: prod.splits dest: generateID_frame)
  then show ?case using opened sse_step.subscribe [OF opened.hyps] by (auto simp: conns_known_def)
next
  case (published s now topic e e' b)
  then show ?case using Publish_frame [of fmt now topic e "st_broker s"] by (auto simp: conns_known_def intro: sse_step.publish)
next
  case (refused s topic e now)
  then show ?case using Publish_frame [of fmt now topic e "st_broker s"] by (auto simp: conns_known_def intro: sse_step.publish)
next
  case (shut s now)
  then show ?case using CloseBroker_frame [of fmt now "st_broker s"] by (auto simp: conns_known_def intro: sse_step.close)
next
  case (read s c cn e b)
  then show ?case using receive_frame [OF read(3)] by (auto simp: conns_known_def intro: sse_step.receive)
next
  case (finished s c cn b)
  then show ?case by (auto simp: conns_known_def end_conn_def cancel_sub_def intro: sse_step.cancel [unfolded cancel_sub_def])
next
  case (gone s c cn)
  then show ?case by (auto simp: conns_known_def cancel_sub_def intro: sse_step.cancel [unfolded cancel_sub_def])
next
  case (left s c cn)
  then show ?case by (auto simp: conns_known_def end_conn_def cancel_sub_def intro: sse_step.cancel [unfolded cancel_sub_def])
next
  case (deleted c s)
  then show ?case by (auto simp: conns_known_def cleanup_delete_def Let_def intro: sse_step.delete [unfolded cleanup_delete_def Let_def])
next
  case (closed c s)
  then show ?case by (auto simp: conns_known_def cleanup_close_def intro: sse_step.close_chan [unfolded cleanup_close_def])
qed

section \<open>What every channel carries\<close>

definition on_topic :: "string list \<Rightarrow> 'd Event \<Rightarrow> bool" where
  "on_topic ts e \<longleftrightarrow> ev_type e = EventShutdown \<or> ev_topic e \<in> set ts \<or> ''*'' \<in> set ts"

text \<open>
  What was read and what is buffered are, in order, the events published for the channel without the
  dropped ones.
\<close>

definition carried :: "'a list \<Rightarrow> 'a list \<Rightarrow> 'a list \<Rightarrow> nat \<Rightarrow> bool" where
  "carried xs buf os d \<longleftrightarrow> subseq (xs @ buf) os \<and> length (xs @ buf) + d = length os"

lemma carried_offer:
  "carried xs buf os d \<Longrightarrow>
     carried xs (if T \<and> room then buf @ [e] else buf) (if T then os @ [e] else os)
       (if T \<and> \<not> room then Suc d else d)"
proof -
  assume "carried xs buf os d"
  then have sub: "subseq (xs @ buf) os" and len: "length (xs @ buf) + d = length os"
    by (simp_all add: carried_def)
  from sub have "subseq ((xs @ buf) @ [e]) (os @ [e])" by (intro list_emb_append_mono) simp_all
  moreover from sub have "subseq (xs @ buf) (os @ [e])" by (rule subseq_rev_drop_many)
  ultimately show ?thesis using sub len by (auto simp: carried_def)
qed

lemma carried_read: "carried xs (e # buf) os d \<Longrightarrow> carried (xs @ [e]) buf os d"
  by (simp add: carried_def)

lemma Publish_chans:
  assumes "subs_ok b" "\<not> br_closed b" "stamp_event fmt now topic e b = (e', b')"
  shows "br_chans (Publish fmt now topic e b) c =
    (if is_target (wants topic) b c \<and> length (br_chans b c) < buffer_size
     then br_chans b c @ [e'] else br_chans b c)"
proof -
  have d: "distinct (map (sub_ch \<circ> snd) (br_subs b))" using assms(1) by (simp add: subs_ok_def)
  show ?thesis
    using fold_offer [OF d, of "wants topic" e' "br_chans b" c] stamp_event_frame [OF assms(3)] assms(2,3)
    by (simp add: Publish_def is_target_def)
qed

lemma CloseBroker_chans:
  assumes "subs_ok b"
  shows "br_chans (CloseBroker fmt now b) c =
    (if is_target (\<lambda>_. True) b c \<and> length (br_chans b c) < buffer_size
     then br_chans b c @ [shutdown_event fmt now b] else br_chans b c)"
proof -
  obtain i b' where g: "generateID fmt now (b\<lparr>br_closed := True\<rparr>) = (i, b')" by fastforce
  then have i: "i = fst (generateID fmt now b)" by (auto simp: generateID_def Let_def)
  have d: "distinct (map (sub_ch \<circ> snd) (br_subs b))" using assms by (simp add: subs_ok_def)
  show ?thesis
    using fold_offer [OF d, of "\<lambda>_. True" "shutdown_event fmt now b" "br_chans b" c] generateID_frame [OF g] g i
    by (simp add: CloseBroker_def is_target_def shutdown_event_def)
qed

definition channels_ok :: "'d streams \<Rightarrow> bool" where
  "channels_ok s \<longleftrightarrow>
     (\<forall>c. carried (st_read s c) (br_chans (st_broker s) c) (st_offered s c) (st_dropped s c)) \<and>
     (\<forall>c \<ge> br_next (st_broker s). st_offered s c = []) \<and>
     (\<forall>(i, sub) \<in> set (br_subs (st_broker s)). st_topics s (sub_ch sub) = sub_topics sub) \<and>
     (\<forall>c. \<forall>e \<in> set (st_offered s c). on_topic (st_topics s c) e)"

definition written_ok :: "('d Event \<Rightarrow> string option) \<Rightarrow> 'd streams \<Rightarrow> bool" where
  "written_ok m s \<longleftrightarrow> (\<forall>c cn. st_conns s c = Some cn \<longrightarrow> cn_out cn = serve_events m (st_read s c))"

lemma targets_known: "subs_ok b \<Longrightarrow> is_target P b c \<Longrightarrow> c < br_next b"
  by (fastforce simp: subs_ok_def is_target_def)

lemma channels_offer:
  assumes "channels_ok s" "subs_ok (st_broker s)"
    and "\<And>c. br_chans b c = (if is_target P (st_broker s) c \<and> length (br_chans (st_broker s) c) < buffer_size
        then br_chans (st_broker s) c @ [e] else br_chans (st_broker s) c)"
    and "br_subs b = br_subs (st_broker s)" "br_next b = br_next (st_broker s)"
    and "\<And>sub. P sub \<Longrightarrow> on_topic (sub_topics sub) e"
  shows "channels_ok ((note_offer P e s)\<lparr>st_broker := b\<rparr>)"
proof -
  let ?s = "(note_offer P e s)\<lparr>st_broker := b\<rparr>"
  have off: "st_offered ?s c = (if is_target P (st_broker s) c then st_offered s c @ [e] else st_offered s c)"
    "st_dropped ?s c = (if is_target P (st_broker s) c \<and> \<not> length (br_chans (st_broker s) c) < buffer_size
       then Suc (st_dropped s c) else st_dropped s c)" for c
    by (simp_all add: note_offer_def)
  have "carried (st_read ?s c) (br_chans (st_broker ?s) c) (st_offered ?s c) (st_dropped ?s c)" for c
  proof -
    have "carried (st_read s c) (br_chans (st_broker s) c) (st_offered s c) (st_dropped s c)"
      using assms(1) by (simp add: channels_ok_def)
    from carried_offer [OF this, of "is_target P (st_broker s) c"
        "length (br_chans (st_broker s) c) < buffer_size" e]
    show ?thesis by (simp add: note_offer_def assms(3))
  qed
  moreover have "on_topic (st_topics s c) e" if t: "is_target P (st_broker s) c" for c
  proof -
    obtain i sub where "(i, sub) \<in> set (br_subs (st_broker s))" "sub_ch sub = c" "P sub"
      using t by (auto simp: is_target_def)
    then show ?thesis using assms(1,6) by (fastforce simp: channels_ok_def)
  qed
  moreover have "st_offered ?s c = []" if "br_next b \<le> c" for c
  proof -
    have "\<not> is_target P (st_broker s) c" using targets_known [OF assms(2), of P c] that assms(5) by auto
    moreover have "st_offered s c = []" using that assms(1,5) by (simp add: channels_ok_def)
    ultimately show ?thesis by (simp add: note_offer_def)
  qed
  moreover have "set (st_offered ?s c) \<subseteq> set (st_offered s c) \<union> (if is_target P (st_broker s) c then {e} else {})" for c
    by (simp add: note_offer_def)
  ultimately show ?thesis
    using assms(1) unfolding channels_ok_def by (simp add: assms(4,5)) (fastforce split: if_splits)
qed

lemma channels_frame:
  "channels_ok s \<Longrightarrow> st_read s' = st_read s \<Longrightarrow> st_offered s' = st_offered s \<Longrightarrow> st_dropped s' = st_dropped s \<Longrightarrow>
     st_topics s' = st_topics s \<Longrightarrow> br_chans (st_broker s') = br_chans (st_broker s) \<Longrightarrow>
     br_next (st_broker s') = br_next (st_broker s) \<Longrightarrow>
     set (br_subs (st_broker s')) \<subseteq> set (br_subs (st_broker s)) \<Longrightarrow> channels_ok s'"
  by (auto simp: channels_ok_def)

lemma wants_on_topic:
  "stamp_event fmt now topic e b = (e', b') \<Longrightarrow> wants topic sub \<Longrightarrow> on_topic (sub_topics sub) e'"
  by (auto simp: stamp_event_def on_topic_def wants_def Let_def split: if_splits prod.splits)

lemma Subscribe_parts:
  assumes "Subscribe fmt now topics b = (c, b')"
  shows "c = br_next b" "br_next b' = Suc (br_next b)" "br_chans b' = br_chans b"
    "\<exists>i. br_subs b' = AList.update i \<lparr>sub_id = i, sub_ch = c, sub_topics = topics\<rparr> (br_subs b)"
proof -
  obtain i b1 where g: "generateID fmt now b = (i, b1)" by fastforce
  note f = generateID_frame [OF g]
  show "c = br_next b" "br_next b' = Suc (br_next b)" "br_chans b' = br_chans b"
    "\<exists>i. br_subs b' = AList.update i \<lparr>sub_id = i, sub_ch = c, sub_topics = topics\<rparr> (br_subs b)"
    using assms g f by (auto simp: Subscribe_def Let_def)
qed

lemma channels_step:
  "stream_step fmt m a s s' \<Longrightarrow> subs_ok (st_broker s) \<Longrightarrow> channels_ok s \<Longrightarrow> channels_ok s'"
proof (induction rule: stream_step.induct)
  case (opened now topics s c b)
  note p = Subscribe_parts [OF opened(1)]
  obtain i where subs: "br_subs b = AList.update i \<lparr>sub_id = i, sub_ch = c, sub_topics = topics\<rparr> (br_subs (st_broker s))"
    using p(4) by blast
  have "\<forall>(j, sub) \<in> set (br_subs b). ((st_topics s)(c := topics)) (sub_ch sub) = sub_topics sub"
  proof -
    have old: "((st_topics s)(c := topics)) (sub_ch sub) = sub_topics sub"
      if "(j, sub) \<in> set (br_subs (st_broker s))" for j sub
    proof -
      have "sub_ch sub < c" using opened(2) that p(1) unfolding subs_ok_def by blast
      then show ?thesis using opened(3) that unfolding channels_ok_def by auto
    qed
    have "set (br_subs b) \<subseteq> insert (i, \<lparr>sub_id = i, sub_ch = c, sub_topics = topics\<rparr>) (set (br_subs (st_broker s)))"
      using opened(2) by (auto simp: subs subs_ok_def update_set_distinct)
    then show ?thesis
    proof (intro ballI, clarify)
      fix j sub assume "(j, sub) \<in> set (br_subs b)"
        and sub: "set (br_subs b) \<subseteq> insert (i, \<lparr>sub_id = i, sub_ch = c, sub_topics = topics\<rparr>) (set (br_subs (st_broker s)))"
      then consider "sub = \<lparr>sub_id = i, sub_ch = c, sub_topics = topics\<rparr>" | "(j, sub) \<in> set (br_subs (st_broker s))"
        by auto
      then show "((st_topics s)(c := topics)) (sub_ch sub) = sub_topics sub"
        using old by cases auto
    qed
  qed
  then show ?case using opened(3) p(1-3) by (auto simp: channels_ok_def)
next
  case (published s now topic e e' b)
  then show ?case
    using Publish_frame [of fmt now topic e "st_broker s"] Publish_chans [OF published(3,1,2)]
    by (intro channels_offer) (auto intro: wants_on_topic)
next
  case (refused s topic e now)
  then show ?case by (simp add: Publish_def)
next
  case (shut s now)
  then show ?case
    using CloseBroker_frame [of fmt now "st_broker s"] CloseBroker_chans [OF shut(1)]
    by (intro channels_offer) (auto simp: on_topic_def shutdown_event_def)
next
  case (read s c cn e b)
  have b: "br_chans (st_broker s) c = e # br_chans b c" "\<And>k. k \<noteq> c \<Longrightarrow> br_chans b k = br_chans (st_broker s) k"
    using read(3) by (auto simp: receive_def split: list.splits if_splits)
  have "carried (if k = c then st_read s c @ [e] else st_read s k) (br_chans b k) (st_offered s k) (st_dropped s k)" for k
  proof (cases "k = c")
    case True
    have "carried (st_read s c) (e # br_chans b c) (st_offered s c) (st_dropped s c)"
      using read(5) b(1) unfolding channels_ok_def by metis
    then show ?thesis using True carried_read by simp
  next
    case False
    then show ?thesis using read(5) b(2) by (simp add: channels_ok_def)
  qed
  then show ?case
    using read(5) receive_frame [OF read(3)] by (simp add: channels_ok_def fun_upd_def)
next
  case (deleted c s)
  then show ?case
    by - (rule channels_frame [of s], auto simp: cleanup_delete_def Let_def AList.delete_eq)
qed (rule channels_frame, assumption, simp_all add: end_conn_def cancel_sub_def cleanup_close_def)+

lemma written_step: "stream_step fmt m a s s' \<Longrightarrow> conns_known s \<Longrightarrow> subs_ok (st_broker s) \<Longrightarrow> channels_ok s \<Longrightarrow>
    written_ok m s \<Longrightarrow> written_ok m s'"
proof (induction rule: stream_step.induct)
  case (opened now topics s c b)
  have "st_offered s c = []" using opened(4) Subscribe_parts(1) [OF opened(1)] by (simp add: channels_ok_def)
  then have "st_read s c = []" using opened(4) unfolding channels_ok_def carried_def by (metis append_is_Nil_conv list_emb_Nil2)
  then show ?case using opened(5) by (simp add: written_ok_def)
next
  case (read s c cn e b)
  then show ?case by (auto simp: written_ok_def serve_events_append)
qed (auto simp: written_ok_def end_conn_def)

section \<open>Reachable systems\<close>

inductive stream_reach :: "(time \<Rightarrow> string) \<Rightarrow> ('d Event \<Rightarrow> string option) \<Rightarrow> 'd streams \<Rightarrow> bool" for fmt m where
  stream_init: "stream_reach fmt m streams_init"
| stream_more: "stream_reach fmt m s \<Longrightarrow> stream_step fmt m a s s' \<Longrightarrow> stream_reach fmt m s'"

definition stream_inv :: "(time \<Rightarrow> string) \<Rightarrow> ('d Event \<Rightarrow> string option) \<Rightarrow> 'd streams \<Rightarrow> bool" where
  "stream_inv fmt m s \<longleftrightarrow> sse_reach fmt (st_broker s) \<and> conns_known s \<and> channels_ok s \<and> written_ok m s"

lemma stream_reach_inv: "stream_reach fmt m s \<Longrightarrow> stream_inv fmt m s"
proof (induction rule: stream_reach.induct)
  case stream_init
  have "sse_reach fmt NewBroker" by (rule sse_init)
  then show ?case
    by (simp add: stream_inv_def streams_init_def conns_known_def channels_ok_def written_ok_def carried_def)
       (simp add: NewBroker_def)
next
  case (stream_more s s')
  then have inv: "sse_reach fmt (st_broker s)" "conns_known s" "channels_ok s" "written_ok m s"
    by (simp_all add: stream_inv_def)
  have ok: "subs_ok (st_broker s)" using sse_reach_ok [OF inv(1)] ..
  show ?case
    using stream_sse [OF stream_more(2) inv(2)] channels_step [OF stream_more(2) ok inv(3)]
      written_step [OF stream_more(2) inv(2) ok inv(3,4)] sse_more [OF inv(1)]
    by (simp add: stream_inv_def)
qed

lemma stamp_event_cancelled:
  "stamp_event fmt now topic e b = (e', b') \<Longrightarrow> br_cancelled b' = br_cancelled b"
  by (auto simp: stamp_event_def Let_def split: prod.splits if_splits dest!: generateID_frame)

lemma Publish_cancelled: "br_cancelled (Publish fmt now topic e b) = br_cancelled b"
  using stamp_event_cancelled [of fmt now topic e b] by (auto simp: Publish_def split: prod.splits)

lemma CloseBroker_cancelled:
  "set (br_cancelled (CloseBroker fmt now b)) = {c. is_target (\<lambda>_. True) b c} \<union> set (br_cancelled b)"
proof -
  obtain i b' where g: "generateID fmt now (b\<lparr>br_closed := True\<rparr>) = (i, b')" by fastforce
  show ?thesis using generateID_frame [OF g] g by (force simp: CloseBroker_def is_target_def)
qed

text \<open>Only subscriptions that were made end.\<close>

lemma cancelled_known: "sse_reach fmt b \<Longrightarrow> \<forall>c \<in> set (br_cancelled b). c < br_next b"
proof (induction rule: sse_reach.induct)
  case (sse_more b b')
  have subs: "subs_ok b" using sse_reach_ok [OF sse_more(1)] ..
  from sse_more(2) show ?case
  proof cases
    case (subscribe now topics c)
    then show ?thesis
      using sse_more(3) by (cases "generateID fmt now b") (auto simp: Subscribe_def Let_def less_Suc_eq dest!: generateID_frame)
  next
    case (publish now topic e)
    then show ?thesis using sse_more(3) Publish_frame [of fmt now topic e b] by (simp add: Publish_cancelled)
  next
    case (close now)
    then show ?thesis
      using sse_more(3) CloseBroker_frame [of fmt now b] CloseBroker_cancelled [of fmt now b] targets_known [OF subs]
      by auto
  next
    case (receive c x)
    then show ?thesis using sse_more(3) by (auto simp: receive_def split: list.splits if_splits)
  qed (use sse_more(3) in \<open>auto simp: cancel_sub_def cleanup_delete_def cleanup_close_def Let_def\<close>)
qed (simp add: NewBroker_def)

section \<open>The end of a stream\<close>

text \<open>Ending one stream leaves the others as they are.\<close>

definition apart :: "nat \<Rightarrow> 'd streams \<Rightarrow> 'd streams \<Rightarrow> bool" where
  "apart c s s' \<longleftrightarrow> st_gone s' = st_gone s \<and>
     (\<forall>d. d \<noteq> c \<longrightarrow> st_conns s' d = st_conns s d \<and> br_chans (st_broker s') d = br_chans (st_broker s) d)"

lemma apart_trans: "apart c s s1 \<Longrightarrow> apart c s1 s2 \<Longrightarrow> apart c s s2"
  by (simp add: apart_def)

text \<open>A connection whose channel is closed reads what is buffered and ends.\<close>

lemma drain_ends:
  assumes "st_conns s c = Some cn" "\<not> cn_ended cn" "snd (br_cleanup (st_broker s) c) = Closed"
  shows "\<exists>s' cn'. stream_steps fmt m s s' \<and> st_conns s' c = Some cn' \<and> cn_ended cn' \<and>
    cn_out cn' = cn_out cn @ serve_events m (br_chans (st_broker s) c) \<and> apart c s s'"
  using assms
proof (induction "br_chans (st_broker s) c" arbitrary: s cn)
  case Nil
  then have r: "receive c (st_broker s) = Some (None, st_broker s)" by (simp add: receive_def)
  have "stream_step fmt m Serves s (end_conn c cn s)" by (rule finished [OF Nil(2,3) r])
  then have "stream_steps fmt m s (end_conn c cn s)" by (rule steps_step [OF _ steps_refl])
  moreover have "st_conns (end_conn c cn s) c = Some (cn\<lparr>cn_ended := True\<rparr>)" by (simp add: end_conn_def)
  ultimately show ?case using Nil(1) [symmetric]
    by (intro exI [of _ "end_conn c cn s"] exI [of _ "cn\<lparr>cn_ended := True\<rparr>"])
       (simp add: apart_def end_conn_def cancel_sub_def)
next
  case (Cons e es)
  let ?b = "(st_broker s)\<lparr>br_chans := (br_chans (st_broker s))(c := es)\<rparr>"
  let ?cn = "cn\<lparr>cn_out := cn_out cn @ serve_events m [e]\<rparr>"
  let ?s = "s\<lparr>st_broker := ?b, st_conns := (st_conns s)(c \<mapsto> ?cn), st_read := (st_read s)(c := st_read s c @ [e])\<rparr>"
  have "receive c (st_broker s) = Some (Some e, ?b)" using Cons(2) [symmetric] by (simp add: receive_def)
  then have step: "stream_step fmt m Serves s ?s" by (rule read [OF Cons(3,4)])
  have es: "es = br_chans (st_broker ?s) c" by simp
  obtain s' cn' where "stream_steps fmt m ?s s'" "st_conns s' c = Some cn'" "cn_ended cn'"
    "cn_out cn' = cn_out ?cn @ serve_events m (br_chans (st_broker ?s) c)" "apart c ?s s'"
    using Cons(1) [OF es, of ?cn] Cons(4,5) by auto
  moreover have "apart c s s'" by (rule apart_trans [OF _ calculation(5)]) (simp add: apart_def)
  ultimately show ?case
    using steps_step [OF step] serve_events_append [of m "[e]" es] Cons(2) [symmetric] by auto
qed

text \<open>So does one whose subscription's context has ended: its cleaning goroutine closes the channel.\<close>

lemma cancelled_ends:
  assumes "st_conns s c = Some cn" "\<not> cn_ended cn" "c < br_next (st_broker s)"
    "c \<in> set (br_cancelled (st_broker s))"
  shows "\<exists>s' cn'. stream_steps fmt m s s' \<and> st_conns s' c = Some cn' \<and> cn_ended cn' \<and>
    cn_out cn' = cn_out cn @ serve_events m (br_chans (st_broker s) c) \<and> apart c s s'"
proof -
  have close: ?thesis
    if "stream_steps fmt m s s1" "st_conns s1 c = Some cn" "snd (br_cleanup (st_broker s1) c) = Deleted"
      "c < br_next (st_broker s1)" "br_chans (st_broker s1) c = br_chans (st_broker s) c" "apart c s s1" for s1
  proof -
    let ?s = "s1\<lparr>st_broker := cleanup_close c (st_broker s1)\<rparr>"
    have "stream_steps fmt m s ?s"
      using steps_trans [OF that(1) steps_step [OF closed [OF that(4,3)] steps_refl]] .
    moreover have "\<exists>s' cn'. stream_steps fmt m ?s s' \<and> st_conns s' c = Some cn' \<and> cn_ended cn' \<and>
        cn_out cn' = cn_out cn @ serve_events m (br_chans (st_broker ?s) c) \<and> apart c ?s s'"
      by (rule drain_ends) (simp_all add: that(2) assms(2) cleanup_close_def)
    moreover have "br_chans (st_broker ?s) c = br_chans (st_broker s) c"
      using that(5) by (simp add: cleanup_close_def)
    moreover have "apart c s ?s" using that(6) by (simp add: apart_def cleanup_close_def)
    ultimately show ?thesis using steps_trans apart_trans by metis
  qed
  show ?thesis
  proof (cases "snd (br_cleanup (st_broker s) c)")
    case Waiting
    let ?s = "s\<lparr>st_broker := cleanup_delete c (st_broker s)\<rparr>"
    have "stream_steps fmt m s ?s" by (rule steps_step [OF deleted [OF assms(3,4) Waiting] steps_refl])
    then show ?thesis
      by (rule close) (simp_all add: assms cleanup_delete_def apart_def Let_def)
  next
    case Deleted
    then show ?thesis by (intro close [OF steps_refl]) (simp_all add: assms apart_def)
  next
    case Closed
    then show ?thesis by (rule drain_ends [OF assms(1,2)])
  qed
qed

text \<open>What a connection has read was published for it, on its topics.\<close>

lemma read_offered:
  assumes "stream_reach fmt m s" "e \<in> set (st_read s c)"
  shows "e \<in> set (st_offered s c)" "on_topic (st_topics s c) e"
proof -
  have inv: "channels_ok s" using stream_reach_inv [OF assms(1)] by (simp add: stream_inv_def)
  then have sub: "subseq (st_read s c @ br_chans (st_broker s) c) (st_offered s c)"
    by (simp add: channels_ok_def carried_def)
  have "e \<in> set (st_read s c @ br_chans (st_broker s) c)" using assms(2) by simp
  from list_emb_set [OF sub this] show "e \<in> set (st_offered s c)" by auto
  then show "on_topic (st_topics s c) e" using inv by (auto simp: channels_ok_def)
qed

section \<open>Properties\<close>

text \<open>
  C17: A stream is faithful to what is published. In every reachable system of connections, publishers and
  cleaning goroutines, what a connection has written is the frames of the events it read; these and the
  buffered ones are, in order and without repetition, the events published for it while it was
  subscribed, except those that found 128 events waiting; if there were none, they are all of them; and
  every one of them is on a topic the connection subscribed to, or the shutdown event.
\<close>

theorem streams_exact:
  assumes "stream_reach fmt m s" "st_conns s c = Some cn"
  shows "cn_out cn = serve_events m (st_read s c) \<and>
    subseq (st_read s c @ br_chans (st_broker s) c) (st_offered s c) \<and>
    length (st_read s c @ br_chans (st_broker s) c) + st_dropped s c = length (st_offered s c) \<and>
    (st_dropped s c = 0 \<longrightarrow> st_read s c @ br_chans (st_broker s) c = st_offered s c) \<and>
    (\<forall>e \<in> set (st_read s c). on_topic (st_topics s c) e)"
proof -
  have inv: "channels_ok s" "written_ok m s" using stream_reach_inv [OF assms(1)] by (simp_all add: stream_inv_def)
  then have sub: "subseq (st_read s c @ br_chans (st_broker s) c) (st_offered s c)"
    and len: "length (st_read s c @ br_chans (st_broker s) c) + st_dropped s c = length (st_offered s c)"
    by (simp_all add: channels_ok_def carried_def)
  have "\<forall>e \<in> set (st_read s c). on_topic (st_topics s c) e" using read_offered [OF assms(1)] by blast
  moreover have "st_dropped s c = 0 \<longrightarrow> st_read s c @ br_chans (st_broker s) c = st_offered s c"
    using subseq_same_length [OF sub] len by simp
  moreover have "cn_out cn = serve_events m (st_read s c)" using inv(2) assms(2) by (simp add: written_ok_def)
  ultimately show ?thesis using sub len by blast
qed

text \<open>
  Closing the broker lets every stream end. From every reachable system, once the broker is closed,
  each connection that was subscribed can write everything that is buffered for it (with the shutdown
  event at the end, if there was room) and end, whatever the others do.
\<close>

lemma shutdown_ends_streams:
  assumes "stream_reach fmt m s" "st_conns s c = Some cn" "\<not> cn_ended cn" "is_target (\<lambda>_. True) (st_broker s) c"
    and "s1 = (note_offer (\<lambda>_. True) (shutdown_event fmt now (st_broker s)) s)
         \<lparr>st_broker := CloseBroker fmt now (st_broker s)\<rparr>"
  shows "stream_step fmt m Shuts s s1 \<and>
    br_chans (st_broker s1) c = br_chans (st_broker s) c
      @ (if length (br_chans (st_broker s) c) < 128 then [shutdown_event fmt now (st_broker s)] else []) \<and>
    (\<exists>s' cn'. stream_steps fmt m s1 s' \<and> st_conns s' c = Some cn' \<and> cn_ended cn' \<and>
       cn_out cn' = cn_out cn @ serve_events m (br_chans (st_broker s1) c))"
proof -
  have ok: "subs_ok (st_broker s)" "conns_known s"
    using stream_reach_inv [OF assms(1)] sse_reach_ok by (auto simp: stream_inv_def)
  have step: "stream_step fmt m Shuts s s1" unfolding assms(5) by (rule shut)
  have chans: "br_chans (st_broker s1) c = br_chans (st_broker s) c
      @ (if length (br_chans (st_broker s) c) < 128 then [shutdown_event fmt now (st_broker s)] else [])"
    using CloseBroker_chans [OF ok(1), of fmt now c] assms(4) by (simp add: assms(5) buffer_size_def)
  have cancelled: "c \<in> set (br_cancelled (st_broker s1))"
  proof -
    obtain i b' where g: "generateID fmt now ((st_broker s)\<lparr>br_closed := True\<rparr>) = (i, b')" by fastforce
    have "c \<in> (sub_ch \<circ> snd) ` set (br_subs (st_broker s))" using assms(4) by (force simp: is_target_def)
    then show ?thesis using generateID_frame [OF g] by (simp add: assms(5) CloseBroker_def g)
  qed
  have known: "c < br_next (st_broker s1)"
    using ok(2) assms(2) CloseBroker_frame [of fmt now "st_broker s"] by (simp add: assms(5) conns_known_def)
  have "st_conns s1 c = Some cn" by (simp add: assms(2,5))
  from cancelled_ends [OF this assms(3) known cancelled] step chans show ?thesis by blast
qed

text \<open>
  A subscription made after the broker was closed receives nothing and is not ended by it: the
  connection stays until its client leaves.
\<close>

lemma late_subscription:
  assumes "br_closed b" "Subscribe fmt now topics b = (c, b')" "\<forall>d \<in> set (br_cancelled b). d < br_next b"
  shows "Publish fmt now2 topic e b' = b' \<and> c \<notin> set (br_cancelled b')"
proof -
  obtain i b1 where g: "generateID fmt now b = (i, b1)" by fastforce
  have "br_closed b'" "br_cancelled b' = br_cancelled b" "c = br_next b"
    using generateID_frame [OF g] assms(1,2) g by (auto simp: Subscribe_def Let_def)
  then show ?thesis using assms(3) by (auto simp: Publish_def)
qed

section \<open>A connection to evaluate on\<close>

definition demo_marshal :: "nat Event \<Rightarrow> string option" where
  "demo_marshal e = map_option (\<lambda>n. itoa (int n)) (ev_data e)"

definition demo_s1 :: "nat streams" where
  "demo_s1 = streams_init\<lparr>st_broker := snd (Subscribe demo_fmt 3000 [''a''] NewBroker),
     st_conns := [0 \<mapsto> \<lparr>cn_out = [], cn_ended = False\<rparr>], st_topics := (\<lambda>c. [])(0 := [''a''])\<rparr>"

definition demo_s2 :: "nat streams" where
  "demo_s2 = (note_offer (wants ''a'') (demo_event\<lparr>ev_topic := ''a''\<rparr>) demo_s1)
     \<lparr>st_broker := Publish demo_fmt 4000 ''a'' demo_event (st_broker demo_s1)\<rparr>"

definition demo_s3 :: "nat streams" where
  "demo_s3 = demo_s2\<lparr>st_broker := (st_broker demo_s2)\<lparr>br_chans := (br_chans (st_broker demo_s2))(0 := [])\<rparr>,
     st_conns := (st_conns demo_s2)(0 \<mapsto> \<lparr>cn_out = serve_events demo_marshal [demo_event], cn_ended = False\<rparr>),
     st_read := (st_read demo_s2)(0 := [demo_event\<lparr>ev_topic := ''a''\<rparr>])\<rparr>"

lemma demo_stream_subs:
  "br_subs (st_broker demo_s1) = [(''3-1'', \<lparr>sub_id = ''3-1'', sub_ch = 0, sub_topics = [''a'']\<rparr>)]"
  "\<not> br_closed (st_broker demo_s1)" "br_chans (st_broker demo_s1) c = []"
  by (simp_all add: demo_s1_def Subscribe_def generateID_def NewBroker_def demo_fmt_def itoa_def
      nat_digits.simps digit_char_def Let_def) code_simp

lemma demo_opened: "stream_step demo_fmt demo_marshal (Opens [''a'']) streams_init demo_s1"
proof -
  have "Subscribe demo_fmt 3000 [''a''] (st_broker streams_init) = (0, snd (Subscribe demo_fmt 3000 [''a''] NewBroker))"
    by (simp add: streams_init_def Subscribe_def generateID_def Let_def) (simp add: NewBroker_def)
  then show ?thesis
    using opened [of demo_fmt 3000 "[''a'']" streams_init]
    by (simp add: demo_s1_def) (simp add: streams_init_def)
qed

lemma demo_streams: "stream_reach demo_fmt demo_marshal demo_s1" "stream_reach demo_fmt demo_marshal demo_s2"
  "stream_reach demo_fmt demo_marshal demo_s3"
proof -
  have "stream_step demo_fmt demo_marshal (Opens [''a'']) streams_init demo_s1" by (rule demo_opened)
  with stream_init show 1: "stream_reach demo_fmt demo_marshal demo_s1" by (rule stream_more)
  have ev: "stamp_event demo_fmt 4000 ''a'' demo_event (st_broker demo_s1)
      = (demo_event\<lparr>ev_topic := ''a''\<rparr>, st_broker demo_s1)"
    by (simp add: stamp_event_def demo_event_def)
  have "stream_step demo_fmt demo_marshal (Publishes ''a'' demo_event) demo_s1 demo_s2"
    unfolding demo_s2_def by (rule published [OF demo_stream_subs(2) ev])
  with 1 show 2: "stream_reach demo_fmt demo_marshal demo_s2" by (rule stream_more)
  have "br_chans (st_broker demo_s2) 0 = [demo_event\<lparr>ev_topic := ''a''\<rparr>]"
    using demo_stream_subs(2) ev
    by (simp add: demo_s2_def Publish_def demo_stream_subs wants_def offer_def buffer_size_def)
  then have r: "receive 0 (st_broker demo_s2) = Some (Some (demo_event\<lparr>ev_topic := ''a''\<rparr>),
      (st_broker demo_s2)\<lparr>br_chans := (br_chans (st_broker demo_s2))(0 := [])\<rparr>)"
    by (simp add: receive_def)
  have c: "st_conns demo_s2 0 = Some \<lparr>cn_out = [], cn_ended = False\<rparr>" "st_read demo_s2 0 = []"
    by (simp_all add: demo_s2_def demo_s1_def streams_init_def)
  have frame: "serve_events demo_marshal [demo_event\<lparr>ev_topic := ''a''\<rparr>] = serve_events demo_marshal [demo_event]"
    by (simp add: demo_marshal_def sse_frame_def demo_event_def)
  have "stream_step demo_fmt demo_marshal Serves demo_s2 demo_s3"
    using read [OF c(1) _ r, of demo_fmt demo_marshal] unfolding frame by (simp add: demo_s3_def c(2))
  with 2 show "stream_reach demo_fmt demo_marshal demo_s3" by (rule stream_more)
qed

lemma streams_exact_witness:
  "\<exists>cn. st_conns demo_s3 0 = Some cn \<and> cn_out cn = serve_events demo_marshal [demo_event\<lparr>ev_topic := ''a''\<rparr>] \<and>
    on_topic [''a''] (demo_event\<lparr>ev_topic := ''a''\<rparr>)"
proof -
  have c: "st_conns demo_s3 0 = Some \<lparr>cn_out = serve_events demo_marshal [demo_event], cn_ended = False\<rparr>"
    "st_read demo_s3 0 = [demo_event\<lparr>ev_topic := ''a''\<rparr>]" "st_topics demo_s3 0 = [''a'']"
    by (simp_all add: demo_s3_def demo_s2_def demo_s1_def)
  show ?thesis using streams_exact [OF demo_streams(3) c(1)] by (simp add: c)
qed

lemma shutdown_ends_streams_witness:
  "\<exists>s' cn'. stream_steps demo_fmt demo_marshal
      ((note_offer (\<lambda>_. True) (shutdown_event demo_fmt 5000 (st_broker demo_s1)) demo_s1)
        \<lparr>st_broker := CloseBroker demo_fmt 5000 (st_broker demo_s1)\<rparr>) s' \<and> st_conns s' 0 = Some cn' \<and> cn_ended cn'"
proof -
  have "st_conns demo_s1 0 = Some \<lparr>cn_out = [], cn_ended = False\<rparr>" by (simp add: demo_s1_def)
  moreover have "is_target (\<lambda>_. True) (st_broker demo_s1) 0" by (simp add: is_target_def demo_stream_subs)
  ultimately show ?thesis using shutdown_ends_streams [OF demo_streams(1) _ _ _ refl] by fastforce
qed

end
