(* ===== verification/SdkClient.thy ===== *)
theory SdkClient
  imports Complex_Main DockerClient "HOL-Library.Word"
begin

text \<open>
  The parts of \<open>internal/docker/sdk_client.go\<close> that compute: what the client hands to the Docker SDK
  and what it makes of the SDK's answers. The SDK itself and the port parser of \<open>go-connections\<close> are
  parameters. Counters are 64-bit words; percentages are exact rationals, without the rounding of
  floating point. The archive of a build context is in \<open>BuildContext\<close>.
\<close>

section \<open>Creating a container\<close>

record nat_binding =
  nb_hostip :: string
  nb_hostport :: string

text \<open>
  \<open>new_port protocol port\<close> is \<open>nat.NewPort\<close>, whose error the code ignores. Both results are maps over
  ports: a port that occurs again replaces the binding it had.
\<close>

definition buildPortBindings ::
    "(string \<Rightarrow> string \<Rightarrow> string) \<Rightarrow> PortBinding list \<Rightarrow>
     (string, unit) gomap \<times> (string, nat_binding list) gomap" where
  "buildPortBindings new_port ports =
     fold (\<lambda>p (exposed, m).
         let natPort = new_port (pb_protocol p) (pb_containerport p)
         in (AList.update natPort () exposed,
             AList.update natPort [\<lparr>nb_hostip = pb_hostip p, nb_hostport = pb_hostport p\<rparr>] m))
       ports ([], [])"

datatype mount_type = TypeBind | TypeTmpfs | TypeVolume

record sdk_mount =
  sm_type :: mount_type
  sm_source :: string
  sm_target :: string
  sm_readonly :: bool

definition buildMount :: "MountConfig \<Rightarrow> sdk_mount" where
  "buildMount v =
     \<lparr>sm_type = (if mc_type v = ''bind'' then TypeBind
                 else if mc_type v = ''tmpfs'' then TypeTmpfs else TypeVolume),
      sm_source = mc_source v, sm_target = mc_target v, sm_readonly = mc_readonly v\<rparr>"

definition buildMounts :: "MountConfig list \<Rightarrow> sdk_mount list" where
  "buildMounts volumes = map buildMount volumes"

datatype restart_policy =
  RestartPolicyAlways | RestartPolicyUnlessStopped | RestartPolicyOnFailure | RestartPolicyDisabled

definition buildRestartPolicy :: "string \<Rightarrow> restart_policy" where
  "buildRestartPolicy policy =
     (if policy = ''always'' then RestartPolicyAlways
      else if policy = ''unless-stopped'' then RestartPolicyUnlessStopped
      else if policy = ''on-failure'' then RestartPolicyOnFailure
      else RestartPolicyDisabled)"

text \<open>The three configurations of the SDK's call, as one record; \<open>[]\<close> is a nil slice or map.\<close>

record sdk_create =
  sk_name :: string
  sk_image :: string
  sk_labels :: "(string, string) gomap"
  sk_env :: "string list"
  sk_cmd :: "string list"
  sk_entrypoint :: "string list"
  sk_exposed :: "(string, unit) gomap"
  sk_bindings :: "(string, nat_binding list) gomap"
  sk_mounts :: "sdk_mount list"
  sk_restart :: restart_policy
  sk_networks :: "string list"

definition create_options ::
    "(string \<Rightarrow> string \<Rightarrow> string) \<Rightarrow> ContainerCreateConfig \<Rightarrow> sdk_create" where
  "create_options new_port cfg =
     (let (exposed, bindings) = buildPortBindings new_port (cc_ports cfg) in
      \<lparr>sk_name = cc_name cfg, sk_image = cc_image cfg, sk_labels = cc_labels cfg,
       sk_env = cc_env cfg, sk_cmd = cc_cmd cfg, sk_entrypoint = cc_entrypoint cfg,
       sk_exposed = exposed, sk_bindings = bindings, sk_mounts = buildMounts (cc_volumes cfg),
       sk_restart = buildRestartPolicy (cc_restart cfg), sk_networks = take 1 (cc_networks cfg)\<rparr>)"

text \<open>\<open>int(timeout.Seconds())\<close>, which truncates; \<open>None\<close> is a nil timeout.\<close>

definition stop_seconds :: "duration option \<Rightarrow> int option" where
  "stop_seconds tmo =
     map_option (\<lambda>d. if d < 0 then - ((- d) div second) else d div second) tmo"

section \<open>Listings\<close>

record sdk_container =
  sc_id :: string
  sc_names :: "string list"
  sc_image :: string
  sc_state :: string
  sc_status :: string
  sc_labels :: "(string, string) gomap"
  sc_created :: int

text \<open>\<open>unix s\<close> is the instant \<open>s\<close> seconds after the Unix epoch; the ports of a container are not copied.\<close>

definition container_info :: "(int \<Rightarrow> time) \<Rightarrow> sdk_container \<Rightarrow> ContainerInfo" where
  "container_info unix ctr =
     \<lparr>ci_id = sc_id ctr,
      ci_name = (case sc_names ctr of [] \<Rightarrow> [] | n # ns \<Rightarrow> trim_prefix n ''/''),
      ci_image = sc_image ctr, ci_state = sc_state ctr, ci_status = sc_status ctr,
      ci_labels = sc_labels ctr, ci_ports = [], ci_created = unix (sc_created ctr)\<rparr>"

text \<open>\<open>filters.NewArgs\<close> with every value of every key added.\<close>

definition filter_args :: "docker_filters \<Rightarrow> (string \<times> string) list" where
  "filter_args fs = concat (map (\<lambda>(k, vals). map (\<lambda>v. (k, v)) vals) fs)"

definition list_containers ::
    "(int \<Rightarrow> time) \<Rightarrow> ((string \<times> string) list \<Rightarrow> go_error + sdk_container list) \<Rightarrow> docker_filters \<Rightarrow>
     go_error + ContainerInfo list" where
  "list_containers unix cli fs =
     (case cli (filter_args fs) of Inl err \<Rightarrow> Inl err | Inr cs \<Rightarrow> Inr (map (container_info unix) cs))"

text \<open>
  \<open>ContainerInspect\<close>: the detail of the SDK's answer. \<open>parse_time\<close> is \<open>time.Parse\<close> with the nanosecond
  layout, whose error gives the zero instant for the creation and leaves the start unset, which is the
  zero instant as well. A container without health checks has no health; the configuration and the
  status are never filled.
\<close>

record sdk_detail =
  sd_id :: string
  sd_name :: string
  sd_image :: string
  sd_state :: string
  sd_labels :: "(string, string) gomap"
  sd_created :: string
  sd_pid :: int
  sd_exitcode :: int
  sd_health :: "string option"
  sd_started :: string

record ContainerDetail = ContainerInfo +
  cd_health :: string
  cd_pid :: int
  cd_started :: time
  cd_exitcode :: int

definition parseTime :: "(string \<Rightarrow> time option) \<Rightarrow> string \<Rightarrow> time" where
  "parseTime parse_time s = (case parse_time s of None \<Rightarrow> 0 | Some t \<Rightarrow> t)"

definition container_detail :: "(string \<Rightarrow> time option) \<Rightarrow> sdk_detail \<Rightarrow> ContainerDetail" where
  "container_detail parse_time info =
     \<lparr>ci_id = sd_id info, ci_name = trim_prefix (sd_name info) ''/'', ci_image = sd_image info,
      ci_state = sd_state info, ci_status = [], ci_labels = sd_labels info, ci_ports = [],
      ci_created = parseTime parse_time (sd_created info),
      cd_health = (case sd_health info of None \<Rightarrow> [] | Some h \<Rightarrow> h), cd_pid = sd_pid info,
      cd_started = (if sd_started info \<noteq> [] then parseTime parse_time (sd_started info) else 0),
      cd_exitcode = sd_exitcode info\<rparr>"

text \<open>The options of a log request: both streams, and what the caller asked for.\<close>

record LogOptions =
  lo_follow :: bool
  lo_tail :: string
  lo_since :: string
  lo_timestamps :: bool

record sdk_log_options = LogOptions +
  slo_stdout :: bool
  slo_stderr :: bool

definition log_options :: "LogOptions \<Rightarrow> sdk_log_options" where
  "log_options opts = LogOptions.extend opts \<lparr>slo_stdout = True, slo_stderr = True\<rparr>"

text \<open>Networks and volumes: the SDK's records are read and written field by field.\<close>

record sdk_network =
  sn_id :: string
  sn_name :: string
  sn_driver :: string
  sn_labels :: "(string, string) gomap"

definition network_info :: "sdk_network \<Rightarrow> NetworkInfo" where
  "network_info n =
     \<lparr>ni_id = sn_id n, ni_name = sn_name n, ni_driver = sn_driver n, ni_labels = sn_labels n\<rparr>"

definition list_networks :: "(go_error + sdk_network list) \<Rightarrow> go_error + NetworkInfo list" where
  "list_networks answer = (case answer of Inl err \<Rightarrow> Inl err | Inr ns \<Rightarrow> Inr (map network_info ns))"

record sdk_volume =
  so_name :: string
  so_driver :: string
  so_labels :: "(string, string) gomap"

definition volume_info :: "sdk_volume \<Rightarrow> VolumeInfo" where
  "volume_info v = \<lparr>vi_name = so_name v, vi_driver = so_driver v, vi_labels = so_labels v\<rparr>"

definition list_volumes :: "(go_error + sdk_volume list) \<Rightarrow> go_error + VolumeInfo list" where
  "list_volumes answer = (case answer of Inl err \<Rightarrow> Inl err | Inr vs \<Rightarrow> Inr (map volume_info vs))"

section \<open>Images\<close>

text \<open>\<open>ImageExists\<close> from the answer of the inspection: its error and whether it says not found.\<close>

definition image_exists :: "(go_error \<Rightarrow> bool) \<Rightarrow> go_error option \<Rightarrow> go_error + bool" where
  "image_exists is_not_found err =
     (case err of None \<Rightarrow> Inr True | Some e \<Rightarrow> if is_not_found e then Inr False else Inl e)"

text \<open>
  The output of a build, message by message: a decoding error or the message's error text. The end of
  the list is the end of the output.
\<close>

fun build_output :: "(go_error + string) list \<Rightarrow> go_error option" where
  "build_output [] = None"
| "build_output (Inl err # ms) = Some err"
| "build_output (Inr msg # ms) =
     (if msg \<noteq> [] then Some (PlainError (''build error: '' @ msg)) else build_output ms)"

definition build_dockerfile :: "ImageBuildOpts \<Rightarrow> string" where
  "build_dockerfile opts = (if ib_dockerfile opts = [] then ''Dockerfile'' else ib_dockerfile opts)"

text \<open>
  \<open>ImageBuild\<close>: \<open>pack\<close> makes the archive of a directory and \<open>run\<close> sends it with the options to the daemon
  and answers with the messages of the build; both may fail.
\<close>

record sdk_build =
  sb_tags :: "string list"
  sb_dockerfile :: string
  sb_args :: "(string, string) gomap"
  sb_target :: string
  sb_remove :: bool
  sb_forceremove :: bool

definition image_build ::
    "(string \<Rightarrow> string \<Rightarrow> go_error + 'a) \<Rightarrow> ('a \<Rightarrow> sdk_build \<Rightarrow> go_error + (go_error + string) list) \<Rightarrow>
     ImageBuildOpts \<Rightarrow> go_error option" where
  "image_build pack run opts =
     (case pack (ib_context opts) (ib_dockerfile opts) of
        Inl err \<Rightarrow> Some (PlainError (''create build context: '' @ error_string err))
      | Inr archive \<Rightarrow>
          (case run archive \<lparr>sb_tags = ib_tags opts, sb_dockerfile = build_dockerfile opts,
                  sb_args = ib_args opts, sb_target = ib_target opts, sb_remove = True,
                  sb_forceremove = True\<rparr> of
             Inl err \<Rightarrow> Some err
           | Inr ms \<Rightarrow> build_output ms))"

section \<open>Calls that pass their arguments on\<close>

text \<open>\<open>NewClient\<close>: the options of the SDK's client; \<open>mk\<close> is its constructor.\<close>

datatype client_opt = WithHost string | WithVersion string

definition client_options :: "string \<Rightarrow> string \<Rightarrow> client_opt list" where
  "client_options host apiVersion =
     [WithHost host] @ (if apiVersion \<noteq> [] then [WithVersion apiVersion] else [])"

definition NewClient :: "(client_opt list \<Rightarrow> go_error option) \<Rightarrow> string \<Rightarrow> string \<Rightarrow> go_error option" where
  "NewClient mk host apiVersion =
     map_option (\<lambda>err. PlainError (''create docker client: '' @ error_string err))
       (mk (client_options host apiVersion))"

record sdk_remove =
  sr_force :: bool
  sr_volumes :: bool

definition remove_options :: "bool \<Rightarrow> sdk_remove" where
  "remove_options force = \<lparr>sr_force = force, sr_volumes = False\<rparr>"

record sdk_network_create =
  sn_driver :: string
  sn_labels :: "(string, string) gomap"
  sn_options :: "(string, string) gomap"

definition network_create :: "NetworkCreateOpts \<Rightarrow> sdk_network_create" where
  "network_create opts =
     \<lparr>sn_driver = nco_driver opts, sn_labels = nco_labels opts, sn_options = nco_options opts\<rparr>"

record sdk_volume_create =
  vx_name :: string
  vx_driver :: string
  vx_labels :: "(string, string) gomap"
  vx_driveropts :: "(string, string) gomap"

definition volume_create :: "string \<Rightarrow> VolumeCreateOpts \<Rightarrow> sdk_volume_create" where
  "volume_create name opts =
     \<lparr>vx_name = name, vx_driver = vco_driver opts, vx_labels = vco_labels opts,
      vx_driveropts = vco_options opts\<rparr>"

text \<open>\<open>ImagePull\<close> hands on the platform only: the credentials of \<open>AuthConfig\<close> are not sent.\<close>

record ImagePullOpts =
  ip_platform :: string
  ip_auth :: string

definition pull_platform :: "ImagePullOpts \<Rightarrow> string" where
  "pull_platform opts = ip_platform opts"

text \<open>The part of \<open>Events\<close> before its goroutine: what the SDK is asked for.\<close>

record EventsOptions =
  eo_since :: string
  eo_until :: string
  eo_filters :: docker_filters

definition list_options :: "EventsOptions \<Rightarrow> string \<times> string \<times> (string \<times> string) list" where
  "list_options opts = (eo_since opts, eo_until opts, filter_args (eo_filters opts))"

section \<open>Statistics\<close>

record stats_json =
  sj_total :: "64 word"
  sj_pretotal :: "64 word"
  sj_system :: "64 word"
  sj_presystem :: "64 word"
  sj_cpus :: "32 word"
  sj_memusage :: "64 word"
  sj_memlimit :: "64 word"
  sj_networks :: "(string \<times> 64 word \<times> 64 word) list"
  sj_pids :: "64 word"
  sj_read :: time

record ContainerStats =
  ct_id :: string
  ct_name :: string
  ct_cpu :: rat
  ct_memusage :: "64 word"
  ct_memlimit :: "64 word"
  ct_mempercent :: rat
  ct_rx :: "64 word"
  ct_tx :: "64 word"
  ct_pids :: "64 word"
  ct_time :: time

definition word_rat :: "'a::len word \<Rightarrow> rat" where
  "word_rat w = of_int (uint w)"

definition cpu_percent :: "stats_json \<Rightarrow> rat" where
  "cpu_percent raw =
     (let cpuDelta = word_rat (sj_total raw - sj_pretotal raw);
          systemDelta = word_rat (sj_system raw - sj_presystem raw)
      in if systemDelta > 0 \<and> cpuDelta > 0
         then (cpuDelta / systemDelta) * word_rat (sj_cpus raw) * 100 else 0)"

definition mem_percent :: "stats_json \<Rightarrow> rat" where
  "mem_percent raw =
     (if sj_memlimit raw > 0 then word_rat (sj_memusage raw) / word_rat (sj_memlimit raw) * 100 else 0)"

definition ParseStats :: "stats_json \<Rightarrow> ContainerStats" where
  "ParseStats raw =
     \<lparr>ct_id = [], ct_name = [], ct_cpu = cpu_percent raw, ct_memusage = sj_memusage raw,
      ct_memlimit = sj_memlimit raw, ct_mempercent = mem_percent raw,
      ct_rx = sum_list (map (fst \<circ> snd) (sj_networks raw)),
      ct_tx = sum_list (map (snd \<circ> snd) (sj_networks raw)),
      ct_pids = sj_pids raw, ct_time = sj_read raw\<rparr>"

section \<open>Facts\<close>

lemma buildPortBindings_fold:
  "fold (\<lambda>p (exposed, m).
         let natPort = np (pb_protocol p) (pb_containerport p)
         in (AList.update natPort () exposed,
             AList.update natPort [\<lparr>nb_hostip = pb_hostip p, nb_hostport = pb_hostport p\<rparr>] m))
       ports (e0, m0) = (e1, m1) \<Longrightarrow>
   map_of m1 k = (case find (\<lambda>p. np (pb_protocol p) (pb_containerport p) = k) (rev ports) of
     None \<Rightarrow> map_of m0 k | Some p \<Rightarrow> Some [\<lparr>nb_hostip = pb_hostip p, nb_hostport = pb_hostport p\<rparr>])"
proof (induction ports arbitrary: e1 m1 rule: rev_induct)
  case (snoc p ports)
  obtain e m where 1: "fold (\<lambda>p (exposed, m).
         let natPort = np (pb_protocol p) (pb_containerport p)
         in (AList.update natPort () exposed,
             AList.update natPort [\<lparr>nb_hostip = pb_hostip p, nb_hostport = pb_hostport p\<rparr>] m))
       ports (e0, m0) = (e, m)" by fastforce
  show ?case using snoc.IH [OF 1] snoc.prems 1 by (auto simp: Let_def)
qed simp

text \<open>A container port published twice keeps the last binding only.\<close>

lemma port_bindings_last:
  "map_of (snd (buildPortBindings np ports)) k =
     map_option (\<lambda>p. [\<lparr>nb_hostip = pb_hostip p, nb_hostport = pb_hostport p\<rparr>])
       (find (\<lambda>p. np (pb_protocol p) (pb_containerport p) = k) (rev ports))"
proof -
  obtain e m where 1: "buildPortBindings np ports = (e, m)" by fastforce
  show ?thesis
    using buildPortBindings_fold [OF 1 [unfolded buildPortBindings_def], of k] 1
    by (simp split: option.splits)
qed

text \<open>A container is attached to the first of its networks only.\<close>

lemma one_network: "length (sk_networks (create_options np cfg)) \<le> 1"
  by (simp add: create_options_def split: prod.splits)

text \<open>
  A counter that started again, as after a restart of the container, makes the difference wrap around:
  the share of the processor is computed from almost \<open>2 ^ 64\<close> ticks.
\<close>

lemma cpu_delta_wraps:
  assumes "sj_total raw < sj_pretotal raw"
  shows "uint (sj_total raw - sj_pretotal raw) = 2 ^ 64 - (uint (sj_pretotal raw) - uint (sj_total raw))"
  using assms uint_lt2p [of "sj_pretotal raw"] uint_ge_0 [of "sj_total raw"]
  by (simp add: uint_sub_if' word_less_def)

lemma ratio_le_one: "D \<le> S \<Longrightarrow> 0 < S \<Longrightarrow> (of_int D :: rat) / of_int S \<le> 1"
  by (simp add: divide_le_eq)

text \<open>Without such a restart the share is at most that of all processors.\<close>

lemma cpu_percent_bounded:
  assumes "sj_pretotal raw \<le> sj_total raw" "sj_presystem raw < sj_system raw"
    "uint (sj_total raw) - uint (sj_pretotal raw) \<le> uint (sj_system raw) - uint (sj_presystem raw)"
  shows "cpu_percent raw \<le> word_rat (sj_cpus raw) * 100"
proof -
  have c: "uint (sj_total raw - sj_pretotal raw) = uint (sj_total raw) - uint (sj_pretotal raw)"
    using assms(1) by (simp add: uint_sub_if' word_le_def)
  have s: "uint (sj_system raw - sj_presystem raw) = uint (sj_system raw) - uint (sj_presystem raw)"
    using assms(2) by (simp add: uint_sub_if' word_less_def)
  have pos: "0 < uint (sj_system raw) - uint (sj_presystem raw)"
    using assms(2) by (simp add: word_less_def)
  have "word_rat (sj_total raw - sj_pretotal raw) / word_rat (sj_system raw - sj_presystem raw) \<le> 1"
    unfolding word_rat_def c s by (rule ratio_le_one [OF assms(3) pos])
  moreover have cpus: "0 \<le> word_rat (sj_cpus raw)"
    unfolding word_rat_def of_int_0_le_iff by (rule uint_ge_0)
  ultimately have "word_rat (sj_total raw - sj_pretotal raw) / word_rat (sj_system raw - sj_presystem raw)
      * word_rat (sj_cpus raw) \<le> 1 * word_rat (sj_cpus raw)" by (rule mult_right_mono)
  then have "word_rat (sj_total raw - sj_pretotal raw) / word_rat (sj_system raw - sj_presystem raw)
      * word_rat (sj_cpus raw) * 100 \<le> 1 * word_rat (sj_cpus raw) * 100" by (rule mult_right_mono) simp
  then show ?thesis unfolding cpu_percent_def Let_def using cpus by auto
qed

end
