(* ===== verification/BuildContext.thy ===== *)
theory BuildContext
  imports Domain GoStrings
begin

text \<open>
  \<open>createBuildContext\<close> of \<open>internal/docker/sdk_client.go\<close>: the archive of a build context, written by
  \<open>filepath.Walk\<close> into a \<open>tar.Writer\<close>. The directory is a tree, as \<open>os.Lstat\<close> and \<open>os.Open\<close> show it: a
  link is a leaf whose content is that of the file it leads to. The archive is its entries, not its
  bytes.
\<close>

section \<open>The directory and the archive\<close>

text \<open>What opening and reading a file gives: an error of \<open>os.Open\<close>, or bytes and how reading ends.\<close>

datatype content = NoOpen go_error | Content string "go_error option"

text \<open>
  The entries of a directory are in the order of their names, as \<open>filepath.Walk\<close> reads them, unless it
  fails to. A regular file has the size \<open>os.Lstat\<close> told. \<open>Special\<close> is a device or a pipe.
\<close>

datatype tree =
    Unreadable go_error
  | Directory "go_error option" "(string \<times> tree) list"
  | Regular nat content
  | Link content
  | Socket
  | Special content

datatype entry_type = TypeReg | TypeDir | TypeSymlink | TypeSpecial

record tar_entry =
  te_name :: string
  te_type :: entry_type
  te_content :: string

text \<open>The writer: the entries so far, and how many bytes the last one still owes.\<close>

record tar_writer =
  tw_entries :: "tar_entry list"
  tw_missing :: nat

definition tar_error :: "string \<Rightarrow> go_error" where
  "tar_error msg = PlainError (''archive/tar: '' @ msg)"

definition missed_writing :: "nat \<Rightarrow> go_error" where
  "missed_writing n = tar_error (''missed writing '' @ nat_digits n @ '' bytes'')"

definition WriteHeader :: "string \<Rightarrow> entry_type \<Rightarrow> nat \<Rightarrow> tar_writer \<Rightarrow> go_error option \<times> tar_writer" where
  "WriteHeader name ty n w =
     (if 0 < tw_missing w then (Some (missed_writing (tw_missing w)), w)
      else (None, \<lparr>tw_entries = tw_entries w @ [\<lparr>te_name = name, te_type = ty, te_content = []\<rparr>],
                   tw_missing = n\<rparr>))"

definition add_content :: "string \<Rightarrow> tar_writer \<Rightarrow> tar_writer" where
  "add_content s w =
     \<lparr>tw_entries = butlast (tw_entries w) @ [(last (tw_entries w))\<lparr>te_content := te_content (last (tw_entries w)) @ s\<rparr>],
      tw_missing = tw_missing w - length s\<rparr>"

text \<open>\<open>io.Copy\<close> to the writer: bytes above what the header announced are an error.\<close>

definition copy_content :: "content \<Rightarrow> tar_writer \<Rightarrow> go_error option \<times> tar_writer" where
  "copy_content c w =
     (case c of
        NoOpen err \<Rightarrow> (Some err, w)
      | Content s res \<Rightarrow>
          if s = [] then (res, w)
          else if tw_missing w < length s
          then (Some (tar_error ''write too long''), add_content (take (tw_missing w) s) w)
          else (res, add_content s w))"

section \<open>The walk\<close>

text \<open>
  The visit of one file: the header, and the content unless it is a directory. \<open>names\<close> leads from the
  context to the file; for the context itself, whose relative path is \<open>.\<close>, the visit does nothing.
\<close>

definition visit_file :: "string list \<Rightarrow> entry_type \<Rightarrow> nat \<Rightarrow> content option \<Rightarrow> tar_writer \<Rightarrow>
    go_error option \<times> tar_writer" where
  "visit_file names ty n c w =
     (if names = [] then (None, w)
      else
        (case WriteHeader (join_with ''/'' names) ty n w of
           (Some err, w) \<Rightarrow> (Some err, w)
         | (None, w) \<Rightarrow> (case c of None \<Rightarrow> (None, w) | Some c \<Rightarrow> copy_content c w)))"

fun walk_tree :: "string list \<Rightarrow> tree \<Rightarrow> tar_writer \<Rightarrow> go_error option \<times> tar_writer"
  and walk_entries :: "string list \<Rightarrow> (string \<times> tree) list \<Rightarrow> tar_writer \<Rightarrow> go_error option \<times> tar_writer" where
  "walk_tree names (Unreadable err) w = (Some err, w)"
| "walk_tree names (Directory (Some err) es) w = (Some err, w)"
| "walk_tree names (Directory None es) w =
     (case visit_file names TypeDir 0 None w of
        (Some err, w) \<Rightarrow> (Some err, w)
      | (None, w) \<Rightarrow> walk_entries names es w)"
| "walk_tree names (Regular n c) w = visit_file names TypeReg n (Some c) w"
| "walk_tree names (Link c) w = visit_file names TypeSymlink 0 (Some c) w"
| "walk_tree names Socket w =
     (if names = [] then (None, w) else (Some (tar_error ''sockets not supported''), w))"
| "walk_tree names (Special c) w = visit_file names TypeSpecial 0 (Some c) w"
| "walk_entries names [] w = (None, w)"
| "walk_entries names ((n, t) # es) w =
     (case walk_tree (names @ [n]) t w of
        (Some err, w) \<Rightarrow> (Some err, w)
      | (None, w) \<Rightarrow> walk_entries names es w)"

definition close_tar :: "tar_writer \<Rightarrow> go_error + tar_entry list" where
  "close_tar w = (if 0 < tw_missing w then Inl (missed_writing (tw_missing w)) else Inr (tw_entries w))"

definition createBuildContext :: "tree \<Rightarrow> go_error + tar_entry list" where
  "createBuildContext t =
     (case walk_tree [] t \<lparr>tw_entries = [], tw_missing = 0\<rparr> of
        (Some err, w) \<Rightarrow> Inl err
      | (None, w) \<Rightarrow> close_tar w)"

section \<open>What can be packed\<close>

text \<open>
  A tree can be packed if everything in it can be read, every file has the size it was announced
  with, and every link, device and pipe leads to an empty file.
\<close>

fun readable :: "nat \<Rightarrow> content \<Rightarrow> bool" where
  "readable n (NoOpen err) = False"
| "readable n (Content s res) = (length s = n \<and> res = None)"

fun packable :: "tree \<Rightarrow> bool" where
  "packable (Directory err es) = (err = None \<and> (\<forall>(n, t) \<in> set es. packable t))"
| "packable (Regular n c) = readable n c"
| "packable (Link c) = readable 0 c"
| "packable (Special c) = readable 0 c"
| "packable t = False"

text \<open>Every file below, with its path, its type and its content, a directory before its entries.\<close>

fun bytes_of :: "content \<Rightarrow> string" where
  "bytes_of (NoOpen err) = []"
| "bytes_of (Content s res) = s"

definition file_entry :: "string list \<Rightarrow> entry_type \<Rightarrow> string \<Rightarrow> tar_entry" where
  "file_entry names ty s = \<lparr>te_name = join_with ''/'' names, te_type = ty, te_content = s\<rparr>"

fun own_entry :: "string list \<Rightarrow> tree \<Rightarrow> tar_entry list" where
  "own_entry names (Directory err es) = [file_entry names TypeDir []]"
| "own_entry names (Regular n c) = [file_entry names TypeReg (bytes_of c)]"
| "own_entry names (Link c) = [file_entry names TypeSymlink (bytes_of c)]"
| "own_entry names (Special c) = [file_entry names TypeSpecial (bytes_of c)]"
| "own_entry names t = []"

fun files_below :: "string list \<Rightarrow> tree \<Rightarrow> tar_entry list" where
  "files_below names (Directory err es) =
     concat (map (\<lambda>(n, t). own_entry (names @ [n]) t @ files_below (names @ [n]) t) es)"
| "files_below names t = []"

section \<open>The walk packs it\<close>

lemma visit_file_ok:
  assumes "names \<noteq> []" "tw_missing w = 0" "readable n c"
  shows "visit_file names ty n (Some c) w =
    (None, \<lparr>tw_entries = tw_entries w @ [file_entry names ty (bytes_of c)], tw_missing = 0\<rparr>)"
  using assms
  by (cases c) (auto simp: visit_file_def WriteHeader_def copy_content_def add_content_def file_entry_def)

lemma visit_directory:
  assumes "names \<noteq> []" "tw_missing w = 0"
  shows "visit_file names ty 0 None w =
    (None, \<lparr>tw_entries = tw_entries w @ [file_entry names ty []], tw_missing = 0\<rparr>)"
  using assms by (simp add: visit_file_def WriteHeader_def file_entry_def)

lemma visit_file_owes: "names \<noteq> [] \<Longrightarrow> 0 < tw_missing w \<Longrightarrow> fst (visit_file names ty n c w) \<noteq> None"
  by (simp add: visit_file_def WriteHeader_def)

text \<open>A walk that is stuck has failed, or its writer owes bytes, so that it can only fail.\<close>

definition stuck :: "go_error option \<times> tar_writer \<Rightarrow> bool" where
  "stuck x \<longleftrightarrow> fst x \<noteq> None \<or> 0 < tw_missing (snd x)"

lemma stuck_simps [simp]: "stuck (Some err, w)" "stuck (None, w) \<longleftrightarrow> 0 < tw_missing w"
  by (simp_all add: stuck_def)

lemma visit_file_stuck: "names \<noteq> [] \<Longrightarrow> \<not> readable n c \<Longrightarrow> stuck (visit_file names ty n (Some c) w)"
  by (cases c)
     (auto simp: stuck_def visit_file_def WriteHeader_def copy_content_def add_content_def)

lemma visit_content_stuck:
  "names \<noteq> [] \<Longrightarrow> 0 < tw_missing w \<or> \<not> readable n c \<Longrightarrow> stuck (visit_file names ty n (Some c) w)"
  using visit_file_owes visit_file_stuck unfolding stuck_def by metis

lemma walk_packs:
  "names \<noteq> [] \<Longrightarrow> tw_missing w = 0 \<Longrightarrow> packable t \<Longrightarrow>
     walk_tree names t w =
       (None, \<lparr>tw_entries = tw_entries w @ own_entry names t @ files_below names t, tw_missing = 0\<rparr>)"
  "tw_missing w = 0 \<Longrightarrow> \<forall>(n, t) \<in> set es. packable t \<Longrightarrow>
     walk_entries names es w =
       (None, \<lparr>tw_entries = tw_entries w @ files_below names (Directory None es), tw_missing = 0\<rparr>)"
proof (induction names t w and names es w rule: walk_tree_walk_entries.induct)
  case (3 names es w)
  then show ?case by (simp add: visit_directory)
qed (simp_all add: visit_file_ok)

lemma walk_stuck:
  "names \<noteq> [] \<Longrightarrow> 0 < tw_missing w \<or> \<not> packable t \<Longrightarrow> stuck (walk_tree names t w)"
  "0 < tw_missing w \<or> (\<exists>(n, t) \<in> set es. \<not> packable t) \<Longrightarrow> stuck (walk_entries names es w)"
proof (induction names t w and names es w rule: walk_tree_walk_entries.induct)
  case (3 names es w)
  show ?case
  proof (cases "0 < tw_missing w")
    case True
    then show ?thesis using visit_file_owes [OF 3(2), of w TypeDir 0 None]
      by (auto simp: stuck_def split: prod.split option.split)
  next
    case False
    then show ?thesis using 3 by (auto simp: visit_directory)
  qed
next
  case (9 names n t es w)
  obtain e w' where 1: "walk_tree (names @ [n]) t w = (e, w')" by fastforce
  show ?case
  proof (cases "stuck (e, w')")
    case True
    then show ?thesis using 9(2) [OF 1 [symmetric]] by (cases e) (auto simp: 1 stuck_def)
  next
    case False
    have "\<not> (0 < tw_missing w \<or> \<not> packable t)"
    proof
      assume "0 < tw_missing w \<or> \<not> packable t"
      then have "stuck (walk_tree (names @ [n]) t w)" by (intro 9(1)) simp_all
      then show False using False by (simp add: 1)
    qed
    then have "tw_missing w = 0" "packable t" by simp_all
    then show ?thesis using 9 walk_packs(1) [of "names @ [n]" w t] by auto
  qed
qed (simp_all add: visit_content_stuck)

section \<open>Properties\<close>

text \<open>
  C20: The archive of a build context is complete or there is none: packing a directory succeeds exactly if
  everything below it can be read, every file has the size it was announced with and no link, device or
  pipe leads to a file with content; and the archive then lists every file below the directory once, a
  directory before its entries, with its relative path, its type and its whole content.
\<close>

theorem createBuildContext_exact:
  "createBuildContext (Directory err ts) = Inr es \<longleftrightarrow>
     packable (Directory err ts) \<and> es = files_below [] (Directory err ts)"
proof (cases "packable (Directory err ts)")
  case True
  then show ?thesis
    using walk_packs(2) [of "\<lparr>tw_entries = [], tw_missing = 0\<rparr>" ts "[]"]
    by (auto simp: createBuildContext_def visit_file_def close_tar_def)
next
  case False
  then have "err \<noteq> None \<or> (\<exists>(n, t) \<in> set ts. \<not> packable t)" by auto
  then have "err \<noteq> None \<or> stuck (walk_entries [] ts \<lparr>tw_entries = [], tw_missing = 0\<rparr>)"
    using walk_stuck(2) [of "\<lparr>tw_entries = [], tw_missing = 0\<rparr>" ts "[]"] by blast
  then show ?thesis
    using False
    by (cases err) (auto simp: createBuildContext_def visit_file_def close_tar_def stuck_def
        split: prod.split option.split)
qed

text \<open>
  A link to a file with content makes every build of its context fail, and a context that is itself a
  link is packed as an empty archive, without an error.
\<close>

lemma link_breaks_build:
  assumes "(n, Link (Content (c # cs) res)) \<in> set ts"
  shows "isl (createBuildContext (Directory err ts))"
proof -
  have "\<exists>(n, t) \<in> set ts. \<not> packable t" using assms by (intro bexI [OF _ assms]) simp
  then have "stuck (walk_entries [] ts \<lparr>tw_entries = [], tw_missing = 0\<rparr>)"
    by (intro walk_stuck(2)) simp
  then show ?thesis
    by (cases err) (auto simp: createBuildContext_def visit_file_def close_tar_def stuck_def
        split: prod.split option.split)
qed

lemma linked_context_is_empty: "createBuildContext (Link c) = Inr []"
  by (simp add: createBuildContext_def visit_file_def close_tar_def)

end
