(* ===== verification/SdkEnv.thy ===== *)
theory SdkEnv
  imports SdkClient BuildContext OpsProps
begin

text \<open>
  The methods of \<open>internal/docker/sdk_client.go\<close> as an implementation of the client interface of
  \<open>DockerClient\<close>, on the calls of the Docker SDK, which are parameters: the record \<open>sdk\<close>. With it the
  compose operations run on what the SDK answers, and the theorems on them hold for this client.
\<close>

section \<open>The calls of the SDK\<close>

text \<open>
  Each is a function of the world, like the methods of the interface. \<open>cli_ImageBuild\<close> answers with the
  messages of the build and \<open>cli_ImageInspect\<close> with its error alone. The directory of a build context is
  read from the world, and \<open>sd_new_port\<close>, \<open>sd_unix\<close>, \<open>sd_notfound\<close> and
  \<open>sd_parsetime\<close> are library functions.
\<close>

record 'w sdk =
  cli_ContainerCreate :: "go_ctx \<Rightarrow> sdk_create \<Rightarrow> 'w \<Rightarrow> (go_error + string) \<times> 'w"
  cli_ContainerStart :: "go_ctx \<Rightarrow> string \<Rightarrow> 'w \<Rightarrow> go_error option \<times> 'w"
  cli_ContainerStop :: "go_ctx \<Rightarrow> string \<Rightarrow> int option \<Rightarrow> 'w \<Rightarrow> go_error option \<times> 'w"
  cli_ContainerRemove :: "go_ctx \<Rightarrow> string \<Rightarrow> sdk_remove \<Rightarrow> 'w \<Rightarrow> go_error option \<times> 'w"
  cli_ContainerList ::
    "go_ctx \<Rightarrow> bool \<Rightarrow> (string \<times> string) list \<Rightarrow> 'w \<Rightarrow> (go_error + sdk_container list) \<times> 'w"
  cli_NetworkCreate :: "go_ctx \<Rightarrow> string \<Rightarrow> sdk_network_create \<Rightarrow> 'w \<Rightarrow> (go_error + string) \<times> 'w"
  cli_NetworkRemove :: "go_ctx \<Rightarrow> string \<Rightarrow> 'w \<Rightarrow> go_error option \<times> 'w"
  cli_NetworkList :: "go_ctx \<Rightarrow> 'w \<Rightarrow> (go_error + sdk_network list) \<times> 'w"
  cli_VolumeCreate :: "go_ctx \<Rightarrow> sdk_volume_create \<Rightarrow> 'w \<Rightarrow> go_error option \<times> 'w"
  cli_VolumeRemove :: "go_ctx \<Rightarrow> string \<Rightarrow> bool \<Rightarrow> 'w \<Rightarrow> go_error option \<times> 'w"
  cli_VolumeList :: "go_ctx \<Rightarrow> 'w \<Rightarrow> (go_error + sdk_volume list) \<times> 'w"
  cli_ImagePull :: "go_ctx \<Rightarrow> string \<Rightarrow> string \<Rightarrow> 'w \<Rightarrow> go_error option \<times> 'w"
  cli_ImageInspect :: "go_ctx \<Rightarrow> string \<Rightarrow> 'w \<Rightarrow> go_error option \<times> 'w"
  cli_ImageBuild ::
    "go_ctx \<Rightarrow> tar_entry list \<Rightarrow> sdk_build \<Rightarrow> 'w \<Rightarrow> (go_error + (go_error + string) list) \<times> 'w"
  cli_ContainerInspect :: "go_ctx \<Rightarrow> string \<Rightarrow> 'w \<Rightarrow> (go_error + sdk_detail) \<times> 'w"
  cli_ContainerLogs :: "go_ctx \<Rightarrow> string \<Rightarrow> sdk_log_options \<Rightarrow> 'w \<Rightarrow> (go_error + string) \<times> 'w"
  cli_ContainerStats :: "go_ctx \<Rightarrow> string \<Rightarrow> bool \<Rightarrow> 'w \<Rightarrow> (go_error + string) \<times> 'w"
  cli_Ping :: "'w \<Rightarrow> go_error option \<times> 'w"
  cli_Close :: "'w \<Rightarrow> go_error option \<times> 'w"
  sd_tree :: "string \<Rightarrow> 'w \<Rightarrow> tree"
  sd_notfound :: "go_error \<Rightarrow> bool"
  sd_new_port :: "string \<Rightarrow> string \<Rightarrow> string"
  sd_unix :: "int \<Rightarrow> time"
  sd_parsetime :: "string \<Rightarrow> time option"

section \<open>The client\<close>

definition sdk_ContainerCreate where
  "sdk_ContainerCreate c ctx cfg = cli_ContainerCreate c ctx (create_options (sd_new_port c) cfg)"

definition sdk_ContainerStop where
  "sdk_ContainerStop c ctx i tmo = cli_ContainerStop c ctx i (stop_seconds tmo)"

definition sdk_ContainerRemove where
  "sdk_ContainerRemove c ctx i force = cli_ContainerRemove c ctx i (remove_options force)"

text \<open>Every container is asked for, running or not, unless the filters say otherwise.\<close>

definition sdk_ContainerList where
  "sdk_ContainerList c ctx fs w =
     (let (answer, w) = cli_ContainerList c ctx True (filter_args fs) w
      in (list_containers (sd_unix c) (\<lambda>_. answer) fs, w))"

definition sdk_NetworkCreate where
  "sdk_NetworkCreate c ctx n opts = cli_NetworkCreate c ctx n (network_create opts)"

definition sdk_NetworkList where
  "sdk_NetworkList c ctx w = (let (answer, w) = cli_NetworkList c ctx w in (list_networks answer, w))"

definition sdk_VolumeCreate where
  "sdk_VolumeCreate c ctx n opts = cli_VolumeCreate c ctx (volume_create n opts)"

definition sdk_VolumeList where
  "sdk_VolumeList c ctx w = (let (answer, w) = cli_VolumeList c ctx w in (list_volumes answer, w))"

definition sdk_ImagePull where
  "sdk_ImagePull c ctx ref opts = cli_ImagePull c ctx ref (pull_platform opts)"

definition sdk_ImageExists where
  "sdk_ImageExists c ctx ref w =
     (let (err, w) = cli_ImageInspect c ctx ref w in (image_exists (sd_notfound c) err, w))"

text \<open>The archive is made first; without it the daemon is not called.\<close>

definition sdk_ImageBuild where
  "sdk_ImageBuild c ctx opts w =
     (let archive = createBuildContext (sd_tree c (ib_context opts) w);
          sent = (case archive of
                    Inl err \<Rightarrow> (Inl err, w)
                  | Inr es \<Rightarrow> cli_ImageBuild c ctx es
                      \<lparr>sb_tags = ib_tags opts, sb_dockerfile = build_dockerfile opts,
                       sb_args = ib_args opts, sb_target = ib_target opts, sb_remove = True,
                       sb_forceremove = True\<rparr> w)
      in (image_build (\<lambda>_ _. archive) (\<lambda>_ _. fst sent) opts, snd sent))"

text \<open>The methods of the streamer and of the start, which the operations do not use. A reader is its bytes.\<close>

definition sdk_ContainerInspect where
  "sdk_ContainerInspect c ctx i w =
     (let (answer, w) = cli_ContainerInspect c ctx i w
      in (case answer of
            Inl err \<Rightarrow> Inl err | Inr info \<Rightarrow> Inr (container_detail (sd_parsetime c) info), w))"

definition sdk_ContainerLogs where
  "sdk_ContainerLogs c ctx i opts = cli_ContainerLogs c ctx i (log_options opts)"

definition sdk_ContainerStats where
  "sdk_ContainerStats c ctx i stream = cli_ContainerStats c ctx i stream"

definition sdk_Ping where "sdk_Ping c = cli_Ping c"
definition sdk_Close where "sdk_Close c = cli_Close c"

text \<open>
  The environment of the operations with this client; \<open>e\<close> gives what is not the client's: the clock,
  the context, \<open>net.Listen\<close> and the order of map iteration. \<open>Up\<close> pulls with no options, and every caller
  of \<open>ContainerStop\<close> gives a timeout.
\<close>

definition sdkClient :: "'w sdk \<Rightarrow> 'w env \<Rightarrow> 'w env" where
  "sdkClient c e =
     e\<lparr>cl_ContainerCreate := sdk_ContainerCreate c,
       cl_ContainerStart := cli_ContainerStart c,
       cl_ContainerStop := (\<lambda>ctx i tmo. sdk_ContainerStop c ctx i (Some tmo)),
       cl_ContainerRemove := sdk_ContainerRemove c,
       cl_ContainerList := sdk_ContainerList c,
       cl_NetworkCreate := sdk_NetworkCreate c,
       cl_NetworkRemove := cli_NetworkRemove c,
       cl_NetworkList := sdk_NetworkList c,
       cl_VolumeCreate := sdk_VolumeCreate c,
       cl_VolumeRemove := cli_VolumeRemove c,
       cl_VolumeList := sdk_VolumeList c,
       cl_ImagePull := (\<lambda>ctx ref. sdk_ImagePull c ctx ref \<lparr>ip_platform = [], ip_auth = []\<rparr>),
       cl_ImageBuild := sdk_ImageBuild c,
       cl_ImageExists := sdk_ImageExists c\<rparr>"

section \<open>The port check on this client\<close>

text \<open>No container it lists has a port, so none is ever in conflict.\<close>

lemma sdk_list_no_ports:
  assumes "ContainerList (sdkClient c e) ctx fs s = (Inr ctrs, s')" "i \<in> set ctrs"
  shows "ci_ports i = []"
  using assms
  by (auto simp: ContainerList_def traced_def sdkClient_def sdk_ContainerList_def list_containers_def
      container_info_def Let_def split: prod.splits sum.splits)

lemma no_ports_no_conflict: "(\<And>i. i \<in> set ctrs \<Longrightarrow> ci_ports i = []) \<Longrightarrow> container_conflict m ctrs = None"
proof -
  assume "\<And>i. i \<in> set ctrs \<Longrightarrow> ci_ports i = []"
  then have none: "concat (map (\<lambda>c. map (\<lambda>p. (c, p)) (ci_ports c)) ctrs) = []" by auto
  show ?thesis unfolding container_conflict_def none by simp
qed

lemma sdk_port_check:
  "checkPortConflicts (sdkClient c e) svcs s =
     (if wanted_ports svcs = [] then (None, s)
      else case ContainerList (sdkClient c e) OpCtx [(''status'', [''running''])] s of
             (Inl err, s1) \<Rightarrow> (None, s1)
           | (Inr ctrs, s1) \<Rightarrow> host_ports_free (sdkClient c e) (concat (map svc_ports svcs)) s1)"
proof -
  obtain x s1 where 1: "ContainerList (sdkClient c e) OpCtx [(''status'', [''running''])] s = (x, s1)"
    by fastforce
  show ?thesis
  proof (cases x)
    case (Inr ctrs)
    then have "container_conflict (wanted_ports svcs) ctrs = None"
      using sdk_list_no_ports [OF 1 [unfolded Inr]] by (intro no_ports_no_conflict)
    then show ?thesis by (simp add: checkPortConflicts_def 1 Inr)
  qed (simp add: checkPortConflicts_def 1)
qed

text \<open>What the host's part of the check tells: the first address that could not be bound.\<close>

definition listen_addr :: "PortMapping \<Rightarrow> string" where
  "listen_addr q = join_host_port (if pm_hostip q = [] then ''0.0.0.0'' else pm_hostip q) (pm_hostport q)"

definition occupied :: "PortMapping \<Rightarrow> go_error" where
  "occupied q =
     AppError ErrPortConflict (''port '' @ pm_hostport q @ ''/'' @ pm_protocol q @ '' is occupied on host'')
       (PortConflictDetails (atoi_value (pm_hostport q)) (pm_protocol q) []) 409 None"

lemma host_ports_occupied:
  "host_ports_free e ps s = (Some err, s') \<Longrightarrow>
     \<exists>q tr x. q \<in> set ps \<and> pm_hostport q \<noteq> [] \<and> err = occupied q \<and>
       ds_trace s' = ds_trace s @ tr @ [(Background, CallListen (listen_addr q) (Some x))]"
proof (induction e ps s rule: host_ports_free.induct)
  case (2 e p ps s)
  show ?case
  proof (cases "pm_hostport p = []")
    case True
    then show ?thesis using 2(1) 2(3) by fastforce
  next
    case False
    obtain r s1 where 1: "Listen e (listen_addr p) s = (r, s1)" by fastforce
    have t: "ds_trace s1 = ds_trace s @ [(Background, CallListen (listen_addr p) r)]"
      using 1 by (auto simp: Listen_def traced_def split: prod.splits)
    show ?thesis
    proof (cases r)
      case None
      then have "host_ports_free e ps s1 = (Some err, s')"
        using 2(3) False 1 by (simp add: listen_addr_def Let_def)
      from 2(2) [OF False refl, unfolded listen_addr_def [symmetric], OF 1 [symmetric] refl None this]
      obtain q tr x where "q \<in> set ps" "pm_hostport q \<noteq> []" "err = occupied q"
        "ds_trace s' = ds_trace s1 @ tr @ [(Background, CallListen (listen_addr q) (Some x))]" by blast
      then show ?thesis unfolding t by fastforce
    next
      case (Some x)
      then have "err = occupied p \<and> s' = s1"
        using 2(3) False 1 by (simp add: listen_addr_def occupied_def Let_def)
      then show ?thesis using False t Some by fastforce
    qed
  qed
qed simp

text \<open>
  C39: Through this client the only reason for which \<open>Up\<close> is refused is an address of the host that could
  not be bound: the error names a published port of a target service, no container, and the last call made
  is the \<open>Listen\<close> that failed for it, after calls that change nothing. A running container never causes it, because the client does not
  fill the ports of the containers it lists.
\<close>

theorem Up_refused_by_host:
  assumes "Up (sdkClient c e) p services s = (Inl err, s')"
  shows "\<exists>svc q tr x. svc \<in> set (filterServices p services) \<and> q \<in> set (svc_ports svc) \<and>
    pm_hostport q \<noteq> [] \<and> err = occupied q \<and>
    ds_trace s' = ds_trace s @ tr @ [(Background, CallListen (listen_addr q) (Some x))] \<and> only reads s s'"
proof -
  let ?e = "sdkClient c e" and ?t = "filterServices p services"
  obtain r1 s1 where 1: "start_result ?e s = (r1, s1)" by fastforce
  obtain cf s2 where 2: "checkPortConflicts ?e ?t s1 = (cf, s2)" by fastforce
  have cf: "cf = Some err \<and> s' = s2"
    using assms by (auto simp: Up_def 1 2 Let_def split: option.splits sum.splits prod.splits)
  obtain ctrs s3 where 3: "ContainerList ?e OpCtx [(''status'', [''running''])] s1 = (Inr ctrs, s3)"
    and 4: "host_ports_free ?e (concat (map svc_ports ?t)) s3 = (Some err, s')"
    using 2 cf by (auto simp: sdk_port_check split: if_splits prod.splits sum.splits)
  obtain q tr x where "q \<in> set (concat (map svc_ports ?t))" "pm_hostport q \<noteq> []" "err = occupied q"
    "ds_trace s' = ds_trace s3 @ tr @ [(Background, CallListen (listen_addr q) (Some x))]"
    using host_ports_occupied [OF 4] by blast
  moreover have "ds_trace s1 = ds_trace s" using 1 by (auto simp: start_result_def split: prod.splits)
  moreover have "\<exists>ev. ds_trace s3 = ds_trace s1 @ [ev]"
    using 3 by (auto simp: ContainerList_def traced_def split: prod.splits)
  moreover have "only reads s s'" using Up_error_is_port_conflict [OF assms] by simp
  ultimately show ?thesis by fastforce
qed

text \<open>An SDK whose daemon runs a container that publishes the very port.\<close>

definition demo_sdk :: "nat sdk" where
  "demo_sdk =
     \<lparr>cli_ContainerCreate = (\<lambda>ctx k w. (Inr ''c'', w)), cli_ContainerStart = (\<lambda>ctx i w. (None, w)),
      cli_ContainerStop = (\<lambda>ctx i t w. (None, w)), cli_ContainerRemove = (\<lambda>ctx i k w. (None, w)),
      cli_ContainerList = (\<lambda>ctx a fs w. (Inr [\<lparr>sc_id = ''c'', sc_names = [''/web''], sc_image = ''web'',
        sc_state = ''running'', sc_status = ''Up'', sc_labels = [], sc_created = 0\<rparr>], w)),
      cli_NetworkCreate = (\<lambda>ctx n k w. (Inr ''n'', w)), cli_NetworkRemove = (\<lambda>ctx i w. (None, w)),
      cli_NetworkList = (\<lambda>ctx w. (Inr [], w)), cli_VolumeCreate = (\<lambda>ctx k w. (None, w)),
      cli_VolumeRemove = (\<lambda>ctx n f w. (None, w)), cli_VolumeList = (\<lambda>ctx w. (Inr [], w)),
      cli_ImagePull = (\<lambda>ctx r pl w. (None, w)), cli_ImageInspect = (\<lambda>ctx r w. (None, w)),
      cli_ImageBuild = (\<lambda>ctx es k w. (Inr [], w)), cli_ContainerInspect = (\<lambda>ctx i w. (Inl (PlainError []), w)),
      cli_ContainerLogs = (\<lambda>ctx i k w. (Inr [], w)), cli_ContainerStats = (\<lambda>ctx i b w. (Inr [], w)),
      cli_Ping = (\<lambda>w. (None, w)), cli_Close = (\<lambda>w. (None, w)),
      sd_tree = (\<lambda>d w. Directory None []), sd_notfound = (\<lambda>err. False), sd_new_port = (\<lambda>pr n. n @ ''/'' @ pr),
      sd_unix = (\<lambda>n. n * second), sd_parsetime = (\<lambda>t. None)\<rparr>"

lemma demo_sdk_check:
  "fst (checkPortConflicts (sdkClient demo_sdk demo_closed) (pr_services demo_port_project) demo_state) =
     Some demo_port_error"
  by code_simp

lemma Up_refused_by_host_witness:
  "\<exists>s'. Up (sdkClient demo_sdk demo_closed) demo_port_project [] demo_state = (Inl demo_port_error, s') \<and>
     (\<exists>svc q tr x. svc \<in> set (filterServices demo_port_project []) \<and> q \<in> set (svc_ports svc) \<and>
        pm_hostport q \<noteq> [] \<and> demo_port_error = occupied q \<and>
        ds_trace s' = ds_trace demo_state @ tr @ [(Background, CallListen (listen_addr q) (Some x))])"
proof -
  let ?e = "sdkClient demo_sdk demo_closed"
  obtain r where 1: "start_result ?e demo_state = (r, demo_state)"
    by (simp add: start_result_def time_now_def sdkClient_def demo_closed_def demo_env_def demo_state_def)
  obtain s' where "checkPortConflicts ?e (pr_services demo_port_project) demo_state = (Some demo_port_error, s')"
    using demo_sdk_check by (cases "checkPortConflicts ?e (pr_services demo_port_project) demo_state") simp
  then have "Up ?e demo_port_project [] demo_state = (Inl demo_port_error, s')"
    by (simp add: Up_def filterServices_def 1)
  from this Up_refused_by_host [OF this] show ?thesis by blast
qed

section \<open>What the daemon is asked\<close>

text \<open>
  The host's part of the check is the same whatever the protocol is: it binds the TCP port, so a UDP port
  is refused if the TCP port of the same number is taken, and let pass if the UDP port is.
\<close>

lemma port_check_ignores_protocol:
  "host_ports_free e (map (\<lambda>q. q\<lparr>pm_protocol := proto q\<rparr>) ps) s = (r, s') \<Longrightarrow>
     \<exists>r0. host_ports_free e ps s = (r0, s') \<and> (r0 = None \<longleftrightarrow> r = None)"
  by (induction e ps s rule: host_ports_free.induct)
    (auto simp: Let_def split: if_splits prod.splits option.splits)

text \<open>The container of a service, as it reaches the daemon.\<close>

lemma container_sent:
  "cl_ContainerCreate (sdkClient c e) ctx (container_config p svc) =
     cli_ContainerCreate c ctx
       \<lparr>sk_name = pr_name p @ ''-'' @ svc_name svc @ ''-1'', sk_image = image_name p svc,
        sk_labels = container_labels p svc, sk_env = envMapToSlice (svc_environment svc),
        sk_cmd = svc_command svc, sk_entrypoint = svc_entrypoint svc,
        sk_exposed = fst (buildPortBindings (sd_new_port c) (convertPorts (svc_ports svc))),
        sk_bindings = snd (buildPortBindings (sd_new_port c) (convertPorts (svc_ports svc))),
        sk_mounts = map (buildMount \<circ> resolve_mount p) (svc_volumes svc),
        sk_restart = buildRestartPolicy (svc_restart svc),
        sk_networks = [hd (resolveNetworks p (svc_networks svc))]\<rparr>"
proof -
  have "take 1 (resolveNetworks p ns) = [hd (resolveNetworks p ns)]" for ns
    by (cases ns) (simp_all add: resolveNetworks_def)
  then show ?thesis
    by (simp add: sdkClient_def sdk_ContainerCreate_def create_options_def container_config_def
        buildMounts_def resolveVolumeMounts_def case_prod_unfold Let_def)
qed

text \<open>
  It carries the label by which the other operations look for it, unless a label of the service
  replaces it.
\<close>

lemma created_is_found:
  assumes "label_project \<notin> fst ` set (svc_labels svc)"
  shows "map_of (sk_labels (create_options np (container_config p svc))) label_project = Some (pr_id p)"
    and "filter_args (project_filter p) = [(''label'', label_project @ ''='' @ pr_id p)]"
proof -
  have "map_of (rev (svc_labels svc)) label_project = None"
    using assms by (simp add: map_of_eq_None_iff)
  moreover have "label_project \<noteq> label_service" by (simp add: label_project_def label_service_def)
  ultimately show "map_of (sk_labels (create_options np (container_config p svc))) label_project = Some (pr_id p)"
    by (simp add: create_options_def container_config_def container_labels_lookup case_prod_unfold Let_def)
  show "filter_args (project_filter p) = [(''label'', label_project @ ''='' @ pr_id p)]"
    by (simp add: filter_args_def project_filter_def label_project_def)
qed

text \<open>The grace times of the operations are whole seconds and arrive as they are.\<close>

lemma grace_times: "stop_seconds (Some (10 * second)) = Some 10" "stop_seconds (Some (5 * second)) = Some 5"
  by (simp_all add: stop_seconds_def second_def)

text \<open>A build context that cannot be packed fails the build before the daemon is called.\<close>

lemma build_not_sent:
  assumes "createBuildContext (sd_tree c (ib_context opts) w) = Inl err"
  shows "sdk_ImageBuild c ctx opts w =
    (Some (PlainError (''create build context: '' @ error_string err)), w)"
  using assms by (simp add: sdk_ImageBuild_def image_build_def)

end
