(* ===== verification/Streamer.thy ===== *)
theory Streamer
  imports SdkClient Sse Operations
begin

text \<open>
  \<open>internal/docker/streamer.go\<close>: the demultiplexer of the daemon's log stream, the events and
  statistics published for projects, and the topics of \<open>events_handler.go\<close> that subscribe to them.

  A stream is the bytes it delivers until it ends or fails. What a function publishes is the list of
  topics and events in order, which \<open>publish_all\<close> gives to the broker. Whether the context has ended
  at the n-th test is a parameter. The pause before the daemon's events are subscribed to again is not
  modelled.
\<close>

section \<open>Events\<close>

record EventActor =
  ea_id :: string
  ea_attributes :: "(string, string) gomap"

record DockerEvent =
  dke_type :: string
  dke_action :: string
  dke_actor :: EventActor
  dke_time :: time

datatype stream_data =
    StatsData ContainerStats
  | DockerData DockerEvent
  | FieldsData "(string, string) gomap"

type_synonym publication = "string \<times> stream_data Event"

definition new_event :: "EventType \<Rightarrow> stream_data \<Rightarrow> stream_data Event" where
  "new_event t d = \<lparr>ev_id = [], ev_type = t, ev_topic = [], ev_data = Some d, ev_time = 0\<rparr>"

definition publish_all ::
    "(time \<Rightarrow> string) \<Rightarrow> time \<Rightarrow> publication list \<Rightarrow> stream_data broker \<Rightarrow> stream_data broker" where
  "publish_all fmt now ps b = fold (\<lambda>(topic, e). Publish fmt now topic e) ps b"

text \<open>\<open>time.Unix(sec, nsec)\<close>, from the instant of the Unix epoch.\<close>

definition unix_time :: "time \<Rightarrow> int \<Rightarrow> int \<Rightarrow> time" where
  "unix_time epoch s n = epoch + s * second + n"

record sdk_message =
  ms_type :: string
  ms_action :: string
  ms_actor :: EventActor
  ms_time :: int
  ms_timenano :: int

definition docker_event :: "time \<Rightarrow> sdk_message \<Rightarrow> DockerEvent" where
  "docker_event epoch m =
     \<lparr>dke_type = ms_type m, dke_action = ms_action m, dke_actor = ms_actor m,
      dke_time = unix_time epoch (ms_time m) (ms_timenano m)\<rparr>"

section \<open>Topics\<close>

definition stats_topic :: "string \<Rightarrow> string" where
  "stats_topic p = ''project:'' @ p @ '':stats''"

definition logs_topic :: "string \<Rightarrow> string \<Rightarrow> string" where
  "logs_topic p svc = ''project:'' @ p @ '':service:'' @ svc @ '':logs''"

definition events_topic :: "string \<Rightarrow> string" where
  "events_topic p = ''project:'' @ p @ '':events''"

definition global_topic :: string where "global_topic = ''global:events''"

text \<open>What the handlers of \<open>events_handler.go\<close> subscribe to.\<close>

definition ProjectEvents_topics :: "string \<Rightarrow> string list" where
  "ProjectEvents_topics projectID = [''project:'' @ projectID @ '':events'']"

definition ProjectStats_topics :: "string \<Rightarrow> string list" where
  "ProjectStats_topics projectID = [''project:'' @ projectID @ '':stats'']"

definition ServiceLogs_topics :: "string \<Rightarrow> string \<Rightarrow> string list" where
  "ServiceLogs_topics projectID serviceName =
     [''project:'' @ projectID @ '':service:'' @ serviceName @ '':logs'']"

definition GlobalEvents_topics :: "string list" where
  "GlobalEvents_topics = [''global:events'']"

section \<open>Logs\<close>

definition byte :: "char \<Rightarrow> nat" where "byte c = of_char c"

definition frame_size :: "string \<Rightarrow> nat" where
  "frame_size h = byte (h ! 4) * 2 ^ 24 + byte (h ! 5) * 2 ^ 16 + byte (h ! 6) * 2 ^ 8 + byte (h ! 7)"

definition max_frame :: nat where "max_frame = 1024 * 1024"

definition line_end :: "char \<Rightarrow> bool" where
  "line_end c = (c = newline \<or> c = carriage_return)"

definition stream_name :: "char \<Rightarrow> string" where
  "stream_name c = (if byte c = 2 then ''stderr'' else ''stdout'')"

text \<open>
  The stream and the line of every frame, from the n-th round on. A frame whose size is zero or above
  the maximum is answered with \<open>continue\<close>: nothing of its payload is read.
\<close>

function demuxDockerLogs :: "(nat \<Rightarrow> bool) \<Rightarrow> nat \<Rightarrow> string \<Rightarrow> (string \<times> string) list" where
  "demuxDockerLogs cancelled n s =
     (if cancelled n \<or> length s < 8 then []
      else
        (let header = take 8 s; rest = drop 8 s; sz = frame_size header in
         if sz = 0 \<or> max_frame < sz then demuxDockerLogs cancelled (Suc n) rest
         else if length rest < sz then []
         else
           (let line = trim_right line_end (take sz rest) in
            if line = [] then demuxDockerLogs cancelled (Suc n) (drop sz rest)
            else (stream_name (header ! 0), line) # demuxDockerLogs cancelled (Suc n) (drop sz rest))))"
  by pat_completeness auto

termination
  by (relation "measure (\<lambda>(c, n, s). length s)") auto

declare demuxDockerLogs.simps [simp del]

definition log_event :: "string \<Rightarrow> string \<times> string \<Rightarrow> stream_data Event" where
  "log_event svc sl =
     new_event EventLog (FieldsData [(''service'', svc), (''stream'', fst sl), (''line'', snd sl)])"

definition publish_logs :: "(nat \<Rightarrow> bool) \<Rightarrow> string \<Rightarrow> string \<Rightarrow> string \<Rightarrow> publication list" where
  "publish_logs cancelled topic svc s =
     map (\<lambda>sl. (topic, log_event svc sl)) (demuxDockerLogs cancelled 0 s)"

text \<open>
  \<open>StreamProjectLogs\<close>: the log of the first container of the service. \<open>containers\<close> and \<open>logs\<close> are the
  answers of the client, \<open>None\<close> for an error.
\<close>

definition logs_filters :: "string \<Rightarrow> string \<Rightarrow> docker_filters" where
  "logs_filters p svc = [(''label'', [label_project @ ''='' @ p, label_service @ ''='' @ svc])]"

definition StreamProjectLogs ::
    "(docker_filters \<Rightarrow> ContainerInfo list option) \<Rightarrow> (string \<Rightarrow> string option) \<Rightarrow> (nat \<Rightarrow> bool) \<Rightarrow>
     string \<Rightarrow> string \<Rightarrow> publication list" where
  "StreamProjectLogs containers logs cancelled p svc =
     (case containers (logs_filters p svc) of
        Some (ctr # ctrs) \<Rightarrow>
          (case logs (ci_id ctr) of
             None \<Rightarrow> []
           | Some s \<Rightarrow> publish_logs cancelled (logs_topic p svc) svc s)
      | _ \<Rightarrow> [])"

section \<open>Docker events and statistics\<close>

definition state_fields :: "DockerEvent \<Rightarrow> (string, string) gomap" where
  "state_fields e =
     [(''container_id'', ea_id (dke_actor e)),
      (''service'', str_at (ea_attributes (dke_actor e)) label_service),
      (''action'', dke_action e), (''status'', dke_action e)]"

definition publishDockerEvent :: "DockerEvent \<Rightarrow> publication list" where
  "publishDockerEvent e =
     (let p = str_at (ea_attributes (dke_actor e)) label_project;
          ev = new_event EventDockerEvent (DockerData e)
      in (if p \<noteq> [] then
            (events_topic p, ev)
            # (if dke_type e = ''container''
               then [(events_topic p, new_event EventContainerState (FieldsData (state_fields e)))] else [])
          else [])
         @ [(global_topic, ev)])"

text \<open>
  The loop of \<open>StreamDockerEvents\<close>, over what it receives: an event, an error or the end of a channel,
  after which it subscribes again, or the end of the context, which ends it.
\<close>

datatype feed = FeedEvent DockerEvent | FeedError go_error | FeedClosed | FeedDone

fun StreamDockerEvents :: "feed list \<Rightarrow> publication list" where
  "StreamDockerEvents [] = []"
| "StreamDockerEvents (FeedEvent e # fs) = publishDockerEvent e @ StreamDockerEvents fs"
| "StreamDockerEvents (FeedError err # fs) = StreamDockerEvents fs"
| "StreamDockerEvents (FeedClosed # fs) = StreamDockerEvents fs"
| "StreamDockerEvents (FeedDone # fs) = []"

text \<open>What the streamer subscribes to.\<close>

definition events_options :: EventsOptions where
  "events_options =
     \<lparr>eo_since = [], eo_until = [], eo_filters = [(''type'', [''container'', ''network'', ''volume''])]\<rparr>"

text \<open>
  The goroutine of \<open>Events\<close> in \<open>sdk_client.go\<close>. It receives from the SDK's two channels and sends on two
  buffered ones of its own: messages become events, an error is passed on, and both of its channels are
  closed at its end. \<open>None\<close> is a send that waits for room in the buffer.
\<close>

datatype sdk_feed = MsgReceived sdk_message | MsgClosed | ErrReceived go_error | ErrClosed

record event_pipe =
  ep_events :: "DockerEvent list"
  ep_errors :: "go_error list"
  ep_closed :: bool

definition new_pipe :: event_pipe where
  "new_pipe = \<lparr>ep_events = [], ep_errors = [], ep_closed = False\<rparr>"

fun pump_event :: "time \<Rightarrow> sdk_feed \<Rightarrow> event_pipe \<Rightarrow> event_pipe option" where
  "pump_event epoch (MsgReceived m) p =
     (if length (ep_events p) < 64 then Some (p\<lparr>ep_events := ep_events p @ [docker_event epoch m]\<rparr>) else None)"
| "pump_event epoch (ErrReceived err) p = Some (p\<lparr>ep_errors := ep_errors p @ [err], ep_closed := True\<rparr>)"
| "pump_event epoch MsgClosed p = Some (p\<lparr>ep_closed := True\<rparr>)"
| "pump_event epoch ErrClosed p = Some (p\<lparr>ep_closed := True\<rparr>)"

text \<open>
  What the streamer's \<open>select\<close> may take from the two channels: where both are ready it takes either, also
  the error, or the end of the error channel, while events are still buffered.
\<close>

fun take_feed :: "feed \<Rightarrow> event_pipe \<Rightarrow> event_pipe option" where
  "take_feed (FeedEvent e) p =
     (case ep_events p of [] \<Rightarrow> None | e' # es \<Rightarrow> if e' = e then Some (p\<lparr>ep_events := es\<rparr>) else None)"
| "take_feed (FeedError err) p =
     (case ep_errors p of [] \<Rightarrow> None | x # xs \<Rightarrow> if x = err then Some (p\<lparr>ep_errors := xs\<rparr>) else None)"
| "take_feed FeedClosed p = (if ep_closed p \<and> (ep_events p = [] \<or> ep_errors p = []) then Some p else None)"
| "take_feed FeedDone p = Some p"

text \<open>A subscription: what the SDK gave so far, what the streamer took, and what is buffered.\<close>

definition is_event :: "feed \<Rightarrow> bool" where
  "is_event f = (case f of FeedEvent e \<Rightarrow> True | _ \<Rightarrow> False)"

inductive pipe_run :: "time \<Rightarrow> sdk_feed list \<Rightarrow> feed list \<Rightarrow> event_pipe \<Rightarrow> bool" for epoch where
  subscribes: "pipe_run epoch [] [] new_pipe"
| pumps: "pipe_run epoch ins outs p \<Longrightarrow> \<not> ep_closed p \<Longrightarrow> pump_event epoch x p = Some p' \<Longrightarrow>
    pipe_run epoch (ins @ [x]) outs p'"
| takes: "pipe_run epoch ins outs p \<Longrightarrow> list_all is_event outs \<Longrightarrow> take_feed f p = Some p' \<Longrightarrow>
    pipe_run epoch ins (outs @ [f]) p'"

text \<open>The events handed on are the first of the SDK's messages, in order; the rest is still buffered.\<close>

definition events_in :: "feed list \<Rightarrow> DockerEvent list" where
  "events_in fs = concat (map (\<lambda>f. case f of FeedEvent e \<Rightarrow> [e] | _ \<Rightarrow> []) fs)"

definition messages_in :: "sdk_feed list \<Rightarrow> sdk_message list" where
  "messages_in xs = concat (map (\<lambda>x. case x of MsgReceived m \<Rightarrow> [m] | _ \<Rightarrow> []) xs)"

lemma pipe_prefix:
  "pipe_run epoch ins outs p \<Longrightarrow>
     events_in outs @ ep_events p = map (docker_event epoch) (messages_in ins) \<and> length (ep_events p) \<le> 64"
proof (induction rule: pipe_run.induct)
  case (pumps ins outs p x p')
  then show ?case by (cases x) (auto simp: messages_in_def split: if_splits)
next
  case (takes ins outs p f p')
  then show ?case by (cases f) (auto simp: events_in_def split: if_splits list.splits)
qed (simp_all add: new_pipe_def events_in_def messages_in_def)

lemma pipe_publishes: "StreamDockerEvents fs = concat (map publishDockerEvent (events_in (takeWhile (\<lambda>f. f \<noteq> FeedDone) fs)))"
  by (induction fs rule: StreamDockerEvents.induct) (simp_all add: events_in_def)

text \<open>An event is lost when the error behind it is taken first: the streamer then subscribes again.\<close>

lemma event_can_be_lost:
  "pipe_run epoch [MsgReceived m, ErrReceived err] [FeedError err]
     \<lparr>ep_events = [docker_event epoch m], ep_errors = [], ep_closed = True\<rparr>"
proof -
  have "pipe_run epoch ([] @ [MsgReceived m]) [] \<lparr>ep_events = [docker_event epoch m], ep_errors = [], ep_closed = False\<rparr>"
    by (rule pumps [OF subscribes]) (simp_all add: new_pipe_def)
  then have "pipe_run epoch (([] @ [MsgReceived m]) @ [ErrReceived err]) []
      \<lparr>ep_events = [docker_event epoch m], ep_errors = [err], ep_closed = True\<rparr>"
    by (rule pumps) simp_all
  then have "pipe_run epoch (([] @ [MsgReceived m]) @ [ErrReceived err]) ([] @ [FeedError err])
      \<lparr>ep_events = [docker_event epoch m], ep_errors = [], ep_closed = True\<rparr>"
    by (rule takes) simp_all
  then show ?thesis by simp
qed

definition stats_event :: "ContainerInfo \<Rightarrow> ContainerStats \<Rightarrow> stream_data Event" where
  "stats_event ctr st =
     new_event EventContainerStats (StatsData (st\<lparr>ct_id := ci_id ctr, ct_name := ci_name ctr\<rparr>))"

text \<open>
  \<open>streamContainerStats\<close>: one event for every line that decodes. \<open>decode\<close> is the JSON decoder of the
  statistics; the scanner's buffer holds a mebibyte.
\<close>

fun stats_lines ::
    "(string \<Rightarrow> stats_json option) \<Rightarrow> (nat \<Rightarrow> bool) \<Rightarrow> string \<Rightarrow> ContainerInfo \<Rightarrow> nat \<Rightarrow> string list \<Rightarrow>
     publication list" where
  "stats_lines decode cancelled topic ctr n [] = []"
| "stats_lines decode cancelled topic ctr n (l # ls) =
     (if cancelled n then []
      else (case decode l of None \<Rightarrow> []
            | Some raw \<Rightarrow> [(topic, stats_event ctr (ParseStats raw))])
        @ stats_lines decode cancelled topic ctr (Suc n) ls)"

definition streamContainerStats ::
    "(string \<Rightarrow> stats_json option) \<Rightarrow> (nat \<Rightarrow> bool) \<Rightarrow> (string \<Rightarrow> string option) \<Rightarrow> string \<Rightarrow> ContainerInfo \<Rightarrow>
     publication list" where
  "streamContainerStats decode cancelled stats p ctr =
     (case stats (ci_id ctr) of
        None \<Rightarrow> []
      | Some s \<Rightarrow> stats_lines decode cancelled (stats_topic p) ctr 0 (scan_lines (1024 * 1024) s))"

text \<open>
  \<open>StreamProjectStats\<close> starts one goroutine for each running container of the project: what each of
  them publishes.
\<close>

definition stats_filters :: "string \<Rightarrow> docker_filters" where
  "stats_filters p = [(''label'', [label_project @ ''='' @ p]), (''status'', [''running''])]"

definition StreamProjectStats ::
    "(docker_filters \<Rightarrow> ContainerInfo list option) \<Rightarrow> (string \<Rightarrow> stats_json option) \<Rightarrow> (nat \<Rightarrow> bool) \<Rightarrow>
     (string \<Rightarrow> string option) \<Rightarrow> string \<Rightarrow> publication list list" where
  "StreamProjectStats containers decode cancelled stats p =
     (case containers (stats_filters p) of
        None \<Rightarrow> []
      | Some ctrs \<Rightarrow> map (streamContainerStats decode cancelled stats p) ctrs)"

text \<open>\<open>collectAllStats\<close>: one reading of every running container of any project.\<close>

definition collect_one ::
    "(string \<Rightarrow> stats_json option) \<Rightarrow> (string \<Rightarrow> string option) \<Rightarrow> ContainerInfo \<Rightarrow> publication list" where
  "collect_one decode stats ctr =
     (case stats (ci_id ctr) of
        None \<Rightarrow> []
      | Some s \<Rightarrow>
          (case decode s of
             None \<Rightarrow> []
           | Some raw \<Rightarrow>
               (let p = str_at (ci_labels ctr) label_project in
                if p \<noteq> [] then [(stats_topic p, stats_event ctr (ParseStats raw))] else [])))"

fun collect_each ::
    "(string \<Rightarrow> stats_json option) \<Rightarrow> (string \<Rightarrow> string option) \<Rightarrow> (nat \<Rightarrow> bool) \<Rightarrow> nat \<Rightarrow>
     ContainerInfo list \<Rightarrow> publication list" where
  "collect_each decode stats cancelled n [] = []"
| "collect_each decode stats cancelled n (ctr # ctrs) =
     (if cancelled n then []
      else collect_one decode stats ctr @ collect_each decode stats cancelled (Suc n) ctrs)"

definition collectAllStats ::
    "(docker_filters \<Rightarrow> ContainerInfo list option) \<Rightarrow> (string \<Rightarrow> stats_json option) \<Rightarrow>
     (string \<Rightarrow> string option) \<Rightarrow> (nat \<Rightarrow> bool) \<Rightarrow> publication list" where
  "collectAllStats containers decode stats cancelled =
     (case containers [(''label'', [label_project]), (''status'', [''running''])] of
        None \<Rightarrow> [] | Some ctrs \<Rightarrow> collect_each decode stats cancelled 0 ctrs)"

text \<open>
  The loop of \<open>StartStatsCollector\<close>, over what its select gives: a tick, or the end of the context.
  \<open>collect n\<close> is what the \<open>n\<close>-th round publishes.
\<close>

datatype tick = Tick | TickDone

fun StartStatsCollector :: "(nat \<Rightarrow> publication list) \<Rightarrow> nat \<Rightarrow> tick list \<Rightarrow> publication list" where
  "StartStatsCollector collect n [] = []"
| "StartStatsCollector collect n (Tick # ts) = collect n @ StartStatsCollector collect (Suc n) ts"
| "StartStatsCollector collect n (TickDone # ts) = []"

text \<open>The collector publishes on the statistics topics of projects that have a running container, and on no other.\<close>

lemma collect_each_topics:
  "x \<in> set (collect_each decode stats cancelled n ctrs) \<Longrightarrow>
     \<exists>ctr \<in> set ctrs. fst x = stats_topic (str_at (ci_labels ctr) label_project) \<and> str_at (ci_labels ctr) label_project \<noteq> []"
  by (induction ctrs arbitrary: n)
     (auto simp: collect_one_def Let_def split: if_splits option.splits)

lemma collector_topics:
  assumes "x \<in> set (StartStatsCollector (\<lambda>n. collectAllStats (containers n) decode (stats n) (cancelled n)) n ts)"
  shows "\<exists>k ctrs ctr. containers k [(''label'', [label_project]), (''status'', [''running''])] = Some ctrs \<and>
    ctr \<in> set ctrs \<and> fst x = stats_topic (str_at (ci_labels ctr) label_project)"
  using assms
proof (induction ts arbitrary: n)
  case (Cons t ts)
  show ?case
  proof (cases t)
    case Tick
    then consider "x \<in> set (collectAllStats (containers n) decode (stats n) (cancelled n))"
      | "x \<in> set (StartStatsCollector (\<lambda>n. collectAllStats (containers n) decode (stats n) (cancelled n)) (Suc n) ts)"
      using Cons.prems by auto
    then show ?thesis
    proof cases
      case 1
      then show ?thesis by (simp add: collectAllStats_def split: option.splits) (metis collect_each_topics)
    next
      case 2
      then show ?thesis by (rule Cons.IH)
    qed
  qed (use Cons.prems in simp)
qed simp

section \<open>Frames\<close>

text \<open>The frame the daemon writes for a line: eight bytes of header, the line and its end.\<close>

definition size_bytes :: "nat \<Rightarrow> string" where
  "size_bytes n = [char_of (n div 2 ^ 24), char_of (n div 2 ^ 16), char_of (n div 2 ^ 8), char_of n]"

definition log_frame :: "char \<times> string \<Rightarrow> string" where
  "log_frame f =
     (let zero = char_of (0 :: nat); payload = snd f @ [newline]
      in [fst f, zero, zero, zero] @ size_bytes (length payload) @ payload)"

definition log_line_ok :: "string \<Rightarrow> bool" where
  "log_line_ok l \<longleftrightarrow> l \<noteq> [] \<and> \<not> line_end (last l) \<and> length l < max_frame"

lemma byte_char_of: "byte (char_of n) = n mod 256"
  by (simp add: byte_def)

lemma base_256:
  "p = q * 256 + u \<Longrightarrow> r = p * 256 + v \<Longrightarrow> n = r * 256 + w \<Longrightarrow>
     n = q * 16777216 + u * 65536 + v * 256 + (w :: nat)"
  by simp

lemma frame_size_bytes:
  assumes "n < 2 ^ 32"
  shows "frame_size ([a, b, c, d] @ size_bytes n) = n"
proof -
  have "n div 65536 div 256 = n div 16777216" "n div 256 div 256 = n div 65536"
    by (simp_all add: div_mult2_eq [symmetric])
  then have "n = n div 16777216 * 16777216 + n div 65536 mod 256 * 65536 + n div 256 mod 256 * 256 + n mod 256"
    by (intro base_256 [where p = "n div 65536" and r = "n div 256"])
       (metis div_mult_mod_eq)+
  moreover have "n div 2 ^ 24 mod 256 = n div 2 ^ 24"
    using assms by (intro mod_less) (simp add: less_mult_imp_div_less)
  ultimately show ?thesis by (simp add: frame_size_def size_bytes_def byte_char_of)
qed

lemma trim_line: "log_line_ok l \<Longrightarrow> trim_right line_end (l @ [newline]) = l"
proof -
  assume ok: "log_line_ok l"
  then obtain xs x where l: "l = xs @ [x]" by (cases l rule: rev_cases) (auto simp: log_line_ok_def)
  then have "\<not> line_end x" using ok by (simp add: log_line_ok_def)
  moreover have "line_end newline" by (simp add: line_end_def)
  ultimately show ?thesis by (simp add: trim_right_def l)
qed

lemma demux_frame:
  assumes "log_line_ok l" "\<And>n. \<not> cancelled n"
  shows "demuxDockerLogs cancelled n (log_frame (c, l) @ s)
    = (stream_name c, l) # demuxDockerLogs cancelled (Suc n) s"
proof -
  let ?p = "l @ [newline]" and ?z = "char_of (0 :: nat)"
  let ?h = "[c, ?z, ?z, ?z] @ size_bytes (length ?p)"
  have f: "log_frame (c, l) @ s = ?h @ ?p @ s" by (simp add: log_frame_def Let_def)
  have h: "length ?h = 8" by (simp add: size_bytes_def)
  have len: "length ?p \<le> max_frame" "length ?p \<noteq> 0" using assms(1) by (auto simp: log_line_ok_def)
  have "frame_size ?h = length ?p"
    by (rule frame_size_bytes) (use len(1) in \<open>simp add: max_frame_def\<close>)
  moreover have "take 8 (?h @ ?p @ s) = ?h" "drop 8 (?h @ ?p @ s) = ?p @ s" using h by simp_all
  moreover have "take (length ?p) (?p @ s) = ?p" "drop (length ?p) (?p @ s) = s" by simp_all
  moreover have "l \<noteq> []" using assms(1) by (simp add: log_line_ok_def)
  moreover have "\<not> length (?h @ ?p @ s) < 8" using h by simp
  ultimately show ?thesis
    unfolding f using assms(2) len trim_line [OF assms(1)]
    by (subst demuxDockerLogs.simps) (simp only: Let_def, simp)
qed

lemma demux_frames:
  "list_all (\<lambda>f. log_line_ok (snd f)) fs \<Longrightarrow>
     demuxDockerLogs (\<lambda>_. False) n (concat (map log_frame fs)) = map (\<lambda>(c, l). (stream_name c, l)) fs"
proof (induction fs arbitrary: n)
  case Nil
  then show ?case by (subst demuxDockerLogs.simps) simp
next
  case (Cons f fs)
  obtain c l where "f = (c, l)" by (cases f)
  then show ?case
    using Cons demux_frame [of l "\<lambda>_. False" n c "concat (map log_frame fs)"] by simp
qed

text \<open>The topics the handlers subscribe to are those the streamer publishes on.\<close>

lemma topics_agree:
  "ProjectEvents_topics p = [events_topic p]" "ProjectStats_topics p = [stats_topic p]"
  "ServiceLogs_topics p svc = [logs_topic p svc]" "GlobalEvents_topics = [global_topic]"
  by (simp_all add: ProjectEvents_topics_def ProjectStats_topics_def ServiceLogs_topics_def
      GlobalEvents_topics_def events_topic_def stats_topic_def logs_topic_def global_topic_def)

section \<open>Properties\<close>

text \<open>
  C31: The log stream is demultiplexed faithfully: whatever lines the daemon frames, as long as each is
  not empty, shorter than a mebibyte and without trailing line ends, the reader gives back exactly
  these lines, in order, each with the stream it was written to.
\<close>

theorem demux_roundtrip:
  assumes "list_all (\<lambda>f. log_line_ok (snd f)) fs"
  shows "demuxDockerLogs (\<lambda>_. False) 0 (concat (map log_frame fs))
    = map (\<lambda>(c, l). (stream_name c, l)) fs"
  by (rule demux_frames [OF assms])

lemma demux_roundtrip_witness:
  "demuxDockerLogs (\<lambda>_. False) 0 (concat (map log_frame [(CHR 0x01, ''up''), (CHR 0x02, ''down!'')]))
     = [(''stdout'', ''up''), (''stderr'', ''down!'')]"
proof -
  have "\<not> line_end (CHR ''p'')" "\<not> line_end (CHR 0x21)" by code_simp+
  then have "list_all (\<lambda>f. log_line_ok (snd f)) [(CHR 0x01, ''up''), (CHR 0x02, ''down!'')]"
    by (simp add: log_line_ok_def max_frame_def)
  from demux_roundtrip [OF this] show ?thesis by (simp add: stream_name_def byte_def)
qed

section \<open>Divergences\<close>

text \<open>
  A frame above the maximum is skipped by its header only: the reader takes the bytes of its payload
  for the next headers.
\<close>

lemma oversized_frame_desynchronises:
  assumes "\<not> cancelled n" "length h = 8" "max_frame < frame_size h"
  shows "demuxDockerLogs cancelled n (h @ payload) = demuxDockerLogs cancelled (Suc n) payload"
  using assms by (subst demuxDockerLogs.simps) (simp add: Let_def)

text \<open>
  \<open>TimeNano\<close> is the whole instant in nanoseconds, not the part below the second: an event's time is
  the epoch and twice the time since.
\<close>

lemma event_time_doubled:
  assumes "ms_timenano m = ms_time m * second"
  shows "dke_time (docker_event epoch m) = epoch + 2 * (ms_time m * second)"
  using assms by (simp add: docker_event_def unix_time_def)

end
