(* ===== verification/EventsApi.thy ===== *)
theory EventsApi
  imports Streaming Streamer ApiProps
begin

text \<open>
  \<open>internal/api/handlers/events_handler.go\<close>: the topics a connection is subscribed to, and the goroutine
  of the streamer its handler starts. The streamer publishes on the same topics, so that together with
  \<open>Streaming\<close> a connection receives what the daemon tells about its project and nothing else.
\<close>

section \<open>Handlers\<close>

text \<open>What the daemon answers to the streamer: its containers, their logs and their statistics.\<close>

record stream_source =
  so_containers :: "docker_filters \<Rightarrow> ContainerInfo list option"
  so_logs :: "string \<Rightarrow> string option"
  so_stats :: "string \<Rightarrow> string option"
  so_decode :: "string \<Rightarrow> stats_json option"
  so_cancelled :: "nat \<Rightarrow> bool"

text \<open>The topics of the connection, and what each goroutine started for it publishes.\<close>

definition ProjectEvents :: "request \<Rightarrow> string list \<times> publication list list" where
  "ProjectEvents r = (ProjectEvents_topics (url_param r ''projectID''), [])"

definition ProjectStats :: "stream_source \<Rightarrow> projects \<Rightarrow> request \<Rightarrow> string list \<times> publication list list" where
  "ProjectStats so ps r =
     (let i = url_param r ''projectID'' in
      (ProjectStats_topics i,
       case GetProject ps i of
         Inl err \<Rightarrow> []
       | Inr p \<Rightarrow> StreamProjectStats (so_containers so) (so_decode so) (so_cancelled so) (so_stats so) (pr_id p)))"

definition ServiceLogs :: "stream_source \<Rightarrow> request \<Rightarrow> string list \<times> publication list list" where
  "ServiceLogs so r =
     (let i = url_param r ''projectID''; svc = url_param r ''serviceName'' in
      (ServiceLogs_topics i svc,
       [StreamProjectLogs (so_containers so) (so_logs so) (so_cancelled so) i svc]))"

definition GlobalEvents :: "request \<Rightarrow> string list \<times> publication list list" where
  "GlobalEvents r = (GlobalEvents_topics, [])"

section \<open>The streamer publishes where the handlers listen\<close>

lemma stats_lines_topic: "\<forall>x \<in> set (stats_lines decode cancelled topic ctr n ls). fst x = topic"
  by (induction decode cancelled topic ctr n ls rule: stats_lines.induct) (auto split: option.splits)

text \<open>Whatever the goroutines of a connection publish is on its own topic.\<close>

lemma stats_on_topic:
  assumes "table_ok ps" "pubs \<in> set (snd (ProjectStats so ps r))" "x \<in> set pubs"
  shows "fst (ProjectStats so ps r) = [fst x]"
proof -
  obtain p ctrs ctr where p: "map_of ps (url_param r ''projectID'') = Some p"
    and "pubs = streamContainerStats (so_decode so) (so_cancelled so) (so_stats so) (pr_id p) ctr"
    using assms(2) by (auto simp: ProjectStats_def GetProject_def StreamProjectStats_def Let_def split: option.splits)
  moreover have "pr_id p = url_param r ''projectID''"
    using assms(1) p by (auto simp: table_ok_def dest!: map_of_SomeD)
  ultimately show ?thesis
    using assms(3) stats_lines_topic
    by (fastforce simp: streamContainerStats_def ProjectStats_def ProjectStats_topics_def stats_topic_def Let_def
        split: option.splits)
qed

lemma logs_on_topic:
  assumes "pubs \<in> set (snd (ServiceLogs so r))" "x \<in> set pubs"
  shows "fst (ServiceLogs so r) = [fst x]"
  using assms
  by (auto simp: ServiceLogs_def ServiceLogs_topics_def StreamProjectLogs_def publish_logs_def logs_topic_def Let_def
      split: option.splits list.splits)

text \<open>A topic names its project, whose identifier has no colon (it is hexadecimal).\<close>

definition topic_project :: "string \<Rightarrow> string" where
  "topic_project t = takeWhile (\<lambda>c. c \<noteq> CHR '':'') (drop 8 t)"

lemma takeWhile_stop: "x \<notin> set p \<Longrightarrow> takeWhile (\<lambda>c. c \<noteq> x) (p @ x # ys) = p"
  by (induction p) auto

lemma topic_project_of:
  assumes "CHR '':'' \<notin> set p"
  shows "topic_project (events_topic p) = p" "topic_project (stats_topic p) = p"
    "topic_project (logs_topic p svc) = p"
  using assms
  by (simp_all add: topic_project_def events_topic_def stats_topic_def logs_topic_def takeWhile_stop)

text \<open>
  A connection for a project reads only events on a topic of that project, and the shutdown event:
  what is published for other projects does not reach it.
\<close>

lemma connection_private:
  assumes "stream_reach fmt m s" "e \<in> set (st_read s c)" "ev_type e \<noteq> EventShutdown"
    and "CHR '':'' \<notin> set (url_param r ''projectID'')"
    and "st_topics s c \<in> {fst (ProjectEvents r), fst (ProjectStats so ps r), fst (ServiceLogs so r)}"
  shows "topic_project (ev_topic e) = url_param r ''projectID''"
proof -
  have "on_topic (st_topics s c) e" by (rule read_offered(2) [OF assms(1,2)])
  moreover have "st_topics s c \<in> {[events_topic (url_param r ''projectID'')], [stats_topic (url_param r ''projectID'')],
      [logs_topic (url_param r ''projectID'') (url_param r ''serviceName'')]}"
    using assms(5) by (simp add: ProjectEvents_def ProjectStats_def ServiceLogs_def ProjectEvents_topics_def
        ProjectStats_topics_def ServiceLogs_topics_def events_topic_def stats_topic_def logs_topic_def Let_def)
  ultimately have "ev_topic e \<in> {events_topic (url_param r ''projectID''), stats_topic (url_param r ''projectID''),
      logs_topic (url_param r ''projectID'') (url_param r ''serviceName'')}"
    using assms(3) by (auto simp: on_topic_def events_topic_def stats_topic_def logs_topic_def)
  then show ?thesis using topic_project_of [OF assms(4)] by auto
qed

text \<open>An event of the daemon is published for the project of its label, and for no other.\<close>

lemma docker_event_project:
  assumes "(t, ev) \<in> set (publishDockerEvent e)" "t \<noteq> global_topic"
  shows "t = events_topic (str_at (ea_attributes (dke_actor e)) label_project)"
  using assms by (auto simp: publishDockerEvent_def Let_def split: if_splits)

section \<open>Divergence\<close>

text \<open>
  Every viewer starts a goroutine of its own that publishes on the common topic: with \<open>k\<close> viewers of a
  log, every line is published \<open>k\<close> times, and each viewer is offered all of them.
\<close>

lemma viewers_multiply:
  "count_list (concat (concat (replicate k (snd (ServiceLogs so r))))) x =
     k * count_list (concat (snd (ServiceLogs so r))) x"
  by (induction k) simp_all

end
