(* ===== verification/Feeds.thy ===== *)
theory Feeds
  imports EventsApi
begin

text \<open>
  The goroutines of \<open>internal/docker/streamer.go\<close> beside the connections: a handler of
  \<open>events_handler.go\<close> starts its goroutines and then subscribes, \<open>main\<close> has started the two that run all the
  time, and each publishes what it has in its own order, while the connections of \<open>Streaming\<close> read and
  end. What the daemon answers may differ from call to call.
\<close>

section \<open>The system\<close>

text \<open>The answers the daemon may give, and the requests of viewers the guards let through.\<close>

record feed_env =
  fe_daemon :: "stream_source \<Rightarrow> bool"
  fe_viewer :: "request \<Rightarrow> bool"

text \<open>
  \<open>fd_running\<close> is what each goroutine has yet to publish, \<open>fd_waiting\<close> the topics of the handlers that have
  started their goroutines and not subscribed yet.
\<close>

record feeds =
  fd_streams :: "stream_data streams"
  fd_running :: "publication list list"
  fd_waiting :: "string list list"

definition collected :: "(nat \<Rightarrow> stream_source) \<Rightarrow> tick list \<Rightarrow> publication list" where
  "collected rounds =
     StartStatsCollector (\<lambda>n. collectAllStats (so_containers (rounds n)) (so_decode (rounds n))
       (so_stats (rounds n)) (so_cancelled (rounds n))) 0"

definition feeds_init :: "feed list \<Rightarrow> (nat \<Rightarrow> stream_source) \<Rightarrow> tick list \<Rightarrow> feeds" where
  "feeds_init fs rounds ts =
     \<lparr>fd_streams = streams_init, fd_running = [StreamDockerEvents fs, collected rounds ts], fd_waiting = []\<rparr>"

inductive feed_step ::
    "(time \<Rightarrow> string) \<Rightarrow> (stream_data Event \<Rightarrow> string option) \<Rightarrow> feed_env \<Rightarrow> feeds \<Rightarrow> feeds \<Rightarrow> bool"
  for fmt marshal env where
  viewed: "fe_viewer env r \<Longrightarrow> fe_daemon env so \<Longrightarrow>
    h \<in> {ProjectEvents r, ProjectStats so ps r, ServiceLogs so r, GlobalEvents r} \<Longrightarrow>
    feed_step fmt marshal env s
      (s\<lparr>fd_running := fd_running s @ snd h, fd_waiting := fd_waiting s @ [fst h]\<rparr>)"
| subscribed: "fd_waiting s = xs @ topics # ys \<Longrightarrow> stream_step fmt marshal (Opens topics) (fd_streams s) st \<Longrightarrow>
    feed_step fmt marshal env s (s\<lparr>fd_streams := st, fd_waiting := xs @ ys\<rparr>)"
| tells: "fd_running s = gs @ ((t, e) # es) # hs \<Longrightarrow> stream_step fmt marshal (Publishes t e) (fd_streams s) st \<Longrightarrow>
    feed_step fmt marshal env s (s\<lparr>fd_streams := st, fd_running := gs @ es # hs\<rparr>)"
| serves: "a = Serves \<or> a = Shuts \<Longrightarrow> stream_step fmt marshal a (fd_streams s) st \<Longrightarrow>
    feed_step fmt marshal env s (s\<lparr>fd_streams := st\<rparr>)"

inductive feed_reach ::
    "(time \<Rightarrow> string) \<Rightarrow> (stream_data Event \<Rightarrow> string option) \<Rightarrow> feed_env \<Rightarrow> feeds \<Rightarrow> bool" for fmt marshal env where
  feed_init: "(\<forall>n. fe_daemon env (rounds n)) \<Longrightarrow> feed_reach fmt marshal env (feeds_init fs rounds ts)"
| feed_more: "feed_reach fmt marshal env s \<Longrightarrow> feed_step fmt marshal env s s' \<Longrightarrow> feed_reach fmt marshal env s'"

lemma feed_reach_streams: "feed_reach fmt m env s \<Longrightarrow> stream_reach fmt m (fd_streams s)"
proof (induction rule: feed_reach.induct)
  case (feed_init rounds fs ts)
  then show ?case by (simp add: feeds_init_def stream_init)
next
  case (feed_more s s')
  from feed_more(2,3) show ?case by (induction rule: feed_step.induct) (auto intro: stream_more)
qed

section \<open>What belongs to a project\<close>

text \<open>The daemon's filter by label: a key, or a key and its value after the first equals sign.\<close>

definition label_matches :: "(string, string) gomap \<Rightarrow> string \<Rightarrow> bool" where
  "label_matches labels v =
     (let k = takeWhile (\<lambda>c. c \<noteq> CHR ''='') v in
      case dropWhile (\<lambda>c. c \<noteq> CHR ''='') v of
        [] \<Rightarrow> map_of labels k \<noteq> None
      | _ # x \<Rightarrow> map_of labels k = Some x)"

definition filters_by_label :: "stream_source \<Rightarrow> bool" where
  "filters_by_label so \<longleftrightarrow>
     (\<forall>fs ctrs. so_containers so fs = Some ctrs \<longrightarrow>
        (\<forall>ctr \<in> set ctrs. \<forall>(k, vs) \<in> set fs. k = ''label'' \<longrightarrow> list_all (label_matches (ci_labels ctr)) vs))"

definition in_project :: "string \<Rightarrow> ContainerInfo \<Rightarrow> bool" where
  "in_project p ctr \<longleftrightarrow> map_of (ci_labels ctr) label_project = Some p"

text \<open>
  What a viewer of a project may see: the statistics and the log lines of a container the daemon lists
  with the project's label, and the events the daemon tells about the project.
\<close>

inductive project_data :: "feed_env \<Rightarrow> string \<Rightarrow> stream_data \<Rightarrow> bool" for env p where
  stats_of: "fe_daemon env so \<Longrightarrow> so_containers so fs = Some ctrs \<Longrightarrow> ctr \<in> set ctrs \<Longrightarrow> in_project p ctr \<Longrightarrow>
    ct_id st = ci_id ctr \<Longrightarrow> project_data env p (StatsData st)"
| line_of: "fe_daemon env so \<Longrightarrow> so_containers so fs = Some ctrs \<Longrightarrow> ctr \<in> set ctrs \<Longrightarrow> in_project p ctr \<Longrightarrow>
    so_logs so (ci_id ctr) = Some bytes \<Longrightarrow> (stream, line) \<in> set (demuxDockerLogs (so_cancelled so) 0 bytes) \<Longrightarrow>
    project_data env p (FieldsData [(''service'', svc), (''stream'', stream), (''line'', line)])"
| event_of: "str_at (ea_attributes (dke_actor d)) label_project = p \<Longrightarrow> project_data env p (DockerData d)"
| state_of: "str_at (ea_attributes (dke_actor d)) label_project = p \<Longrightarrow>
    project_data env p (FieldsData (state_fields d))"

lemma takeWhile_dropWhile_stop:
  "x \<notin> set k \<Longrightarrow> takeWhile (\<lambda>c. c \<noteq> x) (k @ x # v) = k \<and> dropWhile (\<lambda>c. c \<noteq> x) (k @ x # v) = x # v"
  by (induction k) auto

lemma label_matches_value:
  "label_matches labels (label_project @ ''='' @ p) \<longleftrightarrow> map_of labels label_project = Some p"
proof -
  have "CHR ''='' \<notin> set label_project" by (simp add: label_project_def)
  then show ?thesis using takeWhile_dropWhile_stop [of "CHR ''=''" label_project p] by (simp add: label_matches_def Let_def)
qed

lemma listed_in_project:
  assumes "filters_by_label so" "so_containers so fs = Some ctrs" "ctr \<in> set ctrs"
    "(''label'', vs) \<in> set fs" "label_project @ ''='' @ p \<in> set vs"
  shows "in_project p ctr"
proof -
  have "list_all (label_matches (ci_labels ctr)) vs" using assms(1-4) by (fastforce simp: filters_by_label_def)
  then have "label_matches (ci_labels ctr) (label_project @ ''='' @ p)" using assms(5) by (simp add: list_all_iff)
  then show ?thesis unfolding label_matches_value in_project_def .
qed

section \<open>Topics of a project\<close>

definition project_topic :: "string \<Rightarrow> string \<Rightarrow> bool" where
  "project_topic p t \<longleftrightarrow> t = events_topic p \<or> t = stats_topic p \<or> (\<exists>svc. t = logs_topic p svc)"

lemma suffixes_differ:
  "p @ '':stats'' \<noteq> q @ '':events''" "p @ '':logs'' \<noteq> q @ '':events''" "p @ '':stats'' \<noteq> q @ '':logs''"
  by (rule notI, drule arg_cong [of _ _ rev], simp)+

lemma project_topic_simps:
  "project_topic p (events_topic q) \<longleftrightarrow> p = q" "project_topic p (stats_topic q) \<longleftrightarrow> p = q"
  using suffixes_differ(1) [of p q] suffixes_differ(1) [of q p] suffixes_differ(2) [of "p @ '':service:'' @ svc" q for svc]
    suffixes_differ(3) [of q "p @ '':service:'' @ svc" for svc]
  by (auto simp: project_topic_def events_topic_def stats_topic_def logs_topic_def)

lemma project_topic_logs:
  assumes "CHR '':'' \<notin> set p" "CHR '':'' \<notin> set q" "project_topic p (logs_topic q svc)"
  shows "p = q"
  using assms(3) topic_project_of [OF assms(1)] topic_project_of(3) [OF assms(2), of svc]
  by (auto simp: project_topic_def)

lemma not_global: "\<not> project_topic p global_topic"
  by (simp add: project_topic_def events_topic_def stats_topic_def logs_topic_def global_topic_def)

section \<open>What is published about a project\<close>

definition pub_ok :: "feed_env \<Rightarrow> string \<Rightarrow> stream_data Event \<Rightarrow> bool" where
  "pub_ok env t e \<longleftrightarrow>
     (\<exists>d. ev_data e = Some d \<and>
       (\<forall>p. p \<noteq> [] \<longrightarrow> CHR '':'' \<notin> set p \<longrightarrow> project_topic p t \<longrightarrow> project_data env p d))"

definition pubs_ok :: "feed_env \<Rightarrow> publication list \<Rightarrow> bool" where
  "pubs_ok env pubs \<longleftrightarrow> (\<forall>(t, e) \<in> set pubs. pub_ok env t e)"

lemma pubs_ok_simps [simp]:
  "pubs_ok env []" "pubs_ok env ((t, e) # es) \<longleftrightarrow> pub_ok env t e \<and> pubs_ok env es"
  "pubs_ok env (xs @ ys) \<longleftrightarrow> pubs_ok env xs \<and> pubs_ok env ys"
  by (auto simp: pubs_ok_def)

lemma pub_ok_new: "(\<And>p. p \<noteq> [] \<Longrightarrow> CHR '':'' \<notin> set p \<Longrightarrow> project_topic p t \<Longrightarrow> project_data env p d) \<Longrightarrow>
    pub_ok env t (new_event ty d)"
  by (simp add: pub_ok_def new_event_def)

lemma docker_events_ok: "pubs_ok env (StreamDockerEvents fs)"
proof (induction fs rule: StreamDockerEvents.induct)
  case (2 e fs)
  have "pubs_ok env (publishDockerEvent e)"
    by (auto simp: publishDockerEvent_def Let_def project_topic_simps not_global intro!: pub_ok_new event_of state_of)
  then show ?case using 2 by simp
qed simp_all

lemma stats_pub_ok:
  assumes "fe_daemon env so" "so_containers so fs = Some ctrs" "ctr \<in> set ctrs" "q \<noteq> [] \<Longrightarrow> in_project q ctr"
  shows "pub_ok env (stats_topic q) (stats_event ctr st)"
  unfolding stats_event_def
  by (rule pub_ok_new) (use assms in \<open>auto simp: project_topic_simps intro: stats_of\<close>)

lemma stats_lines_ok:
  assumes "\<And>st. pub_ok env t (stats_event ctr st)"
  shows "pubs_ok env (stats_lines decode cancelled t ctr n ls)"
  using assms by (induction decode cancelled t ctr n ls rule: stats_lines.induct) (auto split: option.split)

lemma viewer_stats_ok:
  assumes "fe_daemon env so" "filters_by_label so"
    "g \<in> set (StreamProjectStats (so_containers so) (so_decode so) (so_cancelled so) (so_stats so) q)"
  shows "pubs_ok env g"
proof -
  obtain ctrs ctr where l: "so_containers so (stats_filters q) = Some ctrs" "ctr \<in> set ctrs"
    and g: "g = streamContainerStats (so_decode so) (so_cancelled so) (so_stats so) q ctr"
    using assms(3) by (cases "so_containers so (stats_filters q)") (auto simp: StreamProjectStats_def)
  have "in_project q ctr"
    by (rule listed_in_project [OF assms(2) l, of "[label_project @ ''='' @ q]"]) (simp_all add: stats_filters_def)
  then have "pub_ok env (stats_topic q) (stats_event ctr st)" for st
    using stats_pub_ok [OF assms(1) l] by blast
  then show ?thesis by (simp add: g streamContainerStats_def stats_lines_ok split: option.split)
qed

lemma collect_each_ok:
  assumes "fe_daemon env so" "so_containers so fs = Some ctrs" "set cs \<subseteq> set ctrs"
  shows "pubs_ok env (collect_each decode stats cancelled n cs)"
  using assms(3)
proof (induction cs arbitrary: n)
  case (Cons ctr cs)
  have "pub_ok env (stats_topic q) (stats_event ctr st)" if "q = str_at (ci_labels ctr) label_project" for q st
    using Cons.prems that
    by (intro stats_pub_ok [OF assms(1,2)]) (auto simp: in_project_def str_at_def split: option.splits)
  then have "pubs_ok env (collect_one decode stats ctr)"
    by (auto simp: collect_one_def Let_def split: option.split)
  then show ?case using Cons by simp
qed simp

lemma collected_ok: "(\<forall>n. fe_daemon env (rounds n)) \<Longrightarrow> pubs_ok env (collected rounds ts)"
proof -
  assume d: "\<forall>n. fe_daemon env (rounds n)"
  let ?c = "\<lambda>n. collectAllStats (so_containers (rounds n)) (so_decode (rounds n)) (so_stats (rounds n)) (so_cancelled (rounds n))"
  have c: "pubs_ok env (?c n)" for n
    using collect_each_ok [OF spec [OF d] _ subset_refl] by (auto simp: collectAllStats_def split: option.split)
  have "pubs_ok env (StartStatsCollector ?c n ts)" for n
  proof (induction ts arbitrary: n)
    case (Cons t ts)
    then show ?case using c by (cases t) auto
  qed simp
  then show ?thesis by (simp add: collected_def)
qed

lemma viewer_logs_ok:
  assumes "fe_daemon env so" "filters_by_label so" "CHR '':'' \<notin> set q"
  shows "pubs_ok env (StreamProjectLogs (so_containers so) (so_logs so) (so_cancelled so) q svc)"
proof (cases "so_containers so (logs_filters q svc)")
  case (Some ctrs)
  show ?thesis
  proof (cases ctrs)
    case (Cons ctr rest)
    have l: "so_containers so (logs_filters q svc) = Some ctrs" "ctr \<in> set ctrs" using Some Cons by simp_all
    have p: "in_project q ctr"
      by (rule listed_in_project [OF assms(2) l, of "[label_project @ ''='' @ q, label_service @ ''='' @ svc]"])
         (simp_all add: logs_filters_def)
    have "pub_ok env (logs_topic q svc) (log_event svc (stream, line))"
      if "so_logs so (ci_id ctr) = Some bytes" "(stream, line) \<in> set (demuxDockerLogs (so_cancelled so) 0 bytes)" for bytes stream line
      unfolding log_event_def fst_conv snd_conv
    proof (rule pub_ok_new)
      fix r assume "CHR '':'' \<notin> set r" "project_topic r (logs_topic q svc)"
      then have "r = q" using project_topic_logs assms(3) by blast
      then show "project_data env r (FieldsData [(''service'', svc), (''stream'', stream), (''line'', line)])"
        using line_of [OF assms(1) l p that] by simp
    qed
    then show ?thesis
      by (cases "so_logs so (ci_id ctr)") (auto simp: StreamProjectLogs_def Some Cons publish_logs_def pubs_ok_def)
  qed (simp add: StreamProjectLogs_def Some)
qed (simp add: StreamProjectLogs_def)

section \<open>What reaches the connections\<close>

text \<open>What is offered to a channel in a step: what is published in it, or the shutdown event.\<close>

lemma offered_step:
  "stream_step fmt m a s s' \<Longrightarrow> e \<in> set (st_offered s' c) \<Longrightarrow>
     e \<in> set (st_offered s c) \<or> ev_type e = EventShutdown \<or>
     (\<exists>t e0. a = Publishes t e0 \<and> ev_topic e = t \<and> ev_data e = ev_data e0)"
proof (induction rule: stream_step.induct)
  case (published s now topic e0 e' b)
  have "ev_topic e' = topic" "ev_data e' = ev_data e0"
    using published(2) by (auto simp: stamp_event_def Let_def split: prod.splits if_splits)
  then show ?case using published(3) by (auto simp: note_offer_def split: if_splits)
next
  case (shut s now)
  then show ?case by (auto simp: note_offer_def shutdown_event_def split: if_splits)
qed (simp_all add: end_conn_def)

definition feeds_inv :: "feed_env \<Rightarrow> feeds \<Rightarrow> bool" where
  "feeds_inv env s \<longleftrightarrow> (\<forall>g \<in> set (fd_running s). pubs_ok env g) \<and>
     (\<forall>c. \<forall>e \<in> set (st_offered (fd_streams s) c). ev_type e = EventShutdown \<or> pub_ok env (ev_topic e) e)"

lemma pub_ok_data: "pub_ok env t e0 \<Longrightarrow> ev_data e = ev_data e0 \<Longrightarrow> pub_ok env t e"
  by (simp add: pub_ok_def)

lemma feed_step_inv:
  assumes "\<forall>so. fe_daemon env so \<longrightarrow> filters_by_label so"
    "\<forall>r. fe_viewer env r \<longrightarrow> CHR '':'' \<notin> set (url_param r ''projectID'')"
  shows "feed_step fmt m env s s' \<Longrightarrow> feeds_inv env s \<Longrightarrow> feeds_inv env s'"
proof (induction rule: feed_step.induct)
  case (viewed r so h ps s)
  have "\<forall>g \<in> set (snd h). pubs_ok env g"
    using viewed(3)
  proof (elim insertE)
    assume "h = ProjectStats so ps r"
    then show ?thesis using viewer_stats_ok [OF viewed(2)] assms(1) viewed(2)
      by (auto simp: ProjectStats_def Let_def split: sum.splits)
  next
    assume "h = ServiceLogs so r"
    then show ?thesis using viewer_logs_ok [OF viewed(2)] assms viewed(1,2) by (auto simp: ServiceLogs_def Let_def)
  qed (auto simp: ProjectEvents_def GlobalEvents_def)
  then show ?case using viewed(4) by (auto simp: feeds_inv_def)
next
  case (subscribed s xs topics ys st)
  have "ev_type e = EventShutdown \<or> pub_ok env (ev_topic e) e" if "e \<in> set (st_offered st c)" for c e
    using offered_step [OF subscribed(2) that] subscribed(3) by (auto simp: feeds_inv_def)
  then show ?case using subscribed(3) by (auto simp: feeds_inv_def)
next
  case (tells s gs t e es hs st)
  then have t: "pub_ok env t e" and old: "feeds_inv env s" by (auto simp: feeds_inv_def)
  have "ev_type e' = EventShutdown \<or> pub_ok env (ev_topic e') e'" if "e' \<in> set (st_offered st c)" for c e'
    using offered_step [OF tells(2) that] old pub_ok_data [OF t, of e'] by (auto simp: feeds_inv_def)
  then show ?case using old tells(1) by (auto simp: feeds_inv_def)
next
  case (serves a s st)
  have "ev_type e = EventShutdown \<or> pub_ok env (ev_topic e) e" if "e \<in> set (st_offered st c)" for c e
    using offered_step [OF serves(2) that] serves(1,3) by (auto simp: feeds_inv_def)
  then show ?case using serves(3) by (auto simp: feeds_inv_def)
qed

lemma feed_reach_inv:
  assumes "\<forall>so. fe_daemon env so \<longrightarrow> filters_by_label so"
    "\<forall>r. fe_viewer env r \<longrightarrow> CHR '':'' \<notin> set (url_param r ''projectID'')"
  shows "feed_reach fmt m env s \<Longrightarrow> feeds_inv env s"
proof (induction rule: feed_reach.induct)
  case (feed_init rounds fs ts)
  then show ?case using docker_events_ok collected_ok
    by (auto simp: feeds_inv_def feeds_init_def streams_init_def)
qed (rule feed_step_inv [OF assms])

text \<open>
  A handler starts its goroutine before it subscribes. What the goroutine publishes until then reaches
  nobody, unless another viewer is subscribed.
\<close>

lemma early_lines_lost:
  assumes "stream_reach fmt m s" "\<forall>(i, sub) \<in> set (br_subs (st_broker s)). \<not> wants topic sub"
  shows "br_chans (Publish fmt now topic e (st_broker s)) c = br_chans (st_broker s) c"
proof (cases "br_closed (st_broker s)")
  case False
  have ok: "subs_ok (st_broker s)"
    using stream_reach_inv [OF assms(1)] sse_reach_ok by (auto simp: stream_inv_def)
  obtain e' b where "stamp_event fmt now topic e (st_broker s) = (e', b)" by fastforce
  from Publish_chans [OF ok False this] show ?thesis using assms(2) by (auto simp: is_target_def)
qed (simp add: Publish_def)

section \<open>Property\<close>

text \<open>
  C18: A viewer of a project sees that project only. Whatever the goroutines of all viewers and of the
  server publish, and in whatever order: a connection for the events, the statistics or a log of a
  project has written the frames of what it read, and every event among it, the shutdown event apart, is
  the statistics or a log line of a container that the daemon lists with the project's label, or an event
  of the daemon about the project; given that the daemon filters by label as it documents, and that the
  identifiers of projects have no colon.
\<close>

theorem viewer_sees_project:
  assumes "feed_reach fmt m env s"
    "\<forall>so. fe_daemon env so \<longrightarrow> filters_by_label so"
    "\<forall>r. fe_viewer env r \<longrightarrow> CHR '':'' \<notin> set (url_param r ''projectID'')"
    and "st_conns (fd_streams s) c = Some cn" "fe_viewer env r" "url_param r ''projectID'' \<noteq> []"
    "st_topics (fd_streams s) c \<in> {fst (ProjectEvents r), fst (ProjectStats so ps r), fst (ServiceLogs so r)}"
  shows "cn_out cn = serve_events m (st_read (fd_streams s) c) \<and>
    (\<forall>e \<in> set (st_read (fd_streams s) c). ev_type e = EventShutdown \<or>
       (\<exists>d. ev_data e = Some d \<and> project_data env (url_param r ''projectID'') d))"
proof -
  let ?p = "url_param r ''projectID''"
  have reach: "stream_reach fmt m (fd_streams s)" using assms(1) by (rule feed_reach_streams)
  have "project_data env ?p d"
    if "e \<in> set (st_read (fd_streams s) c)" "ev_type e \<noteq> EventShutdown" "ev_data e = Some d" for e d
  proof -
    have "on_topic (st_topics (fd_streams s) c) e" by (rule read_offered(2) [OF reach that(1)])
    moreover have "set (st_topics (fd_streams s) c) \<subseteq> Collect (project_topic ?p)"
      using assms(7)
      by (auto simp: ProjectEvents_def ProjectStats_def ServiceLogs_def ProjectEvents_topics_def
          ProjectStats_topics_def ServiceLogs_topics_def project_topic_def events_topic_def stats_topic_def
          logs_topic_def Let_def)
    moreover have "''*'' \<notin> Collect (project_topic ?p)"
      by (simp add: project_topic_def events_topic_def stats_topic_def logs_topic_def)
    ultimately have "project_topic ?p (ev_topic e)" using that(2) by (auto simp: on_topic_def)
    moreover have "pub_ok env (ev_topic e) e"
      using feed_reach_inv [OF assms(2,3,1)] read_offered(1) [OF reach that(1)] that(2) by (auto simp: feeds_inv_def)
    ultimately show ?thesis using assms(3,5,6) that(3) by (auto simp: pub_ok_def)
  qed
  moreover have "ev_type e = EventShutdown \<or> (\<exists>d. ev_data e = Some d)" if "e \<in> set (st_read (fd_streams s) c)" for e
    using feed_reach_inv [OF assms(2,3,1)] read_offered(1) [OF reach that] unfolding feeds_inv_def pub_ok_def by blast
  moreover have "cn_out cn = serve_events m (st_read (fd_streams s) c)"
    using stream_reach_inv [OF reach] assms(4) by (simp add: stream_inv_def written_ok_def)
  ultimately show ?thesis by blast
qed

section \<open>A viewer to evaluate on\<close>

text \<open>A daemon with one container, whose log has one line, and a viewer of that log.\<close>

definition demo_ctr :: ContainerInfo where
  "demo_ctr = \<lparr>ci_id = ''c1'', ci_name = ''p1-web'', ci_image = ''nginx'', ci_state = ''running'', ci_status = [],
     ci_labels = [(label_project, ''p1''), (label_service, ''web'')], ci_ports = [], ci_created = 0\<rparr>"

definition demo_source :: stream_source where
  "demo_source =
     \<lparr>so_containers = (\<lambda>fs. Some (if \<forall>(k, vs) \<in> set fs. k = ''label'' \<longrightarrow> list_all (label_matches (ci_labels demo_ctr)) vs
        then [demo_ctr] else [])),
      so_logs = (\<lambda>i. Some (log_frame (CHR 0x01, ''up''))), so_stats = (\<lambda>i. None), so_decode = (\<lambda>l. None),
      so_cancelled = (\<lambda>n. False)\<rparr>"

definition demo_viewer :: request where
  "demo_viewer = \<lparr>rq_headers = [], rq_params = [(''projectID'', ''p1''), (''serviceName'', ''web'')], rq_query = [],
     rq_claims = None, rq_uuid = []\<rparr>"

definition demo_feed_env :: feed_env where
  "demo_feed_env = \<lparr>fe_daemon = (\<lambda>so. so = demo_source), fe_viewer = (\<lambda>r. r = demo_viewer)\<rparr>"

definition demo_topic :: string where "demo_topic = logs_topic ''p1'' ''web''"

definition demo_line :: "stream_data Event" where "demo_line = log_event ''web'' (''stdout'', ''up'')"

definition demo_wire :: "stream_data Event \<Rightarrow> string option" where "demo_wire e = Some ''{}''"

definition demo_t1 :: "stream_data streams" where
  "demo_t1 = streams_init\<lparr>st_broker := snd (Subscribe demo_fmt 3000 [demo_topic] NewBroker),
     st_conns := [0 \<mapsto> \<lparr>cn_out = [], cn_ended = False\<rparr>], st_topics := (\<lambda>c. [])(0 := [demo_topic])\<rparr>"

definition demo_stamped :: "stream_data Event" where
  "demo_stamped = fst (stamp_event demo_fmt 4000 demo_topic demo_line (st_broker demo_t1))"

definition demo_t2 :: "stream_data streams" where
  "demo_t2 = (note_offer (wants demo_topic) demo_stamped demo_t1)
     \<lparr>st_broker := Publish demo_fmt 4000 demo_topic demo_line (st_broker demo_t1)\<rparr>"

definition demo_t3 :: "stream_data streams" where
  "demo_t3 = demo_t2\<lparr>st_broker := (st_broker demo_t2)\<lparr>br_chans := (br_chans (st_broker demo_t2))(0 := [])\<rparr>,
     st_conns := (st_conns demo_t2)(0 \<mapsto> \<lparr>cn_out = serve_events demo_wire [demo_stamped], cn_ended = False\<rparr>),
     st_read := (st_read demo_t2)(0 := [demo_stamped])\<rparr>"

lemma demo_logs: "ServiceLogs demo_source demo_viewer = ([demo_topic], [[(demo_topic, demo_line)]])"
proof -
  have p: "url_param demo_viewer ''projectID'' = ''p1''" "url_param demo_viewer ''serviceName'' = ''web''"
    by (simp_all add: url_param_def demo_viewer_def str_at_def)
  have "label_matches (ci_labels demo_ctr) (label_project @ ''='' @ ''p1'')"
    "label_matches (ci_labels demo_ctr) (label_service @ ''='' @ ''web'')"
    by (simp_all add: demo_ctr_def label_matches_def label_project_def label_service_def)
  then have "so_containers demo_source (logs_filters ''p1'' ''web'') = Some [demo_ctr]"
    by (simp add: demo_source_def logs_filters_def)
  moreover have "demuxDockerLogs (so_cancelled demo_source) 0 (log_frame (CHR 0x01, ''up'')) = [(''stdout'', ''up'')]"
  proof -
    have "\<not> line_end (CHR ''p'')" by code_simp
    then have "list_all (\<lambda>f. log_line_ok (snd f)) [(CHR 0x01, ''up'')]" by (simp add: log_line_ok_def max_frame_def)
    from demux_frames [OF this] show ?thesis by (simp add: stream_name_def byte_def demo_source_def)
  qed
  moreover have "so_logs demo_source (ci_id demo_ctr) = Some (log_frame (CHR 0x01, ''up''))" by (simp add: demo_source_def)
  ultimately show ?thesis
    unfolding ServiceLogs_def p Let_def
    by (simp add: StreamProjectLogs_def publish_logs_def demo_topic_def demo_line_def)
       (simp add: ServiceLogs_topics_def logs_topic_def)
qed

lemma demo_t1_subs:
  "br_subs (st_broker demo_t1) = [(''3-1'', \<lparr>sub_id = ''3-1'', sub_ch = 0, sub_topics = [demo_topic]\<rparr>)]"
  "\<not> br_closed (st_broker demo_t1)" "br_chans (st_broker demo_t1) c = []"
  by (simp_all add: demo_t1_def Subscribe_def generateID_def NewBroker_def demo_fmt_def itoa_def
      nat_digits.simps digit_char_def Let_def) code_simp

lemma demo_t_steps:
  "stream_step demo_fmt demo_wire (Opens [demo_topic]) streams_init demo_t1"
  "stream_step demo_fmt demo_wire (Publishes demo_topic demo_line) demo_t1 demo_t2"
  "stream_step demo_fmt demo_wire Serves demo_t2 demo_t3"
proof -
  have "Subscribe demo_fmt 3000 [demo_topic] (st_broker streams_init)
      = (0, snd (Subscribe demo_fmt 3000 [demo_topic] NewBroker))"
    by (simp add: streams_init_def Subscribe_def generateID_def Let_def) (simp add: NewBroker_def)
  then show "stream_step demo_fmt demo_wire (Opens [demo_topic]) streams_init demo_t1"
    using opened [of demo_fmt 3000 "[demo_topic]" streams_init]
    by (simp add: demo_t1_def) (simp add: streams_init_def)
  obtain b where st: "stamp_event demo_fmt 4000 demo_topic demo_line (st_broker demo_t1) = (demo_stamped, b)"
    by (metis demo_stamped_def prod.collapse)
  show "stream_step demo_fmt demo_wire (Publishes demo_topic demo_line) demo_t1 demo_t2"
    unfolding demo_t2_def by (rule published [OF demo_t1_subs(2) st])
  have "br_chans (st_broker demo_t2) 0 = [demo_stamped]"
    using demo_t1_subs(2) st stamp_event_frame [OF st]
    by (simp add: demo_t2_def Publish_def demo_t1_subs wants_def offer_def buffer_size_def)
  then have r: "receive 0 (st_broker demo_t2) = Some (Some demo_stamped,
      (st_broker demo_t2)\<lparr>br_chans := (br_chans (st_broker demo_t2))(0 := [])\<rparr>)"
    by (simp add: receive_def)
  have c: "st_conns demo_t2 0 = Some \<lparr>cn_out = [], cn_ended = False\<rparr>" "st_read demo_t2 0 = []"
    by (simp_all add: demo_t2_def demo_t1_def streams_init_def)
  show "stream_step demo_fmt demo_wire Serves demo_t2 demo_t3"
    using read [OF c(1) _ r, of demo_fmt demo_wire] by (simp add: demo_t3_def c(2))
qed

lemma demo_feed_reach:
  "\<exists>s. feed_reach demo_fmt demo_wire demo_feed_env s \<and> fd_streams s = demo_t3"
proof -
  let ?i = "feeds_init [] (\<lambda>_. demo_source) []"
  let ?h = "ServiceLogs demo_source demo_viewer"
  let ?s1 = "?i\<lparr>fd_running := fd_running ?i @ snd ?h, fd_waiting := fd_waiting ?i @ [fst ?h]\<rparr>"
  have "feed_reach demo_fmt demo_wire demo_feed_env ?i" by (rule feed_init) (simp add: demo_feed_env_def)
  moreover have "feed_step demo_fmt demo_wire demo_feed_env ?i ?s1"
    by (rule viewed [where r = demo_viewer and so = demo_source and ps = "[]"]) (simp_all add: demo_feed_env_def)
  ultimately have 1: "feed_reach demo_fmt demo_wire demo_feed_env ?s1" by (rule feed_more)
  have f: "fd_waiting ?s1 = [] @ [demo_topic] # []" "fd_streams ?s1 = streams_init"
    "fd_running ?s1 = [[], []] @ ((demo_topic, demo_line) # []) # []"
    by (simp_all add: feeds_init_def demo_logs collected_def)
  let ?s2 = "?s1\<lparr>fd_streams := demo_t1, fd_waiting := [] @ []\<rparr>"
  have 2: "feed_reach demo_fmt demo_wire demo_feed_env ?s2"
    by (rule feed_more [OF 1 subscribed [OF f(1)]]) (simp only: f(2) demo_t_steps)
  let ?s3 = "?s2\<lparr>fd_streams := demo_t2, fd_running := [[], []] @ [] # []\<rparr>"
  have 3: "feed_reach demo_fmt demo_wire demo_feed_env ?s3"
    by (rule feed_more [OF 2 tells [of ?s2 "[[], []]" demo_topic demo_line "[]" "[]"]])
       (use f(3) in simp, simp add: demo_t_steps)
  have "feed_reach demo_fmt demo_wire demo_feed_env (?s3\<lparr>fd_streams := demo_t3\<rparr>)"
    by (rule feed_more [OF 3 serves [of Serves]]) (simp_all add: demo_t_steps)
  then show ?thesis by (intro exI) auto
qed

lemma demo_daemon_filters: "filters_by_label demo_source"
  by (auto simp: filters_by_label_def demo_source_def split: if_splits)

lemma viewer_sees_project_witness:
  "\<exists>s d. feed_reach demo_fmt demo_wire demo_feed_env s \<and> st_read (fd_streams s) 0 = [demo_stamped] \<and>
     ev_data demo_stamped = Some d \<and> project_data demo_feed_env ''p1'' d"
proof -
  obtain s where s: "feed_reach demo_fmt demo_wire demo_feed_env s" "fd_streams s = demo_t3"
    using demo_feed_reach by blast
  have p: "url_param demo_viewer ''projectID'' = ''p1''" by (simp add: url_param_def demo_viewer_def str_at_def)
  have c: "st_conns demo_t3 0 = Some \<lparr>cn_out = serve_events demo_wire [demo_stamped], cn_ended = False\<rparr>"
    "st_read demo_t3 0 = [demo_stamped]" "st_topics demo_t3 0 = fst (ServiceLogs demo_source demo_viewer)"
    by (simp_all add: demo_t3_def demo_t2_def demo_t1_def demo_logs)
  have "ev_type demo_stamped = EventLog"
    by (simp add: demo_stamped_def stamp_event_def demo_line_def log_event_def new_event_def Let_def split: prod.split)
  moreover have "\<forall>so. fe_daemon demo_feed_env so \<longrightarrow> filters_by_label so" by (simp add: demo_feed_env_def demo_daemon_filters)
  moreover have "\<forall>r. fe_viewer demo_feed_env r \<longrightarrow> CHR '':'' \<notin> set (url_param r ''projectID'')"
    by (simp add: demo_feed_env_def p)
  ultimately show ?thesis
    using viewer_sees_project [OF s(1), of 0 _ demo_viewer demo_source "[]"] s c p by (auto simp: demo_feed_env_def)
qed

end
