(* ===== verification/Helpers.thy ===== *)
theory Helpers
  imports Http Config Streamer
begin

text \<open>
  Two functions that nothing in the program calls: \<open>parseIntParam\<close> of
  \<open>internal/api/handlers/audit_handler.go\<close> and \<open>ParseStatsStream\<close> of \<open>internal/docker/streamer.go\<close>, with
  how they compare to those the program uses in their place.
\<close>

text \<open>A parameter of the query as an integer, or the default when it is missing or not one.\<close>

definition parseIntParam :: "request \<Rightarrow> string \<Rightarrow> int \<Rightarrow> int" where
  "parseIntParam r key defaultVal =
     (let v = str_at (rq_query r) key
      in if v = [] then defaultVal else case atoi v of None \<Rightarrow> defaultVal | Some n \<Rightarrow> n)"

lemma read_bound:
  "list_all is_digit s \<Longrightarrow> foldl (\<lambda>n c. n * 10 + digit_val c) m s < (m + 1) * 10 ^ length s"
proof (induction s arbitrary: m)
  case (Cons c s)
  have "digit_val c \<le> 9" using Cons.prems by (auto simp: is_digit_def digit_val_def Let_def)
  then have b: "(m * 10 + digit_val c + 1) * 10 ^ length s \<le> ((m + 1) * 10) * 10 ^ length s"
    by (intro mult_right_mono) simp_all
  have "foldl (\<lambda>n c. n * 10 + digit_val c) m (c # s) < (m * 10 + digit_val c + 1) * 10 ^ length s"
    using Cons.IH [of "m * 10 + digit_val c"] Cons.prems by simp
  also note b
  also have "((m + 1) * 10) * 10 ^ length s = (m + 1) * 10 ^ length (c # s)" by (simp add: algebra_simps)
  finally show ?case .
qed simp

text \<open>
  On the decimal form of a number of at most 18 digits it agrees with the parser the listings use; but
  that parser takes the leading digits of any text, and none for a sign.
\<close>

lemma digits_atoi:
  assumes "length (nat_digits n) \<le> 18" "str_at (rq_query r) key = nat_digits n"
  shows "parseIntParam r key d = parseInt (nat_digits n)"
proof -
  have "parseInt (nat_digits n) = int n" by (rule parseInt_digits [OF assms(1)])
  moreover have "int n < 2 ^ 63"
  proof -
    have "n < 10 ^ length (nat_digits n)" using read_bound [of "nat_digits n" 0] digits_all [of n]
      by (simp add: read_nat_def [symmetric] read_nat_digits)
    also have "(10 :: nat) ^ length (nat_digits n) \<le> 10 ^ 18" using assms(1) by (intro power_increasing) simp_all
    finally show ?thesis by simp
  qed
  ultimately show ?thesis
    using atoi_itoa [of "int n"] assms(2)
    by (simp add: parseIntParam_def itoa_def Let_def)
qed

lemma parseInt_prefix: "parseInt ''12x'' = 12" "atoi ''12x'' = None" "parseInt ''-5'' = 0" "atoi ''-5'' = Some (-5)"
  by code_simp+

text \<open>
  \<open>valid\<close> is the decoding into a \<open>json.RawMessage\<close>, whose error is returned, and \<open>decode\<close> the one of the
  statistics, which fails on a text that is no JSON.
\<close>

definition ParseStatsStream ::
    "(string \<Rightarrow> go_error option) \<Rightarrow> (string \<Rightarrow> go_error + stats_json) \<Rightarrow> string \<Rightarrow> go_error + ContainerStats" where
  "ParseStatsStream valid decode data =
     (case valid data of
        Some err \<Rightarrow> Inl err
      | None \<Rightarrow> (case decode data of Inl err \<Rightarrow> Inl err | Inr raw \<Rightarrow> Inr (ParseStats raw)))"

text \<open>It accepts the texts the decoder of the statistics accepts, with the same result.\<close>

lemma ParseStatsStream_same:
  assumes "\<And>err. valid data = Some err \<Longrightarrow> isl (decode data)"
  shows "ParseStatsStream valid decode data = Inr st \<longleftrightarrow> (\<exists>raw. decode data = Inr raw \<and> st = ParseStats raw)"
  using assms by (auto simp: ParseStatsStream_def split: option.splits sum.splits)

end
