(* ===== verification/Wiring.thy ===== *)
theory Wiring
  imports ProjectApi StoreFacts ExecutorFacts
begin

text \<open>
  The components wired together as \<open>cmd/cockpit/main.go\<close> wires them. An operation changes the daemon
  through its calls and nothing else; the executor adds one audit entry to the database for every
  operation it ran. These facts carry the properties of the whole server.
\<close>

section \<open>What the operations leave alone\<close>

named_theorems daemon_frame

definition others :: "'v world dstate \<Rightarrow> db \<times> projects" where
  "others s = (wd_db (ds_world s), wd_projects (ds_world s))"

lemma on_daemon_frame [simp]:
  "wd_db (snd (on_daemon f w)) = wd_db w" "wd_projects (snd (on_daemon f w)) = wd_projects w"
  by (simp_all add: on_daemon_def case_prod_unfold Let_def)

lemma others_traced:
  "(\<And>w. wd_db (snd (f w)) = wd_db w \<and> wd_projects (snd (f w)) = wd_projects w) \<Longrightarrow>
     others (snd (traced f ev s)) = others s"
  by (simp add: traced_def others_def case_prod_unfold Let_def)

lemma calls_frame [daemon_frame]:
  "others (snd (ContainerCreate (daemon_env e) c cfg s)) = others s"
  "others (snd (ContainerStart (daemon_env e) c i s)) = others s"
  "others (snd (ContainerStop (daemon_env e) c i tmo s)) = others s"
  "others (snd (ContainerRemove (daemon_env e) c i f s)) = others s"
  "others (snd (ContainerList (daemon_env e) c fs s)) = others s"
  "others (snd (NetworkCreate (daemon_env e) c n nopts s)) = others s"
  "others (snd (NetworkRemove (daemon_env e) c i s)) = others s"
  "others (snd (NetworkList (daemon_env e) c s)) = others s"
  "others (snd (VolumeCreate (daemon_env e) c n vopts s)) = others s"
  "others (snd (VolumeRemove (daemon_env e) c n f s)) = others s"
  "others (snd (VolumeList (daemon_env e) c s)) = others s"
  "others (snd (ImagePull (daemon_env e) c ref s)) = others s"
  "others (snd (ImageBuild (daemon_env e) c bopts s)) = others s"
  "others (snd (ImageExists (daemon_env e) c ref s)) = others s"
  "others (snd (Listen (daemon_env e) addr s)) = others s"
  unfolding call_defs by (rule others_traced, simp add: daemon_env_def)+

lemma time_frame [daemon_frame]: "others (snd (time_now (daemon_env e) s)) = others s"
  by (simp add: time_now_def others_def daemon_env_def case_prod_unfold Let_def)

lemma steps_frame [daemon_frame]:
  "others (snd (step_done (daemon_env e) svc act t0 r s)) = others s"
  "others (snd (finish (daemon_env e) st r s)) = others s"
  "others (snd (step_of (daemon_env e) svc act t0 res r s)) = others s"
  "others (snd (start_result (daemon_env e) s)) = others s"
  by (simp_all add: step_done_def finish_def step_of_def start_result_def case_prod_unfold daemon_frame Let_def)

lemma rollback_frame [daemon_frame]:
  "others (rollback_each (daemon_env e) c is s) = others s"
  "others (rollbackNetworks (daemon_env e) c is s) = others s"
  "others (rollbackVolumes (daemon_env e) c is s) = others s"
  by (induction "is" arbitrary: s) (simp_all add: case_prod_unfold daemon_frame Let_def)

lemma abort_frame [daemon_frame]: "others (snd (up_abort (daemon_env e) cr f r s)) = others s"
  by (simp add: up_abort_def rollbackContainers_def case_prod_unfold daemon_frame Let_def)

lemma host_ports_frame [daemon_frame]: "others (snd (host_ports_free (daemon_env e) ps s)) = others s"
  by (induction ps arbitrary: s) (simp_all add: case_prod_unfold daemon_frame Let_def split: option.split)

lemma checks_frame [daemon_frame]:
  "others (snd (checkPortConflicts (daemon_env e) svcs s)) = others s"
  "others (snd (checkNetworkConflict (daemon_env e) n s)) = others s"
  "others (snd (checkVolumeConflict (daemon_env e) n p s)) = others s"
  by (simp_all add: checkPortConflicts_def checkNetworkConflict_def checkVolumeConflict_def
      case_prod_unfold daemon_frame Let_def split: option.split sum.split)

lemma up_network_frame [daemon_frame]: "others (snd (up_network (daemon_env e) p n d cr r s)) = others s"
  by (simp add: up_network_def case_prod_unfold daemon_frame Let_def split: option.split sum.split)

lemma up_networks_frame [daemon_frame]:
  "others (snd (up_networks (daemon_env e) p ns cr r s)) = others s"
proof (induction ns arbitrary: cr r s)
  case (Cons x ns)
  obtain n d where x: "x = (n, d)" by (cases x)
  show ?case
    using Cons up_network_frame [of e p n d cr r s] by (auto simp: x split: prod.split sum.split)
qed simp

lemma up_volume_frame [daemon_frame]: "others (snd (up_volume (daemon_env e) p n d cr r s)) = others s"
  by (simp add: up_volume_def case_prod_unfold daemon_frame Let_def split: option.split)

lemma up_volumes_frame [daemon_frame]:
  "others (snd (up_volumes (daemon_env e) p ns cr r s)) = others s"
proof (induction ns arbitrary: cr r s)
  case (Cons x ns)
  obtain n d where x: "x = (n, d)" by (cases x)
  show ?case
    using Cons up_volume_frame [of e p n d cr r s] by (auto simp: x split: prod.split sum.split)
qed simp

lemma up_image_frame [daemon_frame]: "others (snd (up_image (daemon_env e) p svc r s)) = others s"
  by (simp add: up_image_def case_prod_unfold daemon_frame Let_def split: option.split sum.split)

lemma up_container_frame [daemon_frame]:
  "others (snd (up_container (daemon_env e) p svc cr r s)) = others s"
  by (simp add: up_container_def rollbackContainers_def case_prod_unfold daemon_frame Let_def
      split: option.split sum.split)

lemma up_service_frame [daemon_frame]:
  "others (snd (up_service (daemon_env e) p svc cr r s)) = others s"
  using up_image_frame [of e p svc r s]
  by (auto simp: up_service_def rollbackContainers_def daemon_frame Let_def case_prod_unfold
      split: prod.split sum.split)

lemma up_services_frame [daemon_frame]:
  "others (snd (up_services (daemon_env e) p svcs cr r s)) = others s"
proof (induction svcs arbitrary: cr r s)
  case (Cons svc svcs)
  show ?case
    using Cons up_service_frame [of e p svc cr r s] by (auto split: prod.split sum.split)
qed simp

lemma loops_frame [daemon_frame]:
  "others (snd (stop_ignored (daemon_env e) c r s)) = others s"
  "others (snd (down_containers (daemon_env e) services cs r s)) = others s"
  "others (snd (down_networks (daemon_env e) p ns r s)) = others s"
  "others (snd (stop_containers (daemon_env e) services cs r s)) = others s"
  "others (snd (start_containers (daemon_env e) services cs r s)) = others s"
  "others (snd (restart_containers (daemon_env e) services cs r s)) = others s"
proof -
  show si: "others (snd (stop_ignored (daemon_env e) c r s)) = others s" for c r s
    by (simp add: stop_ignored_def case_prod_unfold daemon_frame Let_def)
  show "others (snd (down_containers (daemon_env e) services cs r s)) = others s"
    by (induction cs arbitrary: r s) (simp_all add: case_prod_unfold daemon_frame Let_def si)
  show "others (snd (down_networks (daemon_env e) p ns r s)) = others s"
    by (induction ns arbitrary: r s) (simp_all add: case_prod_unfold daemon_frame Let_def)
  show "others (snd (stop_containers (daemon_env e) services cs r s)) = others s"
    by (induction cs arbitrary: r s) (simp_all add: case_prod_unfold daemon_frame Let_def)
  show "others (snd (start_containers (daemon_env e) services cs r s)) = others s"
    by (induction cs arbitrary: r s) (simp_all add: case_prod_unfold daemon_frame Let_def)
  show "others (snd (restart_containers (daemon_env e) services cs r s)) = others s"
    by (induction cs arbitrary: r s) (simp_all add: case_prod_unfold daemon_frame Let_def si)
qed

lemma operations_frame [daemon_frame]:
  "others (snd (Up (daemon_env e) p services s)) = others s"
  "others (snd (Down (daemon_env e) p services s)) = others s"
  "others (snd (Stop (daemon_env e) p services s)) = others s"
  "others (snd (Start (daemon_env e) p services s)) = others s"
  "others (snd (Restart (daemon_env e) p services s)) = others s"
proof -
  let ?e = "daemon_env e"
  have nets: "others s' = others s" if "up_networks ?e p ns cr r s = (x, s')" for ns cr r s x s'
    using up_networks_frame [of e p ns cr r s] that by simp
  have vols: "others s' = others s" if "up_volumes ?e p ns cr r s = (x, s')" for ns cr r s x s'
    using up_volumes_frame [of e p ns cr r s] that by simp
  have svcs: "others s' = others s" if "up_services ?e p ss cr r s = (x, s')" for ss cr r s x s'
    using up_services_frame [of e p ss cr r s] that by simp
  have down: "others s' = others s" if "down_containers ?e ss cs r s = (x, s')" for ss cs r s x s'
    using loops_frame(2) [of e ss cs r s] that by simp
  have fin: "others s' = others s" if "finish ?e st r s = (x, s')" for st r s x s'
    using steps_frame(2) [of e st r s] that by simp
  show "others (snd (Up ?e p services s)) = others s"
  proof -
    obtain r1 s1 where 1: "start_result ?e s = (r1, s1)" by fastforce
    obtain cf s2 where 2: "checkPortConflicts ?e (filterServices p services) s1 = (cf, s2)" by fastforce
    have "others s1 = others s" "others s2 = others s1"
      using steps_frame(4) [of e s] checks_frame(1) [of e "filterServices p services" s1]
      by (simp_all add: 1 2)
    then show ?thesis
      by (auto simp: Up_def Let_def 1 2 split: option.split sum.split prod.split dest!: nets vols svcs fin)
  qed
  show "others (snd (Down ?e p services s)) = others s"
  proof -
    obtain r1 s1 where 1: "start_result ?e s = (r1, s1)" by fastforce
    obtain got s2 where 2: "getProjectContainers ?e p s1 = (got, s2)" by fastforce
    have "others s1 = others s" "others s2 = others s1"
      using steps_frame(4) [of e s] calls_frame(5) [of e OpCtx "project_filter p" s1]
      by (simp_all add: 1 2 [unfolded getProjectContainers_def])
    then show ?thesis
      by (auto simp: Down_def Let_def 1 2 case_prod_unfold daemon_frame
          split: sum.split dest!: down fin dest: arg_cong [where f = others])
  qed
  show "others (snd (Stop ?e p services s)) = others s"
    "others (snd (Start ?e p services s)) = others s"
    "others (snd (Restart ?e p services s)) = others s"
    by (simp_all add: Stop_def Start_def Restart_def over_containers_def getProjectContainers_def
        case_prod_unfold daemon_frame Let_def split: sum.split)
qed

lemma executeOp_frame [daemon_frame]:
  "others (snd (executeOp (daemon_env e) req p s)) = others s"
  by (simp add: executeOp_def operations_frame Let_def)

section \<open>What one operation does to the rest\<close>

lemma wired_simps [simp]:
  "xe_docker (wired sv) = daemon_env (sv_docker sv)"
  "xe_resolve (wired sv) i w = (GetProject (wd_projects w) i, w)"
  "xe_audit (wired sv) = Some (\<lambda>a w. w\<lparr>wd_db := snd (LogOperation (sv_dv sv) a (wd_db w))\<rparr>)"
  by (simp_all add: wired_def)

text \<open>The entry does not read the identifier that \<open>run\<close> writes into the result afterwards.\<close>

lemma audit_entry_request: "audit_entry req d t (Inr (r\<lparr>res_request := i\<rparr>)) = audit_entry req d t (Inr r)"
  by (simp add: audit_entry_def Let_def)

lemma run_body_unknown:
  assumes "map_of (wd_projects (ds_world s)) (sc_project (req_scope req)) = None"
  shows "run_body (wired sv) req s = (Inl project_not_found, s)"
  using assms by (simp add: run_body_def GetProject_def)

lemma run_body_audits:
  assumes "map_of (wd_projects (ds_world s)) (sc_project (req_scope req)) = Some p"
    and "run_body (wired sv) req s = (out, s')"
  shows "\<exists>d t. others s' = (snd (LogOperation (sv_dv sv) (audit_entry req d t out) (wd_db (ds_world s))),
    wd_projects (ds_world s))"
proof -
  let ?e = "daemon_env (sv_docker sv)"
  obtain t0 s1 where 1: "time_now ?e s = (t0, s1)" by fastforce
  obtain o1 s2 where 2: "executeOp ?e req p s1 = (o1, s2)" by fastforce
  obtain t1 s3 where 3: "time_now ?e s2 = (t1, s3)" by fastforce
  obtain t2 s4 where 4: "time_now ?e s3 = (t2, s4)" by fastforce
  have w: "others s4 = others s"
    using time_frame [of "sv_docker sv"] executeOp_frame [of "sv_docker sv" req p s1]
    by (metis 1 2 3 4 snd_conv)
  have "others s' = (snd (LogOperation (sv_dv sv) (audit_entry req (t1 - t0) t2 out) (wd_db (ds_world s4))),
      wd_projects (ds_world s4))"
    using assms 1 2 3 4
    by (cases o1) (auto simp: run_body_def GetProject_def others_def Let_def audit_entry_request)
  then show ?thesis using w unfolding others_def by auto
qed

lemma run_world:
  assumes "run xe ctx req ex s = Some (out, ex', s')"
  shows "\<exists>s1. run_body xe req s = (out, s1) \<and> (s' = s1 \<or> s' = snd (time_now (xe_docker xe) s1))"
  using assms
  by (auto simp: run_def Let_def split: acquire_outcome.splits prod.splits sum.splits)

text \<open>The log takes an entry, if the statement does not fail and the user is known or none, or is as before.\<close>

definition log_takes :: "db_env \<Rightarrow> string \<Rightarrow> db \<Rightarrow> bool" where
  "log_takes dv user d \<longleftrightarrow> dv_fault dv (db_calls d) = None \<and> (user = [] \<or> user \<in> user_ids d)"

lemma LogOperation_adds:
  "db_audit (snd (LogOperation dv a s)) =
     (if log_takes dv (au_user a) s then db_audit s @ [audit_row_of (db_nextid s) a] else db_audit s) \<and>
   db_users (snd (LogOperation dv a s)) = db_users s \<and> db_acls (snd (LogOperation dv a s)) = db_acls s \<and>
   db_versions (snd (LogOperation dv a s)) = db_versions s \<and> db_scripts (snd (LogOperation dv a s)) = db_scripts s"
  by (auto simp: LogOperation_def sql_def insert_audit_def ok_unit_def list_ex_iff log_takes_def
      user_ids_def Let_def split: option.split intro: rev_image_eqI)

section \<open>The executor between operations\<close>

text \<open>
  One round of a worker that is alone: take a request from the queue and, unless the workers' context
  has ended (\<open>stopped\<close>), run it. \<open>None\<close> is a worker that blocks or returns.
\<close>

definition work_one :: "'v server \<Rightarrow> bool \<Rightarrow> nat \<Rightarrow> 'v api \<Rightarrow> 'v api option" where
  "work_one sv stopped ctx s =
     (case Dequeue (ex_queue (ap_ex s)) of
        (DeqItem req, q) \<Rightarrow>
          if stopped then None
          else
            (case executeQueued (wired sv) ctx req ((ap_ex s)\<lparr>ex_queue := q\<rparr>) (to_world s) of
               None \<Rightarrow> None
             | Some (ex, d) \<Rightarrow> Some ((of_world d s)\<lparr>ap_ex := ex\<rparr>))
      | _ \<Rightarrow> None)"

definition idle :: "Executor \<Rightarrow> bool" where
  "idle ex \<longleftrightarrow>
     locker_wf (ex_locker ex) \<and> (\<forall>p. lock_holder (ex_locker ex) p = None) \<and>
     ex_running ex = [] \<and> ex_cancels ex = [] \<and> queue_inv (ex_queue ex) \<and>
     ex_max ex = 256 \<and> length (ex_history ex) \<le> 256"

lemma idle_free: "idle ex \<Longrightarrow> lk_locks (ex_locker ex) p = None"
  by (simp add: idle_def lock_holder_def)

lemma idle_new: "idle NewExecutor"
  by (simp add: idle_def NewExecutor_def locker_wf_new queue_inv_new lock_holder_def)
     (simp add: NewInMemoryLocker_def)

lemma addHistory_bound:
  "ex_max ex = 256 \<Longrightarrow> length (ex_history ex) \<le> 256 \<Longrightarrow> length (ex_history (addHistory rec ex)) \<le> 256"
  by (simp add: addHistory_def Let_def)

lemma idle_addHistory: "idle ex \<Longrightarrow> idle (addHistory rec ex)"
  using addHistory_bound [of ex rec] by (simp add: idle_def)

lemma idle_queue: "idle ex \<Longrightarrow> queue_inv q \<Longrightarrow> idle (ex\<lparr>ex_queue := q\<rparr>)"
  by (simp add: idle_def)

lemma run_max: "run xe ctx req ex s = Some (out, ex', s') \<Longrightarrow> ex_max ex' = ex_max ex"
  by (auto simp: run_def Let_def run_history_def register_def unregister_def
      split: acquire_outcome.splits prod.splits sum.splits)

lemma run_idle:
  assumes "idle ex"
  shows "\<exists>out ex' s'. run xe ctx req ex s = Some (out, ex', s') \<and> idle ex'"
proof -
  have wf: "locker_wf (ex_locker ex)" using assms by (simp add: idle_def)
  obtain out ex' s' where run: "run xe ctx req ex s = Some (out, ex', s')"
    and lk: "locker_wf (ex_locker ex')" "lock_holder (ex_locker ex') = lock_holder (ex_locker ex)"
      "ex_queue ex' = ex_queue ex"
    and tabs: "map_of (ex_running ex') = (map_of (ex_running ex))(req_id req := None)"
      "map_of (ex_cancels ex') = (map_of (ex_cancels ex))(req_id req := None)"
    and h: "\<exists>now s''. out = fst (run_body xe req s'') \<and> ex_history ex' = ex_history (run_history req now out ex)"
    using run_free [OF wf idle_free [OF assms] refl, of xe ctx req s] by blast
  have "map_of (ex_running ex') = Map.empty" "map_of (ex_cancels ex') = Map.empty"
    using tabs assms by (simp_all add: idle_def)
  then have "ex_running ex' = []" "ex_cancels ex' = []" by simp_all
  moreover have "length (ex_history ex') \<le> 256"
  proof -
    obtain now where "ex_history ex' = ex_history (run_history req now out ex)" using h by blast
    then show ?thesis
      using assms addHistory_bound [of ex] by (cases out) (simp_all add: run_history_def idle_def)
  qed
  ultimately have "idle ex'" using assms lk run_max [OF run] by (simp add: idle_def)
  then show ?thesis using run by blast
qed

end
