(* ===== verification/Startup.thy ===== *)
theory Startup
  imports ProjectApi Config SdkClient "HOL-Library.Word"
begin

text \<open>
  \<open>cmd/cockpit/main.go\<close>: the start of the process, from the configuration to the server's first state,
  and the log levels. The pool library, the constructor of the SDK's client and pinging the daemon are
  parameters that answer with an error or none; the embedded migrations, the file system and the
  parser's surroundings are parameters too. A failing step logs its message and exits with status 1,
  leaving the database as it is by then. The goroutines that stream events and the serving of
  connections are not modelled here.
\<close>

section \<open>The connection pool\<close>

text \<open>
  \<open>NewDB\<close> of \<open>internal/store/postgres.go\<close>. \<open>parse\<close>, \<open>new\<close> and \<open>ping\<close> are the pool library's functions, which
  answer with an error or none. The numbers of connections are converted to 32-bit integers.
\<close>

record pool_config =
  pc_maxconns :: "32 word"
  pc_minconns :: "32 word"
  pc_maxlifetime :: duration

definition pool_config_of :: "DatabaseConfig \<Rightarrow> pool_config" where
  "pool_config_of c =
     \<lparr>pc_maxconns = word_of_int (dbc_maxconns c), pc_minconns = word_of_int (dbc_minconns c),
      pc_maxlifetime = dbc_maxlifetime c\<rparr>"

definition wrap_db_error :: "string \<Rightarrow> go_error \<Rightarrow> go_error" where
  "wrap_db_error msg err = PlainError (msg @ '': '' @ error_string err)"

definition NewDB ::
    "(string \<Rightarrow> go_error option) \<Rightarrow> (string \<Rightarrow> pool_config \<Rightarrow> go_error option) \<Rightarrow> go_error option \<Rightarrow>
     DatabaseConfig \<Rightarrow> go_error option" where
  "NewDB parse new ping c =
     (case parse (dbc_url c) of
        Some err \<Rightarrow> Some (wrap_db_error ''parse database URL'' err)
      | None \<Rightarrow>
          (case new (dbc_url c) (pool_config_of c) of
             Some err \<Rightarrow> Some (wrap_db_error ''create connection pool'' err)
           | None \<Rightarrow> map_option (wrap_db_error ''ping database'') ping))"

text \<open>The pool gets the configured number exactly if it fits; a larger one wraps around.\<close>

lemma pool_size_exact:
  "sint (pc_maxconns (pool_config_of c)) = dbc_maxconns c \<longleftrightarrow> - (2 ^ 31) \<le> dbc_maxconns c \<and> dbc_maxconns c < 2 ^ 31"
proof -
  have "sint (word_of_int n :: 32 word) = signed_take_bit 31 n" for n :: int
    by (simp add: signed_of_int)
  then show ?thesis
    by (simp add: pool_config_of_def signed_take_bit_int_eq_self_iff)
qed

lemma pool_size_wraps:
  "dbc_maxconns c = 2 ^ 31 \<Longrightarrow> sint (pc_maxconns (pool_config_of c)) = - (2 ^ 31)"
  by (simp add: pool_config_of_def)

section \<open>The start\<close>

record 'v boot =
  bt_cfg :: cfg_env
  bt_parseurl :: "string \<Rightarrow> go_error option"
  bt_newpool :: "string \<Rightarrow> pool_config \<Rightarrow> go_error option"
  bt_pingdb :: "go_error option"
  bt_migrations :: migrations_fs
  bt_client :: "client_opt list \<Rightarrow> go_error option"
  bt_ping :: "go_error option"
  bt_dv :: db_env
  bt_fs :: scan_fs
  bt_pe :: parse_env
  bt_docker :: "'v env"
  bt_lib :: jwt_lib

text \<open>The scanner and the handlers are made from the configuration, the token manager likewise.\<close>

definition server_of :: "'v boot \<Rightarrow> Config \<Rightarrow> 'v server" where
  "server_of b cfg =
     \<lparr>sv_dv = bt_dv b, sv_fs = bt_fs b, sv_depth = dsc_maxdepth (cfg_discovery cfg),
      sv_root = dsc_root (cfg_discovery cfg), sv_pe = bt_pe b, sv_docker = bt_docker b,
      sv_parseduration = ce_parseduration (bt_cfg b)\<rparr>"

definition accounts_of :: "'v boot \<Rightarrow> Config \<Rightarrow> api_env" where
  "accounts_of b cfg =
     \<lparr>ae_dv = bt_dv b, ae_lib = bt_lib b,
      ae_mgr = NewJWTManager (auc_secret (cfg_auth cfg)) (auc_accessttl (cfg_auth cfg))
        (auc_refreshttl (cfg_auth cfg))\<rparr>"

definition first_state :: "db \<Rightarrow> 'v dstate \<Rightarrow> 'v api" where
  "first_state d k = \<lparr>ap_db = d, ap_projects = [], ap_ex = NewExecutor, ap_docker = k\<rparr>"

text \<open>A failing scan is only logged.\<close>

definition boot :: "'v boot \<Rightarrow> db \<Rightarrow> 'v dstate \<Rightarrow> (string \<times> db) + (Config \<times> 'v api)" where
  "boot b d k =
     (case Load (bt_cfg b) of
        Inl err \<Rightarrow> Inl (''load config'', d)
      | Inr cfg \<Rightarrow>
          (case NewDB (bt_parseurl b) (bt_newpool b) (bt_pingdb b) (cfg_database cfg) of
             Some err \<Rightarrow> Inl (''connect database'', d)
           | None \<Rightarrow>
               (case AutoMigrate (bt_dv b) (bt_migrations b) d of
                  (Some err, d1) \<Rightarrow> Inl (''auto migrate'', d1)
                | (None, d1) \<Rightarrow>
                    (case NewClient (bt_client b) (dkc_host (cfg_docker cfg)) (dkc_apiversion (cfg_docker cfg)) of
                       Some err \<Rightarrow> Inl (''create docker client'', d1)
                     | None \<Rightarrow>
                         (case bt_ping b of
                            Some err \<Rightarrow> Inl (''docker ping failed'', d1)
                          | None \<Rightarrow>
                              Inr (cfg, snd (InitialScan (server_of b cfg) (first_state d1 k))))))))"

section \<open>Log levels\<close>

datatype slog_level = LevelDebug | LevelInfo | LevelWarn | LevelError

text \<open>\<open>telemetry.NewLogger\<close>.\<close>

definition NewLogger :: "string \<Rightarrow> slog_level" where
  "NewLogger level =
     (if level = ''debug'' then LevelDebug else if level = ''warn'' then LevelWarn
      else if level = ''error'' then LevelError else LevelInfo)"

text \<open>
  \<open>setLogLevel\<close> replaces the default logger, if the level is one of three; the logger it is given, which
  \<open>main\<close> hands to every component, keeps its level.
\<close>

record loggers =
  lg_main :: slog_level
  lg_default :: slog_level

definition setLogLevel :: "string \<Rightarrow> loggers \<Rightarrow> loggers" where
  "setLogLevel level l =
     (if level = ''debug'' then l\<lparr>lg_default := LevelDebug\<rparr>
      else if level = ''warn'' then l\<lparr>lg_default := LevelWarn\<rparr>
      else if level = ''error'' then l\<lparr>lg_default := LevelError\<rparr> else l)"

lemma setLogLevel_default: "lg_default l = LevelInfo \<Longrightarrow> lg_default (setLogLevel level l) = NewLogger level"
  by (simp add: setLogLevel_def NewLogger_def)

text \<open>The configured level does not reach the components.\<close>

lemma log_level_ignored: "lg_main (setLogLevel level l) = lg_main l"
  by (simp add: setLogLevel_def)

section \<open>What a start guarantees\<close>

text \<open>A process that runs has a valid configuration and a database with all its migrations.\<close>

lemma boot_stages:
  assumes "boot b d k = Inr (cfg, s)"
  obtains d1 where "Load (bt_cfg b) = Inr cfg" "AutoMigrate (bt_dv b) (bt_migrations b) d = (None, d1)"
    "s = snd (InitialScan (server_of b cfg) (first_state d1 k))"
  using assms by (auto simp: boot_def split: sum.splits option.splits prod.splits)

lemma InitialScan_frame:
  "ap_db (snd (InitialScan sv s)) = ap_db s" "ap_ex (snd (InitialScan sv s)) = ap_ex s"
  "ap_docker (snd (InitialScan sv s)) = ap_docker s"
  by (simp_all add: InitialScan_def split: sum.split)

end
