(* ===== verification/Shutdown.thy ===== *)
theory Shutdown
  imports Streaming
begin

text \<open>
  The end of \<open>main\<close> in \<open>cmd/cockpit/main.go\<close>: a signal closes the broker, \<open>srv.Shutdown\<close> closes the listener
  and waits for the requests in flight until its timeout, and \<open>main\<close> returns. It runs beside the
  connections of \<open>Streaming\<close> and the other requests, of which only their number matters here.
\<close>

section \<open>The sequence\<close>

text \<open>
  \<open>Notified\<close> is between \<open>broker.Close\<close> and \<open>srv.Shutdown\<close>, \<open>Draining\<close> is inside \<open>srv.Shutdown\<close>, and
  \<open>Stopped ok\<close> is after it, where \<open>ok\<close> says whether it returned without an error. \<open>Exited\<close> is the
  \<open>os.Exit\<close> of a listener that failed.
\<close>

datatype phase = Serving | Notified | Draining | Stopped bool | Exited

text \<open>
  \<open>sh_pending\<close> is the number of requests that were accepted and have neither been answered nor become a
  stream. \<open>sh_told\<close> remembers the channels that \<open>broker.Close\<close> found in its table.
\<close>

record 'd shutdown =
  sh_streams :: "'d streams"
  sh_phase :: phase
  sh_pending :: nat
  sh_told :: "nat set"

definition shutdown_init :: "'d shutdown" where
  "shutdown_init = \<lparr>sh_streams = streams_init, sh_phase = Serving, sh_pending = 0, sh_told = {}\<rparr>"

definition listening :: "phase \<Rightarrow> bool" where
  "listening p \<longleftrightarrow> p = Serving \<or> p = Notified"

definition alive :: "phase \<Rightarrow> bool" where
  "alive p \<longleftrightarrow> p = Serving \<or> p = Notified \<or> p = Draining"

definition all_ended :: "'d streams \<Rightarrow> bool" where
  "all_ended st \<longleftrightarrow> (\<forall>c cn. st_conns st c = Some cn \<longrightarrow> cn_ended cn)"

inductive main_step ::
    "(time \<Rightarrow> string) \<Rightarrow> ('d Event \<Rightarrow> string option) \<Rightarrow> 'd shutdown \<Rightarrow> 'd shutdown \<Rightarrow> bool"
  for fmt marshal where
  accepted: "listening (sh_phase s) \<Longrightarrow> main_step fmt marshal s (s\<lparr>sh_pending := Suc (sh_pending s)\<rparr>)"
| answered: "alive (sh_phase s) \<Longrightarrow> sh_pending s = Suc n \<Longrightarrow> main_step fmt marshal s (s\<lparr>sh_pending := n\<rparr>)"
| streamed: "alive (sh_phase s) \<Longrightarrow> sh_pending s = Suc n \<Longrightarrow> stream_step fmt marshal (Opens topics) (sh_streams s) st \<Longrightarrow>
    main_step fmt marshal s (s\<lparr>sh_pending := n, sh_streams := st\<rparr>)"
| goes_on: "alive (sh_phase s) \<Longrightarrow> a = Serves \<or> a = Publishes topic e \<Longrightarrow>
    stream_step fmt marshal a (sh_streams s) st \<Longrightarrow>
    main_step fmt marshal s (s\<lparr>sh_streams := st\<rparr>)"
| signalled: "sh_phase s = Serving \<Longrightarrow> stream_step fmt marshal Shuts (sh_streams s) st \<Longrightarrow>
    main_step fmt marshal s
      (s\<lparr>sh_phase := Notified, sh_streams := st,
         sh_told := {c. is_target (\<lambda>_. True) (st_broker (sh_streams s)) c}\<rparr>)"
| shutting: "sh_phase s = Notified \<Longrightarrow> main_step fmt marshal s (s\<lparr>sh_phase := Draining\<rparr>)"
| drained: "sh_phase s = Draining \<Longrightarrow> sh_pending s = 0 \<Longrightarrow> all_ended (sh_streams s) \<Longrightarrow>
    main_step fmt marshal s (s\<lparr>sh_phase := Stopped True\<rparr>)"
| deadline: "sh_phase s = Draining \<Longrightarrow> main_step fmt marshal s (s\<lparr>sh_phase := Stopped False\<rparr>)"
| failed: "listening (sh_phase s) \<Longrightarrow> main_step fmt marshal s (s\<lparr>sh_phase := Exited\<rparr>)"

inductive main_steps ::
    "(time \<Rightarrow> string) \<Rightarrow> ('d Event \<Rightarrow> string option) \<Rightarrow> 'd shutdown \<Rightarrow> 'd shutdown \<Rightarrow> bool" for fmt marshal where
  main_refl: "main_steps fmt marshal s s"
| main_more: "main_step fmt marshal s s' \<Longrightarrow> main_steps fmt marshal s' s'' \<Longrightarrow> main_steps fmt marshal s s''"

definition main_reach :: "(time \<Rightarrow> string) \<Rightarrow> ('d Event \<Rightarrow> string option) \<Rightarrow> 'd shutdown \<Rightarrow> bool" where
  "main_reach fmt marshal s \<longleftrightarrow> main_steps fmt marshal shutdown_init s"

lemma main_trans: "main_steps fmt m s s' \<Longrightarrow> main_steps fmt m s' s'' \<Longrightarrow> main_steps fmt m s s''"
  by (induction rule: main_steps.induct) (auto intro: main_more)

section \<open>Which subscriptions end\<close>

text \<open>
  The subscriptions whose context has ended are those the closing told and those whose client left, and
  only they can end.
\<close>

definition stops_ok :: "nat set \<Rightarrow> 'd streams \<Rightarrow> bool" where
  "stops_ok told st \<longleftrightarrow>
     set (br_cancelled (st_broker st)) = told \<union> st_gone st \<and>
     (\<forall>c. snd (br_cleanup (st_broker st) c) \<noteq> Waiting \<longrightarrow> c \<in> told \<union> st_gone st) \<and>
     (\<forall>c cn. st_conns st c = Some cn \<longrightarrow> cn_ended cn \<longrightarrow> c \<in> told \<union> st_gone st)"

lemma Subscribe_cleanup:
  "Subscribe fmt now topics b = (c, b') \<Longrightarrow>
     br_cancelled b' = br_cancelled b \<and> (\<exists>i. br_cleanup b' = (br_cleanup b)(c := (i, Waiting)))"
  by (cases "generateID fmt now b") (auto simp: Subscribe_def Let_def dest!: generateID_frame)

lemma receive_cancelled: "receive c b = Some (x, b') \<Longrightarrow> br_cancelled b' = br_cancelled b"
  by (auto simp: receive_def split: list.splits if_splits)

lemma stops_step:
  "stream_step fmt m a s s' \<Longrightarrow> stops_ok T s \<Longrightarrow>
     stops_ok (if a = Shuts then T \<union> {c. is_target (\<lambda>_. True) (st_broker s) c} else T) s'"
proof (induction rule: stream_step.induct)
  case (opened now topics s c b)
  then show ?case using Subscribe_cleanup [OF opened(1)] by (auto simp: stops_ok_def split: if_splits)
next
  case (published s now topic e e' b)
  then show ?case using Publish_frame [of fmt now topic e "st_broker s"]
    by (simp add: stops_ok_def Publish_cancelled)
next
  case (refused s topic e now)
  then show ?case by (simp add: stops_ok_def Publish_def)
next
  case (shut s now)
  then show ?case using CloseBroker_frame [of fmt now "st_broker s"] CloseBroker_cancelled [of fmt now "st_broker s"]
    by (simp add: stops_ok_def) blast
next
  case (read s c cn e b)
  then show ?case using receive_frame [OF read(3)] receive_cancelled [OF read(3)]
    by (auto simp: stops_ok_def)
next
  case (finished s c cn b)
  then have "snd (br_cleanup (st_broker s) c) = Closed" by (auto simp: receive_def split: list.splits if_splits)
  then have "c \<in> T \<union> st_gone s" using finished(4) by (simp add: stops_ok_def)
  then show ?case using finished(4) by (auto simp: stops_ok_def end_conn_def cancel_sub_def)
next
  case (gone s c cn)
  then show ?case by (auto simp: stops_ok_def cancel_sub_def)
next
  case (left s c cn)
  then show ?case by (auto simp: stops_ok_def end_conn_def cancel_sub_def)
next
  case (deleted c s)
  then show ?case by (auto simp: stops_ok_def cleanup_delete_def Let_def)
next
  case (closed c s)
  then have "c \<in> T \<union> st_gone s" by (simp add: stops_ok_def)
  then show ?case using closed(3) by (auto simp: stops_ok_def cleanup_close_def)
qed

definition main_inv :: "(time \<Rightarrow> string) \<Rightarrow> ('d Event \<Rightarrow> string option) \<Rightarrow> 'd shutdown \<Rightarrow> bool" where
  "main_inv fmt m s \<longleftrightarrow> stream_reach fmt m (sh_streams s) \<and> stops_ok (sh_told s) (sh_streams s) \<and>
     (sh_phase s = Serving \<longrightarrow> sh_told s = {}) \<and> (sh_phase s = Stopped True \<longrightarrow> all_ended (sh_streams s))"

lemma main_step_inv: "main_step fmt m s s' \<Longrightarrow> main_inv fmt m s \<Longrightarrow> main_inv fmt m s'"
  by (induction rule: main_step.induct)
     (auto simp: main_inv_def alive_def listening_def intro: stream_more dest: stops_step)

lemma main_steps_inv: "main_steps fmt m s s' \<Longrightarrow> main_inv fmt m s \<Longrightarrow> main_inv fmt m s'"
  by (induction rule: main_steps.induct) (auto dest: main_step_inv)

lemma main_reach_inv: "main_reach fmt m s \<Longrightarrow> main_inv fmt m s"
  unfolding main_reach_def
  by (erule main_steps_inv)
     (auto simp: main_inv_def shutdown_init_def stops_ok_def streams_init_def NewBroker_def
       intro: stream_init [unfolded streams_init_def NewBroker_def])


text \<open>While no client leaves, the clients that left are the same, and no connection is forgotten.\<close>

lemma conns_stay:
  "main_step fmt m s s' \<Longrightarrow> st_conns (sh_streams s) c \<noteq> None \<Longrightarrow> st_conns (sh_streams s') c \<noteq> None"
  by (induction rule: main_step.induct) (auto simp: end_conn_def elim!: stream_step.cases)

lemma told_stays: "main_step fmt m s s' \<Longrightarrow> sh_phase s \<noteq> Serving \<Longrightarrow> sh_told s' = sh_told s \<and> sh_phase s' \<noteq> Serving"
  by (induction rule: main_step.induct) auto

lemma main_steps_stay:
  "main_steps fmt m s s' \<Longrightarrow> sh_phase s \<noteq> Serving \<Longrightarrow>
     sh_told s' = sh_told s \<and> (st_conns (sh_streams s) c \<noteq> None \<longrightarrow> st_conns (sh_streams s') c \<noteq> None)"
  by (induction rule: main_steps.induct) (metis conns_stay told_stays)+

section \<open>Ending every stream\<close>

lemma serves_inv:
  "stream_step fmt m Serves s s' \<Longrightarrow> stream_reach fmt m s \<and> stops_ok T s \<Longrightarrow> stream_reach fmt m s' \<and> stops_ok T s'"
  using stops_step [of fmt m Serves s s' T] by (auto intro: stream_more)

lemma steps_inv:
  "stream_steps fmt m s s' \<Longrightarrow> stream_reach fmt m s \<and> stops_ok T s \<Longrightarrow> stream_reach fmt m s' \<and> stops_ok T s'"
  by (induction rule: stream_steps.induct) (simp, metis serves_inv)

text \<open>What the connections that are served to their end have written.\<close>

definition served_out :: "('d Event \<Rightarrow> string option) \<Rightarrow> 'd streams \<Rightarrow> 'd streams \<Rightarrow> bool" where
  "served_out m s s' \<longleftrightarrow>
     (\<forall>c cn. st_conns s c = Some cn \<longrightarrow>
        (\<exists>cn'. st_conns s' c = Some cn' \<and>
           cn_out cn' = cn_out cn @ (if cn_ended cn then [] else serve_events m (br_chans (st_broker s) c))))"

lemma served_first:
  assumes "apart c s s1" "served_out m s1 s2" "st_conns s c = Some cn" "\<not> cn_ended cn"
    "st_conns s1 c = Some cn1" "cn_ended cn1" "cn_out cn1 = cn_out cn @ serve_events m (br_chans (st_broker s) c)"
  shows "served_out m s s2"
proof -
  have "\<exists>cn'. st_conns s2 d = Some cn' \<and>
      cn_out cn' = cn_out dn @ (if cn_ended dn then [] else serve_events m (br_chans (st_broker s) d))"
    if d: "st_conns s d = Some dn" for d dn
  proof (cases "d = c")
    case True
    then show ?thesis using assms(2-) d unfolding served_out_def by fastforce
  next
    case False
    then have "st_conns s1 d = Some dn" "br_chans (st_broker s1) d = br_chans (st_broker s) d"
      using assms(1) d by (simp_all add: apart_def)
    then show ?thesis using assms(2) unfolding served_out_def by metis
  qed
  then show ?thesis by (simp add: served_out_def)
qed

definition open_conns :: "'d streams \<Rightarrow> nat set" where
  "open_conns s = {c. \<exists>cn. st_conns s c = Some cn \<and> \<not> cn_ended cn}"

lemma finite_open: "stream_reach fmt m s \<Longrightarrow> finite (open_conns s)"
  using stream_reach_inv [of fmt m s]
  by (auto simp: stream_inv_def conns_known_def open_conns_def intro!: finite_subset [of _ "{..< br_next (st_broker s)}"])

lemma every_stream_ends:
  assumes "stream_reach fmt m s" "stops_ok T s" "\<forall>c. st_conns s c \<noteq> None \<longrightarrow> c \<in> T \<union> st_gone s"
  shows "\<exists>s'. stream_steps fmt m s s' \<and> st_gone s' = st_gone s \<and> all_ended s' \<and> served_out m s s'"
  using assms
proof (induction "card (open_conns s)" arbitrary: s)
  case 0
  then have "open_conns s = {}" using finite_open [OF 0(2)] by simp
  then have "all_ended s" "served_out m s s" by (auto simp: all_ended_def served_out_def open_conns_def)
  then show ?case using steps_refl by blast
next
  case (Suc n)
  have "open_conns s \<noteq> {}" using Suc(2) by force
  then obtain c cn where c: "st_conns s c = Some cn" "\<not> cn_ended cn" by (auto simp: open_conns_def)
  have "c \<in> set (br_cancelled (st_broker s))" "c < br_next (st_broker s)"
    using Suc(4,5) c stream_reach_inv [OF Suc(3)] by (auto simp: stops_ok_def stream_inv_def conns_known_def)
  then obtain s1 cn1 where s1: "stream_steps fmt m s s1" "st_conns s1 c = Some cn1" "cn_ended cn1"
    "cn_out cn1 = cn_out cn @ serve_events m (br_chans (st_broker s) c)" "apart c s s1"
    using cancelled_ends [OF c] by blast
  have inv1: "stream_reach fmt m s1" "stops_ok T s1" using steps_inv [OF s1(1)] Suc(3,4) by blast+
  have others: "st_conns s1 d = st_conns s d" if "d \<noteq> c" for d using s1(5) that by (simp add: apart_def)
  have "open_conns s1 = open_conns s - {c}"
    using s1(2,3) others unfolding open_conns_def by (auto, metis option.inject)+
  moreover have "c \<in> open_conns s" using c by (simp add: open_conns_def)
  ultimately have n: "n = card (open_conns s1)" using Suc(2) by (simp add: card_Diff_singleton)
  have all1: "\<forall>d. st_conns s1 d \<noteq> None \<longrightarrow> d \<in> T \<union> st_gone s1"
    using Suc(5) s1(5) c by (metis apart_def option.distinct(1))
  obtain s2 where s2: "stream_steps fmt m s1 s2" "st_gone s2 = st_gone s1" "all_ended s2" "served_out m s1 s2"
    using Suc(1) [OF n inv1 all1] by blast
  have "served_out m s s2" by (rule served_first [OF s1(5) s2(4) c s1(2-4)])
  moreover have "st_gone s2 = st_gone s" using s1(5) s2(2) by (simp add: apart_def)
  ultimately show ?case using steps_trans [OF s1(1) s2(1)] s2(3) by blast
qed

section \<open>The shutdown\<close>

lemma main_goes_on:
  "stream_steps fmt m st st' \<Longrightarrow> alive (sh_phase s) \<Longrightarrow> sh_streams s = st \<Longrightarrow>
     main_steps fmt m s (s\<lparr>sh_streams := st'\<rparr>)"
proof (induction arbitrary: s rule: stream_steps.induct)
  case (steps_refl st)
  then show ?case using main_refl by force
next
  case (steps_step st st' st'')
  have "main_step fmt m s (s\<lparr>sh_streams := st'\<rparr>)" using goes_on [OF steps_step(4), of Serves] steps_step(1,5) by simp
  then show ?case using steps_step(3) [of "s\<lparr>sh_streams := st'\<rparr>"] steps_step(4) by (simp add: main_more)
qed

lemma main_answers: "alive (sh_phase s) \<Longrightarrow> main_steps fmt m s (s\<lparr>sh_pending := 0\<rparr>)"
proof (induction "sh_pending s" arbitrary: s)
  case 0
  then show ?case using main_refl by (metis shutdown.surjective shutdown.update_convs(3))
next
  case (Suc n)
  have "main_step fmt m s (s\<lparr>sh_pending := n\<rparr>)" using answered [OF Suc(3) Suc(2) [symmetric]] .
  then show ?case using Suc(1) [of "s\<lparr>sh_pending := n\<rparr>"] Suc(3) by (simp add: main_more)
qed

lemma main_drains: "sh_phase s = Notified \<or> sh_phase s = Draining \<Longrightarrow> main_steps fmt m s (s\<lparr>sh_phase := Draining\<rparr>)"
proof -
  assume "sh_phase s = Notified \<or> sh_phase s = Draining"
  moreover have "s\<lparr>sh_phase := Draining\<rparr> = s" if "sh_phase s = Draining" using that by (cases s) simp
  ultimately show ?thesis using shutting main_refl main_more by metis
qed

text \<open>A connection that the closing did not tell, and whose client stays, keeps the shutdown from ending well.\<close>

lemma untold_waits:
  assumes "main_inv fmt m s" "sh_phase s \<noteq> Serving" "st_conns (sh_streams s) c \<noteq> None"
    "c \<notin> sh_told s \<union> st_gone (sh_streams s)" "main_steps fmt m s s'" "st_gone (sh_streams s') = st_gone (sh_streams s)"
  shows "sh_phase s' \<noteq> Stopped True"
proof
  assume "sh_phase s' = Stopped True"
  moreover have "main_inv fmt m s'" using main_steps_inv [OF assms(5,1)] .
  moreover have "sh_told s' = sh_told s" "st_conns (sh_streams s') c \<noteq> None"
    using main_steps_stay [OF assms(5,2), of c] assms(3) by auto
  ultimately show False
    using assms(4,6) unfolding main_inv_def all_ended_def stops_ok_def by (metis not_None_eq)
qed

text \<open>A stream that is opened after the broker was closed is such a connection.\<close>

lemma late_stream_holds:
  assumes "main_reach fmt m s" "sh_phase s = Notified \<or> sh_phase s = Draining" "sh_pending s = Suc n"
    "Subscribe fmt now topics (st_broker (sh_streams s)) = (c, b)"
  shows "\<exists>s1. main_step fmt m s s1 \<and> st_gone (sh_streams s1) = st_gone (sh_streams s) \<and>
    (\<forall>s'. main_steps fmt m s1 s' \<longrightarrow> st_gone (sh_streams s') = st_gone (sh_streams s) \<longrightarrow> sh_phase s' \<noteq> Stopped True)"
proof -
  have inv: "main_inv fmt m s" using assms(1) by (rule main_reach_inv)
  let ?s1 = "s\<lparr>sh_pending := n, sh_streams := (sh_streams s)\<lparr>st_broker := b,
      st_conns := (st_conns (sh_streams s))(c \<mapsto> \<lparr>cn_out = [], cn_ended = False\<rparr>),
      st_topics := (st_topics (sh_streams s))(c := topics)\<rparr>\<rparr>"
  have step: "main_step fmt m s ?s1"
    using streamed [OF _ assms(3) opened [OF assms(4)]] assms(2) by (auto simp: alive_def)
  have "\<forall>c \<in> sh_told s \<union> st_gone (sh_streams s). c < br_next (st_broker (sh_streams s))"
    using cancelled_known stream_reach_inv [of fmt m "sh_streams s"] inv
    by (auto simp: main_inv_def stream_inv_def stops_ok_def)
  then have "c \<notin> sh_told s \<union> st_gone (sh_streams s)" using Subscribe_parts(1) [OF assms(4)] by blast
  then show ?thesis
    using step untold_waits [OF main_step_inv [OF step inv], of c] assms(2) by (intro exI [of _ ?s1]) auto
qed

text \<open>
  C19: The shutdown waits for every connection. After the signal, if every connection that was made was
  told by \<open>broker.Close\<close> or its client has left, then \<open>srv.Shutdown\<close> can return without an error, and every
  stream then has written all that was buffered for it, whatever happened before. If one was not told
  (because it subscribed after \<open>broker.Close\<close>, or because its entry in the table was replaced), then
  \<open>srv.Shutdown\<close> does not return without an error until its client leaves. Its timeout always ends it.
\<close>

theorem shutdown_exact:
  assumes "main_reach fmt m s" "sh_phase s = Notified \<or> sh_phase s = Draining"
  shows "(if \<forall>c. st_conns (sh_streams s) c \<noteq> None \<longrightarrow> c \<in> sh_told s \<union> st_gone (sh_streams s)
    then \<exists>s'. main_steps fmt m s s' \<and> sh_phase s' = Stopped True \<and>
      st_gone (sh_streams s') = st_gone (sh_streams s) \<and> served_out m (sh_streams s) (sh_streams s')
    else \<forall>s'. main_steps fmt m s s' \<longrightarrow> st_gone (sh_streams s') = st_gone (sh_streams s) \<longrightarrow>
      sh_phase s' \<noteq> Stopped True) \<and>
    (\<exists>s'. main_steps fmt m s s' \<and> sh_phase s' = Stopped False)"
proof -
  have inv: "main_inv fmt m s" using assms(1) by (rule main_reach_inv)
  have reach: "stream_reach fmt m (sh_streams s)" "stops_ok (sh_told s) (sh_streams s)"
    using inv by (simp_all add: main_inv_def)
  have dr: "main_steps fmt m s (s\<lparr>sh_phase := Draining\<rparr>)" using assms(2) by (rule main_drains)
  have "main_step fmt m (s\<lparr>sh_phase := Draining\<rparr>) (s\<lparr>sh_phase := Stopped False\<rparr>)"
    using deadline [of "s\<lparr>sh_phase := Draining\<rparr>"] by simp
  then have "main_steps fmt m s (s\<lparr>sh_phase := Stopped False\<rparr>)"
    using main_trans [OF dr main_more [OF _ main_refl]] by blast
  then have late: "\<exists>s'. main_steps fmt m s s' \<and> sh_phase s' = Stopped False" by (intro exI) auto
  show ?thesis
  proof (cases "\<forall>c. st_conns (sh_streams s) c \<noteq> None \<longrightarrow> c \<in> sh_told s \<union> st_gone (sh_streams s)")
    case True
    obtain st where st: "stream_steps fmt m (sh_streams s) st" "st_gone st = st_gone (sh_streams s)"
      "all_ended st" "served_out m (sh_streams s) st"
      using every_stream_ends [OF reach True] by blast
    let ?s1 = "s\<lparr>sh_phase := Draining\<rparr>" let ?s2 = "?s1\<lparr>sh_streams := st\<rparr>" let ?s3 = "?s2\<lparr>sh_pending := 0\<rparr>"
    have "main_steps fmt m ?s1 ?s2" by (rule main_goes_on [OF st(1)]) (simp_all add: alive_def)
    moreover have "main_steps fmt m ?s2 ?s3" by (rule main_answers) (simp add: alive_def)
    moreover have "main_step fmt m ?s3 (?s3\<lparr>sh_phase := Stopped True\<rparr>)" by (rule drained) (simp_all add: st(3))
    ultimately have "main_steps fmt m s (?s3\<lparr>sh_phase := Stopped True\<rparr>)"
      using dr main_trans main_more main_refl by metis
    then show ?thesis using True st(2,4) late by (auto intro!: exI [of _ "?s3\<lparr>sh_phase := Stopped True\<rparr>"])
  next
    case False
    then obtain c where c: "st_conns (sh_streams s) c \<noteq> None" "c \<notin> sh_told s" "c \<notin> st_gone (sh_streams s)"
      by blast
    have "\<forall>s'. main_steps fmt m s s' \<longrightarrow> st_gone (sh_streams s') = st_gone (sh_streams s) \<longrightarrow> sh_phase s' \<noteq> Stopped True"
      using untold_waits [OF inv _ c(1)] c(2,3) assms(2) by fastforce
    then show ?thesis using late by (subst if_not_P [OF False]) blast
  qed
qed


section \<open>A shutdown to evaluate on\<close>

text \<open>One connection, the signal, and a subscription that comes after it.\<close>

definition demo_m1 :: "nat shutdown" where
  "demo_m1 = shutdown_init\<lparr>sh_streams := demo_s1\<rparr>"

definition demo_m2 :: "nat shutdown" where
  "demo_m2 = demo_m1\<lparr>sh_phase := Notified,
     sh_streams := (note_offer (\<lambda>_. True) (shutdown_event demo_fmt 5000 (st_broker demo_s1)) demo_s1)
       \<lparr>st_broker := CloseBroker demo_fmt 5000 (st_broker demo_s1)\<rparr>,
     sh_told := {c. is_target (\<lambda>_. True) (st_broker demo_s1) c}\<rparr>"

lemma demo_main_reach:
  "main_reach demo_fmt demo_marshal demo_m1" "main_reach demo_fmt demo_marshal demo_m2"
proof -
  have a: "main_step demo_fmt demo_marshal shutdown_init (shutdown_init\<lparr>sh_pending := Suc 0\<rparr>)"
    using accepted [of "shutdown_init" demo_fmt demo_marshal] by (simp add: shutdown_init_def listening_def)
  have "main_step demo_fmt demo_marshal (shutdown_init\<lparr>sh_pending := Suc 0\<rparr>) demo_m1"
    using streamed [of "shutdown_init\<lparr>sh_pending := Suc 0\<rparr>" 0 demo_fmt demo_marshal "[''a'']" demo_s1] demo_opened
    by (simp add: shutdown_init_def alive_def demo_m1_def)
  then have 1: "main_steps demo_fmt demo_marshal shutdown_init demo_m1" using a main_more main_refl by metis
  have "main_step demo_fmt demo_marshal demo_m1 demo_m2"
    using signalled [of demo_m1 demo_fmt demo_marshal] shut [of demo_fmt demo_marshal demo_s1 5000]
    by (simp add: demo_m2_def demo_m1_def shutdown_init_def)
  then have "main_steps demo_fmt demo_marshal shutdown_init demo_m2"
    using main_trans [OF 1] main_more main_refl by metis
  with 1 show "main_reach demo_fmt demo_marshal demo_m1" "main_reach demo_fmt demo_marshal demo_m2"
    by (simp_all add: main_reach_def)
qed

lemma shutdown_exact_witness:
  "\<exists>s'. main_steps demo_fmt demo_marshal demo_m2 s' \<and> sh_phase s' = Stopped True"
proof -
  have "is_target (\<lambda>_. True) (st_broker demo_s1) 0" by (simp add: is_target_def demo_stream_subs)
  then have "\<forall>c. st_conns (sh_streams demo_m2) c \<noteq> None \<longrightarrow> c \<in> sh_told demo_m2 \<union> st_gone (sh_streams demo_m2)"
    by (simp add: demo_m2_def demo_s1_def streams_init_def)
  then show ?thesis using shutdown_exact [OF demo_main_reach(2)] by (auto simp: demo_m2_def)
qed

end
