(* ===== verification/ServerProps.thy ===== *)
theory ServerProps
  imports Wiring ApiProps Startup StoreUse
begin

text \<open>
  The server as a whole: its handlers and its workers, one after the other, keep the database, the
  table of projects and the executor sound, and every operation that ran is in the audit log.
\<close>

section \<open>Handlers of the store\<close>

definition keeps_db :: "db api_handler \<Rightarrow> bool" where
  "keeps_db h \<longleftrightarrow> (\<forall>r. schema.keeps (h r))"

lemma account_handlers_keep:
  "keeps_db (Login e now lbody)" "keeps_db (Refresh e ta tb fbody)"
  "keeps_db (Register e uuid ta tb rbody)" "keeps_db (HandleUserList e)"
  "keeps_db (HandleUserCreate e uuid ta tb ubody)" "keeps_db (HandleUserUpdate e now ubody)"
  "keeps_db (HandleUserDelete e)" "keeps_db (HandleGrant e now gbody)" "keeps_db (HandleRevoke e)"
  "keeps_db (HandleACLList e)" "keeps_db (HandleAuditAll e)" "keeps_db (HandleAuditByProject e)"
  by (simp_all add: keeps_db_def schema.readers_keep schema.Register_keeps schema.HandleUserCreate_keeps
      schema.HandleUserUpdate_keeps schema.HandleUserDelete_keeps schema.HandleGrant_keeps
      schema.HandleRevoke_keeps changes_keep_schema)

section \<open>Steps of the server\<close>

inductive account_handler :: "api_env \<Rightarrow> db api_handler \<Rightarrow> bool" for e where
  "account_handler e (Login e now lbody)"
| "account_handler e (Refresh e ta tb fbody)"
| "account_handler e (Register e uuid ta tb rbody)"
| "account_handler e (HandleUserList e)"
| "account_handler e (HandleUserCreate e uuid ta tb ubody)"
| "account_handler e (HandleUserUpdate e now ubody)"
| "account_handler e (HandleUserDelete e)"
| "account_handler e (HandleGrant e now gbody)"
| "account_handler e (HandleRevoke e)"
| "account_handler e (HandleACLList e)"
| "account_handler e (HandleAuditAll e)"
| "account_handler e (HandleAuditByProject e)"

text \<open>One request served, or one queued operation run, while nothing else happens.\<close>

inductive server_step :: "'v server \<Rightarrow> api_env \<Rightarrow> 'v api \<Rightarrow> 'v api \<Rightarrow> bool" for sv e where
  account: "account_handler e h \<Longrightarrow> h r (ap_db s) = (resp, d) \<Longrightarrow> server_step sv e s (s\<lparr>ap_db := d\<rparr>)"
| list: "HandleListProjects sv c r s = (resp, s') \<Longrightarrow> server_step sv e s s'"
| detail: "HandleGetProjectDetail sv r s = (resp, s') \<Longrightarrow> server_step sv e s s'"
| scan: "HandleTriggerScan sv r s = (resp, s') \<Longrightarrow> server_step sv e s s'"
| operate: "HandleOp sv uuid now ctx opType body r s = Some (resp, s') \<Longrightarrow> server_step sv e s s'"
| service: "HandleServiceOp sv uuid now ctx opType r s = Some (resp, s') \<Longrightarrow> server_step sv e s s'"
| submit: "HandleSubmitAsync sv uuid now now' body r s = (resp, s') \<Longrightarrow> server_step sv e s s'"
| cancel: "HandleCancelOperation ta tb r s = (resp, s') \<Longrightarrow> server_step sv e s s'"
| work: "work_one sv stopped ctx s = Some s' \<Longrightarrow> server_step sv e s s'"

inductive server_reach :: "'v boot \<Rightarrow> Config \<Rightarrow> db \<Rightarrow> 'v api \<Rightarrow> bool" for b cfg d where
  started: "boot b d k = Inr (cfg, s) \<Longrightarrow> server_reach b cfg d s"
| served: "server_reach b cfg d s \<Longrightarrow> server_step (server_of b cfg) (accounts_of b cfg) s s' \<Longrightarrow>
    server_reach b cfg d s'"

definition server_ok :: "'v api \<Rightarrow> bool" where
  "server_ok s \<longleftrightarrow> db_ok (ap_db s) \<and> table_ok (ap_projects s) \<and> idle (ap_ex s)"

lemma account_handler_keeps: "account_handler e h \<Longrightarrow> keeps_db h"
  by (induction rule: account_handler.induct) (rule account_handlers_keep)+

text \<open>What an operation of the executor leaves in the database and in the table.\<close>

lemma run_outcome:
  assumes "run (wired sv) ctx req ex (to_world s) = Some (out, ex', d)"
  shows "wd_projects (ds_world d) = ap_projects s \<and>
    (case map_of (ap_projects s) (sc_project (req_scope req)) of
       None \<Rightarrow> out = Inl project_not_found \<and> wd_db (ds_world d) = ap_db s
     | Some p \<Rightarrow> \<exists>dur t. wd_db (ds_world d)
         = snd (LogOperation (sv_dv sv) (audit_entry req dur t out) (ap_db s)))"
proof -
  obtain s1 where 1: "run_body (wired sv) req (to_world s) = (out, s1)"
    and "d = s1 \<or> d = snd (time_now (daemon_env (sv_docker sv)) s1)"
    using run_world [OF assms] by auto
  then have d: "others d = others s1" using time_frame [of "sv_docker sv" s1] by auto
  have w: "wd_db (ds_world (to_world s)) = ap_db s" "wd_projects (ds_world (to_world s)) = ap_projects s"
    by (simp_all add: to_world_def)
  show ?thesis
  proof (cases "map_of (ap_projects s) (sc_project (req_scope req))")
    case None
    then show ?thesis using run_body_unknown [of "to_world s" req sv] 1 d w by (simp add: others_def)
  next
    case (Some p)
    then show ?thesis using run_body_audits [OF _ 1] d w by (auto simp: others_def)
  qed
qed

lemma run_keeps:
  assumes "run (wired sv) ctx req ex (to_world s) = Some (out, ex', d)" "db_ok (ap_db s)"
  shows "db_ok (wd_db (ds_world d)) \<and> wd_projects (ds_world d) = ap_projects s"
  using run_outcome [OF assms(1)] changes_keep_schema(5) assms(2)
  by (auto simp: schema.keeps_def split: option.splits)

lemma Execute_keeps:
  assumes "Execute (wired sv) uuid now ctx req (ap_ex s) (to_world s) = Some (out, ex', d)" "server_ok s"
  shows "server_ok ((of_world d s)\<lparr>ap_ex := ex'\<rparr>)"
proof -
  let ?req = "default_request uuid now req"
  have ok: "db_ok (ap_db s)" "table_ok (ap_projects s)" "idle (ap_ex s)"
    using assms(2) by (simp_all add: server_ok_def)
  have "run (wired sv) ctx ?req (ap_ex s) (to_world s) = Some (out, ex', d)"
    using assms(1) idle_free [OF ok(3)]
    by (simp add: Execute_def execute_guard_def IsLocked_def Let_def)
  then show ?thesis
    using run_keeps [OF _ ok(1)] run_idle [OF ok(3), of "wired sv" ctx ?req "to_world s"] ok(2)
    by (auto simp: server_ok_def of_world_def)
qed

lemma work_keeps:
  assumes "work_one sv stopped ctx s = Some s'" "server_ok s"
  shows "server_ok s'"
proof -
  have ok: "db_ok (ap_db s)" "table_ok (ap_projects s)" "idle (ap_ex s)"
    using assms(2) by (simp_all add: server_ok_def)
  obtain req q where q: "Dequeue (ex_queue (ap_ex s)) = (DeqItem req, q)"
    using assms(1) by (auto simp: work_one_def split: prod.splits dequeue_outcome.splits)
  have inv: "queue_inv (ex_queue (ap_ex s))" using ok(3) by (simp add: idle_def)
  let ?ex = "(ap_ex s)\<lparr>ex_queue := q\<rparr>"
  have idle: "idle ?ex" by (rule idle_queue [OF ok(3) Dequeue_queue(1) [OF inv q]])
  obtain out ex1 d where run: "run (wired sv) ctx req ?ex (to_world s) = Some (out, ex1, d)" "idle ex1"
    using run_idle [OF idle, of "wired sv" ctx req "to_world s"] by blast
  obtain now d2 where t: "time_now (daemon_env (sv_docker sv)) d = (now, d2)" by fastforce
  have s': "s' = (of_world d2 s)\<lparr>ap_ex := addHistory (queued_record req now out) ex1\<rparr>"
    using assms(1) q run(1) t
    by (auto simp: work_one_def executeQueued_def split: if_splits)
  have "others d2 = others d" using time_frame [of "sv_docker sv" d] t by simp
  then show ?thesis
    using run_keeps [OF run(1) ok(1)] idle_addHistory [OF run(2)] ok(2)
    by (auto simp: s' server_ok_def of_world_def others_def)
qed

lemma detail_keeps:
  assumes "HandleGetProjectDetail sv r s = (resp, s')" "server_ok s"
  shows "server_ok s'"
proof (cases "map_of (ap_projects s) (url_param r ''projectID'')")
  case None
  then show ?thesis using assms by (simp add: HandleGetProjectDetail_def)
next
  case (Some p)
  have ok: "table_ok (ap_projects s)" using assms(2) by (simp add: server_ok_def)
  then have p: "pr_id p = url_param r ''projectID''"
    using Some by (auto simp: table_ok_def dest!: map_of_SomeD)
  have "table_ok (AList.update (pr_id (with_status st m p)) (with_status st m p) (ap_projects s))" for st m
    by (rule table_ok_update [OF ok])
  then have "table_ok (AList.update (url_param r ''projectID'') (with_status st m p) (ap_projects s))" for st m
    by (simp add: with_status_def p)
  then show ?thesis
    using assms Some
    by (auto simp: HandleGetProjectDetail_def server_ok_def Let_def split: prod.splits option.splits)
qed

lemma scan_keeps:
  assumes "HandleTriggerScan sv r s = (resp, s')" "server_ok s"
  shows "server_ok s'"
proof -
  have "table_ok (add_parsed pe ds [])" for pe ds by (rule add_parsed_ok) (simp add: table_ok_def)
  then show ?thesis
    using assms by (auto simp: HandleTriggerScan_def server_ok_def Let_def split: sum.splits)
qed

lemma submit_keeps:
  assumes "HandleSubmitAsync sv uuid now now' body r s = (resp, s')" "server_ok s"
  shows "server_ok s'"
proof -
  let ?req = "op_request [] (url_param r ''action'') r (ob_services body)
      (op_timeout (sv_parseduration sv) (ob_timeout body))"
  have idle: "idle (ap_ex s)" using assms(2) by (simp add: server_ok_def)
  then have "queue_inv (ex_queue (snd (Submit uuid now now' ?req (ap_ex s))))"
    by (intro Submit_queue(1) [OF _ refl]) (simp add: idle_def)
  with idle have "idle (snd (Submit uuid now now' ?req (ap_ex s)))" by (simp add: idle_def)
  then show ?thesis
    using assms by (auto simp: HandleSubmitAsync_def server_ok_def Let_def split: prod.splits)
qed

lemma cancel_keeps:
  assumes "HandleCancelOperation ta tb r s = (resp, s')" "server_ok s"
  shows "server_ok s'"
proof -
  let ?op = "url_param r ''opID''"
  obtain x q where q: "RemoveAndReturn (ex_queue (ap_ex s)) ?op = (x, q)" by fastforce
  have idle: "idle (ap_ex s)" using assms(2) by (simp add: server_ok_def)
  then have inv: "queue_inv (ex_queue (ap_ex s))" by (simp add: idle_def)
  have "queue_inv q" using RemoveAndReturn_correct [OF inv q] inv by (auto split: option.splits)
  then have "idle (snd (Cancel ?op ta tb (ap_ex s)))"
    using idle idle_addHistory idle_queue q by (auto simp: Cancel_def split: option.split)
  then show ?thesis
    using assms by (auto simp: HandleCancelOperation_def server_ok_def split: prod.splits option.splits)
qed

lemma server_step_ok: "server_step sv e s s' \<Longrightarrow> server_ok s \<Longrightarrow> server_ok s'"
proof (induction rule: server_step.induct)
  case (account h r s resp d)
  have "keeps_db h" using account(1) by (rule account_handler_keeps)
  then have "db_ok (snd (h r (ap_db s)))" using account(3) by (simp add: keeps_db_def schema.keeps_def server_ok_def)
  then show ?case using account by (simp add: server_ok_def)
next
  case (list c r s resp s')
  then show ?case
    using schema.visible_keeps [of "sv_dv sv" c "ap_projects s"]
    by (auto simp: HandleListProjects_def server_ok_def schema.keeps_def split: prod.splits)
next
  case (operate uuid now ctx opType body r s resp s')
  then show ?case
    by (auto simp: HandleOp_def run_request_def split: option.splits prod.splits intro: Execute_keeps)
next
  case (service uuid now ctx opType r s resp s')
  then show ?case
    by (auto simp: HandleServiceOp_def run_request_def split: option.splits prod.splits intro: Execute_keeps)
qed (auto intro: detail_keeps scan_keeps submit_keeps cancel_keeps work_keeps)

lemma boot_ok:
  assumes "db_ok d" "boot b d k = Inr (cfg, s)"
  shows "server_ok s"
proof -
  obtain d1 where d1: "AutoMigrate (bt_dv b) (bt_migrations b) d = (None, d1)"
      "s = snd (InitialScan (server_of b cfg) (first_state d1 k))"
    using assms(2) by (rule boot_stages)
  have "db_ok d1"
    using db_after_ok [OF assms(1), of "bt_dv b" "CallMigrate (bt_migrations b)"] d1(1) by simp
  moreover have "table_ok (ap_projects s)"
    using add_parsed_ok [of "[]"]
    by (auto simp: d1(2) InitialScan_def first_state_def table_ok_def split: sum.split)
  ultimately show ?thesis
    by (simp add: d1(2) server_ok_def InitialScan_frame first_state_def idle_new)
qed

section \<open>The audit log against the answers\<close>

text \<open>What the row of an operation says, against what the caller was answered.\<close>

fun row_agrees :: "payload body \<Rightarrow> audit_row \<Rightarrow> bool" where
  "row_agrees (DataBody (PResult res)) ar = (ar_status ar = status_string (res_status res))"
| "row_agrees (ErrorBody code msg d) ar =
     (ar_status ar = ''failed'' \<and> ar_code ar = nilIfEmpty code \<and> ar_msg ar = nilIfEmpty msg)"
| "row_agrees b ar = False"

definition answer_of :: "request \<Rightarrow> (go_error + OperationResult) \<Rightarrow> payload response" where
  "answer_of r out =
     (case out of
        Inl err \<Rightarrow> send_error r err (case err of AppError c m dt st w \<Rightarrow> dt | _ \<Rightarrow> NilDetails)
      | Inr res \<Rightarrow> WriteJSON r 200 (PResult res))"

lemma audit_row_fields:
  "ar_user (audit_row_of i (audit_entry req d t out)) = nilIfEmpty (req_user req)"
  "ar_project (audit_row_of i (audit_entry req d t out)) = nilIfEmpty (sc_project (req_scope req))"
  "ar_operation (audit_row_of i (audit_entry req d t out)) = req_type req"
  by (auto simp: audit_row_of_def audit_entry_def Let_def split: sum.split option.split go_error.split)

lemma audit_row_agrees:
  "row_agrees (rs_body (answer_of r out)) (audit_row_of i (audit_entry req d t out))"
  by (auto simp: answer_of_def send_error_def internal_error_def WriteError_def WriteJSON_def
      audit_row_of_def audit_entry_def Let_def split: sum.split option.split go_error.split)

lemma default_request_fields:
  "req_user (default_request uuid now req) = req_user req"
  "req_scope (default_request uuid now req) = req_scope req"
  "req_type (default_request uuid now req) = req_type req"
  by (simp_all add: default_request_def Let_def)

lemma audit_entry_user: "au_user (audit_entry req d t out) = req_user req"
  by (auto simp: audit_entry_def Let_def split: sum.split option.split go_error.split)

text \<open>The rows an operation adds to the log.\<close>

definition audited :: "db \<Rightarrow> db \<Rightarrow> string \<Rightarrow> ProjectID \<Rightarrow> string \<Rightarrow> payload response \<Rightarrow> bool" where
  "audited d d' user project opType resp \<longleftrightarrow>
     (\<exists>ar. db_audit d' = db_audit d @ [ar] \<and> ar_user ar = nilIfEmpty user \<and>
        ar_project ar = nilIfEmpty project \<and> ar_operation ar = opType \<and> row_agrees (rs_body resp) ar)"

text \<open>The tables but for the audit log are as before.\<close>

definition same_tables :: "db \<Rightarrow> db \<Rightarrow> bool" where
  "same_tables d d' \<longleftrightarrow>
     db_users d' = db_users d \<and> db_acls d' = db_acls d \<and> db_versions d' = db_versions d \<and>
     db_scripts d' = db_scripts d"

lemma run_audited:
  assumes "run (wired sv) ctx req ex (to_world s) = Some (out, ex', d)"
    and "map_of (ap_projects s) (sc_project (req_scope req)) = Some p"
  shows "same_tables (ap_db s) (wd_db (ds_world d)) \<and>
    (if log_takes (sv_dv sv) (req_user req) (ap_db s)
     then audited (ap_db s) (wd_db (ds_world d)) (req_user req) (sc_project (req_scope req)) (req_type req) (answer_of r out)
     else db_audit (wd_db (ds_world d)) = db_audit (ap_db s))"
proof -
  obtain dur t where e: "wd_db (ds_world d) = snd (LogOperation (sv_dv sv) (audit_entry req dur t out) (ap_db s))"
    using run_outcome [OF assms(1)] assms(2) by auto
  note adds = LogOperation_adds [of "sv_dv sv" "audit_entry req dur t out" "ap_db s"]
  show ?thesis
  proof (cases "log_takes (sv_dv sv) (req_user req) (ap_db s)")
    case True
    then have "audited (ap_db s) (wd_db (ds_world d)) (req_user req) (sc_project (req_scope req)) (req_type req) (answer_of r out)"
      unfolding audited_def e using adds
      by (intro exI [of _ "audit_row_of (db_nextid (ap_db s)) (audit_entry req dur t out)"])
         (simp add: audit_entry_user audit_row_fields audit_row_agrees)
    then show ?thesis using adds True by (simp add: e same_tables_def)
  next
    case False
    then show ?thesis using adds by (simp add: e same_tables_def audit_entry_user)
  qed
qed

section \<open>Properties\<close>

text \<open>
  The server stays sound. Started on a sound database, and after any sequence of requests served
  and queued operations run (whatever the daemon, the file system and failing statements answer): the
  database satisfies the constraints of its schema, every project of the table is stored once, under
  its own identity, no project stays locked, no operation stays in the tables of running ones, and
  the history holds at most 256 records.
\<close>

lemma server_sound:
  assumes "db_ok d" "server_reach b cfg d s"
  shows "db_ok (ap_db s) \<and> table_ok (ap_projects s) \<and>
    (\<forall>p. \<not> fst (IsLocked (ex_locker (ap_ex s)) p)) \<and> GetRunningOps (ap_ex s) = [] \<and>
    length (ex_history (ap_ex s)) \<le> 256"
proof -
  have "server_ok s"
    using assms(2) by induction (auto intro: boot_ok [OF assms(1)] server_step_ok)
  then show ?thesis
    using idle_free [of "ap_ex s"] by (auto simp: server_ok_def IsLocked_def idle_def GetRunningOps_def)
qed

text \<open>
  C7: Every operation is in the audit log, once, if the log takes its entry. A synchronous operation
  returns; if the project is locked it is refused with 409, if it is unknown with 404, and the database
  is as before. Otherwise the operation ran: if the statement of the entry does not fail and the user is
  known to the database (or there is none), the log has exactly one more row, with the user, the project
  and the kind of the operation, and with the status (for a failure also the code and the message) that
  the caller was answered; if not, the log is as before, whatever the caller was answered. The other
  tables and the table of projects are not changed.
\<close>

theorem operation_audited:
  assumes "locker_wf (ex_locker (ap_ex s))"
  shows "\<exists>resp s'. HandleOp sv uuid now ctx opType body r s = Some (resp, s') \<and>
    ap_projects s' = ap_projects s \<and>
    (if fst (IsLocked (ex_locker (ap_ex s)) (url_param r ''projectID''))
     then rs_status resp = 409 \<and> ap_db s' = ap_db s
     else if map_of (ap_projects s) (url_param r ''projectID'') = None
     then rs_status resp = 404 \<and> ap_db s' = ap_db s
     else same_tables (ap_db s) (ap_db s') \<and>
       (if log_takes (sv_dv sv) (GetUserID r) (ap_db s)
        then audited (ap_db s) (ap_db s') (GetUserID r) (url_param r ''projectID'') opType resp
        else db_audit (ap_db s') = db_audit (ap_db s)))"
proof -
  let ?p = "url_param r ''projectID''"
  let ?req = "default_request uuid now
    (op_request uuid opType r (ob_services body) (op_timeout (sv_parseduration sv) (ob_timeout body)))"
  have fields: "sc_project (req_scope ?req) = ?p" "req_user ?req = GetUserID r" "req_type ?req = opType"
    by (simp_all add: default_request_fields op_request_def)
  show ?thesis
  proof (cases "lk_locks (ex_locker (ap_ex s)) ?p")
    case (Some en)
    then show ?thesis
      using HandleOp_busy [of s r "le_holder en" sv uuid now ctx opType body]
      by (simp add: IsLocked_def WriteError_def)
  next
    case None
    then have free: "lk_locks (ex_locker (ap_ex s)) (sc_project (req_scope ?req)) = None"
      unfolding fields .
    obtain out ex' d where run: "run (wired sv) ctx ?req (ap_ex s) (to_world s) = Some (out, ex', d)"
      using run_free [OF assms free refl, of "wired sv" ctx "to_world s"] by blast
    have h: "HandleOp sv uuid now ctx opType body r s
        = Some (answer_of r out, (of_world d s)\<lparr>ap_ex := ex'\<rparr>)"
      using run None fields
      by (simp add: HandleOp_def run_request_def Execute_def execute_guard_def IsLocked_def Let_def
          answer_of_def)
    show ?thesis
      using run_outcome [OF run] run_audited [OF run, of _ r] h None
      unfolding fields
      by (cases "map_of (ap_projects s) ?p")
         (auto simp: of_world_def IsLocked_def answer_of_def project_not_found_def send_error_def
           WriteError_def)
  qed
qed

section \<open>A server to evaluate on\<close>

definition demo_boot :: "nat boot" where
  "demo_boot = \<lparr>bt_cfg = \<lparr>ce_getenv = (\<lambda>k. if k = ''JWT_SECRET'' then replicate 32 (CHR ''k'')
                                   else if k = ''COMPOSE_ROOT'' then ''/p'' else []),
                        ce_parseduration = (\<lambda>t. None)\<rparr>,
     bt_parseurl = (\<lambda>u. None), bt_newpool = (\<lambda>u c. None), bt_pingdb = None, bt_migrations = demo_migrations, bt_client = (\<lambda>c. None), bt_ping = None,
     bt_dv = steady, bt_fs = table_fs p_tree, bt_pe = demo_pe, bt_docker = demo_good, bt_lib = demo_lib\<rparr>"

definition demo_cfg :: Config where "demo_cfg = read_config (bt_cfg demo_boot)"

definition demo_start :: "nat api" where
  "demo_start = snd (InitialScan (server_of demo_boot demo_cfg)
     (first_state (snd (AutoMigrate steady demo_migrations empty_db)) demo_state))"

lemma demo_boots: "boot demo_boot empty_db demo_state = Inr (demo_cfg, demo_start)"
proof -
  have "Load (bt_cfg demo_boot) = Inr demo_cfg"
    by (simp add: Load_def demo_cfg_def validate_def read_config_def demo_boot_def envOrDefault_def Let_def)
  moreover have "fst (AutoMigrate steady demo_migrations empty_db) = None" by code_simp
  ultimately show ?thesis
    by (simp add: boot_def demo_start_def case_prod_unfold)
       (simp add: demo_boot_def NewDB_def NewClient_def case_prod_unfold split: prod.split)
qed

lemma server_sound_witness:
  "db_ok (snd (Register (accounts_of demo_boot demo_cfg) ''u9'' 1 1 (Some ann_request) (token_request [] [])
      (ap_db demo_start)))
   \<and> (\<forall>p. \<not> fst (IsLocked (ex_locker (ap_ex demo_start)) p))"
proof -
  let ?e = "accounts_of demo_boot demo_cfg"
  let ?h = "Register ?e ''u9'' 1 1 (Some ann_request)"
  obtain resp d where d: "?h (token_request [] []) (ap_db demo_start) = (resp, d)" by fastforce
  have "server_reach demo_boot demo_cfg empty_db demo_start" by (rule started [OF demo_boots])
  moreover have "server_step (server_of demo_boot demo_cfg) ?e demo_start (demo_start\<lparr>ap_db := d\<rparr>)"
    by (rule account [where h = ?h, OF _ d]) (rule account_handler.intros)
  ultimately have "server_reach demo_boot demo_cfg empty_db (demo_start\<lparr>ap_db := d\<rparr>)" by (rule served)
  from server_sound [OF db_ok_empty this] show ?thesis by (simp add: d)
qed

definition stop_request :: request where
  "stop_request = \<lparr>rq_headers = [], rq_params = [(''projectID'', pr_id sample_project)], rq_query = [],
     rq_claims = Some (access_claims demo_lib demo_mgr 0 admin_user), rq_uuid = ''q''\<rparr>"

definition audited_api :: "nat api" where
  "audited_api = demo_api\<lparr>ap_db := empty_db\<lparr>db_users := [admin_user]\<rparr>,
     ap_projects := [(pr_id sample_project, sample_project)]\<rparr>"

lemma operation_audited_witness:
  "\<exists>resp s'. HandleOp demo_server ''op9'' 7 1 OpStop \<lparr>ob_services = None, ob_timeout = []\<rparr> stop_request audited_api
       = Some (resp, s') \<and> (\<exists>ar. db_audit (ap_db s') = [ar] \<and> ar_user ar = Some ''a'' \<and> ar_operation ar = OpStop)"
proof -
  have wf: "locker_wf (ex_locker (ap_ex audited_api))" "\<not> fst (IsLocked (ex_locker (ap_ex audited_api)) p)" for p
    by (simp_all add: audited_api_def demo_api_def NewExecutor_def locker_wf_new IsLocked_def)
       (simp add: NewInMemoryLocker_def)
  moreover have user: "GetUserID stop_request = ''a''"
    by (simp add: GetUserID_def stop_request_def access_claims_def admin_user_def)
  moreover have known: "log_takes (sv_dv demo_server) ''a'' (ap_db audited_api)"
    by (simp add: log_takes_def user_ids_def audited_api_def admin_user_def demo_server_def steady_def)
  moreover have "map_of (ap_projects audited_api) (url_param stop_request ''projectID'') \<noteq> None"
    by (simp add: audited_api_def url_param_def str_at_def stop_request_def)
  ultimately show ?thesis
    using operation_audited [of audited_api demo_server "''op9''" 7 1 OpStop
        "\<lparr>ob_services = None, ob_timeout = []\<rparr>" stop_request]
    by (auto simp: audited_def nilIfEmpty_def audited_api_def empty_db_def)
qed

section \<open>A user without a row\<close>

text \<open>
  The token of a deleted user is accepted until it expires, but the log refuses the entries of a user
  it does not know: such operations leave no trace.
\<close>

lemma deleted_user_unaudited:
  assumes "au_user a \<noteq> []" "au_user a \<notin> user_ids d"
  shows "db_audit (snd (LogOperation dv a d)) = db_audit d"
proof -
  have "\<not> list_ex (\<lambda>u. u_id u = au_user a) (db_users d)"
    using assms(2) unfolding list_ex_iff user_ids_def by (metis imageI)
  then show ?thesis
    using assms(1) by (simp add: LogOperation_def sql_def insert_audit_def Let_def split: option.split)
qed

end
