(* ===== verification/Endpoints.thy ===== *)
theory Endpoints
  imports AccessLog ServerProps EventsApi
begin

text \<open>
  The server as it is reached over HTTP: \<open>main\<close> gives the router the handlers, and a request passes the
  front, its route's middlewares and its handler, unless the cross-origin library answers it. One step
  serves one request on any route of the table, or lets a worker run one queued operation.
\<close>

section \<open>Which handler serves which route\<close>

text \<open>
  What a request brings beside the headers, the decoded bodies, and what is drawn for it: an identifier,
  readings of the clock, a context, and the answers of the two pings.
\<close>

record inputs =
  in_uuid :: string
  in_now :: time
  in_later :: time
  in_ctx :: nat
  in_login :: "LoginRequest option"
  in_refresh :: "string option"
  in_register :: "RegisterRequest option"
  in_user :: "UserBody option"
  in_grant :: "GrantACLRequest option"
  in_op :: OperationBody
  in_dberr :: "go_error option"
  in_dockererr :: "go_error option"

definition on_db :: "db api_handler \<Rightarrow> 'v api api_handler" where
  "on_db h r s = (let (resp, d) = h r (ap_db s) in (resp, s\<lparr>ap_db := d\<rparr>))"

text \<open>An operation that waits for the lock of its project has no answer yet; here it is written as status 0.\<close>

definition no_answer :: "payload response" where
  "no_answer = \<lparr>rs_status = 0, rs_body = NoBody, rs_meta = None, rs_header = None\<rparr>"

definition on_lock ::
    "(request \<Rightarrow> 'v api \<Rightarrow> (payload response \<times> 'v api) option) \<Rightarrow> 'v api api_handler" where
  "on_lock h r s = (case h r s of None \<Rightarrow> (no_answer, s) | Some out \<Rightarrow> out)"

text \<open>
  An event stream opens with 200; what it writes is the subject of \<open>Streaming\<close>, and its handler changes
  nothing here. Listing the projects without claims would dereference nil, which the recovery answers.
\<close>

definition stream_opened :: "'s api_handler" where
  "stream_opened r s = (\<lparr>rs_status = 200, rs_body = NoBody, rs_meta = None, rs_header = None\<rparr>, s)"

definition with_claims :: "(Claims \<Rightarrow> 's api_handler) \<Rightarrow> 's api_handler" where
  "with_claims h r s =
     (case rq_claims r of
        None \<Rightarrow> (WriteError r 500 ''ERR_INTERNAL'' ''internal server error'' NilDetails, s)
      | Some c \<Rightarrow> h c r s)"

fun route_handler ::
    "'v server \<Rightarrow> api_env \<Rightarrow> string \<Rightarrow> inputs \<Rightarrow> endpoint \<Rightarrow> 'v api api_handler" where
  "route_handler sv e v x HLiveness = HandleLiveness"
| "route_handler sv e v x HReadiness = HandleReadiness (in_dberr x) (in_dockererr x)"
| "route_handler sv e v x HVersion = HandleVersion v"
| "route_handler sv e v x HLogin = on_db (Login e (in_now x) (in_login x))"
| "route_handler sv e v x HRefresh = on_db (Refresh e (in_now x) (in_later x) (in_refresh x))"
| "route_handler sv e v x HRegister =
     on_db (Register e (in_uuid x) (in_now x) (in_later x) (in_register x))"
| "route_handler sv e v x HListProjects = with_claims (HandleListProjects sv)"
| "route_handler sv e v x HTriggerScan = HandleTriggerScan sv"
| "route_handler sv e v x HGetProjectDetail = HandleGetProjectDetail sv"
| "route_handler sv e v x HListServices = HandleListServices"
| "route_handler sv e v x HGetServiceDetail = HandleGetServiceDetail"
| "route_handler sv e v x HProjectEvents = stream_opened"
| "route_handler sv e v x HProjectStats = stream_opened"
| "route_handler sv e v x HServiceLogs = stream_opened"
| "route_handler sv e v x HAuditByProject = on_db (HandleAuditByProject e)"
| "route_handler sv e v x HACLList = on_db (HandleACLList e)"
| "route_handler sv e v x HACLGrant = on_db (HandleGrant e (in_now x) (in_grant x))"
| "route_handler sv e v x HACLRevoke = on_db (HandleRevoke e)"
| "route_handler sv e v x HUp = on_lock (HandleUp sv (in_uuid x) (in_now x) (in_ctx x) (in_op x))"
| "route_handler sv e v x HDown = on_lock (HandleDown sv (in_uuid x) (in_now x) (in_ctx x) (in_op x))"
| "route_handler sv e v x HStart = on_lock (HandleStart sv (in_uuid x) (in_now x) (in_ctx x) (in_op x))"
| "route_handler sv e v x HStop = on_lock (HandleStop sv (in_uuid x) (in_now x) (in_ctx x) (in_op x))"
| "route_handler sv e v x HRestart = on_lock (HandleRestart sv (in_uuid x) (in_now x) (in_ctx x) (in_op x))"
| "route_handler sv e v x HServiceStart = on_lock (HandleServiceStart sv (in_uuid x) (in_now x) (in_ctx x))"
| "route_handler sv e v x HServiceStop = on_lock (HandleServiceStop sv (in_uuid x) (in_now x) (in_ctx x))"
| "route_handler sv e v x HServiceRestart =
     on_lock (HandleServiceRestart sv (in_uuid x) (in_now x) (in_ctx x))"
| "route_handler sv e v x HSubmitAsync =
     HandleSubmitAsync sv (in_uuid x) (in_now x) (in_later x) (in_op x)"
| "route_handler sv e v x HListRunning = HandleListRunning"
| "route_handler sv e v x HGetOperation = HandleGetOperation"
| "route_handler sv e v x HCancelOperation = HandleCancelOperation (in_now x) (in_later x)"
| "route_handler sv e v x HGlobalEvents = stream_opened"
| "route_handler sv e v x HUserList = on_db (HandleUserList e)"
| "route_handler sv e v x HUserCreate =
     on_db (HandleUserCreate e (in_uuid x) (in_now x) (in_later x) (in_user x))"
| "route_handler sv e v x HUserUpdate = on_db (HandleUserUpdate e (in_now x) (in_user x))"
| "route_handler sv e v x HUserDelete = on_db (HandleUserDelete e)"
| "route_handler sv e v x HAuditAll = on_db (HandleAuditAll e)"

section \<open>Serving over HTTP\<close>

text \<open>The guards read the roles from the server's database.\<close>

definition api_guards :: "api_env \<Rightarrow> time \<Rightarrow> 'v api guards" where
  "api_guards e now =
     \<lparr>gd_lib = ae_lib e, gd_mgr = ae_mgr e, gd_now = now,
      gd_acl = (\<lambda>u p s. fst (GetUserProjectRole (ae_dv e) u p (ap_db s)))\<rparr>"

definition http_serve ::
    "payload cors_lib \<Rightarrow> (payload body \<Rightarrow> string option \<Rightarrow> int) \<Rightarrow> 'v server \<Rightarrow> api_env \<Rightarrow> string \<Rightarrow> inputs \<Rightarrow>
     request_line \<Rightarrow> time \<Rightarrow> time \<Rightarrow> route \<Rightarrow> (payload, 'v api \<times> log_line list) handler" where
  "http_serve cors bytes sv e v x cn t0 t1 ro =
     front cors bytes cn t0 t1 (route_chain (api_guards e (in_now x)) (route_handler sv e v x) ro)"

text \<open>The router \<open>main\<close> makes, of the components it has made from the configuration.\<close>

definition main_router ::
    "payload cors_lib \<Rightarrow> (payload body \<Rightarrow> string option \<Rightarrow> int) \<Rightarrow> 'v boot \<Rightarrow> Config \<Rightarrow> string \<Rightarrow> inputs \<Rightarrow> request_line \<Rightarrow>
     time \<Rightarrow> time \<Rightarrow> route \<Rightarrow> (payload, 'v api \<times> log_line list) handler" where
  "main_router cors bytes b cfg v = http_serve cors bytes (server_of b cfg) (accounts_of b cfg) v"

text \<open>
  What a started server reaches: its state, the lines of its access log, and the number of requests that
  were sent and that the cross-origin library passed on.
\<close>

definition passed_on :: "payload cors_lib \<Rightarrow> request_line \<Rightarrow> request \<Rightarrow> bool" where
  "passed_on cors cn r \<longleftrightarrow> cors router_cors cn r = None"

inductive http_reach ::
    "payload cors_lib \<Rightarrow> (payload body \<Rightarrow> string option \<Rightarrow> int) \<Rightarrow> 'v boot \<Rightarrow> Config \<Rightarrow> db \<Rightarrow>
     'v api \<Rightarrow> log_line list \<Rightarrow> nat \<Rightarrow> bool"
  for cors bytes b cfg d where
  http_started: "boot b d k = Inr (cfg, s) \<Longrightarrow> http_reach cors bytes b cfg d s [] 0"
| http_served: "http_reach cors bytes b cfg d s lines n \<Longrightarrow> ro \<in> set NewRouter \<Longrightarrow>
    main_router cors bytes b cfg v x cn t0 t1 ro r (s, lines) = (resp, (s', lines')) \<Longrightarrow>
    http_reach cors bytes b cfg d s' lines' (if passed_on cors cn r then Suc n else n)"
| http_worked: "http_reach cors bytes b cfg d s lines n \<Longrightarrow> work_one (server_of b cfg) stopped ctx s = Some s' \<Longrightarrow>
    http_reach cors bytes b cfg d s' lines n"

section \<open>The listener\<close>

text \<open>The fields \<open>main\<close> sets in its \<open>http.Server\<close>, beside the router.\<close>

record http_server =
  hs_addr :: string
  hs_readtimeout :: duration
  hs_writetimeout :: duration

definition main_server :: "Config \<Rightarrow> http_server" where
  "main_server cfg =
     \<lparr>hs_addr = ListenAddr cfg, hs_readtimeout = sv_readtimeout (cfg_server cfg),
      hs_writetimeout = sv_writetimeout (cfg_server cfg)\<rparr>"

text \<open>Without a setting, every response, an event stream too, has to be written within two minutes.\<close>

lemma stream_deadline:
  assumes "ce_getenv e ''WRITE_TIMEOUT'' = []" "Load e = Inr cfg"
  shows "hs_writetimeout (main_server cfg) = 120 * second"
proof -
  have "cfg = read_config e" using assms(2) by (simp add: Load_def Let_def split: option.splits)
  then have "hs_writetimeout (main_server cfg) = envDurationOrDefault e ''WRITE_TIMEOUT'' (120 * second)"
    by (simp add: main_server_def read_config_def)
  then show ?thesis using assms(1) by (simp add: envDurationOrDefault_def env_parsed_def)
qed

section \<open>A request is a step of the server or changes nothing\<close>

lemma on_db_step:
  assumes "account_handler e h" "on_db h r s = (resp, s')"
  shows "server_step sv e s s'"
  using assms account [OF assms(1), of r s] by (auto simp: on_db_def split: prod.splits)

lemma endpoint_step:
  assumes "route_handler sv e v x ep r s = (resp, s')"
  shows "s' = s \<or> server_step sv e s s'"
proof (cases ep)
  case HListProjects
  then show ?thesis using assms by (auto simp: with_claims_def split: option.splits intro: server_step.list)
next
  case HTriggerScan
  then show ?thesis using assms by (auto intro: server_step.scan)
next
  case HGetProjectDetail
  then show ?thesis using assms by (auto intro: server_step.detail)
next
  case HSubmitAsync
  then show ?thesis using assms by (auto intro: server_step.submit)
next
  case HCancelOperation
  then show ?thesis using assms by (auto intro: server_step.cancel)
qed (use assms in \<open>auto simp: HandleLiveness_def HandleReadiness_def HandleVersion_def HandleListServices_def
      HandleGetServiceDetail_def HandleListRunning_def HandleGetOperation_def stream_opened_def Let_def
      on_lock_def HandleUp_def HandleDown_def HandleStart_def HandleStop_def HandleRestart_def
      HandleServiceStart_def HandleServiceStop_def HandleServiceRestart_def
      split: option.splits intro: operate service on_db_step account_handler.intros\<close>)

text \<open>The middlewares of a route reach the handler with some request, or answer without it.\<close>

lemma chain_reaches:
  "(\<exists>r'. foldr (apply_mw g) mws h r s = h r' s) \<or> (\<exists>resp. foldr (apply_mw g) mws h r s = (resp, s))"
proof (induction mws arbitrary: r)
  case (Cons m mws)
  let ?rest = "foldr (apply_mw g) mws h"
  have "(\<exists>r'. apply_mw g m ?rest r s = ?rest r' s) \<or> (\<exists>resp. apply_mw g m ?rest r s = (resp, s))"
    by (cases m) (auto simp: Middleware_def RequireRole_def RequirePermission_def ProjectACLMiddleware_def
        Let_def split: option.split list.split)
  then show ?case using Cons by fastforce
qed auto

lemma chain_step:
  assumes "route_chain g (route_handler sv e v x) ro r s = (out, s')"
  shows "s' = s \<or> server_step sv e s s'"
proof -
  let ?h = "route_handler sv e v x (rt_endpoint ro)"
  have "(\<exists>r'. s' = snd (?h r' s)) \<or> s' = s"
    using chain_reaches [of g "rt_mws ro" ?h r s] assms
    by (auto simp: route_chain_def split: prod.splits) (metis snd_conv)
  then show ?thesis using endpoint_step [of sv e v x "rt_endpoint ro" _ s] by (metis prod.collapse)
qed

fun is_request :: "log_line \<Rightarrow> bool" where
  "is_request (HttpRequest m p st d i rem b) = True"
| "is_request (PanicRecovered p pa) = False"

lemma http_step:
  assumes "http_serve cors bytes sv e v x cn t0 t1 ro r (s, lines) = (resp, (s', lines'))"
  shows "(s' = s \<or> server_step sv e s s') \<and> length (filter is_request lines')
    = (if passed_on cors cn r then Suc (length (filter is_request lines)) else length (filter is_request lines))"
proof (cases "cors router_cors cn r")
  case (Some pre)
  then show ?thesis using assms by (simp add: http_serve_def front_def passed_on_def)
next
  case None
  let ?app = "route_chain (api_guards e (in_now x)) (route_handler sv e v x) ro"
  obtain out s1 where 1: "?app (identified r) s = (out, s1)" by fastforce
  have "s' = s1" "length (filter is_request lines') = Suc (length (filter is_request lines))"
    using assms front_exact [where app = ?app and r = r and s = s and cors = cors, OF 1 None, of bytes t0 t1 lines]
    by (auto simp: http_serve_def panic_lines_def split: outcome.splits)
  then show ?thesis using chain_step [OF 1] None by (simp add: passed_on_def)
qed

lemma http_reach_ok:
  assumes "db_ok d" "http_reach cors bytes b cfg d s lines n"
  shows "server_ok s \<and> length (filter is_request lines) = n"
  using assms(2)
proof induction
  case (http_started k s)
  then show ?case using boot_ok [OF assms(1)] by simp
next
  case (http_served s lines n ro v x cn t0 t1 r resp s' lines')
  then show ?case using http_step [OF http_served(3) [unfolded main_router_def]] server_step_ok by auto
next
  case (http_worked s lines n stopped ctx s')
  then show ?case using work_keeps [OF http_worked(2)] by simp
qed

section \<open>Properties\<close>

text \<open>
  C4: The server stays sound under HTTP. Started on a sound database, and after any sequence of requests
  on any routes of the table, from anyone and with any bodies, passing the cross-origin library, the
  request identifier, the log, the recovery, the guards and the handler, with workers running queued
  operations in between (whatever the daemon, the file system and failing statements answer): the
  database satisfies its schema, the table is keyed by identity, no project stays locked, nothing stays
  running, the history holds at most 256 records, and the access log has exactly one line for every
  request that the cross-origin library did not answer itself.
\<close>

theorem http_sound:
  assumes "db_ok d" "http_reach cors bytes b cfg d s lines n"
  shows "db_ok (ap_db s) \<and> table_ok (ap_projects s) \<and>
    (\<forall>p. \<not> fst (IsLocked (ex_locker (ap_ex s)) p)) \<and> GetRunningOps (ap_ex s) = [] \<and>
    length (ex_history (ap_ex s)) \<le> 256 \<and> length (filter is_request lines) = n"
proof -
  note ok = http_reach_ok [OF assms]
  then have "idle (ap_ex s)" by (simp add: server_ok_def)
  then show ?thesis
    using ok idle_free [of "ap_ex s"] by (auto simp: server_ok_def IsLocked_def idle_def GetRunningOps_def)
qed

definition demo_inputs :: inputs where
  "demo_inputs =
     \<lparr>in_uuid = ''u9'', in_now = 1, in_later = 1, in_ctx = 0, in_login = None, in_refresh = None,
      in_register = Some ann_request, in_user = None, in_grant = None,
      in_op = \<lparr>ob_services = None, ob_timeout = []\<rparr>, in_dberr = None, in_dockererr = None\<rparr>"

definition register_route :: route where
  "register_route = \<lparr>rt_method = ''POST'', rt_pattern = ''/api/v1/auth/register'', rt_mws = [], rt_endpoint = HRegister\<rparr>"

lemma register_route_in: "register_route \<in> set NewRouter"
  by (simp add: register_route_def NewRouter_def sub_router_def rt_def)

definition demo_line :: request_line where
  "demo_line = \<lparr>rl_method = ''POST'', rl_path = ''/'', rl_remote = ''r''\<rparr>"

text \<open>One request without a token; a library that answers the preflight requests only.\<close>

definition anonymous :: request where
  "anonymous = \<lparr>rq_headers = [], rq_params = [(''projectID'', ''p'')], rq_query = [], rq_claims = None, rq_uuid = ''q''\<rparr>"

definition demo_cors :: "payload cors_lib" where
  "demo_cors opts cn r =
     (if rl_method cn = ''OPTIONS'' \<and> str_at (rq_headers r) ''Access-Control-Request-Method'' \<noteq> []
      then Some \<lparr>rs_status = 200, rs_body = NoBody, rs_meta = None, rs_header = None\<rparr> else None)"

lemma http_sound_witness:
  "\<exists>s lines. http_reach demo_cors (\<lambda>b m. 0) demo_boot demo_cfg empty_db s lines 1 \<and> db_ok (ap_db s) \<and>
     length (filter is_request lines) = 1"
proof -
  obtain resp s lines where served:
    "main_router demo_cors (\<lambda>b m. 0) demo_boot demo_cfg ''dev'' demo_inputs demo_line 0 0 register_route anonymous (demo_start, []) = (resp, (s, lines))"
    by (metis prod.collapse)
  have "passed_on demo_cors demo_line anonymous" by (simp add: passed_on_def demo_cors_def demo_line_def)
  then have "http_reach demo_cors (\<lambda>b m. 0) demo_boot demo_cfg empty_db s lines (Suc 0)"
    using http_served [OF http_started [OF demo_boots] register_route_in served] by simp
  from this http_sound [OF db_ok_empty this] show ?thesis by auto
qed

end
