(* ===== verification/Effects.thy ===== *)
theory Effects
  imports Endpoints OpsTrace
begin

text \<open>
  What a request over HTTP can change: for every endpoint of the route table the parts of the server it
  may touch, and that a request touches no other part, and none at all unless its caller is allowed to.
\<close>

section \<open>The parts of the server\<close>

datatype part = InDatabase db_table | Projects | Daemon | Executing

fun same_part :: "part \<Rightarrow> 'v api \<Rightarrow> 'v api \<Rightarrow> bool" where
  "same_part (InDatabase t) s s' = same_table t (ap_db s) (ap_db s')"
| "same_part Projects s s' = (ap_projects s' = ap_projects s)"
| "same_part Daemon s s' = (ap_docker s' = ap_docker s)"
| "same_part Executing s s' = (ap_ex s' = ap_ex s)"

fun touches :: "endpoint \<Rightarrow> part set" where
  "touches e =
     (if e \<in> {HRegister, HUserCreate, HUserUpdate} then {InDatabase TUsers}
      else if e = HUserDelete then {InDatabase TUsers, InDatabase TAcls, InDatabase TAudit}
      else if e \<in> {HACLGrant, HACLRevoke} then {InDatabase TAcls}
      else if e = HTriggerScan then {Projects}
      else if e = HGetProjectDetail then {Projects, Daemon}
      else if e \<in> {HSubmitAsync, HCancelOperation} then {Executing}
      else if e \<in> {HUp, HDown, HStart, HStop, HRestart, HServiceStart, HServiceStop, HServiceRestart}
      then {InDatabase TAudit, Daemon, Executing} else {})"

lemma same_part_refl [simp]: "same_part p s s"
  by (cases p) simp_all

text \<open>Reading a project's detail lists containers, and writes what it sees into that project's entry only.\<close>

definition only_viewed :: "ProjectID \<Rightarrow> 'v api \<Rightarrow> 'v api \<Rightarrow> bool" where
  "only_viewed i s s' \<longleftrightarrow>
     only reads (ap_docker s) (ap_docker s') \<and>
     (ap_projects s' = ap_projects s \<or>
      (\<exists>p st m. map_of (ap_projects s) i = Some p \<and>
         ap_projects s' = AList.update i (with_status st m p) (ap_projects s)))"

section \<open>The handlers\<close>

text \<open>A handler of the store touches the database only, and keeps the tables its calls keep.\<close>

lemma on_db_part:
  assumes "on_db h r s = (resp, s')" "\<And>t. p = InDatabase t \<Longrightarrow> table.keeps t (ap_db s) (h r)"
  shows "same_part p s s'"
proof (cases p)
  case (InDatabase t)
  obtain d where d: "h r (ap_db s) = (resp, d)" "s' = s\<lparr>ap_db := d\<rparr>"
    using assms(1) by (auto simp: on_db_def split: prod.splits)
  have "same_table t (ap_db s) d"
    using table.keepsD [OF assms(2) [OF InDatabase] d(1)] by simp
  then show ?thesis using InDatabase d(2) by simp
qed (use assms(1) in \<open>auto simp: on_db_def split: prod.splits\<close>)

lemma run_tables:
  assumes "run (wired sv) ctx req ex (to_world s) = Some (out, ex', d)" "t \<noteq> TAudit"
  shows "same_table t (ap_db s) (wd_db (ds_world d)) \<and> wd_projects (ds_world d) = ap_projects s"
proof -
  have log: "same_table t (ap_db s) (snd (LogOperation (sv_dv sv) en (ap_db s)))" for en
    using changes_keep_table(6) [OF assms(2), of "ap_db s" "sv_dv sv" en] by (simp add: table.keeps_def)
  show ?thesis
    using run_outcome [OF assms(1)] log by (auto split: option.splits)
qed

lemma operation_part:
  assumes "run_request sv uuid now ctx req r s = Some (resp, s')"
    and "p \<notin> {InDatabase TAudit, Daemon, Executing}"
  shows "same_part p s s'"
proof -
  let ?req = "default_request uuid now req"
  obtain out ex d where x: "Execute (wired sv) uuid now ctx req (ap_ex s) (to_world s) = Some (out, ex, d)"
      "s' = (of_world d s)\<lparr>ap_ex := ex\<rparr>"
    using assms(1) by (auto simp: run_request_def split: option.splits)
  consider "d = to_world s" | "run (wired sv) ctx ?req (ap_ex s) (to_world s) = Some (out, ex, d)"
    using x(1) by (auto simp: Execute_def Let_def split: option.splits)
  then show ?thesis
  proof cases
    case 1
    then show ?thesis using x(2) assms(2) by (cases p) simp_all
  next
    case 2
    show ?thesis
    proof (cases p)
      case (InDatabase t)
      then show ?thesis using run_tables [OF 2, of t] x(2) assms(2) by (simp add: of_world_def)
    next
      case Projects
      then show ?thesis using run_tables [OF 2, of TUsers] x(2) by (simp add: of_world_def)
    qed (use assms(2) in simp_all)
  qed
qed

lemma on_lock_part:
  assumes "on_lock h r s = (resp, s')" "p \<notin> {InDatabase TAudit, Daemon, Executing}"
    and "h r s = run_request sv uuid now ctx req r s"
  shows "same_part p s s'"
proof (cases "h r s")
  case None
  then show ?thesis using assms(1) by (simp add: on_lock_def)
next
  case (Some out)
  then have "run_request sv uuid now ctx req r s = Some (resp, s')"
    using assms(1,3) by (simp add: on_lock_def)
  then show ?thesis by (rule operation_part [OF _ assms(2)])
qed

lemmas lock_handlers = HandleUp_def HandleDown_def HandleStart_def HandleStop_def HandleRestart_def
  HandleServiceStart_def HandleServiceStop_def HandleServiceRestart_def HandleOp_def HandleServiceOp_def

lemma list_part:
  assumes "HandleListProjects sv c r s = (resp, s')"
  shows "same_part p s s'"
proof (cases p)
  case (InDatabase t)
  obtain ps d where d: "visible (sv_dv sv) c (ap_projects s) (ap_db s) = (ps, d)" by fastforce
  have "same_table t (ap_db s) d" using table.keepsD [OF table.visible_keeps d] by simp
  then show ?thesis using InDatabase assms d by (auto simp: HandleListProjects_def)
qed (use assms in \<open>auto simp: HandleListProjects_def split: prod.splits\<close>)

lemma detail_viewed:
  assumes "HandleGetProjectDetail sv r s = (resp, s')"
  shows "only_viewed (url_param r ''projectID'') s s' \<and> ap_db s' = ap_db s \<and> ap_ex s' = ap_ex s"
proof (cases "map_of (ap_projects s) (url_param r ''projectID'')")
  case None
  then show ?thesis using assms by (simp add: HandleGetProjectDetail_def only_viewed_def)
next
  case (Some p)
  obtain st m err d where g: "GetProjectStatus (sv_docker sv) p (ap_docker s) = ((st, m, err), d)"
    by (metis prod.collapse)
  obtain got d0 where got: "ContainerList (sv_docker sv) OpCtx (project_filter p) (ap_docker s) = (got, d0)"
    by fastforce
  have "only reads (ap_docker s) d0" by (rule only_calls(5) [OF got]) simp
  moreover have "d = d0"
    using g got by (auto simp: GetProjectStatus_def getProjectContainers_def split: sum.splits prod.splits)
  ultimately have "only reads (ap_docker s) d" by simp
  moreover have "s' = (case err of
      Some _ \<Rightarrow> s\<lparr>ap_docker := d\<rparr>
    | None \<Rightarrow> s\<lparr>ap_docker := d, ap_projects :=
        AList.update (url_param r ''projectID'') (with_status st m p) (ap_projects s)\<rparr>)"
    using assms Some g by (auto simp: HandleGetProjectDetail_def Let_def split: option.splits)
  ultimately show ?thesis using Some unfolding only_viewed_def by (cases err) (simp, blast, simp)
qed

lemma cancel_part:
  "HandleCancelOperation ta tb r s = (resp, s') \<Longrightarrow> p \<noteq> Executing \<Longrightarrow> same_part p s s'"
  by (cases p) (auto simp: HandleCancelOperation_def split: prod.splits option.splits)

lemma submit_part:
  "HandleSubmitAsync sv uuid now now' body r s = (resp, s') \<Longrightarrow> p \<noteq> Executing \<Longrightarrow> same_part p s s'"
  by (cases p) (auto simp: HandleSubmitAsync_def Let_def split: prod.splits)

lemma scan_part:
  "HandleTriggerScan sv r s = (resp, s') \<Longrightarrow> p \<noteq> Projects \<Longrightarrow> same_part p s s'"
  by (cases p) (auto simp: HandleTriggerScan_def Let_def split: sum.splits)

text \<open>Every route's handler touches the parts of its endpoint only.\<close>

lemmas read_keeps = table.readers_keep
lemmas changed_keeps = table.Register_keeps table.HandleUserCreate_keeps table.HandleUserUpdate_keeps
  table.HandleUserDelete_keeps table.HandleGrant_keeps table.HandleRevoke_keeps

lemma handler_touches:
  assumes "route_handler sv e v x ep r s = (resp, s')" "p \<notin> touches ep"
  shows "same_part p s s'"
proof (cases ep)
  case HListProjects
  then show ?thesis using assms(1) list_part by (auto simp: with_claims_def split: option.splits)
next
  case HTriggerScan
  then show ?thesis using assms scan_part by auto
next
  case HGetProjectDetail
  then have "only_viewed (url_param r ''projectID'') s s' \<and> ap_db s' = ap_db s \<and> ap_ex s' = ap_ex s"
    using detail_viewed [of sv r s resp s'] assms(1) by simp
  then show ?thesis using assms(2) HGetProjectDetail by (cases p) simp_all
next
  case HSubmitAsync
  then show ?thesis using assms submit_part by auto
next
  case HCancelOperation
  then show ?thesis using assms cancel_part by auto
next
  case HRegister
  then show ?thesis using assms by (auto intro!: on_db_part table.Register_keeps changes_keep_table(1))
next
  case HUserCreate
  then show ?thesis using assms by (auto intro!: on_db_part table.HandleUserCreate_keeps changes_keep_table(1))
next
  case HUserUpdate
  then show ?thesis using assms by (auto intro!: on_db_part table.HandleUserUpdate_keeps changes_keep_table(2))
next
  case HUserDelete
  have "t = TMigrations" if "p = InDatabase t" for t using assms(2) that HUserDelete by (cases t) auto
  with HUserDelete show ?thesis
    using assms(1) by (auto intro!: on_db_part table.HandleUserDelete_keeps changes_keep_table(3))
next
  case HACLGrant
  then show ?thesis using assms by (auto intro!: on_db_part table.HandleGrant_keeps changes_keep_table(4))
next
  case HACLRevoke
  then show ?thesis using assms by (auto intro!: on_db_part table.HandleRevoke_keeps changes_keep_table(5))
next
  case HLogin
  then show ?thesis using assms(1) by (auto intro!: on_db_part table.readers_keep)
next
  case HRefresh
  then show ?thesis using assms(1) by (auto intro!: on_db_part table.readers_keep)
next
  case HUserList
  then show ?thesis using assms(1) by (auto intro!: on_db_part table.readers_keep)
next
  case HACLList
  then show ?thesis using assms(1) by (auto intro!: on_db_part table.readers_keep)
next
  case HAuditAll
  then show ?thesis using assms(1) by (auto intro!: on_db_part table.readers_keep)
next
  case HAuditByProject
  then show ?thesis using assms(1) by (auto intro!: on_db_part table.readers_keep)
next
  case HUp
  then show ?thesis using assms by (auto elim!: on_lock_part simp: lock_handlers)
next
  case HDown
  then show ?thesis using assms by (auto elim!: on_lock_part simp: lock_handlers)
next
  case HStart
  then show ?thesis using assms by (auto elim!: on_lock_part simp: lock_handlers)
next
  case HStop
  then show ?thesis using assms by (auto elim!: on_lock_part simp: lock_handlers)
next
  case HRestart
  then show ?thesis using assms by (auto elim!: on_lock_part simp: lock_handlers)
next
  case HServiceStart
  then show ?thesis using assms by (auto elim!: on_lock_part simp: lock_handlers)
next
  case HServiceStop
  then show ?thesis using assms by (auto elim!: on_lock_part simp: lock_handlers)
next
  case HServiceRestart
  then show ?thesis using assms by (auto elim!: on_lock_part simp: lock_handlers)
qed (use assms in \<open>auto simp: HandleLiveness_def HandleReadiness_def HandleVersion_def HandleListServices_def
      HandleGetServiceDetail_def HandleListRunning_def HandleGetOperation_def stream_opened_def Let_def
      split: option.splits\<close>)

section \<open>Property\<close>

lemma seen_params [simp]: "url_param (seen g a r) k = url_param r k"
  by (simp add: seen_def url_param_def Let_def)

text \<open>
  C5: A request changes only what its endpoint is for, and only for who may. The users change by a
  registration or by an administrator's user routes; the access-control entries by an administrator's
  grant, revocation or deletion of a user; the audit log by that deletion and by the operations; the table
  of projects by an administrator's scan, or by a reader of a project viewing it, which only puts the
  status and containers it saw into that project and only lists containers at the daemon; the daemon
  otherwise, and the executor, by operations of those who may operate on the project and by an
  administrator's cancellation. Everything else changes none of them, nor does a request that its guards
  deny or that the cross-origin library answers; the migrations never change.
\<close>

theorem http_effects:
  fixes sv :: "'v server"
  assumes "ro \<in> set NewRouter" "bound_by ro r"
    and "http_serve cors bytes sv e v x cn t0 t1 ro r (s, lines) = (resp, (s', lines'))"
  shows "(\<forall>p. same_part p s s' \<or>
      (p \<in> touches (rt_endpoint ro) \<and> passed_on cors cn r \<and>
       allowed (api_guards e (in_now x)) (required (rt_endpoint ro)) r s)) \<and>
    (rt_endpoint ro = HGetProjectDetail \<longrightarrow> only_viewed (url_param r ''projectID'') s s')"
proof -
  let ?g = "api_guards e (in_now x) :: 'v api guards" and ?h = "route_handler sv e v x" and ?a = "required (rt_endpoint ro)"
  have same: "only_viewed i s s" for i by (simp add: only_viewed_def)
  consider (library) "\<not> passed_on cors cn r" | (denied) "passed_on cors cn r" "\<not> allowed ?g ?a r s"
    | (allowed) "passed_on cors cn r" "allowed ?g ?a r s" by blast
  then show ?thesis
  proof cases
    case library
    then have "s' = s" using assms(3) by (auto simp: http_serve_def front_def passed_on_def)
    then show ?thesis using same by simp
  next
    case denied
    then have "serve ?g ?h ro r s = (resp, s')"
      using assms(3) front_serves [of cors cn r bytes t0 t1 ?g ?h ro s lines] by (simp add: http_serve_def passed_on_def)
    then have "s' = s" using serve_guarded [OF assms(1,2), of ?g s ?h] denied(2) by (simp add: denied_def)
    then show ?thesis using same by simp
  next
    case allowed
    then have "serve ?g ?h ro r s = (resp, s')"
      using assms(3) front_serves [of cors cn r bytes t0 t1 ?g ?h ro s lines] by (simp add: http_serve_def passed_on_def)
    then have "s' = snd (?h (rt_endpoint ro) (seen ?g ?a r) s)"
      using serve_guarded [OF assms(1,2), of ?g s ?h] allowed(2) by (auto simp: with_request_id_def)
    then have h: "?h (rt_endpoint ro) (seen ?g ?a r) s = (fst (?h (rt_endpoint ro) (seen ?g ?a r) s), s')" by simp
    have "only_viewed (url_param r ''projectID'') s s'" if "rt_endpoint ro = HGetProjectDetail"
      using h that detail_viewed [of sv "seen ?g ?a r" s _ s'] by simp
    then show ?thesis using handler_touches [OF h] allowed by blast
  qed
qed

lemma http_effects_witness:
  "\<exists>resp s' lines. http_serve demo_cors (\<lambda>b m. 0) (server_of demo_boot demo_cfg) (accounts_of demo_boot demo_cfg) ''dev''
       demo_inputs demo_line 0 0 register_route anonymous (demo_start, []) = (resp, (s', lines)) \<and>
     db_acls (ap_db s') = db_acls (ap_db demo_start) \<and> ap_projects s' = ap_projects demo_start"
proof -
  obtain resp s' lines where served:
    "http_serve demo_cors (\<lambda>b m. 0) (server_of demo_boot demo_cfg) (accounts_of demo_boot demo_cfg) ''dev'' demo_inputs
       demo_line 0 0 register_route anonymous (demo_start, []) = (resp, (s', lines))"
    by (metis prod.collapse)
  have bound: "bound_by register_route anonymous"
    by (simp add: bound_by_def register_route_def has_prefix_def)
  have "InDatabase TAcls \<notin> touches (rt_endpoint register_route)" "Projects \<notin> touches (rt_endpoint register_route)"
    by (simp_all add: register_route_def)
  then have "same_part (InDatabase TAcls) demo_start s'" "same_part Projects demo_start s'"
    using http_effects [OF register_route_in bound served] by blast+
  then show ?thesis using served by auto
qed

end
