(* ===== verification/Concurrent.thy ===== *)
theory Concurrent
  imports Wiring ApiProps Startup
begin

text \<open>
  The server with all its goroutines at once: the executor's goroutines, the requests that change the
  store, and the requests that change the table of projects. One step is one statement on the database,
  one section under a mutex, or the work of one operation on the daemon. An operation may start in any
  world of the daemon, so a world that holds the answers to come stands for every interleaving with the
  daemon calls of other operations.
\<close>

section \<open>The system\<close>

text \<open>
  How far a goroutine is in the body of \<open>run\<close>: before the lookup of the project, with the project, with
  what the operation returned (and its duration and the time of the entry), and after the audit log.
\<close>

datatype stage =
    Unresolved
  | Resolved Project
  | Operated duration time "go_error + OperationResult"
  | Audited "go_error + OperationResult"

text \<open>
  The last two components are histories the code does not keep: the requests whose entry the audit log
  took, with the entry, and those whose entry it refused.
\<close>

record csys =
  cs_x :: xsys
  cs_db :: db
  cs_projects :: projects
  cs_stage :: "nat \<Rightarrow> stage"
  cs_audit :: "(OperationRequest \<times> AuditEntry) list"
  cs_lost :: "(OperationRequest \<times> AuditEntry) list"

definition csys_init :: "db \<Rightarrow> projects \<Rightarrow> csys" where
  "csys_init d ps =
     \<lparr>cs_x = xsys_init, cs_db = d, cs_projects = ps, cs_stage = (\<lambda>_. Unresolved), cs_audit = [], cs_lost = []\<rparr>"

text \<open>What \<open>run\<close> returns for what the operation returned.\<close>

definition final_outcome :: "OperationRequest \<Rightarrow> (go_error + OperationResult) \<Rightarrow> go_error + OperationResult" where
  "final_outcome req out = (case out of Inl err \<Rightarrow> Inl err | Inr r \<Rightarrow> Inr (r\<lparr>res_request := req_id req\<rparr>))"

definition to_stage :: "nat \<Rightarrow> stage \<Rightarrow> csys \<Rightarrow> csys" where
  "to_stage t st s = s\<lparr>cs_stage := (cs_stage s)(t := st)\<rparr>"

text \<open>The audit log's answer decides in which of the two histories the entry is.\<close>

definition log_entry :: "db_env \<Rightarrow> OperationRequest \<Rightarrow> AuditEntry \<Rightarrow> csys \<Rightarrow> csys" where
  "log_entry dv req entry s =
     (case LogOperation dv entry (cs_db s) of
        (Inl err, d) \<Rightarrow> s\<lparr>cs_db := d, cs_lost := cs_lost s @ [(req, entry)]\<rparr>
      | (Inr u, d) \<Rightarrow> s\<lparr>cs_db := d, cs_audit := cs_audit s @ [(req, entry)]\<rparr>)"

text \<open>The end of the body: the history if there is a result, and the deferred functions come next.\<close>

definition complete :: "nat \<Rightarrow> job \<Rightarrow> time \<Rightarrow> (go_error + OperationResult) \<Rightarrow> xsys \<Rightarrow> xsys" where
  "complete t j now out x =
     xs_goto t (XDone j out) (case out of Inl err \<Rightarrow> x | Inr r \<Rightarrow> xs_record (result_record (jb_req j) now r) x)"

text \<open>The calls a handler makes that change the database; only the executor writes the audit log.\<close>

fun by_handler :: "db_call \<Rightarrow> bool" where
  "by_handler (CallLog e) = False"
| "by_handler (CallMigrate fs) = False"
| "by_handler _ = True"

text \<open>A step of the executor in which no goroutine leaves the body of \<open>run\<close>.\<close>

definition outside_body :: "xsys \<Rightarrow> xsys \<Rightarrow> bool" where
  "outside_body x x' \<longleftrightarrow> (\<forall>t j. xs_pc x t = XRunning j \<longrightarrow> xs_pc x' t = XRunning j)"

text \<open>
  \<open>viewed\<close> is the effect of \<open>GetProjectDetail\<close> on a project that is still in the table; on one that a
  scan has replaced it has none.
\<close>

inductive cstep :: "'v server \<Rightarrow> csys \<Rightarrow> csys \<Rightarrow> bool" for sv where
  executor: "xstep (cs_x s) x \<Longrightarrow> outside_body (cs_x s) x \<Longrightarrow> cstep sv s (s\<lparr>cs_x := x\<rparr>)"
| resolved: "xs_pc (cs_x s) t = XRunning j \<Longrightarrow> cs_stage s t = Unresolved \<Longrightarrow>
    GetProject (cs_projects s) (job_project j) = Inr p \<Longrightarrow> cstep sv s (to_stage t (Resolved p) s)"
| unknown: "xs_pc (cs_x s) t = XRunning j \<Longrightarrow> cs_stage s t = Unresolved \<Longrightarrow>
    GetProject (cs_projects s) (job_project j) = Inl err \<Longrightarrow>
    cstep sv s (s\<lparr>cs_x := complete t j 0 (Inl err) (cs_x s)\<rparr>)"
| operated: "xs_pc (cs_x s) t = XRunning j \<Longrightarrow> cs_stage s t = Resolved p \<Longrightarrow>
    executeOp (sv_docker sv) (jb_req j) p w = (out, w') \<Longrightarrow> cstep sv s (to_stage t (Operated d now out) s)"
| audited: "xs_pc (cs_x s) t = XRunning j \<Longrightarrow> cs_stage s t = Operated d now out \<Longrightarrow>
    cstep sv s (to_stage t (Audited (final_outcome (jb_req j) out))
      (log_entry (sv_dv sv) (jb_req j) (audit_entry (jb_req j) d now out) s))"
| finished: "xs_pc (cs_x s) t = XRunning j \<Longrightarrow> cs_stage s t = Audited out \<Longrightarrow>
    cstep sv s (to_stage t Unresolved (s\<lparr>cs_x := complete t j now out (cs_x s)\<rparr>))"
| stored: "by_handler call \<Longrightarrow> cstep sv s (s\<lparr>cs_db := db_after (sv_dv sv) call (cs_db s)\<rparr>)"
| read: "cstep sv s (s\<lparr>cs_db := (cs_db s)\<lparr>db_calls := Suc (db_calls (cs_db s))\<rparr>\<rparr>)"
| scanned: "Scan (sv_fs sv) (sv_depth sv) (sv_root sv) = Inr ds \<Longrightarrow>
    cstep sv s (s\<lparr>cs_projects := add_parsed (sv_pe sv) ds []\<rparr>)"
| viewed: "map_of (cs_projects s) i = Some p \<Longrightarrow>
    cstep sv s (s\<lparr>cs_projects := AList.update i (with_status st m p) (cs_projects s)\<rparr>)"

inductive creach :: "'v server \<Rightarrow> db \<Rightarrow> projects \<Rightarrow> csys \<Rightarrow> bool" for sv d ps where
  creach_init: "creach sv d ps (csys_init d ps)"
| creach_step: "creach sv d ps s \<Longrightarrow> cstep sv s s' \<Longrightarrow> creach sv d ps s'"

text \<open>The sections in order are the body of \<open>run\<close>, as a goroutine that is alone runs it.\<close>

lemma run_body_sections:
  assumes "map_of (ap_projects a) (sc_project (req_scope req)) = Some p"
    and "run_body (wired sv) req (to_world a) = (res, s')"
  shows "\<exists>d now out w. (\<exists>w'. executeOp (daemon_env (sv_docker sv)) req p w = (out, w')) \<and>
    res = final_outcome req out \<and>
    wd_db (ds_world s') = snd (LogOperation (sv_dv sv) (audit_entry req d now out) (ap_db a))"
proof -
  let ?e = "daemon_env (sv_docker sv)"
  obtain t0 s1 where 1: "time_now ?e (to_world a) = (t0, s1)" by fastforce
  obtain out s2 where 2: "executeOp ?e req p s1 = (out, s2)" by fastforce
  obtain t1 s3 where 3: "time_now ?e s2 = (t1, s3)" by fastforce
  obtain t2 s4 where 4: "time_now ?e s3 = (t2, s4)" by fastforce
  have w: "others s4 = others (to_world a)"
    using time_frame [of "sv_docker sv"] executeOp_frame [of "sv_docker sv" req p s1]
    by (metis 1 2 3 4 snd_conv)
  then have db: "wd_db (ds_world s4) = ap_db a" by (simp add: others_def to_world_def)
  have "wd_projects (ds_world (to_world a)) = ap_projects a" by (simp add: to_world_def)
  then have "res = final_outcome req out \<and>
      wd_db (ds_world s') = snd (LogOperation (sv_dv sv) (audit_entry req (t1 - t0) t2 out) (ap_db a))"
    using assms 1 2 3 4 db
    by (cases out) (auto simp: run_body_def GetProject_def final_outcome_def Let_def)
  then show ?thesis using 2 by blast
qed

end
