(* ===== verification/ConcurrentFacts.thy ===== *)
theory ConcurrentFacts
  imports Concurrent
begin

text \<open>
  Invariants of the server with all its goroutines: the executor's own facts hold in it, the database
  and the table stay sound, no operation is in the audit log twice, and the rows of the log are the
  entries it took.
\<close>

section \<open>The executor inside\<close>

lemma complete_step:
  assumes "xs_pc x t = XRunning j"
  shows "xstep x (complete t j now out x)"
  unfolding complete_def by (rule xstep.completed [OF assms])

lemma log_entry_frame [simp]:
  "cs_x (log_entry dv req e s) = cs_x s" "cs_projects (log_entry dv req e s) = cs_projects s"
  "cs_stage (log_entry dv req e s) = cs_stage s"
  "cs_db (log_entry dv req e s) = snd (LogOperation dv e (cs_db s))"
  by (simp_all add: log_entry_def split: prod.split sum.split)

lemma to_stage_frame [simp]:
  "cs_x (to_stage t st s) = cs_x s" "cs_projects (to_stage t st s) = cs_projects s"
  "cs_db (to_stage t st s) = cs_db s" "cs_audit (to_stage t st s) = cs_audit s"
  "cs_lost (to_stage t st s) = cs_lost s" "cs_stage (to_stage t st s) = (cs_stage s)(t := st)"
  by (simp_all add: to_stage_def)

lemma cstep_executor: "cstep sv s s' \<Longrightarrow> cs_x s' = cs_x s \<or> xstep (cs_x s) (cs_x s')"
  by (induction rule: cstep.induct) (auto intro: complete_step)

lemma creach_executor: "creach sv d ps s \<Longrightarrow> xreach (cs_x s)"
proof (induction rule: creach.induct)
  case creach_init
  then show ?case by (simp add: csys_init_def xreach_init)
next
  case (creach_step s s')
  then show ?case using cstep_executor xreach_step by metis
qed

lemma creach_ids: "creach sv d ps s \<Longrightarrow> ids_inv (cs_x s)"
  using creach_executor xreach_ids by blast

section \<open>The database and the table\<close>

definition stores_ok :: "csys \<Rightarrow> bool" where
  "stores_ok s \<longleftrightarrow> db_ok (cs_db s) \<and> table_ok (cs_projects s)"

lemma db_ok_read: "db_ok (d\<lparr>db_calls := n\<rparr>) = db_ok d"
  by (simp add: db_ok_def user_ids_def)

lemma table_ok_viewed:
  assumes "table_ok ps" "map_of ps i = Some p"
  shows "table_ok (AList.update i (with_status st m p) ps)"
proof -
  have "pr_id (with_status st m p) = i"
    using assms by (auto simp: with_status_def table_ok_def dest!: map_of_SomeD)
  then show ?thesis using table_ok_update [OF assms(1), of "with_status st m p"] by simp
qed

lemma stores_step: "cstep sv s s' \<Longrightarrow> stores_ok s \<Longrightarrow> stores_ok s'"
proof (induction rule: cstep.induct)
  case (audited s t j d now out)
  then show ?case
    using db_after_ok [of "cs_db s" "sv_dv sv" "CallLog (audit_entry (jb_req j) d now out)"]
    by (simp add: stores_ok_def)
next
  case (scanned ds s)
  have "table_ok (add_parsed (sv_pe sv) ds [])" by (rule add_parsed_ok) (simp add: table_ok_def)
  then show ?case using scanned by (simp add: stores_ok_def)
next
  case (viewed s i p st m)
  then show ?case using table_ok_viewed by (simp add: stores_ok_def)
qed (auto simp: stores_ok_def db_after_ok db_ok_read)

text \<open>The project an operation works on is the one it was asked for.\<close>

definition staged_ok :: "csys \<Rightarrow> bool" where
  "staged_ok s \<longleftrightarrow>
     (\<forall>t. cs_stage s t \<noteq> Unresolved \<longrightarrow> (\<exists>j. xs_pc (cs_x s) t = XRunning j)) \<and>
     (\<forall>t j p. cs_stage s t = Resolved p \<longrightarrow> xs_pc (cs_x s) t = XRunning j \<longrightarrow> pr_id p = job_project j)"

lemma complete_pc [simp]: "xs_pc (complete t j now out x) = (xs_pc x)(t := XDone j out)"
  by (simp add: complete_def split: sum.split)

lemma complete_log:
  "xs_log (complete t j now out x) =
     xs_log x @ (case out of Inl err \<Rightarrow> [] | Inr r \<Rightarrow> [result_record (jb_req j) now r])"
  by (simp add: complete_def xs_record_def split: sum.split)

lemma complete_same [simp]:
  "xs_ids (complete t j now out x) = xs_ids x"
  "ex_queue (xs_ex (complete t j now out x)) = ex_queue (xs_ex x)"
  by (simp_all add: complete_def split: sum.split)

lemma staged_step: "cstep sv s s' \<Longrightarrow> stores_ok s \<Longrightarrow> staged_ok s \<Longrightarrow> staged_ok s'"
proof (induction rule: cstep.induct)
  case (executor s x)
  have stay: "xs_pc x t = XRunning j" if "xs_pc (cs_x s) t = XRunning j" for t j
    using executor(2) that by (simp add: outside_body_def)
  have run: "\<exists>j. xs_pc (cs_x s) t = XRunning j" if "cs_stage s t \<noteq> Unresolved" for t
    using executor(4) that by (simp add: staged_ok_def)
  show ?case
    unfolding staged_ok_def
  proof (intro conjI allI impI)
    fix t assume "cs_stage (s\<lparr>cs_x := x\<rparr>) t \<noteq> Unresolved"
    then show "\<exists>j. xs_pc (cs_x (s\<lparr>cs_x := x\<rparr>)) t = XRunning j" using run [of t] stay by auto
  next
    fix t j p
    assume "cs_stage (s\<lparr>cs_x := x\<rparr>) t = Resolved p" "xs_pc (cs_x (s\<lparr>cs_x := x\<rparr>)) t = XRunning j"
    moreover from this obtain k where "xs_pc (cs_x s) t = XRunning k" using run [of t] by auto
    ultimately show "pr_id p = job_project j"
      using stay [of t k] executor(4) by (simp add: staged_ok_def)
  qed
next
  case (resolved s t j p)
  then have "pr_id p = job_project j"
    by (auto simp: GetProject_def stores_ok_def table_ok_def split: option.splits dest!: map_of_SomeD)
  then show ?case using resolved by (auto simp: staged_ok_def)
qed (auto simp: staged_ok_def)

section \<open>Identifiers that are not audited yet\<close>

text \<open>The job of a goroutine that has not left the body of \<open>run\<close>.\<close>

fun early :: "xpc \<Rightarrow> job option" where
  "early (XTrying j) = Some j"
| "early (XWaiting j c h) = Some j"
| "early (XHolding j) = Some j"
| "early (XRunning j) = Some j"
| "early _ = None"

lemma early_job: "early pc = Some j \<Longrightarrow> job_of pc = Some j"
  by (cases pc) auto

definition fresh_id :: "xsys \<Rightarrow> xsys \<Rightarrow> string \<Rightarrow> bool" where
  "fresh_id x x' i \<longleftrightarrow> i \<notin> xs_ids x \<and> i \<in> xs_ids x'"

lemma xstep_ids: "xstep x x' \<Longrightarrow> xs_ids x \<subseteq> xs_ids x'"
  by (induction rule: xstep.induct) (auto simp: Let_def split: sum.splits)

lemma xstep_queue:
  "xstep x x' \<Longrightarrow> ids_inv x \<Longrightarrow> i \<in># queue_ids (xs_ex x') \<Longrightarrow>
     i \<in># queue_ids (xs_ex x) \<or> fresh_id x x' i"
proof (induction rule: xstep.induct)
  case (submit uuid now req req' s now')
  then show ?case
    using Submit_queue(2) [of "xs_ex s" uuid now req req' now']
    by (auto simp: ids_inv_def fresh_id_def)
next
  case (dequeue s t req q)
  then show ?case using Dequeue_queue(2) [of "xs_ex s" req q] by (simp add: ids_inv_def)
next
  case (quit s t req q)
  then show ?case using Dequeue_queue(2) [of "xs_ex s" req q] by (simp add: ids_inv_def)
next
  case (cancel_removed s t op req q)
  then show ?case using Remove_queue(3) [of "xs_ex s" op req q] by (simp add: ids_inv_def)
qed (auto simp: Let_def split: sum.splits if_splits)

lemma xstep_early:
  "xstep x x' \<Longrightarrow> ids_inv x \<Longrightarrow> early (xs_pc x' t) = Some j \<Longrightarrow>
     early (xs_pc x t) = Some j \<or> job_id j \<in># queue_ids (xs_ex x) \<or> fresh_id x x' (job_id j)"
proof (induction rule: xstep.induct)
  case (dequeue s t' req q)
  then show ?case
    using Dequeue_queue(2) [of "xs_ex s" req q] by (auto simp: ids_inv_def split: if_splits)
next
  case (execute s t' uuid now req req')
  then show ?case by (auto simp: fresh_id_def split: if_splits)
qed (auto simp: Let_def split: sum.splits if_splits)

definition unaudited :: "csys \<Rightarrow> string set" where
  "unaudited s =
     set_mset (queue_ids (xs_ex (cs_x s))) \<union>
     {i. \<exists>t j. early (xs_pc (cs_x s) t) = Some j \<and> i = job_id j \<and> (\<forall>out. cs_stage s t \<noteq> Audited out)}"

definition took :: "csys \<Rightarrow> (OperationRequest \<times> AuditEntry) list" where
  "took s = cs_audit s @ cs_lost s"

definition once_inv :: "csys \<Rightarrow> bool" where
  "once_inv s \<longleftrightarrow>
     distinct (map (req_id \<circ> fst) (took s)) \<and>
     (\<forall>i \<in> (req_id \<circ> fst) ` set (took s). i \<in> xs_ids (cs_x s) \<and> i \<notin> unaudited s)"

lemma took_frame [simp]: "took (to_stage t st s) = took s" "took (s\<lparr>cs_x := x\<rparr>) = took s"
  "took (s\<lparr>cs_db := d\<rparr>) = took s" "took (s\<lparr>cs_projects := ps\<rparr>) = took s"
  by (simp_all add: took_def)

lemma took_log:
  "set (took (log_entry dv req e s)) = insert (req, e) (set (took s))"
  "distinct (map f (took (log_entry dv req e s))) \<longleftrightarrow>
     distinct (map f (took s)) \<and> f (req, e) \<notin> f ` set (took s)"
  by (auto simp: took_def log_entry_def split: prod.split sum.split)

lemma once_less:
  assumes "once_inv s" "took s' = took s" "xs_ids (cs_x s') = xs_ids (cs_x s)" "unaudited s' \<subseteq> unaudited s"
  shows "once_inv s'"
  using assms by (auto simp: once_inv_def)

lemma unaudited_less:
  assumes "queue_ids (xs_ex (cs_x s')) = queue_ids (xs_ex (cs_x s))"
    and "\<And>u k. early (xs_pc (cs_x s') u) = Some k \<Longrightarrow> (\<forall>out. cs_stage s' u \<noteq> Audited out) \<Longrightarrow>
      early (xs_pc (cs_x s) u) = Some k \<and> (\<forall>out. cs_stage s u \<noteq> Audited out)"
  shows "unaudited s' \<subseteq> unaudited s"
  unfolding unaudited_def assms(1) using assms(2) by blast

lemma unaudited_executor:
  assumes "xstep (cs_x s) x" "ids_inv (cs_x s)" "i \<in> unaudited (s\<lparr>cs_x := x\<rparr>)"
  shows "i \<in> unaudited s \<or> fresh_id (cs_x s) x i"
proof -
  consider "i \<in># queue_ids (xs_ex x)"
    | t j where "early (xs_pc x t) = Some j" "i = job_id j" "\<forall>out. cs_stage s t \<noteq> Audited out"
    using assms(3) by (auto simp: unaudited_def)
  then show ?thesis
  proof cases
    case 1
    then show ?thesis using xstep_queue [OF assms(1,2)] by (auto simp: unaudited_def)
  next
    case (2 t j)
    then show ?thesis using xstep_early [OF assms(1,2) 2(1)] by (auto simp: unaudited_def)
  qed
qed

lemma running_owner:
  assumes "ids_inv x" "xs_pc x t = XRunning j"
  shows "job_id j \<in> xs_ids x" "job_id j \<notin># queue_ids (xs_ex x)"
    "early (xs_pc x u) = Some k \<Longrightarrow> job_id k = job_id j \<Longrightarrow> u = t"
proof -
  have "owners (xs_pc x) t = Some (job_id j)" using assms(2) by (simp add: owners_def)
  then show "job_id j \<in> xs_ids x" "job_id j \<notin># queue_ids (xs_ex x)"
    using assms(1) by (auto simp: ids_inv_def ids_ok_def)
  show "early (xs_pc x u) = Some k \<Longrightarrow> job_id k = job_id j \<Longrightarrow> u = t"
    using job_unique [OF assms(1)] early_job assms(2) by (metis job_of.simps(5))
qed

lemma once_step: "cstep sv s s' \<Longrightarrow> ids_inv (cs_x s) \<Longrightarrow> once_inv s \<Longrightarrow> once_inv s'"
proof (induction rule: cstep.induct)
  case (executor s x)
  have ids: "xs_ids (cs_x s) \<subseteq> xs_ids x" using xstep_ids [OF executor(1)] .
  have un: "i \<notin> unaudited (s\<lparr>cs_x := x\<rparr>)" if "i \<in> xs_ids (cs_x s)" "i \<notin> unaudited s" for i
    using unaudited_executor [OF executor(1,3)] that by (auto simp: fresh_id_def)
  show ?case using executor(4) ids un by (auto simp: once_inv_def)
next
  case (resolved s t j p)
  then show ?case
    by - (rule once_less [of s], simp_all, rule unaudited_less, auto split: if_splits)
next
  case (unknown s t j err)
  then show ?case
    by - (rule once_less [of s], simp_all, rule unaudited_less, auto simp: queue_ids_def split: if_splits)
next
  case (operated s t j p w out w' d now)
  then show ?case
    by - (rule once_less [of s], simp_all, rule unaudited_less, auto split: if_splits)
next
  case (audited s t j d now out)
  let ?e = "audit_entry (jb_req j) d now out"
  let ?s = "to_stage t (Audited (final_outcome (jb_req j) out)) (log_entry (sv_dv sv) (jb_req j) ?e s)"
  note own = running_owner [OF audited(3,1)]
  have was: "job_id j \<in> unaudited s"
    using audited(1,2) by (auto simp: unaudited_def intro: exI [of _ t])
  have "job_id j \<notin> unaudited ?s"
    using own(2,3) by (auto simp: unaudited_def split: if_splits)
  moreover have "unaudited ?s \<subseteq> unaudited s" by (rule unaudited_less) (auto split: if_splits)
  moreover have "job_id j \<notin> (req_id \<circ> fst) ` set (took s)"
    using audited(4) was by (auto simp: once_inv_def)
  ultimately show ?case
    using audited(4) own(1) by (auto simp: once_inv_def took_log)
next
  case (finished s t j out now)
  then show ?case
    by - (rule once_less [of s], simp_all, rule unaudited_less, auto simp: queue_ids_def split: if_splits)
qed (auto simp: once_inv_def unaudited_def)

section \<open>Results and entries\<close>

text \<open>An entry comes from a run of the operation that was asked for, on the project it was asked for.\<close>

definition produced :: "'v server \<Rightarrow> OperationRequest \<Rightarrow> (go_error + OperationResult) \<Rightarrow> bool" where
  "produced sv req out \<longleftrightarrow>
     (\<exists>p w. fst (executeOp (sv_docker sv) req p w) = out \<and> pr_id p = sc_project (req_scope req))"

definition entry_produced :: "'v server \<Rightarrow> OperationRequest \<times> AuditEntry \<Rightarrow> bool" where
  "entry_produced sv x \<longleftrightarrow> (\<exists>d now out. snd x = audit_entry (fst x) d now out \<and> produced sv (fst x) out)"

text \<open>A result for which there is an entry that says the same.\<close>

definition vouched :: "csys \<Rightarrow> OperationRequest \<Rightarrow> OperationResult \<Rightarrow> bool" where
  "vouched s req r \<longleftrightarrow> (\<exists>d now. (req, audit_entry req d now (Inr r)) \<in> set (took s))"

fun leaving :: "xpc \<Rightarrow> (job \<times> (go_error + OperationResult)) option" where
  "leaving (XDone j out) = Some (j, out)"
| "leaving (XUnregistered j out) = Some (j, out)"
| "leaving (XReleased j out) = Some (j, out)"
| "leaving _ = None"

definition from_queue :: "OperationRecord \<Rightarrow> bool" where
  "from_queue rec \<longleftrightarrow> (\<exists>op t1 t2 req. rec = cancelled_record op t1 t2 req)"

definition results_inv :: "'v server \<Rightarrow> csys \<Rightarrow> bool" where
  "results_inv sv s \<longleftrightarrow>
     (\<forall>t j d now out. cs_stage s t = Operated d now out \<longrightarrow> xs_pc (cs_x s) t = XRunning j \<longrightarrow>
        produced sv (jb_req j) out) \<and>
     (\<forall>x \<in> set (took s). entry_produced sv x) \<and>
     (\<forall>t j r. cs_stage s t = Audited (Inr r) \<longrightarrow> xs_pc (cs_x s) t = XRunning j \<longrightarrow> vouched s (jb_req j) r) \<and>
     (\<forall>t j r. leaving (xs_pc (cs_x s) t) = Some (j, Inr r) \<longrightarrow> vouched s (jb_req j) r) \<and>
     (\<forall>rec \<in> set (xs_log (cs_x s)). \<forall>r. or_result rec = Some r \<longrightarrow> from_queue rec \<or> vouched s (or_request rec) r)"

lemma xstep_leaving:
  "xstep x x' \<Longrightarrow> outside_body x x' \<Longrightarrow> leaving (xs_pc x' t) = Some (j, out) \<Longrightarrow>
     leaving (xs_pc x t) = Some (j, out)"
proof (induction rule: xstep.induct)
  case (completed s u k out now)
  then have "xs_pc (xs_goto u (XDone k out)
      (case out of Inl err \<Rightarrow> s | Inr r \<Rightarrow> xs_record (result_record (jb_req k) now r) s)) u = XRunning k"
    unfolding outside_body_def by blast
  then show ?case by simp
qed (auto simp: Let_def split: sum.splits if_splits)

lemma xstep_log:
  "xstep x x' \<Longrightarrow> outside_body x x' \<Longrightarrow> rec \<in> set (xs_log x') \<Longrightarrow>
     rec \<in> set (xs_log x) \<or> or_result rec = None \<or> from_queue rec \<or>
     (\<exists>t j r. leaving (xs_pc x t) = Some (j, Inr r) \<and> or_request rec = jb_req j \<and> or_result rec = Some r)"
proof (induction rule: xstep.induct)
  case (completed s u k out now)
  then have "xs_pc (xs_goto u (XDone k out)
      (case out of Inl err \<Rightarrow> s | Inr r \<Rightarrow> xs_record (result_record (jb_req k) now r) s)) u = XRunning k"
    unfolding outside_body_def by blast
  then show ?case by simp
next
  case (failed s t j err now)
  then show ?case by (auto simp: queued_record_def Let_def split: if_splits)
next
  case (returned s t j out now)
  have l: "leaving (xs_pc s t) = Some (j, out)" using returned(1) by simp
  have "rec \<in> set (xs_log s) \<or> rec = queued_record (jb_req j) now out"
    using returned(3) by (auto simp: Let_def split: if_splits)
  then show ?case
  proof
    assume "rec = queued_record (jb_req j) now out"
    then show ?case using l by (cases out) (simp_all add: queued_record_def, blast)
  qed simp
next
  case (cancel_recorded s t op req t1 t2)
  then show ?case by (auto simp: from_queue_def)
qed (auto simp: Let_def)

lemma vouched_mono: "set (took s) \<subseteq> set (took s') \<Longrightarrow> vouched s req r \<Longrightarrow> vouched s' req r"
  by (auto simp: vouched_def)

lemma final_vouched:
  "final_outcome req out = Inr r \<Longrightarrow> \<exists>r0. out = Inr r0 \<and> audit_entry req d now out = audit_entry req d now (Inr r)"
  by (auto simp: final_outcome_def audit_entry_request split: sum.splits)

lemma results_step:
  "cstep sv s s' \<Longrightarrow> staged_ok s \<Longrightarrow> results_inv sv s \<Longrightarrow> results_inv sv s'"
proof (induction rule: cstep.induct)
  case (executor s x)
  note inv = executor(4) [unfolded results_inv_def]
  have v: "vouched (s\<lparr>cs_x := x\<rparr>) req r = vouched s req r" for req r by (simp add: vouched_def)
  have run: "xs_pc (cs_x s) t = XRunning j" if st: "cs_stage s t \<noteq> Unresolved" and pc: "xs_pc x t = XRunning j" for t j
  proof -
    obtain k where "xs_pc (cs_x s) t = XRunning k" using executor(3) st unfolding staged_ok_def by blast
    moreover from this have "xs_pc x t = XRunning k" using executor(2) by (simp add: outside_body_def)
    ultimately show ?thesis using pc by simp
  qed
  have leave: "vouched s (jb_req j) r" if "leaving (xs_pc x t) = Some (j, Inr r)" for t j r
    using xstep_leaving [OF executor(1,2) that] inv by blast
  have log: "from_queue rec \<or> vouched s (or_request rec) r"
    if "rec \<in> set (xs_log x)" "or_result rec = Some r" for rec r
    using xstep_log [OF executor(1,2) that(1)] that(2) inv by auto
  have ops: "produced sv (jb_req j) out" if "cs_stage s t = Operated d now out" "xs_pc x t = XRunning j"
    for t j d now out
    using run [of t j] that inv by auto
  have aud: "vouched s (jb_req j) r" if "cs_stage s t = Audited (Inr r)" "xs_pc x t = XRunning j" for t j r
    using run [of t j] that inv by auto
  show ?case
    unfolding results_inv_def v using inv by (simp add: ops aud leave log)
next
  case (resolved s t j p)
  then show ?case by (auto simp: results_inv_def vouched_def)
next
  case (unknown s t j err)
  then show ?case by (auto simp: results_inv_def vouched_def complete_log)
next
  case (operated s t j p w out w' d now)
  then have "produced sv (jb_req j) out"
    unfolding produced_def staged_ok_def by (metis fst_conv)
  then show ?case using operated by (auto simp: results_inv_def vouched_def)
next
  case (audited s t j d now out)
  let ?e = "audit_entry (jb_req j) d now out"
  let ?s = "to_stage t (Audited (final_outcome (jb_req j) out)) (log_entry (sv_dv sv) (jb_req j) ?e s)"
  note inv = audited(4) [unfolded results_inv_def]
  have took: "set (took ?s) = insert (jb_req j, ?e) (set (took s))" by (simp add: took_log)
  then have old: "vouched s req r \<Longrightarrow> vouched ?s req r" for req r by (auto intro: vouched_mono)
  have "produced sv (jb_req j) out" using inv audited(1,2) by blast
  then have "entry_produced sv (jb_req j, ?e)" unfolding entry_produced_def by auto
  moreover have "vouched ?s (jb_req j) r" if "final_outcome (jb_req j) out = Inr r" for r
    using final_vouched [OF that, of d now] took unfolding vouched_def by auto
  moreover have "\<forall>rec \<in> set (xs_log (cs_x s)). \<forall>r. or_result rec = Some r \<longrightarrow>
      from_queue rec \<or> vouched ?s (or_request rec) r"
    using inv old by blast
  moreover have "\<forall>t j r. leaving (xs_pc (cs_x s) t) = Some (j, Inr r) \<longrightarrow> vouched ?s (jb_req j) r"
    using inv old by blast
  ultimately show ?case
    unfolding results_inv_def took using inv old audited(1) by (simp split: if_splits)
next
  case (finished s t j out now)
  then show ?case
    by (cases out) (auto simp: results_inv_def vouched_def complete_log result_record_def split: if_splits)
qed (simp_all add: results_inv_def vouched_def)

section \<open>The rows of the audit log\<close>

text \<open>The row of an entry, whose user may have been deleted since.\<close>

definition row_of :: "audit_row \<Rightarrow> AuditEntry \<Rightarrow> bool" where
  "row_of ar e \<longleftrightarrow> (\<exists>i. ar = audit_row_of i e \<or> ar = (audit_row_of i e)\<lparr>ar_user := None\<rparr>)"

definition rows_inv :: "db \<Rightarrow> csys \<Rightarrow> bool" where
  "rows_inv d s \<longleftrightarrow> length (db_audit d) \<le> length (db_audit (cs_db s)) \<and>
     list_all2 row_of (drop (length (db_audit d)) (db_audit (cs_db s))) (map snd (cs_audit s))"

lemma sql_audit:
  assumes "\<And>s. \<exists>f. (\<forall>r. f r = r \<or> f r = r\<lparr>ar_user := None\<rparr>) \<and> db_audit (snd (g s)) = map f (db_audit s)"
  shows "\<exists>f. (\<forall>r. f r = r \<or> f r = r\<lparr>ar_user := None\<rparr>) \<and> db_audit (snd (sql dv g s)) = map f (db_audit s)"
  using assms [of "s\<lparr>db_calls := Suc (db_calls s)\<rparr>"]
  by (auto simp: sql_def Let_def split: option.split intro!: exI [of _ id])

lemma sql_audit_same:
  assumes "\<And>s. db_audit (snd (g s)) = db_audit s"
  shows "db_audit (snd (sql dv g s)) = db_audit s"
  using assms by (simp add: sql_def Let_def split: option.split)

lemma handler_rows:
  assumes "by_handler call"
  shows "\<exists>f. (\<forall>r. f r = r \<or> f r = r\<lparr>ar_user := None\<rparr>) \<and>
    db_audit (db_after dv call s) = map f (db_audit s)"
proof (cases call)
  case (CallUserDelete i)
  let ?f = "\<lambda>r. if ar_user r = Some i then r\<lparr>ar_user := None\<rparr> else r"
  have "\<exists>f. (\<forall>r. f r = r \<or> f r = r\<lparr>ar_user := None\<rparr>) \<and> db_audit (snd (delete_user i s)) = map f (db_audit s)" for s
    using exI [of "\<lambda>f. (\<forall>r. f r = r \<or> f r = r\<lparr>ar_user := None\<rparr>) \<and> db_audit s = map f (db_audit s)" id]
      exI [of "\<lambda>f. (\<forall>r. f r = r \<or> f r = r\<lparr>ar_user := None\<rparr>) \<and> map ?f (db_audit s) = map f (db_audit s)" ?f]
    by (auto simp: delete_user_def ok_unit_def Let_def)
  from sql_audit [OF this] show ?thesis using CallUserDelete by (simp add: UserDelete_def)
next
  case (CallUserCreate u pw)
  have "db_audit (snd (insert_user u s)) = db_audit s" for u s by (simp add: insert_user_def ok_unit_def Let_def)
  from sql_audit_same [OF this] have "db_audit (db_after dv call s) = db_audit s"
    using CallUserCreate by (auto simp: UserCreate_def split: sum.split prod.split)
  then show ?thesis by (intro exI [of _ id]) simp
next
  case (CallUserUpdate now u)
  have "db_audit (snd (update_user u s)) = db_audit s" for u s by (simp add: update_user_def ok_unit_def Let_def)
  from sql_audit_same [OF this] have "db_audit (db_after dv call s) = db_audit s"
    using CallUserUpdate by (simp add: UserUpdate_def Let_def case_prod_unfold)
  then show ?thesis by (intro exI [of _ id]) simp
next
  case (CallSetACL a)
  have "db_audit (snd (upsert_acl a s)) = db_audit s" for s by (simp add: upsert_acl_def ok_unit_def Let_def)
  from sql_audit_same [OF this] have "db_audit (db_after dv call s) = db_audit s"
    using CallSetACL by (simp add: SetProjectACL_def)
  then show ?thesis by (intro exI [of _ id]) simp
next
  case (CallDeleteACL u p)
  have "db_audit (db_after dv call s) = db_audit s"
    unfolding CallDeleteACL db_after.simps ACLDelete_def by (rule sql_audit_same) (simp add: ok_unit_def)
  then show ?thesis by (intro exI [of _ id]) simp
qed (use assms in simp_all)

lemma row_of_forget: "row_of ar e \<Longrightarrow> f ar = ar \<or> f ar = ar\<lparr>ar_user := None\<rparr> \<Longrightarrow> row_of (f ar) e"
  by (auto simp: row_of_def)

lemma rows_map:
  assumes "\<And>r. f r = r \<or> f r = r\<lparr>ar_user := None\<rparr>" "list_all2 row_of rs es"
  shows "list_all2 row_of (map f rs) es"
  using assms(2) by (induction rule: list_all2_induct) (simp_all add: row_of_forget assms(1))

lemma LogOperation_row:
  "LogOperation dv e d = (res, d') \<Longrightarrow>
     (case res of Inl err \<Rightarrow> db_audit d' = db_audit d
      | Inr u \<Rightarrow> db_audit d' = db_audit d @ [audit_row_of (db_nextid d) e])"
  by (auto simp: LogOperation_def sql_def insert_audit_def ok_unit_def Let_def split: option.splits if_splits)

lemma rows_step: "cstep sv s s' \<Longrightarrow> rows_inv d s \<Longrightarrow> rows_inv d s'"
proof (induction rule: cstep.induct)
  case (audited s t j d' now out)
  let ?e = "audit_entry (jb_req j) d' now out"
  obtain res db where l: "LogOperation (sv_dv sv) ?e (cs_db s) = (res, db)" by fastforce
  have row: "row_of (audit_row_of i ?e) ?e" for i by (auto simp: row_of_def)
  show ?case
    using LogOperation_row [OF l] audited(3) row
    by (cases res) (auto simp: rows_inv_def log_entry_def l to_stage_def intro!: list_all2_appendI)
next
  case (stored call s)
  obtain f where f: "\<And>r. f r = r \<or> f r = r\<lparr>ar_user := None\<rparr>"
    and a: "db_audit (db_after (sv_dv sv) call (cs_db s)) = map f (db_audit (cs_db s))"
    using handler_rows [OF stored(1)] by blast
  show ?case using stored(2) rows_map [OF f] by (simp add: rows_inv_def a drop_map)
qed (simp_all add: rows_inv_def to_stage_def)

text \<open>The log refuses an entry exactly if the statement fails or the user is not known.\<close>

definition refuses :: "db_env \<Rightarrow> AuditEntry \<Rightarrow> db \<Rightarrow> bool" where
  "refuses dv e d \<longleftrightarrow>
     dv_fault dv (db_calls d) \<noteq> None \<or> (au_user e \<noteq> [] \<and> au_user e \<notin> user_ids d)"

lemma LogOperation_refuses: "isl (fst (LogOperation dv e d)) \<longleftrightarrow> refuses dv e d"
  by (auto simp: LogOperation_def sql_def insert_audit_def ok_unit_def list_ex_iff user_ids_def refuses_def Let_def
      split: option.split intro: rev_image_eqI)

section \<open>Everything reachable\<close>

definition csys_inv :: "'v server \<Rightarrow> db \<Rightarrow> csys \<Rightarrow> bool" where
  "csys_inv sv d s \<longleftrightarrow>
     xreach (cs_x s) \<and> stores_ok s \<and> staged_ok s \<and> once_inv s \<and> results_inv sv s \<and> rows_inv d s"

lemma csys_inv_init: "db_ok d \<Longrightarrow> table_ok ps \<Longrightarrow> csys_inv sv d (csys_init d ps)"
  using xreach_init
  by (simp add: csys_inv_def csys_init_def stores_ok_def staged_ok_def once_inv_def took_def
      results_inv_def rows_inv_def) (simp add: xsys_init_def)

lemma creach_inv:
  assumes "db_ok d" "table_ok ps" "creach sv d ps s"
  shows "csys_inv sv d s"
  using assms(3)
proof (induction rule: creach.induct)
  case creach_init
  then show ?case by (rule csys_inv_init [OF assms(1,2)])
next
  case (creach_step s s')
  then have inv: "xreach (cs_x s)" "stores_ok s" "staged_ok s" "once_inv s" "results_inv sv s" "rows_inv d s"
    by (simp_all add: csys_inv_def)
  have "xreach (cs_x s')" using cstep_executor [OF creach_step(2)] inv(1) xreach_step by metis
  then show ?case
    using stores_step [OF creach_step(2) inv(2)] staged_step [OF creach_step(2) inv(2,3)]
      once_step [OF creach_step(2) xreach_ids [OF inv(1)] inv(4)]
      results_step [OF creach_step(2) inv(3,5)] rows_step [OF creach_step(2) inv(6)]
    by (simp add: csys_inv_def)
qed

text \<open>Every entry that was lost was refused in a state the server was in.\<close>

lemma lost_refused:
  "creach sv d ps s \<Longrightarrow> x \<in> set (cs_lost s) \<Longrightarrow>
     \<exists>s0. creach sv d ps s0 \<and> refuses (sv_dv sv) (snd x) (cs_db s0)"
proof (induction rule: creach.induct)
  case (creach_step s s')
  show ?case
  proof (cases "x \<in> set (cs_lost s)")
    case True
    then show ?thesis by (rule creach_step.IH)
  next
    case False
    with creach_step(2,4) have "refuses (sv_dv sv) (snd x) (cs_db s)"
    proof (induction rule: cstep.induct)
      case (audited s t j d' now out)
      let ?e = "audit_entry (jb_req j) d' now out"
      obtain res db where l: "LogOperation (sv_dv sv) ?e (cs_db s) = (res, db)" by fastforce
      then have "isl res \<and> snd x = ?e"
        using audited(3,4) by (cases res) (auto simp: log_entry_def to_stage_def)
      then show ?case using LogOperation_refuses [of "sv_dv sv" ?e "cs_db s"] l by simp
    qed (simp_all add: to_stage_def)
    then show ?thesis using creach_step(1) by blast
  qed
qed (simp add: csys_init_def)

end
