(* ===== verification/ConcurrentProps.thy ===== *)
theory ConcurrentProps
  imports ConcurrentFacts ServerProps ExecProps
begin

text \<open>
  The properties of the server with all its goroutines at once, with a run of it as the concrete input
  of their witnesses.
\<close>

section \<open>A run of the server\<close>

definition demo_users :: db where
  "demo_users = empty_db\<lparr>db_users := [admin_user\<lparr>u_id := ''u1''\<rparr>]\<rparr>"

definition demo_table :: projects where "demo_table = [(''p1'', demo_project)]"

lemma demo_start_ok: "db_ok demo_users" "table_ok demo_table"
  by (simp_all add: db_ok_def demo_users_def empty_db_def users_ok_def acls_ok_def audit_ok_def
      admin_user_def demo_table_def table_ok_def demo_project_def roles_def)

text \<open>Two callers of one project: one runs, the other waits.\<close>

definition demo_c :: csys where
  "demo_c = (csys_init demo_users demo_table)\<lparr>cs_x := demo_x5\<rparr>"

lemma demo_c_reach: "creach demo_server demo_users demo_table demo_c"
proof -
  let ?s = "\<lambda>x. (csys_init demo_users demo_table)\<lparr>cs_x := x\<rparr>"
  have step: "creach demo_server demo_users demo_table (?s x')"
    if "creach demo_server demo_users demo_table (?s x)" "xstep x x'" "outside_body x x'" for x x'
    using creach_step [OF that(1) executor, of x'] that(2,3) by simp
  have "?s xsys_init = csys_init demo_users demo_table" by (simp add: csys_init_def)
  then have 0: "creach demo_server demo_users demo_table (?s xsys_init)" using creach_init by metis
  have out: "outside_body xsys_init demo_x1" "outside_body demo_x1 demo_x2" "outside_body demo_x2 demo_x3"
    "outside_body demo_x3 demo_x4" "outside_body demo_x4 demo_x5"
    by (auto simp: outside_body_def demo_xs xsys_init_def split: if_splits)
  show ?thesis
    unfolding demo_c_def
    by (rule step [OF step [OF step [OF step [OF step [OF 0 demo_run_steps(1) out(1)]
      demo_run_steps(2) out(2)] demo_run_steps(3) out(3)] demo_run_steps(4) out(4)] demo_run_steps(5) out(5)])
qed

text \<open>The running one goes on to its audit entry.\<close>

definition demo_out :: "go_error + OperationResult" where
  "demo_out = fst (executeOp demo_good (demo_request ''op1'') demo_project demo_state)"

definition demo_c1 :: csys where "demo_c1 = to_stage 0 (Resolved demo_project) demo_c"

definition demo_c2 :: csys where "demo_c2 = to_stage 0 (Operated 3 5 demo_out) demo_c1"

definition demo_c3 :: csys where
  "demo_c3 = to_stage 0 (Audited (final_outcome (demo_request ''op1'') demo_out))
     (log_entry steady (demo_request ''op1'') (audit_entry (demo_request ''op1'') 3 5 demo_out) demo_c2)"

lemma demo_c3_reach: "creach demo_server demo_users demo_table demo_c3"
proof -
  have pc: "xs_pc (cs_x demo_c) 0 = XRunning demo_job" by (simp add: demo_c_def demo_pcs)
  have job: "jb_req demo_job = demo_request ''op1''" by (simp add: demo_job_def)
  have "cstep demo_server demo_c demo_c1"
    unfolding demo_c1_def
    by (rule resolved [OF pc])
       (simp_all add: demo_c_def csys_init_def demo_table_def GetProject_def job)
  moreover have "cstep demo_server demo_c1 demo_c2"
  proof -
    have "executeOp (sv_docker demo_server) (jb_req demo_job) demo_project demo_state
        = (demo_out, snd (executeOp demo_good (demo_request ''op1'') demo_project demo_state))"
      by (simp add: demo_out_def job demo_server_def)
    then show ?thesis
      unfolding demo_c2_def by (rule operated [rotated 2]) (simp_all add: demo_c1_def pc)
  qed
  moreover have "cstep demo_server demo_c2 demo_c3"
    using audited [of demo_c2 0 demo_job 3 5 demo_out demo_server] pc
    by (simp add: demo_c3_def demo_c2_def demo_c1_def job demo_server_def)
  ultimately show ?thesis using demo_c_reach creach_step by metis
qed

section \<open>Properties\<close>

text \<open>
  C8: The server stays sound under concurrency. Whatever operations, requests to the store and requests to
  the table of projects interleave, statement by statement: the database satisfies its schema, the
  table is keyed by identity, an operation works on the project it was asked for, and two operations of
  one project are never in the body of \<open>run\<close> at once.
\<close>

theorem concurrent_sound:
  assumes "db_ok d" "table_ok ps" "creach sv d ps s"
  shows "db_ok (cs_db s) \<and> table_ok (cs_projects s) \<and>
    (\<forall>t j p. xs_pc (cs_x s) t = XRunning j \<longrightarrow> cs_stage s t = Resolved p \<longrightarrow> pr_id p = job_project j) \<and>
    (\<forall>t u j k. xs_pc (cs_x s) t = XRunning j \<longrightarrow> xs_pc (cs_x s) u = XRunning k \<longrightarrow>
       job_project j = job_project k \<longrightarrow> t = u)"
proof -
  have inv: "xreach (cs_x s)" "stores_ok s" "staged_ok s"
    using creach_inv [OF assms] by (simp_all add: csys_inv_def)
  have "t = u" if "xs_pc (cs_x s) t = XRunning j" "xs_pc (cs_x s) u = XRunning k" "job_project j = job_project k"
    for t u j k
    using lsys_excl [OF xreach_lock [OF inv(1)], of t "job_project j" "job_id j" u "job_id k"] that by simp
  then show ?thesis using inv(2,3) unfolding stores_ok_def staged_ok_def by blast
qed

lemma concurrent_sound_witness:
  "xs_pc (cs_x demo_c3) 0 = XRunning demo_job \<and> db_ok (cs_db demo_c3) \<and> table_ok (cs_projects demo_c3)"
  using concurrent_sound [OF demo_start_ok demo_c3_reach]
  by (simp add: demo_c3_def demo_c2_def demo_c1_def demo_c_def demo_pcs)



section \<open>Two first registrations\<close>

text \<open>
  Counting the users and inserting the new one are two statements: if two registrations on an empty
  table both count before either inserts, both new users are administrators.
\<close>

lemma two_first_admins:
  assumes "register_role steady empty_db = (role1, s1)" "register_role steady s1 = (role2, s2)"
    and "UserCreate steady (new_user ''u1'' ''ann'' ''a@x'' role1 1 1) ''password1'' s2 = (r3, s3)"
    and "UserCreate steady (new_user ''u2'' ''eve'' ''e@x'' role2 1 1) ''password2'' s3 = (r4, s4)"
  shows "map u_role (db_users s4) = [RoleAdmin, RoleAdmin]"
proof -
  have "map u_role (db_users (snd (UserCreate steady
      (new_user ''u2'' ''eve'' ''e@x'' (fst (register_role steady (snd (register_role steady empty_db)))) 1 1) ''password2''
      (snd (UserCreate steady (new_user ''u1'' ''ann'' ''a@x'' (fst (register_role steady empty_db)) 1 1) ''password1''
        (snd (register_role steady (snd (register_role steady empty_db)))))))))
    = [RoleAdmin, RoleAdmin]"
    by code_simp
  then show ?thesis using assms by simp
qed

end
