(* ===== verification/Spec2Isabelle.thy ===== *)
theory Spec2Isabelle
  imports Domain GoPath GoStrings
    Locker Queue DockerClient Topo Operations OpsFacts OpsTrace OpsProps
    Executor ExecutorFacts ExecProps Lifecycle
    Scanner ScanProps ComposeFile Parser ParserFacts ParserProps
    Http Auth Router AuthProps AccessLog Store StoreFacts StoreProps StoreUse
    Accounts ProjectApi Viewing ApiProps Sse Streaming SdkClient BuildContext SdkEnv Streamer EventsApi Feeds
    Config Helpers Wiring Startup Shutdown ServerProps Endpoints Effects Concurrent ConcurrentFacts ConcurrentProps Demo
begin

text \<open>
  ComposeCockpit is a server that manages Docker Compose projects. It scans a directory tree for
  compose files, keeps a table of the projects they describe, runs the operations up, down, start,
  stop and restart on them against a Docker daemon, one at a time per project, and streams the
  daemon's events, statistics and logs to its clients. This library is a shallow embedding of the Go
  sources under \<open>src/\<close>, with the theorems that make the components, and the server made of them, correct.

  \<^bold>\<open>The parts and how they interact.\<close> \<open>main\<close> reads the configuration, connects to the database and
  migrates it, connects to the daemon, makes the components and runs a first scan. A request meets the
  cross-origin library first, which answers the preflight requests of browsers itself; what it passes on
  goes through the front of the router (request identifier, access log, recovery from panics) and its
  route's middlewares (bearer token, role, permission, project guard) and reaches a handler. The
  account handlers work on the store. The project handlers work on the table of projects, which a scan
  fills from the scanner and the parser. The operation handlers call the executor, either directly or
  through its priority queue and workers. The executor takes the project's lock, registers the
  operation, runs it on the daemon, writes the audit log and its history, and gives the lock back. The
  streamer publishes on the broker, which hands events to the subscribed connections.

  \<^bold>\<open>The theories.\<close>
  \<^item> \<open>Prelude\<close>, \<open>GoPath\<close>, \<open>GoStrings\<close>: instants, Go maps as association lists, and the functions of
    \<open>path/filepath\<close>, \<open>strings\<close>, \<open>strconv\<close>, \<open>bufio\<close> and \<open>fmt\<close> that the sources use, with the lemmas and
    collections that all components share.
  \<^item> \<open>Domain\<close>: the records of \<open>internal/domain\<close>, the errors and the codes of \<open>pkg/apierr\<close>.
  \<^item> \<open>Locker\<close> (\<open>orchestrator/lock.go\<close>): the sections of \<open>Acquire\<close>, \<open>TryAcquire\<close> and the release, and any
    number of goroutines that interleave them.
  \<^item> \<open>Queue\<close> (\<open>orchestrator/queue.go\<close>): the slice heap with the sift functions of \<open>container/heap\<close>, and
    its refinement of a bag of requests ordered by priority and creation time.
  \<^item> \<open>DockerClient\<close> (\<open>docker/client.go\<close>): the client interface as functions on an arbitrary world, whose
    calls are recorded in a trace.
  \<^item> \<open>Topo\<close>, \<open>Operations\<close> (\<open>docker/operations.go\<close>): the dependency order and the compose operations; in
    \<open>OpsFacts\<close> the resources the daemon still holds of those an operation made (created, and not removed
    with success since), and those whose removal it refused, as ledgers read off the trace; in
    \<open>OpsTrace\<close> the calls and the order of the steps; in \<open>OpsProps\<close> the properties.
  \<^item> \<open>Executor\<close> (\<open>orchestrator/executor.go\<close>): every method, the whole operation of one goroutine
    (\<open>run\<close>, \<open>Execute\<close>, \<open>executeQueued\<close>), and the step relation \<open>xstep\<close> of any number of goroutines;
    \<open>ExecutorFacts\<close> and \<open>ExecProps\<close> hold their invariants and properties. \<open>Lifecycle\<close>: the abstract
    scheduler \<open>life_step\<close> that the executor promises to be, and that \<open>xstep\<close> refines it.
  \<^item> \<open>Scanner\<close>, \<open>ScanProps\<close> (\<open>discovery/scanner.go\<close>): the walk over a file system.
  \<^item> \<open>ComposeFile\<close>, \<open>Parser\<close>, \<open>ParserFacts\<close>, \<open>ParserProps\<close> (\<open>discovery/parser.go\<close>): the readers of the
    compose fields, variable expansion, includes, extends, the merge of files, and \<open>Parse\<close>.
  \<^item> \<open>Http\<close>, \<open>Auth\<close>, \<open>Router\<close>, \<open>AuthProps\<close> (\<open>internal/httputil\<close>, \<open>internal/auth\<close>, \<open>api/router.go\<close>,
    \<open>acl_middleware.go\<close>): requests, answers, tokens, permissions, middlewares and the route table.
    \<open>AccessLog\<close> (\<open>httputil/middleware.go\<close>): the cross-origin options, the front behind the
    library they are given to, and panics before and after something was written.
  \<^item> \<open>Store\<close>, \<open>StoreFacts\<close>, \<open>StoreProps\<close> (\<open>internal/store\<close>): the tables, the meaning of each statement
    under the schema's constraints, pages (in whatever order the database finds rows of the same instant),
    and migrations; \<open>StoreUse\<close>: the properties of a database that a handler keeps if the repository's call
    it makes keeps them.
  \<^item> \<open>Accounts\<close>, \<open>ProjectApi\<close>, \<open>ApiProps\<close> (\<open>internal/api/handlers\<close>): the handlers, as functions from a
    request and the state to an answer and the state; \<open>Viewing\<close>: what the unguarded write of the project's
    page can do to an operation.
  \<^item> \<open>Sse\<close> (\<open>internal/sse\<close>): the broker with bounded channels, as steps of publishers, subscribers and
    cleaning goroutines; \<open>Streaming\<close>: the same with the connections of \<open>ServeSSE\<close>. \<open>SdkClient\<close>,
    \<open>BuildContext\<close>, \<open>Streamer\<close> (\<open>docker/sdk_client.go\<close>, \<open>docker/streamer.go\<close>): what the client gives to the
    SDK and makes of its answers, the archive of a build, the channels between the daemon's events and the
    streamer, and what the streamer publishes. \<open>SdkEnv\<close>: the
    client's methods as an implementation of the interface of \<open>DockerClient\<close>, on the SDK's calls. \<open>EventsApi\<close>
    (\<open>events_handler.go\<close>): the topics of each stream and the streamers a viewer starts; \<open>Feeds\<close>: all these
    goroutines beside all connections.
  \<^item> \<open>Config\<close>, \<open>Startup\<close> (\<open>internal/config\<close>, \<open>cmd/cockpit/main.go\<close>, \<open>store/postgres.go\<close>,
    \<open>internal/telemetry\<close>): the configuration, the stages of the start and the first state; \<open>Shutdown\<close>: the
    signal, the closing of the broker and the wait for the connections.
  \<^item> \<open>Wiring\<close>, \<open>ServerProps\<close>: the components as \<open>main\<close> connects them. \<open>server_step\<close> is one request
    served or one queued operation run; \<open>server_reach\<close> is what a started server can reach. \<open>Endpoints\<close>: which
    handler serves which route, the router \<open>main\<close> makes, and \<open>http_reach\<close>, what requests on any routes of
    the table lead to through the whole front; \<open>Effects\<close>: which parts of the server each endpoint may change.
  \<^item> \<open>Concurrent\<close>, \<open>ConcurrentFacts\<close>, \<open>ConcurrentProps\<close>: the executor's goroutines between the requests of
    the handlers on one database and one table, \<open>cstep\<close>, with the order in which the audit entries fall.
  \<^item> \<open>Helpers\<close>: \<open>parseIntParam\<close> and \<open>ParseStatsStream\<close>, which nothing calls.
  \<^item> \<open>Demo\<close>: a small daemon and a small project on which the theorems are evaluated.

  \<^bold>\<open>How the code is represented.\<close> A struct is a record, a Go map is an association list in the order
  the program happens to iterate over it (theorems hold for every order), a pointer that may be nil is
  an option, an error is the left side of a sum or an option, and an instant or a duration is an integer
  of nanoseconds. A panic the code cannot raise on the modelled inputs is not modelled. A critical section under a
  mutex is one step; what a goroutine does between two sections is another. The time a method reads
  from the clock is an argument or an answer of the daemon's world. Counters of statistics are 64-bit
  words, because a difference of them wraps around.

  \<^bold>\<open>What the lemmas show.\<close> The lock: exclusion and that a waiter is woken. The queue: the heap order is kept,
  draining sorts, nothing is lost or invented. Operations: for any daemon, what \<open>Up\<close> leaves behind on
  every outcome, that dependencies start first, and the exact calls and results of the others. The
  executor: no submission is lost, the tables list exactly what runs, cancelling hits one operation, the
  history is the last 256 records, and all of it, in any interleaving, refines a scheduler that starts the
  oldest operation of the highest priority and one operation per project. Discovery: no directory is reported twice, the recursions end, the
  last file wins, expansion and extends equal reference definitions. Access: a handler is reached exactly
  by the requests it is meant for, tokens identify their user until they expire, registration does not
  escalate, the list of projects agrees with the guard, failing statements included. The store: every
  reachable database satisfies the schema, pages cover the log if its instants are distinct, migrations run
  once, in order, and their up sections only. The server: it stays sound whatever is
  served, and an operation that ran is in the audit log as it was answered, once, unless the log refuses
  the entry, which it does exactly for a failing statement or an unknown user; both hold under every
  interleaving of goroutines and handlers too. Over HTTP, a request changes only the parts of the server its
  endpoint is for, and only with the token and the role the endpoint requires, and each that is passed on
  leaves one line of the access log with the status of its answer.
  With the SDK's client \<open>Up\<close> is refused only when the host does not let it bind a port. Streams: a connection writes exactly what was published on
  its topics while it was subscribed, short of what found its channel full, which is about its project
  only; and after a signal the
  shutdown ends well exactly if every connection was told. A build context is packed whole or not at all.

  \<^bold>\<open>Interfaces.\<close> \<open>project_lock\<close> is what the executor needs of a lock, \<open>priority_queue\<close> what it needs of
  a queue, \<open>resource\<close> what a rollback needs of a kind of resource, \<open>walk_invariant\<close> what a fact of a
  scan has to keep along the walk, \<open>acl_store\<close> what the guard needs of the access-control table, and
  \<open>db_property\<close> what a property of the database needs to be kept by whatever reads only. Each is
  interpreted on the model's own definitions in the theory that provides them.

  \<^bold>\<open>Bounds and fuel.\<close> The recursions of the scanner, of extends and of includes carry the code's own depth
  and end with it (a chain of extends has at most eleven files, \<open>MaxDepth\<close> bounds a scan); the
  dependency sort and the heap's loops end by a measure; the demultiplexer by the bytes left. No
  definition needs fuel that the code does not have. A subscriber's channel holds 128 events,
  the history 256 records, a frame of the log stream a mebibyte, a page of a listing 100 rows. The sizes of the
  connection pool are 32-bit words, as the code converts them.

  \<^bold>\<open>Parameters.\<close> The daemon and the SDK, the file system, the YAML and JSON decoders, SHA-256, the process
  environment, the connection pool, the JWT library (with its documented laws as hypotheses: it gives back the
  claims it signed, and accepts a token with an expiry only before it), bcrypt, the failures of
  SQL statements, the order in which a query finds the rows, the cross-origin library's choice to answer or
  to pass on, the matching of a path by the router's library, the clock and the random identifiers.

  \<^bold>\<open>Not modelled.\<close> The text of JSON, so a response is its status and the value encoded, and the number of
  bytes written is a function of that; the bytes of an archive; the headers the cross-origin library
  adds, of which the options it is given are modelled; the lines that components write to the log beside the access log,
  which nothing depends on; the fields no code sets. In \<open>cstep\<close> the daemon's calls of one operation are
  one step from any world of the daemon, which may hold whatever other operations do to its answers; the
  theorems on operations hold for every daemon, one that answers inconsistently included. In \<open>Endpoints\<close>
  a request is served to its end before the next, in \<open>Concurrent\<close> and \<open>Lifecycle\<close> sections interleave. In
  \<open>Shutdown\<close> the requests that are not streams are only counted, and the executor's goroutines, which the
  shutdown does not wait for, are left out.
\<close>

end
